(* ===== verification/Harness_Prelude.thy ===== *)
theory Harness_Prelude
  imports Complex_Main "HOL-Library.Char_ord"
begin

text \<open>
  Shared vocabulary of the development: the exception monad that stands for Python's
  \<open>raise\<close>, the Python string operations the sources use (on the Latin-1 code points
  \<open>0..255\<close>, the characters of type \<^typ>\<open>char\<close>), the dynamically typed JSON value
  \<open>pyval\<close> that request bodies and status files are made of, association lists for
  Python dictionaries, and the generic lemmas the component theories use. Python's
  unbounded integers are \<^typ>\<open>int\<close>; clock readings and other floats are exact
  rationals of type \<^typ>\<open>rat\<close>, so rounding and the special values are outside the model.
\<close>

named_theorems py_eval \<open>definitions that evaluate string operations on literals\<close>

type_synonym time = rat

section \<open>Results: a raised exception or a value\<close>

type_synonym ('e, 'a) result = "'e + 'a"

definition rbind :: "('e, 'a) result \<Rightarrow> ('a \<Rightarrow> ('e, 'b) result) \<Rightarrow> ('e, 'b) result" where
  "rbind m f = (case m of Inl e \<Rightarrow> Inl e | Inr a \<Rightarrow> f a)"

definition raise_if :: "bool \<Rightarrow> 'e \<Rightarrow> ('e, unit) result" where
  "raise_if b e = (if b then Inl e else Inr ())"

lemma rbind_Inl [simp]: "rbind (Inl e) f = Inl e"
  by (simp add: rbind_def)

lemma rbind_Inr [simp]: "rbind (Inr a) f = f a"
  by (simp add: rbind_def)

lemma rbind_eq_Inr: "rbind m f = Inr b \<longleftrightarrow> (\<exists>a. m = Inr a \<and> f a = Inr b)"
  by (cases m) simp_all

lemma rbind_eq_Inl: "rbind m f = Inl e \<longleftrightarrow> m = Inl e \<or> (\<exists>a. m = Inr a \<and> f a = Inl e)"
  by (cases m) simp_all

lemma rbind_assoc: "rbind (rbind m f) g = rbind m (\<lambda>x. rbind (f x) g)"
  by (cases m) simp_all

lemma raise_if_simps [simp]:
  "raise_if True e = Inl e" "raise_if False e = Inr ()"
  by (simp_all add: raise_if_def)

lemma raise_if_eq_Inr [simp]: "raise_if b e = Inr u \<longleftrightarrow> \<not> b"
  by (simp add: raise_if_def)

lemma raise_if_eq_Inl [simp]: "raise_if b e = Inl e' \<longleftrightarrow> b \<and> e' = e"
  by (auto simp: raise_if_def)

lemmas result_simps = rbind_eq_Inr rbind_eq_Inl

text \<open>Code that changes a state as it goes: an exception carries the state it leaves behind.\<close>

type_synonym ('x, 's, 'a) stateful = "('x \<times> 's) + ('a \<times> 's)"

definition sbind :: "('x, 's, 'a) stateful \<Rightarrow> ('a \<Rightarrow> 's \<Rightarrow> ('x, 's, 'b) stateful) \<Rightarrow> ('x, 's, 'b) stateful" where
  "sbind m f = (case m of Inl x \<Rightarrow> Inl x | Inr (a, s) \<Rightarrow> f a s)"

lemma sbind_simps [simp]: "sbind (Inl x) f = Inl x" "sbind (Inr (a, s)) f = f a s"
  by (simp_all add: sbind_def)

lemma sbind_eq_Inr: "sbind m f = Inr y \<longleftrightarrow> (\<exists>a s. m = Inr (a, s) \<and> f a s = Inr y)"
  by (cases m) (auto simp: sbind_def split: prod.splits)

text \<open>A computation without a state, run in one.\<close>

definition slift :: "('x, 'a) result \<Rightarrow> 's \<Rightarrow> ('x, 's, 'a) stateful" where
  "slift r s = (case r of Inl x \<Rightarrow> Inl (x, s) | Inr a \<Rightarrow> Inr (a, s))"

lemma slift_simps [simp]: "slift (Inl x) s = Inl (x, s)" "slift (Inr a) s = Inr (a, s)"
  by (simp_all add: slift_def)

text \<open>The state left behind, whatever happened.\<close>

definition left_in :: "('x, 's, 'a) stateful \<Rightarrow> 's" where
  "left_in r = (case r of Inl (x, s) \<Rightarrow> s | Inr (a, s) \<Rightarrow> s)"

lemma left_in_simps [simp]: "left_in (Inl (x, s)) = s" "left_in (Inr (a, s)) = s"
  by (simp_all add: left_in_def)

section \<open>Python strings\<close>

definition is_space :: "char \<Rightarrow> bool" where
  "is_space c = (let n = (of_char c :: nat) in
     (9 \<le> n \<and> n \<le> 13) \<or> (28 \<le> n \<and> n \<le> 32) \<or> n = 133 \<or> n = 160)"

definition lower_char :: "char \<Rightarrow> char" where
  "lower_char c = (let n = (of_char c :: nat) in
     if (65 \<le> n \<and> n \<le> 90) \<or> (192 \<le> n \<and> n \<le> 222 \<and> n \<noteq> 215)
     then char_of (n + 32) else c)"

definition py_lower :: "string \<Rightarrow> string" where
  "py_lower s = map lower_char s"

definition py_lstrip :: "string \<Rightarrow> string" where
  "py_lstrip s = dropWhile is_space s"

definition py_rstrip :: "string \<Rightarrow> string" where
  "py_rstrip s = rev (dropWhile is_space (rev s))"

definition py_strip :: "string \<Rightarrow> string" where
  "py_strip s = py_rstrip (py_lstrip s)"

definition is_ascii :: "char \<Rightarrow> bool" where
  "is_ascii c = ((of_char c :: nat) < 128)"

text \<open>\<open>str.split()\<close> without a separator: the maximal runs of non-space characters.\<close>

fun split_aux :: "string \<Rightarrow> string \<Rightarrow> string list" where
  "split_aux [] acc = (if acc = [] then [] else [rev acc])"
| "split_aux (c # cs) acc =
     (if is_space c then (if acc = [] then split_aux cs [] else rev acc # split_aux cs [])
      else split_aux cs (c # acc))"

definition py_split :: "string \<Rightarrow> string list" where
  "py_split s = split_aux s []"

fun py_join :: "string \<Rightarrow> string list \<Rightarrow> string" where
  "py_join sep [] = []"
| "py_join sep [x] = x"
| "py_join sep (x # y # ys) = x @ sep @ py_join sep (y # ys)"

definition is_digit :: "char \<Rightarrow> bool" where
  "is_digit c = (let n = (of_char c :: nat) in 48 \<le> n \<and> n \<le> 57)"

definition digit_val :: "char \<Rightarrow> int" where
  "digit_val c = int (of_char c) - 48"

definition is_lower_alpha :: "char \<Rightarrow> bool" where
  "is_lower_alpha c = (let n = (of_char c :: nat) in 97 \<le> n \<and> n \<le> 122)"

definition is_upper_alpha :: "char \<Rightarrow> bool" where
  "is_upper_alpha c = (let n = (of_char c :: nat) in 65 \<le> n \<and> n \<le> 90)"

definition is_hex :: "char \<Rightarrow> bool" where
  "is_hex c = (is_digit c \<or> (let n = (of_char c :: nat) in
     (97 \<le> n \<and> n \<le> 102) \<or> (65 \<le> n \<and> n \<le> 70)))"

definition newline :: char where
  "newline = CHR 0x0A"

definition nul :: char where
  "nul = CHR 0x00"

text \<open>
  Python's \<open>re.match\<close> with a pattern that ends in \<open>$\<close> also accepts one trailing
  newline: \<open>chomp\<close> removes it, so that such a match is a full match of \<open>chomp s\<close>
  or of \<open>s\<close>.
\<close>

definition chomp :: "string \<Rightarrow> string" where
  "chomp s = (if s \<noteq> [] \<and> last s = newline then butlast s else s)"

definition dollar_match :: "(string \<Rightarrow> bool) \<Rightarrow> string \<Rightarrow> bool" where
  "dollar_match p s = (p s \<or> p (chomp s))"

lemma dollar_matchI [intro]: "p s \<Longrightarrow> dollar_match p s"
  by (simp add: dollar_match_def)

declare py_strip_def [py_eval] py_lstrip_def [py_eval] py_rstrip_def [py_eval] is_space_def [py_eval]
  nul_def [py_eval]

lemma length_py_lstrip: "length (py_lstrip s) \<le> length s"
  by (simp add: py_lstrip_def length_dropWhile_le)

lemma length_py_rstrip: "length (py_rstrip s) \<le> length s"
  using length_dropWhile_le [of is_space "rev s"] by (simp add: py_rstrip_def)

lemma length_py_strip: "length (py_strip s) \<le> length s"
  using length_py_lstrip [of s] length_py_rstrip [of "py_lstrip s"]
  by (simp add: py_strip_def)

lemma length_py_lower [simp]: "length (py_lower s) = length s"
  by (simp add: py_lower_def)

lemma py_lower_Nil [simp]: "py_lower s = [] \<longleftrightarrow> s = []"
  by (simp add: py_lower_def)

lemma set_py_strip: "set (py_strip s) \<subseteq> set s"
  unfolding py_strip_def py_rstrip_def py_lstrip_def
  by (auto dest!: set_dropWhileD)

lemma py_strip_ends:
  assumes "py_strip s \<noteq> []"
  shows "\<not> is_space (hd (py_strip s)) \<and> \<not> is_space (last (py_strip s))"
proof -
  let ?l = "py_lstrip s"
  have r: "py_rstrip ?l \<noteq> []" using assms by (simp add: py_strip_def)
  have pre: "\<exists>t. ?l = py_rstrip ?l @ t"
    unfolding py_rstrip_def by (metis rev_append rev_rev_ident takeWhile_dropWhile_id)
  then have "?l \<noteq> []" "hd (py_rstrip ?l) = hd ?l" using r by (auto, metis hd_append2)
  moreover from this have "\<not> is_space (hd ?l)"
    unfolding py_lstrip_def using hd_dropWhile by blast
  moreover have "\<not> is_space (last (py_rstrip ?l))"
    using r unfolding py_rstrip_def by (metis hd_dropWhile last_rev rev_is_Nil_conv)
  ultimately show ?thesis by (simp add: py_strip_def)
qed

lemma py_strip_id:
  assumes "s = [] \<or> \<not> is_space (hd s) \<and> \<not> is_space (last s)"
  shows "py_strip s = s"
proof (cases s)
  case (Cons c cs)
  then have "py_lstrip s = s" using assms by (simp add: py_lstrip_def)
  moreover have "dropWhile is_space (rev s) = rev s"
    using assms Cons by (subst dropWhile_eq_self_iff) (simp add: hd_rev del: rev.simps)
  ultimately show ?thesis by (simp add: py_strip_def py_rstrip_def)
qed (simp add: py_strip_def py_lstrip_def py_rstrip_def)

lemma py_strip_strip [simp]: "py_strip (py_strip s) = py_strip s"
  using py_strip_ends [of s] by (intro py_strip_id) blast

text \<open>\<open>n in text\<close>.\<close>

fun py_contains :: "string \<Rightarrow> string \<Rightarrow> bool" where
  "py_contains n [] = (n = [])"
| "py_contains n (c # cs) = (take (length n) (c # cs) = n \<or> py_contains n cs)"

lemma py_contains_prefix: "py_contains n (n @ xs)"
proof (cases n)
  case (Cons c cs)
  then have "take (length n) (n @ xs) = n" by simp
  with Cons show ?thesis by simp
qed (cases xs; simp)

lemma py_contains_append: "py_contains n ys \<Longrightarrow> py_contains n (xs @ ys)"
  by (induction xs) auto

section \<open>Decimal integers: \<open>int(text)\<close> and \<open>str(n)\<close>\<close>

text \<open>
  \<open>int(text)\<close>: optional sign, decimal digits, single underscores between digits.
  \<open>parse_digits\<close> carries the value so far; \<open>prev\<close> says the last character read was a
  digit, so that an underscore is allowed only there and the text may end only there.
\<close>

fun parse_digits :: "bool \<Rightarrow> int \<Rightarrow> string \<Rightarrow> int option" where
  "parse_digits prev acc [] = (if prev then Some acc else None)"
| "parse_digits prev acc (c # cs) =
     (if is_digit c then parse_digits True (acc * 10 + digit_val c) cs
      else if c = CHR ''_'' \<and> prev then parse_digits False acc cs
      else None)"

definition py_int_of_string :: "string \<Rightarrow> int option" where
  "py_int_of_string s = (case py_strip s of
       [] \<Rightarrow> None
     | c # cs \<Rightarrow>
         if c = CHR ''-'' then map_option uminus (parse_digits False 0 cs)
         else if c = CHR ''+'' then parse_digits False 0 cs
         else parse_digits False 0 (c # cs))"

fun show_nat :: "nat \<Rightarrow> string" where
  "show_nat n = (if n < 10 then [char_of (48 + n)]
                 else show_nat (n div 10) @ [char_of (48 + n mod 10)])"

declare show_nat.simps [simp del]

definition show_int :: "int \<Rightarrow> string" where
  "show_int i = (if i < 0 then CHR ''-'' # show_nat (nat (- i)) else show_nat (nat i))"

section \<open>JSON values\<close>

datatype pyval =
    PNone
  | PBool bool
  | PInt int
  | PFloat rat
  | PStr string
  | PList "pyval list"
  | PDict "(string \<times> pyval) list"

type_synonym pydict = "(string \<times> pyval) list"

text \<open>\<open>d.get(k)\<close>: a missing key reads as \<open>None\<close>.\<close>

definition dget :: "pydict \<Rightarrow> string \<Rightarrow> pyval" where
  "dget d k = (case map_of d k of None \<Rightarrow> PNone | Some v \<Rightarrow> v)"

definition has_key :: "pydict \<Rightarrow> string \<Rightarrow> bool" where
  "has_key d k = (k \<in> set (map fst d))"

lemma dget_Nil [simp]: "dget [] k = PNone"
  by (simp add: dget_def)

lemma dget_Cons [simp]: "dget ((k', v) # d) k = (if k = k' then v else dget d k)"
  by (simp add: dget_def)

fun is_dict :: "pyval \<Rightarrow> bool" where
  "is_dict (PDict d) = True"
| "is_dict _ = False"

text \<open>Python truth of a JSON value.\<close>

fun truthy :: "pyval \<Rightarrow> bool" where
  "truthy PNone = False"
| "truthy (PBool b) = b"
| "truthy (PInt i) = (i \<noteq> 0)"
| "truthy (PFloat r) = (r \<noteq> 0)"
| "truthy (PStr s) = (s \<noteq> [])"
| "truthy (PList xs) = (xs \<noteq> [])"
| "truthy (PDict d) = (d \<noteq> [])"

text \<open>
  \<open>str(v)\<close>. The text of floats and containers is Python's \<open>repr\<close>, which the
  components only pass on: it is the argument \<open>render\<close>.
\<close>

fun py_str :: "(pyval \<Rightarrow> string) \<Rightarrow> pyval \<Rightarrow> string" where
  "py_str render PNone = ''None''"
| "py_str render (PBool b) = (if b then ''True'' else ''False'')"
| "py_str render (PInt i) = show_int i"
| "py_str render (PStr s) = s"
| "py_str render v = render v"

text \<open>\<open>str(v or "")\<close>.\<close>

definition str_or_empty :: "(pyval \<Rightarrow> string) \<Rightarrow> pyval \<Rightarrow> string" where
  "str_or_empty render v = (if truthy v then py_str render v else [])"

text \<open>Python's \<open>repr\<close> never returns the empty text.\<close>

definition render_ok :: "(pyval \<Rightarrow> string) \<Rightarrow> bool" where
  "render_ok render = (\<forall>v. render v \<noteq> [])"

lemma show_nat_not_Nil [simp]: "show_nat n \<noteq> []"
  by (subst show_nat.simps) simp

lemma str_or_empty_Nil: "render_ok render \<Longrightarrow> str_or_empty render v = [] \<longleftrightarrow> \<not> truthy v"
  by (cases v) (auto simp: str_or_empty_def render_ok_def show_int_def)

lemma str_or_empty_PStr [simp]: "str_or_empty render (PStr s) = s"
  by (cases s) (simp_all add: str_or_empty_def)

text \<open>\<open>text.replace(a, b)\<close> for a single character \<open>a\<close>.\<close>

definition py_replace_char :: "char \<Rightarrow> string \<Rightarrow> string \<Rightarrow> string" where
  "py_replace_char a b s = concat (map (\<lambda>c. if c = a then b else [c]) s)"

section \<open>Association lists as insertion-ordered dictionaries\<close>

text \<open>\<open>d[k] = v\<close>: an existing key keeps its position, a new one goes last.\<close>

fun aupd :: "'k \<Rightarrow> 'v \<Rightarrow> ('k \<times> 'v) list \<Rightarrow> ('k \<times> 'v) list" where
  "aupd k v [] = [(k, v)]"
| "aupd k v ((k', v') # xs) = (if k = k' then (k, v) # xs else (k', v') # aupd k v xs)"

definition adel :: "'k \<Rightarrow> ('k \<times> 'v) list \<Rightarrow> ('k \<times> 'v) list" where
  "adel k xs = filter (\<lambda>p. fst p \<noteq> k) xs"

lemma map_of_aupd [simp]: "map_of (aupd k v xs) = (map_of xs)(k \<mapsto> v)"
  by (induction xs) (auto simp: fun_eq_iff)

lemma map_of_adel [simp]: "map_of (adel k xs) = (map_of xs)(k := None)"
  by (induction xs) (auto simp: adel_def fun_eq_iff)

lemma length_aupd: "length (aupd k v xs) \<le> Suc (length xs)"
  by (induction k v xs rule: aupd.induct) auto

lemma set_fst_aupd [simp]: "fst ` set (aupd k v xs) = insert k (fst ` set xs)"
  by (induction k v xs rule: aupd.induct) (simp_all add: insert_commute)

lemma distinct_aupd [simp]: "distinct (map fst (aupd k v xs)) = distinct (map fst xs)"
  by (induction k v xs rule: aupd.induct) auto

lemma distinct_adel: "distinct (map fst xs) \<Longrightarrow> distinct (map fst (adel k xs))"
  by (induction xs) (auto simp: adel_def)

lemma set_aupd: "distinct (map fst xs) \<Longrightarrow>
    set (aupd k v xs) = insert (k, v) {p \<in> set xs. fst p \<noteq> k}"
  by (induction k v xs rule: aupd.induct) (auto intro: rev_image_eqI)

section \<open>Generic list lemmas\<close>

lemma find_SomeD: "find P xs = Some x \<Longrightarrow> x \<in> set xs \<and> P x"
  by (induction xs) (auto split: if_splits)

lemma find_None: "find P xs = None \<longleftrightarrow> (\<forall>x\<in>set xs. \<not> P x)"
  by (induction xs) auto

lemma sort_key_filter: "filter P (sort_key f xs) = sort_key f (filter P xs)"
  by (rule filter_sort)

end
