(* ===== verification/Harness_Machine.thy ===== *)
theory Harness_Machine
  imports Harness_Prelude
begin

text \<open>
  The interface every stateful component of the harness is used through: a step function
  on a state, run over an arbitrary sequence of operations (any interleaving of callers is
  such a sequence, because every store operation is one transaction or one atomic file
  replacement). \<open>step_machine\<close> lifts an invariant of one step to every run;
  \<open>fenced_machine\<close> adds an owner with a fencing number that a step may only raise,
  and gives the exclusion theorem its clients rely on; \<open>status_machine\<close> adds a
  status that moves only along allowed edges. The component theories interpret them on
  their own operations.
\<close>

text \<open>The state after an operation: a raised exception leaves it as it was.\<close>

definition kept :: "'s \<Rightarrow> ('e, 'a \<times> 's) result \<Rightarrow> 's" where
  "kept s r = (case r of Inl _ \<Rightarrow> s | Inr (_, s') \<Rightarrow> s')"

lemma kept_simps [simp]: "kept s (Inl e) = s" "kept s (Inr (a, s')) = s'"
  by (simp_all add: kept_def)

definition run_ops :: "('s \<Rightarrow> 'op \<Rightarrow> 's) \<Rightarrow> 's \<Rightarrow> 'op list \<Rightarrow> 's" where
  "run_ops step s ops = foldl step s ops"

lemma run_ops_Nil [simp]: "run_ops step s [] = s"
  by (simp add: run_ops_def)

lemma run_ops_Cons [simp]: "run_ops step s (x # xs) = run_ops step (step s x) xs"
  by (simp add: run_ops_def)

lemma run_ops_append: "run_ops step s (xs @ ys) = run_ops step (run_ops step s xs) ys"
  by (simp add: run_ops_def)

locale step_machine =
  fixes step :: "'s \<Rightarrow> 'op \<Rightarrow> 's" and inv :: "'s \<Rightarrow> bool"
  assumes inv_step: "inv s \<Longrightarrow> inv (step s x)"
begin

lemma run_inv: "inv s \<Longrightarrow> inv (run_ops step s xs)"
  by (induction xs arbitrary: s) (simp_all add: inv_step)

end

locale fenced_machine = step_machine step inv
  for step :: "'s \<Rightarrow> 'op \<Rightarrow> 's" and inv :: "'s \<Rightarrow> bool" +
  fixes owner :: "'k \<Rightarrow> 's \<Rightarrow> (int \<times> 'h) option"
    and drops :: "'k \<Rightarrow> 'op \<Rightarrow> bool"
  assumes fence_step: "inv s \<Longrightarrow> \<not> drops k x \<Longrightarrow> owner k s = Some (e, h) \<Longrightarrow>
      \<exists>e' h'. owner k (step s x) = Some (e', h') \<and> (e < e' \<or> (e = e' \<and> h = h'))"
begin

lemma fence_run:
  assumes "inv s" and "list_all (\<lambda>x. \<not> drops k x) xs" and "owner k s = Some (e, h)"
  shows "\<exists>e' h'. owner k (run_ops step s xs) = Some (e', h') \<and> (e < e' \<or> (e = e' \<and> h = h'))"
  using assms
proof (induction xs arbitrary: s e h)
  case Nil
  then show ?case by simp
next
  case (Cons x xs)
  then obtain e1 h1 where 1: "owner k (step s x) = Some (e1, h1)"
    and le1: "e < e1 \<or> (e = e1 \<and> h = h1)"
    using fence_step [OF Cons.prems(1) _ Cons.prems(3), of x] by auto
  have "inv (step s x)" using Cons.prems(1) by (rule inv_step)
  moreover have "list_all (\<lambda>x. \<not> drops k x) xs" using Cons.prems(2) by simp
  ultimately obtain e2 h2 where 2: "owner k (run_ops step (step s x) xs) = Some (e2, h2)"
    and le2: "e1 < e2 \<or> (e1 = e2 \<and> h1 = h2)"
    using Cons.IH [OF _ _ 1] by blast
  have "e < e2 \<or> (e = e2 \<and> h = h2)" using le1 le2 by force
  with 2 show ?case by simp
qed

lemma fence_exclusive:
  assumes "inv s" and "list_all (\<lambda>x. \<not> drops k x) xs"
    and "owner k s = Some (e, h)" and "owner k (run_ops step s xs) = Some (e, h')"
  shows "h = h'"
  using fence_run [OF assms(1-3)] assms(4) by auto

end

locale status_machine = step_machine step inv
  for step :: "'s \<Rightarrow> 'op \<Rightarrow> 's" and inv :: "'s \<Rightarrow> bool" +
  fixes status_of :: "'k \<Rightarrow> 's \<Rightarrow> 'st option"
    and removes :: "'k \<Rightarrow> 'op \<Rightarrow> bool"
    and edge :: "'st \<Rightarrow> 'st \<Rightarrow> bool"
  assumes status_step: "inv s \<Longrightarrow> \<not> removes k x \<Longrightarrow> status_of k s = Some a \<Longrightarrow>
      \<exists>b. status_of k (step s x) = Some b \<and> (a = b \<or> edge a b)"
begin

lemma status_run:
  assumes "inv s" and "list_all (\<lambda>x. \<not> removes k x) xs" and "status_of k s = Some a"
  shows "\<exists>b. status_of k (run_ops step s xs) = Some b \<and> edge\<^sup>*\<^sup>* a b"
  using assms
proof (induction xs arbitrary: s a)
  case Nil
  then show ?case by simp
next
  case (Cons x xs)
  then obtain b where b: "status_of k (step s x) = Some b" and ab: "a = b \<or> edge a b"
    using status_step [OF Cons.prems(1) _ Cons.prems(3), of x] by auto
  have "inv (step s x)" using Cons.prems(1) by (rule inv_step)
  moreover have "list_all (\<lambda>x. \<not> removes k x) xs" using Cons.prems(2) by simp
  ultimately obtain c where c: "status_of k (run_ops step (step s x) xs) = Some c"
    and bc: "edge\<^sup>*\<^sup>* b c"
    using Cons.IH [OF _ _ b] by blast
  have "edge\<^sup>*\<^sup>* a c" using ab bc by (auto intro: converse_rtranclp_into_rtranclp)
  with c show ?case by simp
qed

lemma stuck_status_run:
  assumes "inv s" and "list_all (\<lambda>x. \<not> removes k x) xs" and "status_of k s = Some a"
    and "\<And>b. \<not> edge a b"
  shows "status_of k (run_ops step s xs) = Some a"
proof -
  obtain b where b: "status_of k (run_ops step s xs) = Some b" and "edge\<^sup>*\<^sup>* a b"
    using status_run [OF assms(1-3)] by blast
  from \<open>edge\<^sup>*\<^sup>* a b\<close> have "b = a"
    using assms(4) by (cases rule: converse_rtranclpE) auto
  with b show ?thesis by simp
qed

end

end
