(* ===== verification/Effect_Lease.thy ===== *)
theory Effect_Lease
  imports Harness_Machine
begin

text \<open>
  The single-family writer lease (\<open>effect_lease.py\<close>) and its wire adapter
  (\<open>effect_lease_wire.py\<close>). The SQLite file is a record of its two tables, \<open>lease\<close>
  (primary key \<open>family\<close>) and \<open>lease_action\<close> (primary key family, caller, action
  id). Acquire, renew, release and takeover each run in one \<open>BEGIN IMMEDIATE\<close>
  transaction, so each is one function from the tables to the tables; a raised exception
  leaves them unchanged. \<open>record_action\<close> and \<open>LeaseGate.check\<close> have no transaction:
  their statements are separate definitions (the decision on the row read, the lookup and
  the insert of the action), and the machine at the end has a step for the insert alone, so
  that other calls may run between any two statements. The caller's argument types
  (\<open>isinstance\<close> tests) are the HOL types.
\<close>

section \<open>Exceptions\<close>

datatype lease_error =
    UnknownFamily string
  | MalformedActionId string
  | NotHolder string string string
  | StaleEpoch string int int
  | ExpiredLease string int time
  | MissingLease string
  | LeaseTaken string string int
  | PairOnly string string string string
  | EvidenceRequired string string

fun lease_code :: "lease_error \<Rightarrow> int" where
  "lease_code (UnknownFamily _) = 422"
| "lease_code (MalformedActionId _) = 422"
| "lease_code _ = 409"

fun lease_reason_tag :: "lease_error \<Rightarrow> string" where
  "lease_reason_tag (UnknownFamily _) = ''unknown_family''"
| "lease_reason_tag (MalformedActionId _) = ''malformed_action_id''"
| "lease_reason_tag (NotHolder _ _ _) = ''not_holder''"
| "lease_reason_tag (StaleEpoch _ _ _) = ''stale_epoch''"
| "lease_reason_tag (ExpiredLease _ _ _) = ''expired_lease''"
| "lease_reason_tag (MissingLease _) = ''missing_lease''"
| "lease_reason_tag (LeaseTaken _ _ _) = ''lease_taken''"
| "lease_reason_tag (PairOnly _ _ _ _) = ''pair_only''"
| "lease_reason_tag (EvidenceRequired _ _) = ''evidence_required''"

text \<open>\<open>LeaseIntegrityError\<close> is SQLite's refusal of a duplicate primary key.\<close>

datatype lease_exn = LeaseErr lease_error | LeaseValueError string | LeaseIntegrityError

section \<open>Validation helpers\<close>

definition FAMILIES :: "string list" where
  "FAMILIES = [''overseer'', ''infraops'', ''devspecops'']"

definition is_caller_char :: "char \<Rightarrow> bool" where
  "is_caller_char c = (is_lower_alpha c \<or> is_digit c)"

text \<open>A full match of \<open>[a-z0-9][a-z0-9-]{0,31}\<close>.\<close>

fun caller_re :: "string \<Rightarrow> bool" where
  "caller_re [] = False"
| "caller_re (c # cs) = (is_caller_char c \<and> length cs \<le> 31 \<and>
     list_all (\<lambda>d. is_caller_char d \<or> d = CHR ''-'') cs)"

text \<open>A full match of \<open>[0-9a-fA-F-]{32,64}\<close>.\<close>

definition action_id_re :: "string \<Rightarrow> bool" where
  "action_id_re s = (32 \<le> length s \<and> length s \<le> 64 \<and>
     list_all (\<lambda>c. is_hex c \<or> c = CHR ''-'') s)"

definition validate_holder :: "string \<Rightarrow> (lease_exn, unit) result" where
  "validate_holder h = raise_if (\<not> caller_re h) (LeaseValueError ''holder must match'')"

definition validate_epoch_value :: "int \<Rightarrow> bool" where
  "validate_epoch_value e = (e \<ge> 1)"

definition validate_epoch :: "int \<Rightarrow> (lease_exn, unit) result" where
  "validate_epoch e = raise_if (e < 1) (LeaseValueError ''epoch must be a positive integer'')"

definition REASON_MAX :: nat where
  "REASON_MAX = 128"

definition validate_reason :: "string \<Rightarrow> (lease_exn, unit) result" where
  "validate_reason r =
     raise_if (r = [] \<or> length r > REASON_MAX \<or> newline \<in> set r)
       (LeaseValueError ''reason must be 1..128 characters on one line'')"

definition check_family :: "string \<Rightarrow> (lease_exn, unit) result" where
  "check_family f = raise_if (f \<notin> set FAMILIES) (LeaseErr (UnknownFamily f))"

section \<open>The tables\<close>

record lease_record =
  lr_family :: string
  lr_holder :: string
  lr_epoch :: int
  lr_acquired_at :: time
  lr_expires_at :: time
  lr_reason :: string

record receipt =
  rc_ok :: bool
  rc_action_id :: string
  rc_family :: string
  rc_holder :: string
  rc_epoch :: int
  rc_accepted_at :: time

text \<open>The stored \<open>receipt_json\<close>: what \<open>json.loads\<close> gives, or text it refuses.\<close>

datatype receipt_json = Json receipt | Corrupt

record lease_db =
  db_lease :: "string \<rightharpoonup> lease_record"
  db_action :: "string \<times> string \<times> string \<rightharpoonup> time \<times> receipt_json"

definition empty_lease_db :: lease_db where
  "empty_lease_db = \<lparr>db_lease = Map.empty, db_action = Map.empty\<rparr>"

text \<open>\<open>UPDATE lease SET \<dots> WHERE family = ? AND epoch = ?\<close>, with its \<open>rowcount\<close>.\<close>

definition sql_update_lease ::
    "lease_db \<Rightarrow> string \<Rightarrow> int \<Rightarrow> (lease_record \<Rightarrow> lease_record) \<Rightarrow> nat \<times> lease_db" where
  "sql_update_lease db f e upd = (case db_lease db f of
       None \<Rightarrow> (0, db)
     | Some r \<Rightarrow> if lr_epoch r = e then (1, db\<lparr>db_lease := (db_lease db)(f \<mapsto> upd r)\<rparr>)
                 else (0, db))"

text \<open>\<open>DELETE FROM lease WHERE family = ? AND epoch = ?\<close>.\<close>

definition sql_delete_lease :: "lease_db \<Rightarrow> string \<Rightarrow> int \<Rightarrow> lease_db" where
  "sql_delete_lease db f e = (case db_lease db f of
       None \<Rightarrow> db
     | Some r \<Rightarrow> if lr_epoch r = e then db\<lparr>db_lease := (db_lease db)(f := None)\<rparr> else db)"

section \<open>The store\<close>

definition lease_get :: "lease_db \<Rightarrow> string \<Rightarrow> (lease_exn, lease_record option) result" where
  "lease_get db f = rbind (check_family f) (\<lambda>_. Inr (db_lease db f))"

definition lease_acquire ::
    "lease_db \<Rightarrow> string \<Rightarrow> string \<Rightarrow> string \<Rightarrow> time \<Rightarrow> time
     \<Rightarrow> (lease_exn, lease_record \<times> lease_db) result" where
  "lease_acquire db f holder reason ttl cur =
     rbind (check_family f) (\<lambda>_.
     rbind (validate_holder holder) (\<lambda>_.
     rbind (validate_reason reason) (\<lambda>_.
     case db_lease db f of
       None \<Rightarrow>
         let r = \<lparr>lr_family = f, lr_holder = holder, lr_epoch = 1, lr_acquired_at = cur,
                  lr_expires_at = cur + ttl, lr_reason = reason\<rparr>
         in Inr (r, db\<lparr>db_lease := (db_lease db)(f \<mapsto> r)\<rparr>)
     | Some row \<Rightarrow>
         if lr_expires_at row > cur
         then Inl (LeaseErr (LeaseTaken f (lr_holder row) (lr_epoch row)))
         else
           let new_epoch = lr_epoch row + 1;
               (n, db') = sql_update_lease db f (lr_epoch row)
                 (\<lambda>r. r\<lparr>lr_holder := holder, lr_epoch := new_epoch, lr_acquired_at := cur,
                        lr_expires_at := cur + ttl, lr_reason := reason\<rparr>)
           in Inr (\<lparr>lr_family = f, lr_holder = holder, lr_epoch = new_epoch,
                    lr_acquired_at = cur, lr_expires_at = cur + ttl, lr_reason = reason\<rparr>, db'))))"

definition lease_renew ::
    "lease_db \<Rightarrow> string \<Rightarrow> string \<Rightarrow> int \<Rightarrow> time \<Rightarrow> time
     \<Rightarrow> (lease_exn, lease_record \<times> lease_db) result" where
  "lease_renew db f holder observed_epoch ttl cur =
     rbind (check_family f) (\<lambda>_.
     rbind (validate_holder holder) (\<lambda>_.
     rbind (validate_epoch observed_epoch) (\<lambda>_.
     case db_lease db f of
       None \<Rightarrow> Inl (LeaseErr (MissingLease f))
     | Some row \<Rightarrow>
         if lr_holder row \<noteq> holder
         then Inl (LeaseErr (NotHolder f holder (lr_holder row)))
         else if lr_epoch row \<noteq> observed_epoch
         then Inl (LeaseErr (StaleEpoch f observed_epoch (lr_epoch row)))
         else if lr_expires_at row \<le> cur
         then Inl (LeaseErr (ExpiredLease f observed_epoch (lr_expires_at row)))
         else
           let (n, db') = sql_update_lease db f observed_epoch
                 (\<lambda>r. r\<lparr>lr_acquired_at := cur, lr_expires_at := cur + ttl, lr_reason := ''renew''\<rparr>)
           in Inr (\<lparr>lr_family = f, lr_holder = holder, lr_epoch = observed_epoch,
                    lr_acquired_at = cur, lr_expires_at = cur + ttl, lr_reason = ''renew''\<rparr>, db'))))"

definition lease_release ::
    "lease_db \<Rightarrow> string \<Rightarrow> string \<Rightarrow> int \<Rightarrow> (lease_exn, lease_db) result" where
  "lease_release db f holder observed_epoch =
     rbind (check_family f) (\<lambda>_.
     rbind (validate_holder holder) (\<lambda>_.
     rbind (validate_epoch observed_epoch) (\<lambda>_.
     case db_lease db f of
       None \<Rightarrow> Inl (LeaseErr (MissingLease f))
     | Some row \<Rightarrow>
         if lr_holder row \<noteq> holder
         then Inl (LeaseErr (NotHolder f holder (lr_holder row)))
         else if lr_epoch row \<noteq> observed_epoch
         then Inl (LeaseErr (StaleEpoch f observed_epoch (lr_epoch row)))
         else Inr (sql_delete_lease db f observed_epoch))))"

definition lease_takeover ::
    "lease_db \<Rightarrow> string \<Rightarrow> string \<Rightarrow> int \<Rightarrow> string \<Rightarrow> time \<Rightarrow> time
     \<Rightarrow> (lease_exn, lease_record \<times> lease_db) result" where
  "lease_takeover db f new_holder observed_epoch reason ttl cur =
     rbind (check_family f) (\<lambda>_.
     rbind (validate_holder new_holder) (\<lambda>_.
     rbind (validate_reason reason) (\<lambda>_.
     rbind (validate_epoch observed_epoch) (\<lambda>_.
     case db_lease db f of
       None \<Rightarrow> Inl (LeaseErr (MissingLease f))
     | Some row \<Rightarrow>
         if lr_epoch row \<noteq> observed_epoch
         then Inl (LeaseErr (StaleEpoch f observed_epoch (lr_epoch row)))
         else
           let new_epoch = observed_epoch + 1;
               (rowcount, db') = sql_update_lease db f observed_epoch
                 (\<lambda>r. r\<lparr>lr_holder := new_holder, lr_epoch := new_epoch, lr_acquired_at := cur,
                        lr_expires_at := cur + ttl, lr_reason := reason\<rparr>)
           in if rowcount \<noteq> 1
              then Inl (LeaseErr (StaleEpoch f observed_epoch (lr_epoch row)))
              else Inr (\<lparr>lr_family = f, lr_holder = new_holder, lr_epoch = new_epoch,
                         lr_acquired_at = cur, lr_expires_at = cur + ttl,
                         lr_reason = reason\<rparr>, db')))))"

text \<open>
  \<open>record_action\<close>: the argument checks, the \<open>SELECT\<close>, and the \<open>INSERT\<close> the
  primary key guards.
\<close>

definition record_guard :: "string \<Rightarrow> string \<Rightarrow> (lease_exn, unit) result" where
  "record_guard f action_id =
     rbind (check_family f) (\<lambda>_.
     raise_if (\<not> dollar_match action_id_re action_id) (LeaseErr (MalformedActionId (take 64 action_id))))"

definition record_insert ::
    "lease_db \<Rightarrow> string \<Rightarrow> string \<Rightarrow> string \<Rightarrow> receipt \<Rightarrow> time
     \<Rightarrow> (lease_exn, receipt \<times> lease_db) result" where
  "record_insert db f caller action_id receipt cur =
     (if db_action db (f, caller, action_id) \<noteq> None then Inl LeaseIntegrityError
      else Inr (receipt, db\<lparr>db_action := (db_action db)((f, caller, action_id) \<mapsto> (cur, Json receipt))\<rparr>))"

definition record_action ::
    "lease_db \<Rightarrow> string \<Rightarrow> string \<Rightarrow> string \<Rightarrow> receipt \<Rightarrow> time
     \<Rightarrow> (lease_exn, receipt \<times> lease_db) result" where
  "record_action db f caller action_id receipt cur =
     rbind (record_guard f action_id) (\<lambda>_.
     case db_action db (f, caller, action_id) of
       Some (_, Json old) \<Rightarrow> Inr (old, db)
     | Some (_, Corrupt) \<Rightarrow> Inr (receipt, db)
     | None \<Rightarrow> record_insert db f caller action_id receipt cur)"

definition look_up_action ::
    "lease_db \<Rightarrow> string \<Rightarrow> string \<Rightarrow> string \<Rightarrow> (lease_exn, receipt option) result" where
  "look_up_action db f caller action_id =
     rbind (check_family f) (\<lambda>_.
     if \<not> dollar_match action_id_re action_id then Inr None
     else Inr (case db_action db (f, caller, action_id) of
         Some (_, Json r) \<Rightarrow> Some r
       | _ \<Rightarrow> None))"

section \<open>The gate\<close>

record lease_gate =
  g_store :: lease_db
  g_family_map :: "string \<rightharpoonup> string"
  g_pair_map :: "string \<rightharpoonup> string"

record check_result =
  cr_accept :: bool
  cr_family :: string
  cr_holder :: string
  cr_epoch :: int
  cr_action_id :: string
  cr_receipt :: "receipt option"
  cr_reason :: "string option"
  cr_http_status :: int
  cr_deny_reason :: "string option"

text \<open>
  The family is bound before the pair is validated, so a refused pair still leaves the
  family binding behind: the new gate is returned beside the outcome.
\<close>

definition declare_caller ::
    "lease_gate \<Rightarrow> string \<Rightarrow> string \<Rightarrow> string option \<Rightarrow> (lease_exn, unit) result \<times> lease_gate" where
  "declare_caller g caller f pair =
     (if f \<notin> set FAMILIES then (Inl (LeaseErr (UnknownFamily f)), g)
      else if \<not> dollar_match caller_re caller
      then (Inl (LeaseValueError ''caller must match''), g)
      else
        let g1 = g\<lparr>g_family_map := (g_family_map g)(caller \<mapsto> f)\<rparr>
        in case pair of
             None \<Rightarrow> (Inr (), g1)
           | Some p \<Rightarrow>
               if \<not> dollar_match caller_re p
               then (Inl (LeaseValueError ''pair must match''), g1)
               else (Inr (), g1\<lparr>g_pair_map := (g_pair_map g1)(caller \<mapsto> p)\<rparr>))"

definition family_for :: "lease_gate \<Rightarrow> string \<Rightarrow> string option" where
  "family_for g caller = g_family_map g caller"

definition pair_for :: "lease_gate \<Rightarrow> string \<Rightarrow> string option" where
  "pair_for g caller = g_pair_map g caller"

text \<open>
  \<open>LeaseGate.check\<close>. \<open>gate_decide\<close> is its first part, the decision on the lease row it
  reads; the second part records the action. The argument \<open>uuid4\<close> is the fresh identifier
  the code mints when the call carries no action id (an empty one counts as none).
\<close>

definition gate_decide ::
    "lease_db \<Rightarrow> string \<Rightarrow> string \<Rightarrow> int option \<Rightarrow> time \<Rightarrow> (lease_exn, lease_record) result" where
  "gate_decide db caller f observed_epoch cur =
     rbind (check_family f) (\<lambda>_.
     rbind (case observed_epoch of
              Some e \<Rightarrow> raise_if (\<not> validate_epoch_value e) (LeaseErr (StaleEpoch f e 0))
            | None \<Rightarrow> Inr ()) (\<lambda>_.
     rbind (lease_get db f) (\<lambda>got.
     case got of
       None \<Rightarrow> Inl (LeaseErr (MissingLease f))
     | Some r \<Rightarrow>
         if lr_holder r \<noteq> caller
         then Inl (LeaseErr (NotHolder f caller (lr_holder r)))
         else if observed_epoch \<noteq> Some (lr_epoch r)
         then Inl (LeaseErr (StaleEpoch f (case observed_epoch of None \<Rightarrow> 0 | Some e \<Rightarrow> e) (lr_epoch r)))
         else if lr_expires_at r \<le> cur
         then Inl (LeaseErr (ExpiredLease f (lr_epoch r) (lr_expires_at r)))
         else Inr r)))"

definition gate_check ::
    "lease_gate \<Rightarrow> string \<Rightarrow> string \<Rightarrow> string \<Rightarrow> int option \<Rightarrow> string option \<Rightarrow> time
     \<Rightarrow> (lease_exn, check_result \<times> lease_gate) result" where
  "gate_check g uuid4 caller f observed_epoch action_id cur =
     rbind (gate_decide (g_store g) caller f observed_epoch cur) (\<lambda>r.
       let given = (case action_id of Some a \<Rightarrow> a \<noteq> [] | None \<Rightarrow> False);
           receipt_id = (if given then the action_id else uuid4)
       in if given \<and> \<not> dollar_match action_id_re receipt_id
          then Inl (LeaseErr (MalformedActionId (take 64 receipt_id)))
          else
            let receipt = \<lparr>rc_ok = True, rc_action_id = receipt_id, rc_family = f,
                  rc_holder = lr_holder r, rc_epoch = lr_epoch r, rc_accepted_at = cur\<rparr>
            in rbind (record_action (g_store g) f caller receipt_id receipt cur)
                 (\<lambda>(rc, db').
                    Inr (\<lparr>cr_accept = True, cr_family = f, cr_holder = lr_holder r,
                          cr_epoch = lr_epoch r, cr_action_id = receipt_id,
                          cr_receipt = Some rc, cr_reason = None, cr_http_status = 200,
                          cr_deny_reason = None\<rparr>,
                         g\<lparr>g_store := db'\<rparr>)))"

definition gate_replay ::
    "lease_gate \<Rightarrow> string \<Rightarrow> string \<Rightarrow> string \<Rightarrow> (lease_exn, receipt option) result" where
  "gate_replay g caller f action_id = look_up_action (g_store g) f caller action_id"

section \<open>The wire adapter\<close>

record lease_env =
  env_enabled :: "string option"
  env_bearer_holder :: "string option"
  env_bearer_family :: "string option"

definition env_get :: "string option \<Rightarrow> string" where
  "env_get v = (case v of None \<Rightarrow> [] | Some s \<Rightarrow> s)"

definition lease_is_enabled :: "lease_env \<Rightarrow> bool" where
  "lease_is_enabled env =
     (py_lower (py_strip (env_get (env_enabled env))) \<in> set [''1'', ''true'', ''yes'', ''on''])"

definition bearer_holder :: "lease_env \<Rightarrow> (string \<times> string) option" where
  "bearer_holder env =
     (let h = py_strip (env_get (env_bearer_holder env));
          f = py_strip (env_get (env_bearer_family env))
      in if h \<noteq> [] \<and> f \<noteq> [] then Some (h, f) else None)"

fun parse_epoch_header :: "pyval \<Rightarrow> int option" where
  "parse_epoch_header (PInt i) = Some i"
| "parse_epoch_header (PStr s) = (if py_strip s = [] then None else py_int_of_string (py_strip s))"
| "parse_epoch_header _ = None"

fun parse_family_header :: "pyval \<Rightarrow> string option" where
  "parse_family_header (PStr s) = (if py_strip s \<in> set FAMILIES then Some (py_strip s) else None)"
| "parse_family_header _ = None"

record wire_request =
  wr_family :: "string option"
  wr_epoch :: "string option"
  wr_action :: "string option"

definition header_val :: "string option \<Rightarrow> pyval" where
  "header_val h = (case h of None \<Rightarrow> PNone | Some s \<Rightarrow> PStr s)"

datatype wire_exn = HTTPDeny int lease_error | WireUnhandled string

definition wire_deny :: "lease_error \<Rightarrow> wire_exn" where
  "wire_deny e = HTTPDeny (lease_code e) e"

definition wire_of_exn :: "lease_exn \<Rightarrow> wire_exn" where
  "wire_of_exn x = (case x of
       LeaseErr e \<Rightarrow> wire_deny e
     | LeaseValueError m \<Rightarrow> WireUnhandled m
     | LeaseIntegrityError \<Rightarrow> WireUnhandled ''IntegrityError'')"

text \<open>
  \<open>check_effect\<close> on the app state \<open>gate\<close> (\<open>None\<close>: no gate installed). The result
  carries the receipt, or \<open>None\<close> for a call the gate does not apply to, and the gate's
  new state. The bearer path's last refusal, a family still missing after the default was
  taken, cannot happen: \<open>bearer_holder\<close> never gives an empty family.
\<close>

definition check_effect ::
    "lease_env \<Rightarrow> lease_gate option \<Rightarrow> string \<Rightarrow> wire_request \<Rightarrow> string option
     \<Rightarrow> string option \<Rightarrow> time \<Rightarrow> (wire_exn, receipt option \<times> lease_gate option) result" where
  "check_effect env gate uuid4 req caller action_id cur =
     (if \<not> lease_is_enabled env then Inr (None, gate)
      else case gate of
        None \<Rightarrow> Inr (None, None)
      | Some g \<Rightarrow>
          let fam = parse_family_header (header_val (wr_family req));
              ep = parse_epoch_header (header_val (wr_epoch req));
              act = (case wr_action req of
                       Some a \<Rightarrow> if a \<noteq> [] then Some a else action_id
                     | None \<Rightarrow> action_id);
              resolved = (case caller of
                  Some c \<Rightarrow> Some (c, fam)
                | None \<Rightarrow> (case bearer_holder env of
                      None \<Rightarrow> None
                    | Some (h, f) \<Rightarrow> Some (h, case fam of None \<Rightarrow> Some f | Some x \<Rightarrow> Some x)))
          in case resolved of
               None \<Rightarrow> Inr (None, gate)
             | Some (c, fam') \<Rightarrow>
                 (case (case fam' of Some f \<Rightarrow> Some f | None \<Rightarrow> family_for g c) of
                    None \<Rightarrow> Inr (None, gate)
                  | Some f \<Rightarrow>
                      (case gate_check g uuid4 c f ep act cur of
                         Inl x \<Rightarrow> Inl (wire_of_exn x)
                       | Inr (res, g') \<Rightarrow> Inr (cr_receipt res, Some g'))))"

definition install_gate ::
    "lease_db \<Rightarrow> (string \<rightharpoonup> string) \<Rightarrow> (string \<rightharpoonup> string) \<Rightarrow> lease_gate" where
  "install_gate store family_map pair_map =
     \<lparr>g_store = store, g_family_map = family_map, g_pair_map = pair_map\<rparr>"

section \<open>The store as a machine\<close>

datatype lease_op =
    LAcquire string string string time time
  | LRenew string string int time time
  | LRelease string string int
  | LTakeover string string int string time time
  | LRecord string string string receipt time
  | LInsert string string string receipt time

fun lease_exec :: "lease_db \<Rightarrow> lease_op \<Rightarrow> lease_db" where
  "lease_exec db (LAcquire f h reason ttl cur) = kept db (lease_acquire db f h reason ttl cur)"
| "lease_exec db (LRenew f h e ttl cur) = kept db (lease_renew db f h e ttl cur)"
| "lease_exec db (LRelease f h e) = (case lease_release db f h e of Inl _ \<Rightarrow> db | Inr db' \<Rightarrow> db')"
| "lease_exec db (LTakeover f h e reason ttl cur) = kept db (lease_takeover db f h e reason ttl cur)"
| "lease_exec db (LRecord f c a rc cur) = kept db (record_action db f c a rc cur)"
| "lease_exec db (LInsert f c a rc cur) =
     kept db (rbind (record_guard f a) (\<lambda>_. record_insert db f c a rc cur))"

definition lease_row_wf :: "string \<Rightarrow> lease_record \<Rightarrow> bool" where
  "lease_row_wf f r = (lr_family r = f \<and> f \<in> set FAMILIES \<and> lr_epoch r \<ge> 1 \<and>
     caller_re (lr_holder r) \<and> lr_reason r \<noteq> [] \<and> length (lr_reason r) \<le> REASON_MAX)"

definition lease_wf :: "lease_db \<Rightarrow> bool" where
  "lease_wf db = ((\<forall>f r. db_lease db f = Some r \<longrightarrow> lease_row_wf f r) \<and>
     (\<forall>k \<in> dom (db_action db). fst k \<in> set FAMILIES \<and> dollar_match action_id_re (snd (snd k))))"

definition lease_owner :: "string \<Rightarrow> lease_db \<Rightarrow> (int \<times> string) option" where
  "lease_owner f db = map_option (\<lambda>r. (lr_epoch r, lr_holder r)) (db_lease db f)"

fun lease_drops :: "string \<Rightarrow> lease_op \<Rightarrow> bool" where
  "lease_drops f (LRelease f' _ _) = (f = f')"
| "lease_drops f _ = False"

lemmas lease_validators =
  check_family_def validate_holder_def validate_reason_def validate_epoch_def

lemmas lease_ops =
  lease_acquire_def lease_renew_def lease_release_def lease_takeover_def record_action_def
  record_insert_def


lemma lease_record_full_update:
  "(r::lease_record)\<lparr>lr_holder := h, lr_epoch := e, lr_acquired_at := t, lr_expires_at := u,
       lr_reason := v\<rparr> =
     \<lparr>lr_family = lr_family r, lr_holder = h, lr_epoch = e, lr_acquired_at = t,
      lr_expires_at = u, lr_reason = v\<rparr>"
  "(r::lease_record)\<lparr>lr_acquired_at := t, lr_expires_at := u, lr_reason := v\<rparr> =
     \<lparr>lr_family = lr_family r, lr_holder = lr_holder r, lr_epoch = lr_epoch r,
      lr_acquired_at = t, lr_expires_at = u, lr_reason = v\<rparr>"
  by simp_all

lemmas lease_unfold =
  lease_validators sql_update_lease_def sql_delete_lease_def Let_def lease_record_full_update

text \<open>What each operation does to the \<open>lease\<close> table when it succeeds.\<close>

lemma lease_acquire_Inr:
  "lease_acquire db f h reason ttl cur = Inr (r, db') \<longleftrightarrow>
     f \<in> set FAMILIES \<and> caller_re h \<and> reason \<noteq> [] \<and> length reason \<le> REASON_MAX \<and>
     newline \<notin> set reason \<and>
     (\<forall>row. db_lease db f = Some row \<longrightarrow> lr_expires_at row \<le> cur) \<and>
     r = \<lparr>lr_family = f, lr_holder = h,
          lr_epoch = (case db_lease db f of None \<Rightarrow> 1 | Some row \<Rightarrow> lr_epoch row + 1),
          lr_acquired_at = cur, lr_expires_at = cur + ttl, lr_reason = reason\<rparr> \<and>
     db' = db\<lparr>db_lease := (db_lease db)(f \<mapsto> r\<lparr>lr_family :=
            (case db_lease db f of None \<Rightarrow> f | Some row \<Rightarrow> lr_family row)\<rparr>)\<rparr>"
  by (auto simp: lease_acquire_def lease_unfold rbind_eq_Inr split: option.splits)

lemma lease_renew_Inr:
  "lease_renew db f h e ttl cur = Inr (r, db') \<longleftrightarrow>
     f \<in> set FAMILIES \<and> caller_re h \<and> e \<ge> 1 \<and>
     (\<exists>row. db_lease db f = Some row \<and> lr_holder row = h \<and> lr_epoch row = e \<and>
        cur < lr_expires_at row \<and>
        r = \<lparr>lr_family = f, lr_holder = h, lr_epoch = e, lr_acquired_at = cur,
             lr_expires_at = cur + ttl, lr_reason = ''renew''\<rparr> \<and>
        db' = db\<lparr>db_lease := (db_lease db)(f \<mapsto> r\<lparr>lr_family := lr_family row\<rparr>)\<rparr>)"
  by (cases "db_lease db f") (auto simp: lease_renew_def lease_unfold rbind_eq_Inr)

lemma lease_release_Inr:
  "lease_release db f h e = Inr db' \<longleftrightarrow>
     f \<in> set FAMILIES \<and> caller_re h \<and> e \<ge> 1 \<and>
     (\<exists>row. db_lease db f = Some row \<and> lr_holder row = h \<and> lr_epoch row = e) \<and>
     db' = db\<lparr>db_lease := (db_lease db)(f := None)\<rparr>"
  by (cases "db_lease db f") (auto simp: lease_release_def lease_unfold rbind_eq_Inr)

lemma lease_takeover_Inr:
  "lease_takeover db f h e reason ttl cur = Inr (r, db') \<longleftrightarrow>
     f \<in> set FAMILIES \<and> caller_re h \<and> reason \<noteq> [] \<and> length reason \<le> REASON_MAX \<and>
     newline \<notin> set reason \<and> e \<ge> 1 \<and>
     (\<exists>row. db_lease db f = Some row \<and> lr_epoch row = e \<and>
        r = \<lparr>lr_family = f, lr_holder = h, lr_epoch = e + 1, lr_acquired_at = cur,
             lr_expires_at = cur + ttl, lr_reason = reason\<rparr> \<and>
        db' = db\<lparr>db_lease := (db_lease db)(f \<mapsto> r\<lparr>lr_family := lr_family row\<rparr>)\<rparr>)"
  by (cases "db_lease db f") (auto simp: lease_takeover_def lease_unfold rbind_eq_Inr)

lemma record_action_Inr:
  "record_action db f c a rc cur = Inr (rc', db') \<longleftrightarrow>
     f \<in> set FAMILIES \<and> dollar_match action_id_re a \<and>
     (case db_action db (f, c, a) of
        None \<Rightarrow> rc' = rc \<and> db' = db\<lparr>db_action := (db_action db)((f, c, a) \<mapsto> (cur, Json rc))\<rparr>
      | Some (t, Json old) \<Rightarrow> rc' = old \<and> db' = db
      | Some (t, Corrupt) \<Rightarrow> rc' = rc \<and> db' = db)"
  by (auto simp: record_action_def record_guard_def record_insert_def check_family_def rbind_eq_Inr
      split: option.splits receipt_json.splits prod.splits if_splits)

lemma record_insert_Inr:
  "rbind (record_guard f a) (\<lambda>_. record_insert db f c a rc cur) = Inr (rc', db') \<longleftrightarrow>
     f \<in> set FAMILIES \<and> dollar_match action_id_re a \<and> db_action db (f, c, a) = None \<and> rc' = rc \<and>
     db' = db\<lparr>db_action := (db_action db)((f, c, a) \<mapsto> (cur, Json rc))\<rparr>"
  by (cases "db_action db (f, c, a)")
     (auto simp: record_guard_def record_insert_def check_family_def rbind_eq_Inr)

lemmas lease_op_Inr =
  lease_acquire_Inr lease_renew_Inr lease_release_Inr lease_takeover_Inr record_action_Inr
  record_insert_Inr

text \<open>Every operation keeps the tables well formed.\<close>

lemma lease_wf_lease_upd:
  "lease_wf db \<Longrightarrow> lease_row_wf f r \<Longrightarrow> lease_wf (db\<lparr>db_lease := (db_lease db)(f \<mapsto> r)\<rparr>)"
  by (auto simp: lease_wf_def)

lemma lease_wf_lease_del:
  "lease_wf db \<Longrightarrow> lease_wf (db\<lparr>db_lease := (db_lease db)(f := None)\<rparr>)"
  by (auto simp: lease_wf_def)

lemma lease_wf_row: "lease_wf db \<Longrightarrow> db_lease db f = Some r \<Longrightarrow> lease_row_wf f r"
  by (simp add: lease_wf_def)

lemma lease_acquire_wf:
  assumes "lease_wf db" and "lease_acquire db f h reason ttl cur = Inr (r, db')"
  shows "lease_wf db'"
  using assms unfolding lease_acquire_Inr
  by (auto intro!: lease_wf_lease_upd dest!: lease_wf_row [OF assms(1)] simp: lease_row_wf_def split: option.splits)

lemma lease_renew_wf:
  assumes "lease_wf db" and "lease_renew db f h e ttl cur = Inr (r, db')"
  shows "lease_wf db'"
  using assms unfolding lease_renew_Inr
  by (auto intro!: lease_wf_lease_upd dest!: lease_wf_row [OF assms(1)] simp: lease_row_wf_def REASON_MAX_def)

lemma lease_takeover_wf:
  assumes "lease_wf db" and "lease_takeover db f h e reason ttl cur = Inr (r, db')"
  shows "lease_wf db'"
  using assms unfolding lease_takeover_Inr
  by (auto intro!: lease_wf_lease_upd dest!: lease_wf_row [OF assms(1)] simp: lease_row_wf_def)

lemma lease_release_wf:
  assumes "lease_wf db" and "lease_release db f h e = Inr db'"
  shows "lease_wf db'"
  using assms unfolding lease_release_Inr by (auto intro: lease_wf_lease_del)

lemma record_action_wf:
  assumes "lease_wf db" and "record_action db f c a rc cur = Inr (rc', db')"
  shows "lease_wf db'"
  using assms unfolding record_action_Inr
  by (auto simp: lease_wf_def split: option.splits receipt_json.splits)

lemma record_insert_wf:
  assumes "lease_wf db"
    and "rbind (record_guard f a) (\<lambda>_. record_insert db f c a rc cur) = Inr (rc', db')"
  shows "lease_wf db'"
  using assms unfolding record_insert_Inr by (auto simp: lease_wf_def)

lemma lease_exec_wf: "lease_wf db \<Longrightarrow> lease_wf (lease_exec db x)"
  by (cases x)
     (auto simp: kept_def split: sum.splits
       intro: lease_acquire_wf lease_renew_wf lease_takeover_wf lease_release_wf record_action_wf
       record_insert_wf)

lemma lease_exec_owner:
  assumes "\<not> lease_drops f x" and "lease_owner f db = Some (e, h)"
  shows "\<exists>e' h'. lease_owner f (lease_exec db x) = Some (e', h') \<and> (e < e' \<or> (e = e' \<and> h = h'))"
  using assms
  by (cases x)
     (auto simp: kept_def lease_owner_def lease_op_Inr
       split: sum.splits option.splits receipt_json.splits)

interpretation lease: fenced_machine lease_exec lease_wf lease_owner lease_drops
  by unfold_locales (auto intro: lease_exec_wf lease_exec_owner)

text \<open>Receipts, once recorded, are never overwritten or removed.\<close>

lemma lease_exec_action:
  "db_action db k = Some v \<Longrightarrow> db_action (lease_exec db x) k = Some v"
  by (cases x)
     (auto simp: kept_def lease_op_Inr split: sum.splits option.splits receipt_json.splits)

lemma lease_run_action:
  "db_action db k = Some v \<Longrightarrow> db_action (run_ops lease_exec db xs) k = Some v"
  by (induction xs arbitrary: db) (simp_all add: lease_exec_action)

section \<open>The gate's contract\<close>

definition action_given :: "string option \<Rightarrow> bool" where
  "action_given a = (case a of Some s \<Rightarrow> s \<noteq> [] | None \<Rightarrow> False)"

definition effective_action :: "string \<Rightarrow> string option \<Rightarrow> string" where
  "effective_action uuid4 a = (if action_given a then the a else uuid4)"

lemma record_action_match:
  "record_action db f c a rc cur = Inr x \<Longrightarrow> dollar_match action_id_re a"
  by (cases x) (simp add: record_action_Inr)

lemma gate_decide_Inr:
  "gate_decide db caller f ep cur = Inr r \<longleftrightarrow>
     f \<in> set FAMILIES \<and> db_lease db f = Some r \<and> lr_holder r = caller \<and>
     ep = Some (lr_epoch r) \<and> 1 \<le> lr_epoch r \<and> cur < lr_expires_at r"
  by (cases "db_lease db f")
     (auto simp: gate_decide_def lease_get_def check_family_def rbind_eq_Inr
       validate_epoch_value_def split: option.splits if_splits)

lemma gate_check_Inr:
  "gate_check g uuid4 caller f ep act cur = Inr (res, g') \<longleftrightarrow>
     f \<in> set FAMILIES \<and>
     (\<exists>r rc db'. db_lease (g_store g) f = Some r \<and> lr_holder r = caller \<and>
        ep = Some (lr_epoch r) \<and> 1 \<le> lr_epoch r \<and> cur < lr_expires_at r \<and>
        record_action (g_store g) f caller (effective_action uuid4 act)
          \<lparr>rc_ok = True, rc_action_id = effective_action uuid4 act, rc_family = f,
           rc_holder = caller, rc_epoch = lr_epoch r, rc_accepted_at = cur\<rparr> cur = Inr (rc, db') \<and>
        res = \<lparr>cr_accept = True, cr_family = f, cr_holder = caller, cr_epoch = lr_epoch r,
               cr_action_id = effective_action uuid4 act, cr_receipt = Some rc, cr_reason = None,
               cr_http_status = 200, cr_deny_reason = None\<rparr> \<and>
        g' = g\<lparr>g_store := db'\<rparr>)"
  by (auto simp: gate_check_def gate_decide_Inr rbind_eq_Inr Let_def effective_action_def
      action_given_def split: option.splits if_splits dest: record_action_match)

definition gate_refusals :: "string set" where
  "gate_refusals = {''unknown_family'', ''malformed_action_id'', ''not_holder'', ''stale_epoch'',
     ''expired_lease'', ''missing_lease''}"

lemma gate_decide_Inl:
  "gate_decide db c f ep cur = Inl y \<Longrightarrow> \<exists>e. y = LeaseErr e \<and> lease_reason_tag e \<in> gate_refusals"
  by (auto simp: gate_decide_def gate_refusals_def lease_get_def check_family_def rbind_eq_Inl rbind_eq_Inr
      split: option.splits if_splits)

lemma record_action_Inl:
  "record_action db f c a rc cur = Inl y \<Longrightarrow> \<exists>e. y = LeaseErr e \<and> lease_reason_tag e \<in> gate_refusals"
  by (auto simp: record_action_def record_guard_def record_insert_def gate_refusals_def check_family_def
      rbind_eq_Inl rbind_eq_Inr split: option.splits receipt_json.splits)

lemma gate_check_Inl:
  "gate_check g u c f ep act cur = Inl y \<Longrightarrow> \<exists>e. y = LeaseErr e \<and> lease_reason_tag e \<in> gate_refusals"
  by (auto simp: gate_check_def rbind_eq_Inl Let_def split: if_splits
      dest!: gate_decide_Inl record_action_Inl) (simp_all add: gate_refusals_def)

lemma record_action_lease:
  "record_action db f c a rc cur = Inr (rc', db') \<Longrightarrow> db_lease db' = db_lease db"
  by (auto simp: record_action_def record_guard_def record_insert_def check_family_def rbind_eq_Inr
      split: option.splits receipt_json.splits if_splits)

lemma record_action_total:
  "f \<in> set FAMILIES \<Longrightarrow> dollar_match action_id_re a \<Longrightarrow>
     \<exists>rc' db'. record_action db f c a rc cur = Inr (rc', db')"
  by (simp add: record_action_def record_guard_def record_insert_def check_family_def
      split: option.splits receipt_json.splits)

lemma gate_decide_owner:
  "gate_decide db c f ep cur = Inr r \<Longrightarrow> \<exists>e. ep = Some e \<and> lease_owner f db = Some (e, c)"
  by (auto simp: gate_decide_Inr lease_owner_def)

lemma record_action_stored:
  assumes "record_action db f c a rc cur = Inr (rc', db')"
    and "\<forall>t. db_action db (f, c, a) \<noteq> Some (t, Corrupt)"
  shows "\<exists>t. db_action db' (f, c, a) = Some (t, Json rc')"
  using assms
  by (auto simp: record_action_def record_guard_def record_insert_def check_family_def rbind_eq_Inr
      split: option.splits receipt_json.splits if_splits)

lemma look_up_action_stored:
  "db_action db (f, c, a) = Some (t, Json rc) \<Longrightarrow> f \<in> set FAMILIES \<Longrightarrow>
     dollar_match action_id_re a \<Longrightarrow> look_up_action db f c a = Inr (Some rc)"
  by (simp add: look_up_action_def check_family_def)

section \<open>Properties\<close>

text \<open>A small concrete world for the witnesses: one live lease of family \<open>overseer\<close>.\<close>

definition demo_row :: lease_record where
  "demo_row = \<lparr>lr_family = ''overseer'', lr_holder = ''overseer1'', lr_epoch = 1,
     lr_acquired_at = 0, lr_expires_at = 60, lr_reason = ''initial''\<rparr>"

definition demo_db :: lease_db where
  "demo_db = \<lparr>db_lease = [''overseer'' \<mapsto> demo_row], db_action = Map.empty\<rparr>"

definition demo_gate :: lease_gate where
  "demo_gate = \<lparr>g_store = demo_db, g_family_map = [''overseer1'' \<mapsto> ''overseer''],
     g_pair_map = [''overseer1'' \<mapsto> ''overseer2'']\<rparr>"

definition demo_action :: string where
  "demo_action = replicate 32 (CHR ''a'')"

definition demo_receipt :: receipt where
  "demo_receipt = \<lparr>rc_ok = True, rc_action_id = demo_action, rc_family = ''overseer'',
     rc_holder = ''overseer1'', rc_epoch = 1, rc_accepted_at = 10\<rparr>"

definition demo_result :: check_result where
  "demo_result = \<lparr>cr_accept = True, cr_family = ''overseer'', cr_holder = ''overseer1'',
     cr_epoch = 1, cr_action_id = demo_action, cr_receipt = Some demo_receipt, cr_reason = None,
     cr_http_status = 200, cr_deny_reason = None\<rparr>"

definition demo_gate1 :: lease_gate where
  "demo_gate1 = demo_gate\<lparr>g_store := demo_db\<lparr>db_action :=
     [(''overseer'', ''overseer1'', demo_action) \<mapsto> (10, Json demo_receipt)]\<rparr>\<rparr>"

definition demo_handover :: "lease_op list" where
  "demo_handover = [LTakeover ''overseer'' ''overseer2'' 1 ''quota'' 60 30]"

lemma demo_action_ok: "dollar_match action_id_re demo_action" "demo_action \<noteq> []"
  by code_simp+

lemma demo_names: "caller_re ''overseer1''" "caller_re ''overseer2''"
  by code_simp+

lemmas demo_lease_defs =
  demo_gate_def demo_gate1_def demo_db_def demo_row_def demo_result_def demo_receipt_def FAMILIES_def

lemma demo_wf: "lease_wf demo_db"
  using demo_names
  by (simp add: lease_wf_def lease_row_wf_def demo_lease_defs REASON_MAX_def)

lemma demo_check:
  "gate_check demo_gate u ''overseer1'' ''overseer'' (Some 1) (Some demo_action) 10 =
     Inr (demo_result, demo_gate1)"
  by (simp add: gate_check_Inr record_action_Inr effective_action_def action_given_def
      demo_action_ok demo_lease_defs)

text \<open>C1: fencing of the effect gate. From well-formed lease tables, let the gate decide to
  accept a call of \<open>c1\<close> under epoch \<open>e\<close>, and let any store steps of any callers follow
  (acquire, renew, takeover, action recording or the insert of a call in progress,
  successful or refused) with no release of this family among them. If the gate then decides
  to accept a call under the same epoch \<open>e\<close>, it is a call of the same runtime, and a
  runtime that decided under an older epoch is refused from then on: two runtimes of a
  family never have effects accepted under one epoch.\<close>

theorem lease_gate_fencing:
  assumes "lease_wf db"
    and "gate_decide db c1 f (Some e) t1 = Inr r1"
    and "list_all (\<lambda>x. \<not> lease_drops f x) ops"
    and "gate_decide (run_ops lease_exec db ops) c2 f (Some e') t2 = Inr r2"
  shows "e \<le> e' \<and> (e = e' \<longrightarrow> c1 = c2)"
proof -
  have "lease_owner f db = Some (e, c1)" using gate_decide_owner [OF assms(2)] by simp
  from lease.fence_run [OF assms(1,3) this] show ?thesis
    using gate_decide_owner [OF assms(4)] by auto
qed

theorem lease_gate_fencing_witness:
  "gate_decide demo_db ''overseer1'' ''overseer'' (Some 1) 10 = Inr demo_row \<and>
   (\<exists>r2. gate_decide (run_ops lease_exec demo_db demo_handover) ''overseer2'' ''overseer'' (Some 2) 40 = Inr r2) \<and>
   (1::int) \<le> 2"
proof -
  have 1: "gate_decide demo_db ''overseer1'' ''overseer'' (Some 1) 10 = Inr demo_row"
    by (simp add: gate_decide_Inr demo_lease_defs)
  have "validate_reason ''quota'' = Inr ()" by code_simp
  then have 2: "gate_decide (run_ops lease_exec demo_db demo_handover) ''overseer2'' ''overseer'' (Some 2) 40 =
      Inr (demo_row\<lparr>lr_holder := ''overseer2'', lr_epoch := 2, lr_acquired_at := 30,
            lr_expires_at := 90, lr_reason := ''quota''\<rparr>)"
    using demo_names
    by (simp add: gate_decide_Inr demo_lease_defs demo_handover_def lease_takeover_def lease_unfold)
  have 3: "list_all (\<lambda>x. \<not> lease_drops ''overseer'' x) demo_handover" by (simp add: demo_handover_def)
  show ?thesis using 1 2 lease_gate_fencing [OF demo_wf 1 3 2] by blast
qed

text \<open>C16: the gate's decision. A mutating call is accepted exactly when its family is
  one of the three, the family has a lease row held by the caller, the call carries the
  row's current epoch, the lease has not expired, and the action id (the caller's, or the
  minted one when none is given) has the required form.\<close>

theorem gate_check_accepts_iff:
  "(\<exists>res g'. gate_check g uuid4 caller f ep act cur = Inr (res, g')) \<longleftrightarrow>
     f \<in> set FAMILIES \<and>
     (\<exists>r. db_lease (g_store g) f = Some r \<and> lr_holder r = caller \<and> ep = Some (lr_epoch r) \<and>
          1 \<le> lr_epoch r \<and> cur < lr_expires_at r) \<and>
     dollar_match action_id_re (effective_action uuid4 act)"
  by (auto simp: gate_check_Inr record_action_total) (simp_all add: record_action_Inr)

text \<open>Replay of an accepted action. Once the gate accepts a call with an action id
  whose recorded receipt is readable, that receipt is what \<open>replay\<close> returns after any
  further store operations, and what any later accepted call with the same id returns,
  whatever its time and epoch.\<close>

lemma gate_receipt_idempotent:
  assumes "gate_check g u c f ep (Some a) t = Inr (res, g1)" and "a \<noteq> []"
    and "\<forall>s. db_action (g_store g) (f, c, a) \<noteq> Some (s, Corrupt)"
  shows "gate_replay (g1\<lparr>g_store := run_ops lease_exec (g_store g1) ops\<rparr>) c f a = Inr (cr_receipt res) \<and>
    (\<forall>u' ep' t' res' g'.
       gate_check (g1\<lparr>g_store := run_ops lease_exec (g_store g1) ops\<rparr>) u' c f ep' (Some a) t' = Inr (res', g')
       \<longrightarrow> cr_receipt res' = cr_receipt res)"
proof -
  have eff: "effective_action v (Some a) = a" for v
    using assms(2) by (simp add: effective_action_def action_given_def)
  obtain rc where rc: "record_action (g_store g) f c a
      \<lparr>rc_ok = True, rc_action_id = a, rc_family = f, rc_holder = c,
       rc_epoch = cr_epoch res, rc_accepted_at = t\<rparr> t = Inr (rc, g_store g1)"
    and res: "cr_receipt res = Some rc" and f: "f \<in> set FAMILIES"
    using assms(1) by (auto simp: gate_check_Inr eff)
  obtain s where s: "db_action (g_store g1) (f, c, a) = Some (s, Json rc)"
    using record_action_stored [OF rc assms(3)] by blast
  then have later: "db_action (run_ops lease_exec (g_store g1) ops) (f, c, a) = Some (s, Json rc)"
    by (rule lease_run_action)
  have "dollar_match action_id_re a" using rc by (simp add: record_action_Inr)
  with later f res have "gate_replay (g1\<lparr>g_store := run_ops lease_exec (g_store g1) ops\<rparr>) c f a =
      Inr (cr_receipt res)"
    by (simp add: gate_replay_def look_up_action_stored)
  moreover have "cr_receipt res' = cr_receipt res"
    if "gate_check (g1\<lparr>g_store := run_ops lease_exec (g_store g1) ops\<rparr>) u' c f ep' (Some a) t' = Inr (res', g')"
    for u' ep' t' res' g'
    using that later res by (auto simp: gate_check_Inr eff record_action_Inr)
  ultimately show ?thesis by blast
qed

lemma gate_receipt_idempotent_witness:
  "gate_replay (demo_gate1\<lparr>g_store := run_ops lease_exec (g_store demo_gate1)
      [LTakeover ''overseer'' ''overseer2'' 1 ''quota'' 60 30]\<rparr>) ''overseer1'' ''overseer'' demo_action =
     Inr (Some demo_receipt)"
  using gate_receipt_idempotent [OF demo_check [of demo_action] demo_action_ok(2),
      of "[LTakeover ''overseer'' ''overseer2'' 1 ''quota'' 60 30]"]
  by (simp add: demo_gate_def demo_db_def demo_result_def)

text \<open>Concurrent takeovers. When one takeover under an observed epoch succeeds, a
  second one that observed the same epoch is refused as stale with the new epoch in the
  error, whoever asks: exactly one of the racing runtimes wins.\<close>

lemma takeover_single_winner:
  assumes "lease_takeover db f h1 e r1 ttl1 t1 = Inr (rec, db1)"
    and "caller_re h2" and "validate_reason r2 = Inr ()"
  shows "lease_takeover db1 f h2 e r2 ttl2 t2 = Inl (LeaseErr (StaleEpoch f e (e + 1)))"
proof -
  obtain row where "db_lease db1 f = Some row" "lr_epoch row = e + 1" "f \<in> set FAMILIES" "e \<ge> 1"
    using assms(1) by (auto simp: lease_takeover_Inr)
  with assms(2,3) show ?thesis
    by (simp add: lease_takeover_def check_family_def validate_holder_def validate_epoch_def)
qed

lemma takeover_single_winner_witness:
  "\<exists>rec db1. lease_takeover demo_db ''overseer'' ''overseer2'' 1 ''quota'' 60 30 = Inr (rec, db1) \<and>
     lease_takeover db1 ''overseer'' ''overseer1'' 1 ''operator'' 60 31 =
       Inl (LeaseErr (StaleEpoch ''overseer'' 1 2))"
proof -
  have q: "validate_reason ''quota'' = Inr ()" "validate_reason ''operator'' = Inr ()"
    by code_simp+
  obtain rec db1 where 1: "lease_takeover demo_db ''overseer'' ''overseer2'' 1 ''quota'' 60 30 = Inr (rec, db1)"
    using q demo_names by (auto simp: lease_takeover_Inr demo_lease_defs validate_reason_def)
  show ?thesis
    using 1 takeover_single_winner [OF 1 demo_names(1) q(2), of 60 31] by auto
qed

text \<open>Recording races. \<open>record_action\<close> looks the action up and inserts it in two
  statements without a transaction. Called alone, it answers a repeated id with the stored
  receipt; but when another call with the same family, caller and id records it between the
  two statements of this one, this call's insert is refused by the primary key, whatever
  happened in between: it raises an integrity error in place of returning the original
  receipt.\<close>

lemma record_action_race:
  assumes "db_action db (f, c, a) = None" and "record_action db f c a rc1 t1 = Inr (out, db1)"
  shows "record_action (run_ops lease_exec db1 ops) f c a rc2 t2 = Inr (rc1, run_ops lease_exec db1 ops) \<and>
    record_insert (run_ops lease_exec db1 ops) f c a rc2 t2 = Inl LeaseIntegrityError"
proof -
  have "db_action db1 (f, c, a) = Some (t1, Json rc1)" and ok: "f \<in> set FAMILIES" "dollar_match action_id_re a"
    using assms by (auto simp: record_action_Inr)
  then have "db_action (run_ops lease_exec db1 ops) (f, c, a) = Some (t1, Json rc1)"
    by (intro lease_run_action)
  with ok show ?thesis by (simp add: record_action_Inr record_insert_def)
qed

lemma record_action_race_witness:
  "\<exists>out db1. record_action demo_db ''overseer'' ''overseer1'' demo_action demo_receipt 10 = Inr (out, db1) \<and>
     record_insert db1 ''overseer'' ''overseer1'' demo_action (demo_receipt\<lparr>rc_accepted_at := 11\<rparr>) 11 =
       Inl LeaseIntegrityError"
proof -
  obtain out db1 where 1: "record_action demo_db ''overseer'' ''overseer1'' demo_action demo_receipt 10 = Inr (out, db1)"
    using record_action_total demo_action_ok(1) by (fastforce simp: FAMILIES_def)
  have 0: "db_action demo_db (''overseer'', ''overseer1'', demo_action) = None" by (simp add: demo_db_def)
  show ?thesis
    using 1 record_action_race [OF 0 1, of "[]" "demo_receipt\<lparr>rc_accepted_at := 11\<rparr>" 11] by auto
qed

text \<open>Epochs restart after a release. Whatever epoch a family had reached, a release
  followed by an acquire hands out epoch 1 again, so an epoch value is reused across a
  release (the fencing guarantee holds only between releases).\<close>

lemma release_restarts_epoch:
  assumes "lease_release db f h e = Inr db1"
    and "lease_acquire db1 f h' reason ttl cur = Inr (r, db2)"
  shows "lr_epoch r = 1 \<and> (\<exists>row. db_lease db f = Some row \<and> lr_epoch row = e)"
  using assms by (auto simp: lease_release_Inr lease_acquire_Inr)

lemma release_restarts_epoch_witness:
  "\<exists>db1 r db2. lease_release demo_db ''overseer'' ''overseer1'' 1 = Inr db1 \<and>
     lease_acquire db1 ''overseer'' ''overseer2'' ''quota'' 60 30 = Inr (r, db2) \<and> lr_epoch r = 1"
proof -
  have q: "validate_reason ''quota'' = Inr ()" by code_simp
  obtain db1 where 1: "lease_release demo_db ''overseer'' ''overseer1'' 1 = Inr db1"
    using demo_names by (auto simp: lease_release_Inr demo_lease_defs)
  then obtain r db2 where 2: "lease_acquire db1 ''overseer'' ''overseer2'' ''quota'' 60 30 = Inr (r, db2)"
    using demo_names q by (auto simp: lease_release_Inr lease_acquire_Inr validate_reason_def)
  show ?thesis using 1 2 release_restarts_epoch [OF 1 2] by blast
qed

text \<open>From the empty database, every sequence of store operations leaves the tables
  well formed: each row is keyed by its own family, one of the three, with an epoch of at
  least 1, a valid holder name and a bounded non-empty reason, and every recorded action
  has a known family and a well-formed id.\<close>

lemma lease_reachable_wf: "lease_wf (run_ops lease_exec empty_lease_db ops)"
  by (rule lease.run_inv) (simp add: lease_wf_def empty_lease_db_def)

text \<open>The wire adapter's refusals. When \<open>check_effect\<close> refuses a call, the lease
  layer is enabled with a gate installed, the refusal is an HTTP error whose status is
  the lease error's own code, and the error is never \<open>lease_taken\<close>, \<open>pair_only\<close>
  or \<open>evidence_required\<close>: no exception of a call that runs alone escapes unmapped.\<close>

lemma check_effect_refusals:
  assumes "check_effect env gate uuid4 req caller act cur = Inl x"
  shows "lease_is_enabled env \<and> gate \<noteq> None \<and>
    (\<exists>e. x = HTTPDeny (lease_code e) e \<and> lease_reason_tag e \<in> gate_refusals)"
proof -
  obtain g c f ep a y where "lease_is_enabled env" "gate = Some g"
    and "gate_check g uuid4 c f ep a cur = Inl y" and "x = wire_of_exn y"
    using assms
    by (auto simp: check_effect_def Let_def split: if_splits option.splits sum.splits prod.splits)
  then show ?thesis using gate_check_Inl by (fastforce simp: wire_of_exn_def wire_deny_def)
qed

definition demo_env :: lease_env where
  "demo_env = \<lparr>env_enabled = Some ''true'', env_bearer_holder = None, env_bearer_family = None\<rparr>"

definition demo_request :: wire_request where
  "demo_request = \<lparr>wr_family = Some ''overseer'', wr_epoch = Some ''2'', wr_action = Some demo_action\<rparr>"

lemma check_effect_refusals_witness:
  "check_effect demo_env (Some demo_gate) demo_action demo_request (Some ''overseer1'') None 10 =
     Inl (HTTPDeny 409 (StaleEpoch ''overseer'' 2 1)) \<and> lease_is_enabled demo_env"
proof -
  have 1: "lease_is_enabled demo_env" "parse_family_header (PStr ''overseer'') = Some ''overseer''"
    "parse_epoch_header (PStr ''2'') = Some 2"
    by code_simp+
  have 2: "check_effect demo_env (Some demo_gate) demo_action demo_request (Some ''overseer1'') None 10 =
     Inl (HTTPDeny 409 (StaleEpoch ''overseer'' 2 1))"
    using 1 by (simp add: check_effect_def demo_request_def header_val_def demo_action_ok
        gate_check_def gate_decide_def lease_get_def check_family_def validate_epoch_value_def wire_of_exn_def
        wire_deny_def demo_lease_defs del: parse_epoch_header.simps parse_family_header.simps)
  show ?thesis using 2 check_effect_refusals [OF 2] by simp
qed

end
