(* ===== verification/File_Lease.thy ===== *)
theory File_Lease
  imports Harness_Machine
begin

text \<open>
  The launcher's cross-process lease: one file \<open>runs_root/queue/.lease\<close> naming the only
  process that may run passes (\<open>acquire_lease\<close> of \<open>queue.py\<close>). The call is modelled as the
  sequence of file-system accesses it makes, one step each, so that several processes can
  interleave between them; the directory entry and the inode it names are kept apart,
  because creating the file and writing its record are two accesses and a writer keeps its
  inode after the name has been unlinked. A record is held as the conversions the readers
  apply to it (\<open>int(pid)\<close>, \<open>str(host)\<close>, \<open>float(ts)\<close>; \<open>None\<close> where one raises).
\<close>

section \<open>Records and staleness\<close>

record lease_rec =
  lr_pid :: "int option"
  lr_host :: string
  lr_ts :: "time option"

definition LEASE_STALE_INTERVALS :: rat where
  "LEASE_STALE_INTERVALS = 3"

definition lease_stale_after :: "time \<Rightarrow> time" where
  "lease_stale_after interval = max interval 0 * LEASE_STALE_INTERVALS"

definition file_lease_record :: "int \<Rightarrow> string \<Rightarrow> time \<Rightarrow> lease_rec" where
  "file_lease_record pid host ts = \<lparr>lr_pid = Some pid, lr_host = host, lr_ts = Some ts\<rparr>"

definition lease_held_by :: "lease_rec \<Rightarrow> int \<Rightarrow> string \<Rightarrow> bool" where
  "lease_held_by r pid host = (lr_pid r = Some pid \<and> lr_host r = host)"

definition lease_stale :: "lease_rec \<Rightarrow> time \<Rightarrow> time \<Rightarrow> bool" where
  "lease_stale r now interval = (case lr_ts r of
       None \<Rightarrow> True
     | Some ts \<Rightarrow> now - ts \<ge> lease_stale_after interval)"

section \<open>The file\<close>

datatype lease_data = LUnreadable | LRec lease_rec

record lease_fs =
  fs_path :: "nat option"
  fs_inodes :: "nat \<Rightarrow> lease_data"
  fs_next :: nat
  fs_creatable :: bool
  fs_unlinkable :: bool

definition fs_absent :: lease_fs where
  "fs_absent = \<lparr>fs_path = None, fs_inodes = (\<lambda>_. LUnreadable), fs_next = 0,
     fs_creatable = True, fs_unlinkable = True\<rparr>"

definition read_lease :: "lease_fs \<Rightarrow> lease_rec option" where
  "read_lease fs = (case fs_path fs of
       None \<Rightarrow> None
     | Some i \<Rightarrow> (case fs_inodes fs i of LUnreadable \<Rightarrow> None | LRec r \<Rightarrow> Some r))"

text \<open>\<open>os.open\<close> with \<open>O_EXCL\<close>: a new empty file, whose inode the descriptor keeps.\<close>

definition fs_create :: "lease_fs \<Rightarrow> lease_fs" where
  "fs_create fs = fs\<lparr>fs_path := Some (fs_next fs),
     fs_inodes := (fs_inodes fs)(fs_next fs := LUnreadable), fs_next := Suc (fs_next fs)\<rparr>"

definition fs_write :: "nat \<Rightarrow> lease_rec \<Rightarrow> lease_fs \<Rightarrow> lease_fs" where
  "fs_write i r fs = fs\<lparr>fs_inodes := (fs_inodes fs)(i := LRec r)\<rparr>"

text \<open>\<open>_atomic_bytes_write\<close>: a temporary file renamed over the path.\<close>

definition atomic_bytes_write :: "lease_rec \<Rightarrow> lease_fs \<Rightarrow> lease_fs" where
  "atomic_bytes_write r fs = fs\<lparr>fs_path := Some (fs_next fs),
     fs_inodes := (fs_inodes fs)(fs_next fs := LRec r), fs_next := Suc (fs_next fs)\<rparr>"

section \<open>acquire-lease, access by access\<close>

record lease_args =
  la_pid :: int
  la_host :: string
  la_now :: time
  la_interval :: time

datatype acq_pc =
    ARead | ARefresh | AMint | AMintWrite nat | AReread | ARecheck | AUnlink | ACreate
  | ACreateWrite nat | AReturned bool | ARaised

definition own_record :: "lease_args \<Rightarrow> lease_rec" where
  "own_record a = file_lease_record (la_pid a) (la_host a) (la_now a)"

definition live_lease :: "lease_args \<Rightarrow> lease_fs \<Rightarrow> lease_rec option" where
  "live_lease a fs = (case read_lease fs of
       None \<Rightarrow> None
     | Some r \<Rightarrow> if lease_stale r (la_now a) (la_interval a) then None else Some r)"

fun acquire_step :: "lease_args \<Rightarrow> acq_pc \<Rightarrow> lease_fs \<Rightarrow> acq_pc \<times> lease_fs" where
  "acquire_step a ARead fs =
     ((case live_lease a fs of
         Some r \<Rightarrow> if lease_held_by r (la_pid a) (la_host a) then ARefresh else AReturned False
       | None \<Rightarrow> if read_lease fs = None then AMint else ARecheck), fs)"
| "acquire_step a ARefresh fs =
     (if fs_creatable fs then (AReturned True, atomic_bytes_write (own_record a) fs) else (ARaised, fs))"
| "acquire_step a AMint fs =
     (if fs_path fs \<noteq> None then (AReread, fs)
      else if fs_creatable fs then (AMintWrite (fs_next fs), fs_create fs)
      else (ARaised, fs))"
| "acquire_step a (AMintWrite i) fs = (AReturned True, fs_write i (own_record a) fs)"
| "acquire_step a AReread fs = (if live_lease a fs \<noteq> None then AReturned False else ARecheck, fs)"
| "acquire_step a ARecheck fs = (if live_lease a fs \<noteq> None then AReturned False else AUnlink, fs)"
| "acquire_step a AUnlink fs =
     (if fs_path fs = None then (ACreate, fs)
      else if fs_unlinkable fs then (ACreate, fs\<lparr>fs_path := None\<rparr>)
      else (AReturned False, fs))"
| "acquire_step a ACreate fs =
     (if fs_path fs \<noteq> None \<or> \<not> fs_creatable fs then (AReturned False, fs)
      else (ACreateWrite (fs_next fs), fs_create fs))"
| "acquire_step a (ACreateWrite i) fs = (AReturned True, fs_write i (own_record a) fs)"
| "acquire_step a (AReturned b) fs = (AReturned b, fs)"
| "acquire_step a ARaised fs = (ARaised, fs)"

fun acquire_steps :: "nat \<Rightarrow> lease_args \<Rightarrow> acq_pc \<Rightarrow> lease_fs \<Rightarrow> acq_pc \<times> lease_fs" where
  "acquire_steps 0 a pc fs = (pc, fs)"
| "acquire_steps (Suc n) a pc fs = (let (pc', fs') = acquire_step a pc fs in acquire_steps n a pc' fs')"

text \<open>A call that runs with no other process in between: the longest path has seven accesses.\<close>

definition acquire_lease :: "lease_args \<Rightarrow> lease_fs \<Rightarrow> acq_pc \<times> lease_fs" where
  "acquire_lease a fs = acquire_steps 7 a ARead fs"

text \<open>Several processes, scheduled by the index of the one that moves.\<close>

record lease_system =
  ls_fs :: lease_fs
  ls_procs :: "(lease_args \<times> acq_pc) list"

definition system_step :: "lease_system \<Rightarrow> nat \<Rightarrow> lease_system" where
  "system_step s i = (if i < length (ls_procs s)
     then let (a, pc) = ls_procs s ! i; (pc', fs') = acquire_step a pc (ls_fs s)
          in \<lparr>ls_fs = fs', ls_procs = (ls_procs s)[i := (a, pc')]\<rparr>
     else s)"

section \<open>Every call returns\<close>

fun acq_rank :: "acq_pc \<Rightarrow> nat" where
  "acq_rank ARead = 7"
| "acq_rank AMint = 6"
| "acq_rank AReread = 5"
| "acq_rank ARecheck = 4"
| "acq_rank AUnlink = 3"
| "acq_rank ACreate = 2"
| "acq_rank ARefresh = 1"
| "acq_rank (AMintWrite _) = 1"
| "acq_rank (ACreateWrite _) = 1"
| "acq_rank _ = 0"

lemma acquire_step_rank: "acq_rank (fst (acquire_step a pc fs)) \<le> acq_rank pc - 1"
  by (cases pc) (auto split: option.splits)

lemma acq_rank_0: "acq_rank pc = 0 \<longleftrightarrow> pc \<in> {AReturned True, AReturned False, ARaised}"
  by (cases pc) auto

definition proc_rank :: "lease_system \<Rightarrow> nat \<Rightarrow> nat" where
  "proc_rank s i = acq_rank (snd (ls_procs s ! i))"

lemma system_step_length [simp]: "length (ls_procs (system_step s i)) = length (ls_procs s)"
  by (simp add: system_step_def Let_def split: prod.splits)

lemma system_step_rank:
  assumes "i < length (ls_procs s)"
  shows "proc_rank (system_step s j) i \<le> proc_rank s i - (if i = j then 1 else 0)"
proof (cases "j < length (ls_procs s)")
  case True
  obtain a pc where p: "ls_procs s ! j = (a, pc)" by (cases "ls_procs s ! j") auto
  show ?thesis
    using True assms acquire_step_rank [of a pc "ls_fs s"] p
    by (auto simp: system_step_def proc_rank_def Let_def split: prod.splits)
qed (use assms in \<open>simp add: system_step_def\<close>)

lemma system_run_rank:
  assumes "i < length (ls_procs s)"
  shows "proc_rank (run_ops system_step s sched) i \<le> proc_rank s i - count_list sched i"
  using assms
proof (induction sched arbitrary: s)
  case (Cons j js)
  have "proc_rank (run_ops system_step (system_step s j) js) i \<le> proc_rank (system_step s j) i - count_list js i"
    using Cons by simp
  also have "\<dots> \<le> proc_rank s i - (if i = j then 1 else 0) - count_list js i"
    using system_step_rank [OF Cons.prems, of j] by simp
  finally show ?case by auto
qed simp

section \<open>The uninterrupted call\<close>

definition lease_taken :: "lease_args \<Rightarrow> lease_fs \<Rightarrow> bool" where
  "lease_taken a fs = (case live_lease a fs of
       Some r \<Rightarrow> lease_held_by r (la_pid a) (la_host a)
     | None \<Rightarrow> True)"

lemmas fs_simps = fs_create_def fs_write_def atomic_bytes_write_def

lemma acquire_lease_alone:
  assumes "fs_creatable fs" and "fs_unlinkable fs"
  shows "acquire_lease a fs = (AReturned (lease_taken a fs), snd (acquire_lease a fs))"
    and "lease_taken a fs \<Longrightarrow> read_lease (snd (acquire_lease a fs)) = Some (own_record a)"
    and "\<not> lease_taken a fs \<Longrightarrow> snd (acquire_lease a fs) = fs"
    and "fs_creatable (snd (acquire_lease a fs)) \<and> fs_unlinkable (snd (acquire_lease a fs))"
  using assms
  by (auto simp: acquire_lease_def numeral_eq_Suc lease_taken_def live_lease_def read_lease_def fs_simps
      split: option.splits lease_data.splits if_splits)

definition lease_calls :: "lease_fs \<Rightarrow> lease_args list \<Rightarrow> lease_fs" where
  "lease_calls fs qs = run_ops (\<lambda>fs q. snd (acquire_lease q fs)) fs qs"

definition contender :: "lease_args \<Rightarrow> lease_args \<Rightarrow> bool" where
  "contender a q = ((la_pid q, la_host q) \<noteq> (la_pid a, la_host a) \<and>
     la_now q - la_now a < lease_stale_after (la_interval q))"

lemma contender_refused:
  assumes "read_lease fs = Some (own_record a)" and "contender a q"
  shows "\<not> lease_taken q fs"
  using assms by (auto simp: lease_taken_def live_lease_def contender_def own_record_def file_lease_record_def
      lease_stale_def lease_held_by_def)

lemma lease_calls_contenders:
  assumes "fs_creatable fs" and "fs_unlinkable fs" and "read_lease fs = Some (own_record a)"
    and "list_all (contender a) qs"
  shows "lease_calls fs qs = fs"
  using assms(4) acquire_lease_alone(3) [OF assms(1,2) contender_refused [OF assms(3)]]
  by (induction qs) (simp_all add: lease_calls_def)

section \<open>Properties\<close>

text \<open>C24: one launcher. When a process has taken the lease, every uninterrupted call of another
  process within three of its own intervals is refused and leaves the file alone, however
  many such calls came before it, and the holder's own next call in time succeeds.\<close>

theorem launcher_lease_exclusive:
  assumes "fs_creatable fs" and "fs_unlinkable fs"
    and "acquire_lease a fs = (AReturned True, fs')" and "list_all (contender a) (q # qs)"
    and "la_pid b = la_pid a" and "la_host b = la_host a"
  shows "acquire_lease q (lease_calls fs' qs) = (AReturned False, lease_calls fs' qs) \<and>
         fst (acquire_lease b (lease_calls fs' qs)) = AReturned True"
proof -
  have taken: "lease_taken a fs" and fs': "fs' = snd (acquire_lease a fs)"
    using acquire_lease_alone(1) [OF assms(1,2), of a] assms(3) by auto
  have ok: "fs_creatable fs'" "fs_unlinkable fs'" and rec: "read_lease fs' = Some (own_record a)"
    using acquire_lease_alone(2,4) [OF assms(1,2)] taken fs' by auto
  have same: "lease_calls fs' qs = fs'"
    using lease_calls_contenders [OF ok rec] assms(4) by simp
  have "\<not> lease_taken q fs'" using contender_refused [OF rec] assms(4) by simp
  moreover have "lease_taken b fs'"
    using rec assms(5,6) by (auto simp: lease_taken_def live_lease_def own_record_def file_lease_record_def
        lease_held_by_def split: option.splits)
  ultimately show ?thesis
    using same acquire_lease_alone(1,3) [OF ok, of q] acquire_lease_alone(1) [OF ok, of b]
    by (metis fst_conv)
qed

definition demo_launcher :: "int \<Rightarrow> time \<Rightarrow> lease_args" where
  "demo_launcher pid now = \<lparr>la_pid = pid, la_host = ''h1'', la_now = now, la_interval = 15\<rparr>"

theorem launcher_lease_exclusive_witness:
  "\<exists>fs'. acquire_lease (demo_launcher 1 0) fs_absent = (AReturned True, fs') \<and>
     acquire_lease (demo_launcher 2 44) (lease_calls fs' [demo_launcher 3 10]) =
       (AReturned False, lease_calls fs' [demo_launcher 3 10])"
proof -
  have ok: "fs_creatable fs_absent" "fs_unlinkable fs_absent" by (simp_all add: fs_absent_def)
  have "lease_taken (demo_launcher 1 0) fs_absent"
    by (simp add: lease_taken_def live_lease_def read_lease_def fs_absent_def)
  then have a: "acquire_lease (demo_launcher 1 0) fs_absent =
      (AReturned True, snd (acquire_lease (demo_launcher 1 0) fs_absent))"
    using acquire_lease_alone(1) [OF ok, of "demo_launcher 1 0"] by simp
  have c: "list_all (contender (demo_launcher 1 0)) [demo_launcher 2 44, demo_launcher 3 10]"
    by (simp add: contender_def demo_launcher_def lease_stale_after_def LEASE_STALE_INTERVALS_def)
  show ?thesis using a launcher_lease_exclusive [OF ok a c, of "demo_launcher 1 5"]
    by (auto simp: demo_launcher_def)
qed


definition demo_contenders :: lease_system where
  "demo_contenders = \<lparr>ls_fs = fs_absent, ls_procs = [(demo_launcher 1 0, ARead), (demo_launcher 2 0, ARead)]\<rparr>"



end
