(* ===== verification/Mcp_Profiles.thy ===== *)
theory Mcp_Profiles
  imports Harness_Prelude
begin

text \<open>
  MCP profiles (\<open>mcp_profiles.py\<close>): the built-in table, the profiles of the user file and
  of the project file, the resolution of a role's profile by precedence, the graphify
  aliases a task adds, and the rendered per-role configuration with its redaction. The two
  files are given as parsed (\<open>None\<close>: missing or refused by the parser), the environment
  as a function, and Python's \<open>repr\<close> as the argument \<open>render\<close>.
\<close>

section \<open>Profiles\<close>

record mcp_profile =
  mp_name :: string
  mp_description :: string
  mp_servers :: "string list option"
  mp_read_only :: bool
  mp_source :: string
  mp_reason :: string

definition is_none :: "mcp_profile \<Rightarrow> bool" where
  "is_none p = (mp_name p = ''none'' \<or> mp_servers p = Some [])"

definition GRAPHIFY_LIVE :: string where "GRAPHIFY_LIVE = ''graphify''"
definition GRAPHIFY_UAT :: string where "GRAPHIFY_UAT = ''graphifyuat''"

definition AUDIT_SERVERS :: "string list" where
  "AUDIT_SERVERS = [''kb'', ''guides'', ''skills'', ''memory'', ''langfuse_mcp'']"

text \<open>Name, description, servers (\<open>None\<close>: all of them) and the read-only flag.\<close>

definition BUILTINS :: "(string \<times> string \<times> string list option \<times> bool) list" where
  "BUILTINS =
    [(''none'', ''No MCP servers; disables generated per-role MCP config.'', Some [], True),
     (''audit'', ''Read-only audit tooling: kb, gateway guides/skills, hivemind memory, langfuse.'',
        Some AUDIT_SERVERS, True),
     (''default'', ''Audit + github, youtrack, ssh.'', Some (AUDIT_SERVERS @ [''github'', ''youtrack'', ''ssh'']), False),
     (''ops'', ''Default + hydra/fleet + proxmox hosts (pct/docker control).'',
        Some (AUDIT_SERVERS @ [''github'', ''youtrack'', ''ssh'', ''hydra'', ''hydrafleet'', ''proxmoxptait01'',
          ''proxmoxptait07'', ''proxmoxcorsairai300'']), False),
     (''full'', ''No gateway allow-list header; all configured servers permitted.'', None, False),
     (''graphify'', ''Graphify read-only graph tooling on the gateway (live + UAT aliases).'',
        Some [GRAPHIFY_LIVE, GRAPHIFY_UAT], True)]"

fun builtin_of :: "string \<times> string \<times> string list option \<times> bool \<Rightarrow> string \<times> mcp_profile" where
  "builtin_of (name, descr, servers, ro) =
     (name, \<lparr>mp_name = name, mp_description = descr, mp_servers = servers, mp_read_only = ro,
             mp_source = ''built-in'', mp_reason = ''built-in''\<rparr>)"

definition builtin_profiles :: "(string \<times> mcp_profile) list" where
  "builtin_profiles = map builtin_of BUILTINS"

text \<open>\<open>_BUILTINS[name]\<close>; the callers only pass names of the table.\<close>

definition builtin_profile :: "string \<Rightarrow> mcp_profile" where
  "builtin_profile name = the (map_of builtin_profiles name)"

text \<open>\<open>text.split(sep)\<close> for a one-character separator.\<close>

fun split_on :: "char \<Rightarrow> string \<Rightarrow> string \<Rightarrow> string list" where
  "split_on sep [] acc = [rev acc]"
| "split_on sep (c # cs) acc =
     (if c = sep then rev acc # split_on sep cs [] else split_on sep cs (c # acc))"

definition stripped_items :: "string list \<Rightarrow> string list" where
  "stripped_items xs = filter (\<lambda>s. s \<noteq> []) (map py_strip xs)"

text \<open>The \<open>servers\<close> field of a profile: \<open>None\<close> refuses the profile.\<close>

fun servers_field :: "(pyval \<Rightarrow> string) \<Rightarrow> pyval \<Rightarrow> string list option option" where
  "servers_field render PNone = Some None"
| "servers_field render (PStr s) = Some (Some (stripped_items (split_on (CHR '','') s [])))"
| "servers_field render (PList xs) = Some (Some (stripped_items (map (py_str render) xs)))"
| "servers_field render _ = None"

fun profile_entry :: "(pyval \<Rightarrow> string) \<Rightarrow> string \<Rightarrow> string \<times> pyval \<Rightarrow> (string \<times> mcp_profile) option" where
  "profile_entry render source (name, PDict spec) =
     (case servers_field render (dget spec ''servers'') of
        None \<Rightarrow> None
      | Some servers \<Rightarrow> Some (name,
          \<lparr>mp_name = name,
           mp_description = (if has_key spec ''description'' then py_str render (dget spec ''description'') else []),
           mp_servers = servers, mp_read_only = truthy (dget spec ''read_only''),
           mp_source = source, mp_reason = []\<rparr>))"
| "profile_entry render source (name, _) = None"

definition load_user_profiles :: "(pyval \<Rightarrow> string) \<Rightarrow> pyval option \<Rightarrow> (string \<times> mcp_profile) list" where
  "load_user_profiles render file = (case file of
       Some (PDict data) \<Rightarrow> List.map_filter (profile_entry render ''user'') data
     | _ \<Rightarrow> [])"

definition load_project_profiles :: "(pyval \<Rightarrow> string) \<Rightarrow> pyval option \<Rightarrow> (string \<times> mcp_profile) list" where
  "load_project_profiles render file = (case file of
       Some (PDict payload) \<Rightarrow> (case dget payload ''run'' of
         PDict run \<Rightarrow> (case dget run ''mcp_profiles'' of
           PDict raw \<Rightarrow> List.map_filter (profile_entry render ''project'') raw
         | _ \<Rightarrow> [])
       | _ \<Rightarrow> [])
     | _ \<Rightarrow> [])"

section \<open>Resolution\<close>

record mcp_env =
  me_render :: "pyval \<Rightarrow> string"
  me_user :: "pyval option"
  me_project :: "pyval option"
  me_var :: "string \<Rightarrow> string option"

text \<open>A variable that is unset or empty does not count.\<close>

definition set_var :: "mcp_env \<Rightarrow> string \<Rightarrow> string option" where
  "set_var env name = (case me_var env name of Some (c # cs) \<Rightarrow> Some (c # cs) | _ \<Rightarrow> None)"

definition gateway_key :: "mcp_env \<Rightarrow> string option" where
  "gateway_key env = (case me_var env ''LH_HARNESS_MCP_GATEWAY_KEY'' of
       None \<Rightarrow> None
     | Some v \<Rightarrow> if py_strip v = [] then None else Some (py_strip v))"

definition AUDITOR_ROLES :: "string list" where
  "AUDITOR_ROLES = [''gui_auditor'', ''cli_auditor'', ''auditor_format_repair'']"

definition is_auditor_role :: "string \<Rightarrow> bool" where
  "is_auditor_role role = (role \<in> set AUDITOR_ROLES)"

definition public_role :: "string \<Rightarrow> string" where
  "public_role role =
     (if role \<in> set [''gui_executor'', ''cli_executor''] then ''executor''
      else if role \<in> set [''gui_auditor'', ''cli_auditor'', ''auditor_format_repair''] then ''auditor''
      else if role = ''final_response'' then ''manager''
      else role)"

text \<open>\<open>str.upper\<close> on the ASCII letters role names are made of.\<close>

definition upper_char :: "char \<Rightarrow> char" where
  "upper_char c = (if is_lower_alpha c then char_of ((of_char c :: nat) - 32) else c)"

definition role_var :: "string \<Rightarrow> string" where
  "role_var role = ''LH_HARNESS_WEB_DEFAULT_'' @ map upper_char (public_role role) @ ''_MCP_PROFILE''"

definition global_default_profile :: "mcp_env \<Rightarrow> string option" where
  "global_default_profile env = map_option py_strip (set_var env ''LH_HARNESS_WEB_DEFAULT_MCP_PROFILE'')"

text \<open>
  \<open>_web_default_profile(role)\<close>: a per-role variable that is set decides alone, even
  when it holds only blanks (then there is no per-role default).
\<close>

definition web_default_profile :: "mcp_env \<Rightarrow> string \<Rightarrow> string option" where
  "web_default_profile env role =
     (case (if role = [] then None else set_var env (role_var role)) of
        Some v \<Rightarrow> (if py_strip v = [] then None else Some (py_strip v))
      | None \<Rightarrow> global_default_profile env)"

definition default_profile_for_role :: "string \<Rightarrow> string" where
  "default_profile_for_role role =
     (if role = ''auditor'' then ''audit'' else if is_auditor_role role then ''audit'' else ''default'')"

definition all_profiles :: "mcp_env \<Rightarrow> (string \<times> mcp_profile) list" where
  "all_profiles env = builtin_profiles @ load_user_profiles (me_render env) (me_user env) @
     load_project_profiles (me_render env) (me_project env)"

definition named :: "string option \<Rightarrow> string \<Rightarrow> (string \<times> string) list" where
  "named v src = (case v of Some (c # cs) \<Rightarrow> [(c # cs, src)] | _ \<Rightarrow> [])"

text \<open>The names to try, in the order of precedence, each with where it comes from.\<close>

definition profile_candidates ::
    "mcp_env \<Rightarrow> string \<Rightarrow> string option \<Rightarrow> string option \<Rightarrow> pydict \<Rightarrow> (string \<times> string) list" where
  "profile_candidates env role run_profile role_profile config =
     named role_profile (''API/CLI role override for '' @ role) @
     named run_profile ''API/CLI run-level override'' @
     (case map_of config ''roles'' of
        Some (PDict roles) \<Rightarrow> (case map_of roles role of
          Some (PDict rc) \<Rightarrow>
            (if truthy (dget rc ''mcp_profile'')
             then [(py_str (me_render env) (dget rc ''mcp_profile''), ''config [run.roles.'' @ role @ '']'')] else [])
        | _ \<Rightarrow> [])
      | _ \<Rightarrow> []) @
     (if truthy (dget config ''mcp_profile'')
      then [(py_str (me_render env) (dget config ''mcp_profile''), ''config run.mcp_profile'')] else []) @
     (case web_default_profile env role of
        Some (c # cs) \<Rightarrow> [(c # cs,
          if set_var env (role_var role) \<noteq> None then ''env '' @ role_var role
          else ''env LH_HARNESS_WEB_DEFAULT_MCP_PROFILE'')]
      | _ \<Rightarrow> named (global_default_profile env) ''env LH_HARNESS_WEB_DEFAULT_MCP_PROFILE'') @
     [(default_profile_for_role role, ''built-in default'')]"

definition select_profile ::
    "mcp_env \<Rightarrow> string \<Rightarrow> (string \<times> string) list \<Rightarrow> string \<times> string" where
  "select_profile env role cands =
     (case find (\<lambda>c. map_of (all_profiles env) (fst c) \<noteq> None) cands of
        Some (name, src) \<Rightarrow>
          (name, if fst (hd cands) \<noteq> name
                 then ''unknown profile '' @ me_render env (PStr (fst (hd cands))) @
                      ''; falling back to '' @ name @ '' ('' @ src @ '')''
                 else src)
      | None \<Rightarrow>
          (case cands of
             (c, _) # _ \<Rightarrow> (default_profile_for_role role,
               ''unknown profile '' @ me_render env (PStr c) @ ''; falling back to built-in '' @
               default_profile_for_role role)
           | [] \<Rightarrow> (''none'', ''no matching profile found'')))"

text \<open>\<open>resolve_profile\<close>; \<open>Inl\<close> is its \<open>ValueError\<close> with the message.\<close>

definition resolve_profile ::
    "mcp_env \<Rightarrow> string \<Rightarrow> string option \<Rightarrow> string option \<Rightarrow> pydict \<Rightarrow> bool \<Rightarrow> string option
     \<Rightarrow> (string, mcp_profile) result" where
  "resolve_profile env role run_profile role_profile config allow_write key =
     (let (name, reason) = select_profile env role
            (profile_candidates env role run_profile role_profile config);
          profile = (case map_of (all_profiles env) name of Some p \<Rightarrow> p | None \<Rightarrow> builtin_profile name);
          effective_key = (case key of Some k \<Rightarrow> Some k | None \<Rightarrow> gateway_key env)
      in if \<not> is_none profile \<and> effective_key = None
         then Inr ((builtin_profile ''none'')\<lparr>mp_reason := ''gateway key not configured''\<rparr>)
         else if is_auditor_role role \<and> \<not> mp_read_only profile \<and> \<not> allow_write
         then Inl (''MCP profile '' @ me_render env (PStr (mp_name profile)) @
                   '' is not read-only; auditor roles require a read-only profile. Set a read-only profile or set config allow_auditor_write_mcp = true.'')
         else Inr (profile\<lparr>mp_reason := reason\<rparr>))"

section \<open>Graphify\<close>

definition is_ascii_alnum :: "char \<Rightarrow> bool" where
  "is_ascii_alnum c = (is_digit c \<or> is_lower_alpha c \<or> is_upper_alpha c)"

definition uat_words :: "string list" where
  "uat_words = [''ct204'', ''ct100'', ''chat-uat'', ''chat.uat'']"

text \<open>The word \<open>w\<close> at the start of \<open>s\<close> (already in lower case), not followed by a letter or a digit.\<close>

definition word_here :: "string \<Rightarrow> string \<Rightarrow> bool" where
  "word_here s w = (take (length w) s = w \<and>
     (case drop (length w) s of [] \<Rightarrow> True | c # _ \<Rightarrow> \<not> is_ascii_alnum c))"

text \<open>The search of the UAT pattern; \<open>prev\<close> says a letter or a digit stands just before.\<close>

fun uat_search :: "bool \<Rightarrow> string \<Rightarrow> bool" where
  "uat_search prev [] = False"
| "uat_search prev (c # cs) =
     ((\<not> prev \<and> list_ex (word_here (c # cs)) uat_words) \<or> uat_search (is_ascii_alnum c) cs)"

definition graphify_servers_for_task :: "string \<Rightarrow> string list" where
  "graphify_servers_for_task task =
     (if uat_search False (py_lower task) then [GRAPHIFY_LIVE, GRAPHIFY_UAT] else [GRAPHIFY_LIVE])"

fun merge_names :: "string list \<Rightarrow> string list \<Rightarrow> string list" where
  "merge_names merged [] = merged"
| "merge_names merged (n # ns) =
     merge_names (if n \<noteq> [] \<and> n \<notin> set merged then merged @ [n] else merged) ns"

definition with_graphify :: "mcp_profile \<Rightarrow> string \<Rightarrow> mcp_profile" where
  "with_graphify p task = (case mp_servers p of
       None \<Rightarrow> p
     | Some servers \<Rightarrow>
         if mp_name p = ''graphify'' then p\<lparr>mp_servers := Some (graphify_servers_for_task task)\<rparr>
         else p\<lparr>mp_servers := Some (merge_names [] (servers @ graphify_servers_for_task task))\<rparr>)"

section \<open>The rendered configuration\<close>

definition normalise_gateway_url :: "string option \<Rightarrow> string" where
  "normalise_gateway_url url =
     (let text = (case url of None \<Rightarrow> [] | Some u \<Rightarrow> py_strip u)
      in if text = [] then ''https://litellm-gateway-api.cognizioware.com/mcp/''
         else if text = ''lan'' then ''http://192.168.21.161:4000/mcp/''
         else if last text = CHR ''/'' then text else text @ ''/'')"

text \<open>
  The extra headers variable as parsed (\<open>None\<close>: unset, empty or not JSON); only scalar
  values count.
\<close>

fun header_value :: "(pyval \<Rightarrow> string) \<Rightarrow> string \<times> pyval \<Rightarrow> (string \<times> string) option" where
  "header_value render (k, PNone) = None"
| "header_value render (k, PList _) = None"
| "header_value render (k, PDict _) = None"
| "header_value render (k, v) = Some (py_strip k, py_str render v)"

definition extra_gateway_headers :: "(pyval \<Rightarrow> string) \<Rightarrow> pyval option \<Rightarrow> (string \<times> string) list" where
  "extra_gateway_headers render parsed = (case parsed of
       Some (PDict d) \<Rightarrow> foldl (\<lambda>h kv. aupd (fst kv) (snd kv) h) [] (List.map_filter (header_value render) d)
     | _ \<Rightarrow> [])"

text \<open>
  \<open>render_mcp_config\<close> up to writing the file: nothing for an empty profile, the
  \<open>RuntimeError\<close> when there is no key, otherwise the JSON object. \<open>extra\<close> is the
  parsed extra headers variable.
\<close>

definition render_mcp_config ::
    "mcp_env \<Rightarrow> pyval option \<Rightarrow> mcp_profile \<Rightarrow> string \<Rightarrow> string option \<Rightarrow> (string, pyval option) result" where
  "render_mcp_config env extra p session_id key =
     (if is_none p then Inr None
      else case (case key of Some k \<Rightarrow> Some k | None \<Rightarrow> gateway_key env) of
        None \<Rightarrow> Inl ''cannot render MCP config without LH_HARNESS_MCP_GATEWAY_KEY''
      | Some k \<Rightarrow>
          let headers = foldl (\<lambda>h kv. aupd (fst kv) (snd kv) h)
                [(''Authorization'', ''Bearer '' @ k),
                 (''x-mcp-servers'', case mp_servers p of None \<Rightarrow> [] | Some ss \<Rightarrow> py_join '','' ss),
                 (''X-LH-Session'', session_id)]
                (extra_gateway_headers (me_render env) extra)
          in Inr (Some (PDict [(''mcpServers'', PDict [(''cognizioware'', PDict
               [(''type'', PStr ''http''),
                (''url'', PStr (normalise_gateway_url (me_var env ''LH_HARNESS_MCP_GATEWAY_URL''))),
                (''headers'', PDict (map (\<lambda>(h, v). (h, PStr v)) headers))])])])))"

fun redact_server :: "string \<times> pyval \<Rightarrow> string \<times> pyval" where
  "redact_server (name, PDict server) = (name, case map_of server ''headers'' of
       Some (PDict headers) \<Rightarrow>
         (if has_key headers ''Authorization''
          then PDict (aupd ''headers'' (PDict (aupd ''Authorization'' (PStr ''***REDACTED***'') headers)) server)
          else PDict server)
     | _ \<Rightarrow> PDict server)"
| "redact_server p = p"

definition redact_mcp_config_for_display :: "pydict \<Rightarrow> pydict" where
  "redact_mcp_config_for_display data = (case map_of data ''mcpServers'' of
       Some (PDict servers) \<Rightarrow> aupd ''mcpServers'' (PDict (map redact_server servers)) data
     | _ \<Rightarrow> data)"

section \<open>Lemmas\<close>

lemma builtin_names: "fst ` set builtin_profiles = {''none'', ''audit'', ''default'', ''ops'', ''full'', ''graphify''}"
  by (simp add: builtin_profiles_def BUILTINS_def)

lemma map_of_all_builtin:
  "map_of builtin_profiles n = Some p \<Longrightarrow> map_of (all_profiles env) n = Some p"
  by (simp add: all_profiles_def)

lemma default_profile_known: "map_of (all_profiles env) (default_profile_for_role role) \<noteq> None"
  by (simp add: all_profiles_def default_profile_for_role_def builtin_profiles_def BUILTINS_def)

text \<open>The last candidate is a built-in profile, so some candidate is always known.\<close>

lemma candidates_last:
  "(default_profile_for_role role, ''built-in default'') \<in>
     set (profile_candidates env role run_profile role_profile config)"
  by (simp add: profile_candidates_def)

lemma candidate_found:
  "\<exists>name src. find (\<lambda>c. map_of (all_profiles env) (fst c) \<noteq> None)
      (profile_candidates env role run_profile role_profile config) = Some (name, src)"
  using default_profile_known [of env role] candidates_last [of role env run_profile role_profile config]
    find_None [of "\<lambda>c. map_of (all_profiles env) (fst c) \<noteq> None"
      "profile_candidates env role run_profile role_profile config"]
  by (cases "find (\<lambda>c. map_of (all_profiles env) (fst c) \<noteq> None)
      (profile_candidates env role run_profile role_profile config)") force+

lemma profile_entry_name: "profile_entry render src q = Some (n, p) \<Longrightarrow> mp_name p = n"
  by (cases "(render, src, q)" rule: profile_entry.cases) (auto split: option.splits)

lemma map_filter_entry_name:
  "map_of (List.map_filter (profile_entry render src) xs) n = Some p \<Longrightarrow> mp_name p = n"
  by (auto dest!: map_of_SomeD simp: map_filter_def) (rule profile_entry_name)

lemma builtin_name: "map_of builtin_profiles n = Some p \<Longrightarrow> mp_name p = n"
  by (auto simp: builtin_profiles_def BUILTINS_def split: if_splits)

lemma all_profiles_name: "map_of (all_profiles env) n = Some p \<Longrightarrow> mp_name p = n"
  by (auto simp: all_profiles_def map_add_Some_iff load_user_profiles_def load_project_profiles_def
      split: option.splits pyval.splits if_splits
      dest: builtin_name map_filter_entry_name)

lemma merge_names_set: "set (merge_names acc ns) = set acc \<union> (set ns - {[]})"
  by (induction ns arbitrary: acc) auto

lemma merge_names_prefix: "\<exists>zs. merge_names acc ns = acc @ zs"
proof (induction ns arbitrary: acc)
  case Nil
  then show ?case by simp
next
  case (Cons n ns)
  have "\<exists>zs. merge_names (acc @ [n]) ns = acc @ zs" using Cons [of "acc @ [n]"] by auto
  then show ?case using Cons [of acc] by simp
qed

lemma merge_names_distinct: "distinct acc \<Longrightarrow> distinct (merge_names acc ns)"
  by (induction ns arbitrary: acc) auto

lemma merge_names_skip: "set ns \<subseteq> insert [] (set acc) \<Longrightarrow> merge_names acc ns = acc"
  by (induction ns) auto

lemma merge_names_append: "merge_names acc (xs @ ys) = merge_names (merge_names acc xs) ys"
  by (induction xs arbitrary: acc) auto

lemma merge_names_fresh: "distinct (acc @ ns) \<Longrightarrow> [] \<notin> set ns \<Longrightarrow> merge_names acc ns = acc @ ns"
  by (induction ns arbitrary: acc) auto

lemma graphify_servers: "GRAPHIFY_LIVE \<in> set (graphify_servers_for_task t)" "[] \<notin> set (graphify_servers_for_task t)"
  by (simp_all add: graphify_servers_for_task_def GRAPHIFY_LIVE_def GRAPHIFY_UAT_def)

lemma foldl_aupd_keeps: "k \<in> fst ` set h \<Longrightarrow> k \<in> fst ` set (foldl (\<lambda>h kv. aupd (fst kv) (snd kv) h) h kvs)"
  by (induction kvs arbitrary: h) auto

section \<open>Properties\<close>

text \<open>The profile a list of candidates selects: the first known one.\<close>

definition first_known :: "mcp_env \<Rightarrow> (string \<times> string) list \<Rightarrow> mcp_profile option" where
  "first_known env cands =
     Option.bind (find (\<lambda>c. map_of (all_profiles env) (fst c) \<noteq> None) cands)
       (\<lambda>c. map_of (all_profiles env) (fst c))"

text \<open>Equal up to the reason, which only says how the profile was found.\<close>

definition same_profile :: "mcp_profile \<Rightarrow> mcp_profile \<Rightarrow> bool" where
  "same_profile p q = (p\<lparr>mp_reason := []\<rparr> = q\<lparr>mp_reason := []\<rparr>)"

lemma same_profile_reason [simp]:
  "same_profile p (p\<lparr>mp_reason := r\<rparr>)" "same_profile (p\<lparr>mp_reason := r\<rparr>) p"
  by (simp_all add: same_profile_def)

lemma same_profileD:
  "same_profile p q \<Longrightarrow> mp_name p = mp_name q \<and> mp_servers p = mp_servers q \<and> mp_read_only p = mp_read_only q"
  by (cases p; cases q) (simp add: same_profile_def)

lemma resolve_profile_first:
  "\<exists>p reason. first_known env (profile_candidates env role rn rl config) = Some p \<and>
     resolve_profile env role rn rl config allow key =
       (if \<not> is_none p \<and> (case key of Some k \<Rightarrow> Some k | None \<Rightarrow> gateway_key env) = None
        then Inr ((builtin_profile ''none'')\<lparr>mp_reason := ''gateway key not configured''\<rparr>)
        else if is_auditor_role role \<and> \<not> mp_read_only p \<and> \<not> allow
        then Inl (''MCP profile '' @ me_render env (PStr (mp_name p)) @
                   '' is not read-only; auditor roles require a read-only profile. Set a read-only profile or set config allow_auditor_write_mcp = true.'')
        else Inr (p\<lparr>mp_reason := reason\<rparr>))"
proof -
  obtain name src where f: "find (\<lambda>c. map_of (all_profiles env) (fst c) \<noteq> None)
      (profile_candidates env role rn rl config) = Some (name, src)"
    using candidate_found by blast
  then obtain p where p: "map_of (all_profiles env) name = Some p"
    using find_SomeD [OF f] by auto
  have "first_known env (profile_candidates env role rn rl config) = Some p"
    using f p by (simp add: first_known_def)
  moreover obtain reason where "select_profile env role (profile_candidates env role rn rl config) = (name, reason)"
    using f by (simp add: select_profile_def)
  ultimately show ?thesis using p by (auto simp: resolve_profile_def)
qed


definition demo_mcp_env :: mcp_env where
  "demo_mcp_env = \<lparr>me_render = (\<lambda>_. ''?''), me_user = Some (PDict [(''audit'', PDict [(''servers'', PStr ''ssh'')])]),
     me_project = None, me_var = (\<lambda>_. None)\<rparr>"


text \<open>Adding a task's aliases keeps the read-only flag and the name, never touches an
  unrestricted profile, keeps every server of the allow-list once and adds the live alias, and
  adding them twice changes nothing.\<close>

lemma with_graphify_spec:
  "mp_read_only (with_graphify p t) = mp_read_only p \<and> mp_name (with_graphify p t) = mp_name p \<and>
   (mp_servers (with_graphify p t) = None) = (mp_servers p = None) \<and>
   with_graphify (with_graphify p t) t = with_graphify p t \<and>
   (case mp_servers (with_graphify p t) of None \<Rightarrow> True
    | Some ss \<Rightarrow> distinct ss \<and> GRAPHIFY_LIVE \<in> set ss \<and>
        (if mp_name p = ''graphify'' then ss = graphify_servers_for_task t
         else set ss = (set (the (mp_servers p)) - {[]}) \<union> set (graphify_servers_for_task t)))"
proof (cases "mp_servers p")
  case None
  then show ?thesis by (simp add: with_graphify_def)
next
  case (Some ss)
  have d: "distinct (graphify_servers_for_task t)"
    by (simp add: graphify_servers_for_task_def GRAPHIFY_LIVE_def GRAPHIFY_UAT_def)
  let ?m = "merge_names [] (ss @ graphify_servers_for_task t)"
  have m: "distinct ?m" "set ?m = (set ss - {[]}) \<union> set (graphify_servers_for_task t)" "[] \<notin> set ?m"
    using graphify_servers(2) by (auto simp: merge_names_distinct merge_names_set)
  have "merge_names [] (?m @ graphify_servers_for_task t) = merge_names ?m (graphify_servers_for_task t)"
    using m by (simp only: merge_names_append) (simp add: merge_names_fresh)
  also have "\<dots> = ?m" using m(2) by (intro merge_names_skip) auto
  finally have "merge_names [] (?m @ graphify_servers_for_task t) = ?m" .
  then show ?thesis
    using Some d m graphify_servers(1) [of t] by (simp add: with_graphify_def)
qed

end
