(* ===== verification/Queue_Request.thy ===== *)
theory Queue_Request
  imports Mcp_Profiles "HOL-Library.List_Lexorder"
begin

text \<open>
  The enqueue request: \<open>queue.py\<close> from a \<open>POST /api/queue\<close> body to validated launch
  parameters. A body is a JSON object (\<^typ>\<open>pydict\<close>); every validator returns its
  cleaned value or the exception the code raises, with the code's message. What the code
  reads from its surroundings is an argument: the rollout mode variable, the task file
  reader, the set of valid trios, and the environment MCP profiles are resolved in. Values
  quoted in messages are spelled by Python's \<open>repr\<close>, the argument \<open>render\<close> of the
  profile environment.
\<close>

section \<open>Exceptions of the queue\<close>

datatype queue_exn =
    QValueError string
  | QUnknownField "string list"
  | QServiceUnavailable string

section \<open>Scalar validators\<close>

definition GTM_MANAGERS :: "string list" where
  "GTM_MANAGERS = [''overseer1'', ''overseer1-op'']"

definition DEFAULT_GTM_MANAGER :: string where
  "DEFAULT_GTM_MANAGER = ''overseer1''"

fun validate_gtm_manager :: "pyval \<Rightarrow> (queue_exn, string) result" where
  "validate_gtm_manager PNone = Inr DEFAULT_GTM_MANAGER"
| "validate_gtm_manager (PStr s) =
     (if py_strip s = [] \<or> py_strip s \<notin> set GTM_MANAGERS
      then Inl (QValueError ''gtm_manager must be one of: overseer1, overseer1-op'')
      else Inr (py_strip s))"
| "validate_gtm_manager _ =
     Inl (QValueError ''gtm_manager must be one of: overseer1, overseer1-op'')"

fun validate_time_limit_minutes :: "pyval \<Rightarrow> (queue_exn, int option) result" where
  "validate_time_limit_minutes PNone = Inr None"
| "validate_time_limit_minutes (PInt i) =
     (if 1 \<le> i \<and> i \<le> 1440 then Inr (Some i)
      else Inl (QValueError ''time_limit_minutes must be between 1 and 1440''))"
| "validate_time_limit_minutes _ =
     Inl (QValueError ''time_limit_minutes must be an integer between 1 and 1440 (or null)'')"

definition normalize_task_name :: "string \<Rightarrow> string" where
  "normalize_task_name name = take 120 (py_lower (py_strip (py_join '' '' (py_split name))))"

fun validate_task :: "pyval \<Rightarrow> (queue_exn, string) result" where
  "validate_task (PStr s) =
     (let text = py_strip s in
      if text = [] then Inl (QValueError ''task is required'')
      else if length text > 100000 then Inl (QValueError ''task is too large'')
      else if nul \<in> set text then Inl (QValueError ''task contains a NUL byte'')
      else Inr text)"
| "validate_task _ = Inl (QValueError ''task must be a string'')"

text \<open>
  The shape shared by \<open>_validate_name\<close> and \<open>_validate_workspace\<close>: required, bounded,
  without NUL.
\<close>

fun required_text :: "string \<Rightarrow> nat \<Rightarrow> pyval \<Rightarrow> (queue_exn, string) result" where
  "required_text field bound PNone = Inl (QValueError (field @ '' is required''))"
| "required_text field bound (PStr s) =
     (let text = py_strip s in
      if text = [] then Inl (QValueError (field @ '' is required''))
      else if length text > bound then Inl (QValueError (field @ '' is too long''))
      else if nul \<in> set text then Inl (QValueError (field @ '' contains a NUL byte''))
      else Inr text)"
| "required_text field bound _ = Inl (QValueError (field @ '' must be a string''))"

definition validate_name :: "pyval \<Rightarrow> (queue_exn, string) result" where
  "validate_name v = required_text ''name'' 256 v"

definition validate_workspace :: "pyval \<Rightarrow> (queue_exn, string) result" where
  "validate_workspace v = required_text ''workspace'' 4096 v"

fun validate_requested_by :: "pyval \<Rightarrow> (queue_exn, string) result" where
  "validate_requested_by PNone = Inl (QValueError ''requested_by is required'')"
| "validate_requested_by (PStr s) =
     (let text = py_strip s in
      if text = [] then Inl (QValueError ''requested_by is required'')
      else if length text > 256 then Inl (QValueError ''requested_by is too long'')
      else Inr text)"
| "validate_requested_by _ = Inl (QValueError ''requested_by must be a string'')"

definition DEFAULT_MAX_ROUNDS :: int where "DEFAULT_MAX_ROUNDS = 25"
definition MAX_ROUNDS :: int where "MAX_ROUNDS = 1000"

fun validate_max_rounds :: "pyval \<Rightarrow> (queue_exn, int) result" where
  "validate_max_rounds PNone = Inr DEFAULT_MAX_ROUNDS"
| "validate_max_rounds (PInt i) =
     (if 1 \<le> i \<and> i \<le> MAX_ROUNDS then Inr i
      else Inl (QValueError ''max_rounds must be from 1 to 1000''))"
| "validate_max_rounds _ = Inl (QValueError ''max_rounds must be an integer'')"

fun validate_priority :: "pyval \<Rightarrow> (queue_exn, int) result" where
  "validate_priority PNone = Inr 0"
| "validate_priority (PInt i) = Inr i"
| "validate_priority _ = Inl (QValueError ''priority must be an integer'')"

fun validate_base_check :: "pyval \<Rightarrow> (queue_exn, string) result" where
  "validate_base_check PNone = Inr []"
| "validate_base_check (PStr s) = Inr (py_strip s)"
| "validate_base_check _ = Inl (QValueError ''base_check must be a string'')"

text \<open>
  The shape shared by \<open>_validate_dedup_key\<close> and \<open>_validate_model_override\<close>: blank
  counts as absent.
\<close>

fun optional_text :: "string \<Rightarrow> nat \<Rightarrow> pyval \<Rightarrow> (queue_exn, string option) result" where
  "optional_text field bound PNone = Inr None"
| "optional_text field bound (PStr s) =
     (let text = py_strip s in
      if text = [] then Inr None
      else if length text > bound then Inl (QValueError (field @ '' is too long''))
      else if nul \<in> set text then Inl (QValueError (field @ '' contains a NUL byte''))
      else Inr (Some text))"
| "optional_text field bound _ = Inl (QValueError (field @ '' must be a string''))"

definition validate_dedup_key :: "pyval \<Rightarrow> (queue_exn, string option) result" where
  "validate_dedup_key v = optional_text ''dedup_key'' 256 v"

definition validate_model_override :: "pyval \<Rightarrow> (queue_exn, string option) result" where
  "validate_model_override v = optional_text ''model'' 256 v"

definition squote :: string where
  "squote = [char_of (39::nat)]"

text \<open>Python's \<open>'..' in text\<close>.\<close>

fun has_dotdot :: "string \<Rightarrow> bool" where
  "has_dotdot (a # b # cs) = ((a = CHR ''.'' \<and> b = CHR ''.'') \<or> has_dotdot (b # cs))"
| "has_dotdot _ = False"

fun validate_branch :: "pyval \<Rightarrow> (queue_exn, string) result" where
  "validate_branch PNone = Inr []"
| "validate_branch (PStr s) =
     (let text = py_strip s in
      if text = [] then Inr []
      else if length text > 256 then Inl (QValueError ''branch is too long'')
      else if nul \<in> set text \<or> has_dotdot text
      then Inl (QValueError ''branch contains an invalid sequence'')
      else if hd text = CHR ''-'' then Inl (QValueError (''branch must not start with '' @ squote @ ''-'' @ squote))
      else Inr text)"
| "validate_branch _ = Inl (QValueError ''branch must be a string'')"

fun validate_continue_branch :: "pyval \<Rightarrow> (queue_exn, bool) result" where
  "validate_continue_branch PNone = Inr False"
| "validate_continue_branch (PBool b) = Inr b"
| "validate_continue_branch _ = Inl (QValueError ''continue_branch must be a boolean'')"

section \<open>Trios\<close>

definition REQUIRED_TRIOS :: "string list" where
  "REQUIRED_TRIOS = [''kimi'', ''qwen'']"

definition OPTIONAL_TRIOS :: "string list" where
  "OPTIONAL_TRIOS = [''glm'', ''zai'', ''zaiq'', ''minimax'', ''mm31f'']"

definition VALID_TRIOS :: "string list" where
  "VALID_TRIOS = REQUIRED_TRIOS @ OPTIONAL_TRIOS"

fun trio_row_name :: "pyval \<Rightarrow> string option" where
  "trio_row_name (PDict row) =
     (if \<not> truthy (dget row ''enabled'') then None
      else case dget row ''name'' of
             PStr s \<Rightarrow> (if py_strip s = [] then None else Some (py_lower (py_strip s)))
           | _ \<Rightarrow> None)"
| "trio_row_name _ = None"

definition store_enabled_trio_names :: "pyval list \<Rightarrow> string list" where
  "store_enabled_trio_names rows = List.map_filter trio_row_name rows"

text \<open>
  \<open>valid_trios\<close> with its process-wide cache \<open>(names, stored at)\<close>. The settings store
  is absent, broken (its read raised), or gives its rows; \<open>now\<close> is the clock at entry
  and \<open>now'\<close> when the resolved set is stored. A failed read is not cached.
\<close>

datatype trio_store = NoStore | BrokenStore | StoreRows "pyval list"

definition valid_trios ::
    "(string list \<times> time) option \<Rightarrow> trio_store \<Rightarrow> time \<Rightarrow> time \<Rightarrow> bool
     \<Rightarrow> string list \<times> (string list \<times> time) option" where
  "valid_trios cache store now now' force =
     (let fresh = (case cache of Some (names, stored) \<Rightarrow> \<not> force \<and> now - stored < 30 | None \<Rightarrow> False)
      in if fresh then (fst (the cache), cache)
         else (case store of
                 BrokenStore \<Rightarrow> (VALID_TRIOS, cache)
               | NoStore \<Rightarrow> (VALID_TRIOS, Some (VALID_TRIOS, now'))
               | StoreRows rows \<Rightarrow>
                   let names = VALID_TRIOS @ store_enabled_trio_names rows
                   in (names, Some (names, now'))))"

fun validate_trio :: "string list \<Rightarrow> pyval \<Rightarrow> (queue_exn, string) result" where
  "validate_trio valid PNone = Inr []"
| "validate_trio valid (PStr s) =
     (let text = py_lower (py_strip s) in
      if text = [] then Inr []
      else if text \<notin> set valid
      then Inl (QValueError (''trio must be one of: '' @ py_join '', '' (sort (remdups valid))))
      else Inr text)"
| "validate_trio valid _ = Inl (QValueError ''trio/roles must be a string'')"

section \<open>Per-role configuration\<close>

definition ROLE_KEYS :: "string list" where
  "ROLE_KEYS = [''manager'', ''executor'', ''auditor'']"

definition AGENT_CHOICES :: "string list" where
  "AGENT_CHOICES = [''codex'', ''claude_code'', ''deepseek_harness'', ''opencode'']"

definition ROLE_FIELDS :: "string list" where
  "ROLE_FIELDS = [''agent'', ''model'', ''reasoning_effort'', ''mcp_profile'']"

definition is_effort_char :: "char \<Rightarrow> bool" where
  "is_effort_char c = (is_lower_alpha c \<or> is_upper_alpha c \<or> is_digit c \<or> c \<in> set ''._:-'')"

definition effort_re :: "string \<Rightarrow> bool" where
  "effort_re s = (1 \<le> length s \<and> length s \<le> 64 \<and> list_all is_effort_char s)"

fun normalise_reasoning_effort :: "pyval \<Rightarrow> (queue_exn, string) result" where
  "normalise_reasoning_effort PNone = Inr []"
| "normalise_reasoning_effort (PStr s) =
     (let effort = py_strip s in
      if effort = [] then Inr []
      else if \<not> dollar_match effort_re effort
      then Inl (QValueError ''reasoning effort may only contain letters, digits, '.', '_', ':' or '-' and must be at most 64 characters'')
      else Inr effort)"
| "normalise_reasoning_effort _ = Inl (QValueError ''reasoning effort must be a string'')"

definition supports_reasoning_effort :: "string \<Rightarrow> bool" where
  "supports_reasoning_effort agent = (agent \<in> set [''claude_code'', ''codex'', ''opencode''])"

definition default_model_for_agent :: "string \<Rightarrow> string" where
  "default_model_for_agent agent =
     (if agent = ''claude_code'' then ''claude-opus-5''
      else if agent = ''deepseek_harness'' then ''deepseek-v4-flash''
      else if agent = ''opencode'' then ''opencode/deepseek-v4-flash-free''
      else ''gpt-5.6-sol'')"

record role_binding =
  rb_agent :: string
  rb_model :: string
  rb_effort :: "string option"
  rb_profile :: "string option"

definition normalise_role ::
    "mcp_env \<Rightarrow> bool \<Rightarrow> string \<Rightarrow> string option \<Rightarrow> string option \<Rightarrow> string option \<Rightarrow> string \<Rightarrow> pyval
     \<Rightarrow> (queue_exn, role_binding) result" where
  "normalise_role env allow_write agent model effort profile role rawv =
     rbind (case rawv of
              PNone \<Rightarrow> Inr []
            | PDict d \<Rightarrow> Inr d
            | _ \<Rightarrow> Inl (QValueError (''roles.'' @ role @ '' must be an object''))) (\<lambda>raw.
     let extra = sort (remdups (filter (\<lambda>k. k \<notin> set ROLE_FIELDS) (map fst raw))) in
     rbind (raise_if (extra \<noteq> [])
              (QValueError (''unknown roles.'' @ role @ '' field: '' @ hd extra))) (\<lambda>_.
     rbind (case dget raw ''agent'' of
              PStr s \<Rightarrow> Inr (py_strip (if s = [] then agent else s))
            | v \<Rightarrow> if truthy v
                  then Inl (QValueError (''roles.'' @ role @ ''.agent must be codex, claude_code, deepseek_harness, or opencode''))
                  else Inr (py_strip agent)) (\<lambda>role_agent.
     rbind (raise_if (role_agent \<notin> set AGENT_CHOICES)
              (QValueError (''roles.'' @ role @ ''.agent must be codex, claude_code, deepseek_harness, or opencode''))) (\<lambda>_.
     let inherited = (case model of
              Some m \<Rightarrow> if role_agent = agent \<and> py_strip m \<noteq> [] then py_strip m
                        else default_model_for_agent role_agent
            | None \<Rightarrow> default_model_for_agent role_agent) in
     rbind (case dget raw ''model'' of
              PNone \<Rightarrow> Inr inherited
            | PStr s \<Rightarrow> Inr (if py_strip s = [] then inherited else py_strip s)
            | _ \<Rightarrow> Inl (QValueError (''roles.'' @ role @ ''.model must be a string''))) (\<lambda>role_model.
     rbind (raise_if (role_model = [] \<or> length role_model > 256 \<or> nul \<in> set role_model)
              (QValueError (''roles.'' @ role @ ''.model must be a non-empty string of at most 256 characters''))) (\<lambda>_.
     let raw_effort = (if dget raw ''reasoning_effort'' = PNone \<and> role_agent = agent
                       then (case effort of None \<Rightarrow> PNone | Some e \<Rightarrow> PStr e)
                       else dget raw ''reasoning_effort'') in
     rbind (case normalise_reasoning_effort raw_effort of
              Inl (QValueError m) \<Rightarrow> Inl (QValueError (''roles.'' @ role @ ''.reasoning_effort '' @ m))
            | r \<Rightarrow> r) (\<lambda>role_effort.
     rbind (raise_if (role_effort \<noteq> [] \<and> \<not> supports_reasoning_effort role_agent)
              (QValueError (''roles.'' @ role @ ''.agent '' @ role_agent @ '' does not accept a reasoning effort''))) (\<lambda>_.
     rbind (case dget raw ''mcp_profile'' of
              PNone \<Rightarrow> Inr (case profile of Some p \<Rightarrow> if p = [] then None else Some p | None \<Rightarrow> None)
            | PStr s \<Rightarrow> Inr (Some s)
            | _ \<Rightarrow> Inl (QValueError (''roles.'' @ role @ ''.mcp_profile must be a non-empty string''))) (\<lambda>raw_profile.
     rbind (raise_if (case raw_profile of Some p \<Rightarrow> py_strip p = [] | None \<Rightarrow> False)
              (QValueError (''roles.'' @ role @ ''.mcp_profile must be a non-empty string''))) (\<lambda>_.
     let prof = map_option py_strip raw_profile in
     rbind (case resolve_profile env role None prof [] allow_write (Some ''validation-only'') of
              Inl m \<Rightarrow> Inl (QValueError m)
            | Inr p \<Rightarrow> Inr p) (\<lambda>resolved.
     rbind (raise_if (\<not> mp_read_only resolved \<and> role = ''auditor'')
              (QValueError (''roles.'' @ role @ ''.mcp_profile '' @ me_render env (PStr (mp_name resolved)) @
                 '' is not read-only; auditor roles require a read-only MCP profile''))) (\<lambda>_.
     Inr \<lparr>rb_agent = role_agent, rb_model = role_model,
          rb_effort = (if role_effort = [] then None else Some role_effort),
          rb_profile = prof\<rparr>))))))))))))"

fun normalise_roles ::
    "(string \<Rightarrow> (queue_exn, role_binding) result) \<Rightarrow> string list
     \<Rightarrow> (queue_exn, (string \<times> role_binding) list) result" where
  "normalise_roles f [] = Inr []"
| "normalise_roles f (r # rs) =
     rbind (f r) (\<lambda>b. rbind (normalise_roles f rs) (\<lambda>bs. Inr ((r, b) # bs)))"

fun normalise_role_configs ::
    "mcp_env \<Rightarrow> bool \<Rightarrow> string \<Rightarrow> string option \<Rightarrow> string option \<Rightarrow> string option \<Rightarrow> pyval
     \<Rightarrow> (queue_exn, (string \<times> role_binding) list) result" where
  "normalise_role_configs env allow_write agent model effort profile PNone = Inr []"
| "normalise_role_configs env allow_write agent model effort profile (PDict d) =
     (let unknown = sort (remdups (filter (\<lambda>k. k \<notin> set ROLE_KEYS) (map fst d))) in
      if unknown \<noteq> [] then Inl (QValueError (''unknown role configuration: '' @ hd unknown))
      else normalise_roles (\<lambda>role. normalise_role env allow_write agent model effort profile role
             (case map_of d role of None \<Rightarrow> PDict [] | Some v \<Rightarrow> v)) ROLE_KEYS)"
| "normalise_role_configs env allow_write agent model effort profile _ =
     Inl (QValueError ''roles must be an object'')"

type_synonym role_pins = "(string \<times> (string \<times> string) list) list"

definition role_pin :: "pydict \<Rightarrow> string \<Rightarrow> (string \<times> string) option" where
  "role_pin raw key = (case dget raw key of
       PStr s \<Rightarrow> (if py_strip s = [] then None else Some (key, py_strip s))
     | _ \<Rightarrow> None)"

fun clean_role :: "string \<times> pyval \<Rightarrow> (string \<times> (string \<times> string) list) option" where
  "clean_role (role, PDict raw) =
     (let keep = List.map_filter (role_pin raw) ROLE_FIELDS
      in if keep = [] then None else Some (role, keep))"
| "clean_role (role, _) = None"

definition validate_roles_config ::
    "mcp_env \<Rightarrow> pydict \<Rightarrow> (queue_exn, role_pins option) result" where
  "validate_roles_config env d =
     rbind (normalise_role_configs env False ''codex'' None None None (PDict d)) (\<lambda>_.
     let cleaned = List.map_filter clean_role d
     in Inr (if cleaned = [] then None else Some cleaned))"

section \<open>The requester block\<close>

record requester =
  rq_kind :: string
  rq_name :: string
  rq_host :: string
  rq_address :: "string option"
  rq_cwd :: "string option"
  rq_agent :: "string option"
  rq_session_id :: "string option"
  rq_session_ref :: "string option"
  rq_notify :: string
  rq_legacy :: bool
  rq_observed_addr :: "string option"
  rq_verified_caller :: "string option"

definition bounded :: "string \<Rightarrow> nat \<Rightarrow> bool \<Rightarrow> pyval \<Rightarrow> (queue_exn, string) result" where
  "bounded field max_chars req v =
     rbind (case v of
              PNone \<Rightarrow> Inr []
            | PStr s \<Rightarrow> Inr (py_strip s)
            | _ \<Rightarrow> Inl (QValueError (field @ '' must be a string''))) (\<lambda>text.
     if req \<and> text = [] then Inl (QValueError (field @ '' is required''))
     else if length text > max_chars then Inl (QValueError (field @ '' is too long''))
     else if nul \<in> set text then Inl (QValueError (field @ '' contains a NUL byte''))
     else Inr text)"

text \<open>\<open>None\<close> stays \<open>None\<close>, anything else is bounded.\<close>

definition bounded_opt :: "string \<Rightarrow> nat \<Rightarrow> pyval \<Rightarrow> (queue_exn, string option) result" where
  "bounded_opt field max_chars v =
     (if v = PNone then Inr None else rbind (bounded field max_chars False v) (\<lambda>t. Inr (Some t)))"

fun hex_groups :: "nat list \<Rightarrow> string \<Rightarrow> bool" where
  "hex_groups [] s = (s = [])"
| "hex_groups [n] s = (length s = n \<and> list_all is_hex s)"
| "hex_groups (n # m # ns) s =
     (length s > n \<and> list_all is_hex (take n s) \<and> s ! n = CHR ''-'' \<and>
      hex_groups (m # ns) (drop (Suc n) s))"

definition uuid_re :: "string \<Rightarrow> bool" where
  "uuid_re s = hex_groups [8, 4, 4, 4, 12] s"

definition looks_like_hex :: "string \<Rightarrow> bool" where
  "looks_like_hex s = (s \<noteq> [] \<and> (dollar_match uuid_re s \<or> list_all is_hex s))"

definition REQUESTER_KINDS :: "string list" where
  "REQUESTER_KINDS = [''user'', ''ai'', ''service'']"

definition REQUESTER_FIELDS :: "string list" where
  "REQUESTER_FIELDS = [''kind'', ''name'', ''host'', ''address'', ''cwd'', ''agent'',
     ''session_id'', ''session_ref'', ''notify'']"

definition is_agent_char :: "char \<Rightarrow> bool" where
  "is_agent_char c = (is_lower_alpha c \<or> is_upper_alpha c \<or> is_digit c \<or> c \<in> set ''._-'')"

definition requester_agent_re :: "string \<Rightarrow> bool" where
  "requester_agent_re s = (1 \<le> length s \<and> length s \<le> 64 \<and> list_all is_agent_char s)"

text \<open>A key that must be present, then bounded and non-empty.\<close>

definition present_bounded ::
    "pydict \<Rightarrow> string \<Rightarrow> string \<Rightarrow> nat \<Rightarrow> (queue_exn, string) result" where
  "present_bounded d key missing max_chars =
     (if \<not> has_key d key then Inl (QValueError missing)
      else bounded (''requester.'' @ key) max_chars True (dget d key))"

definition ai_fields ::
    "pydict \<Rightarrow> (queue_exn, string option \<times> string option \<times> string option) result" where
  "ai_fields d =
     rbind (present_bounded d ''agent'' ''requester.agent is required when kind is ai'' 64) (\<lambda>agent.
     rbind (raise_if (\<not> dollar_match requester_agent_re agent)
              (QValueError ''requester.agent must match [A-Za-z0-9._-]'')) (\<lambda>_.
     rbind (present_bounded d ''session_id'' ''requester.session_id is required when kind is ai'' 128) (\<lambda>sid.
     rbind (present_bounded d ''cwd'' ''requester.cwd is required when kind is ai'' 4096) (\<lambda>cwd.
     Inr (Some agent, Some sid, Some cwd)))))"

fun validate_requester :: "pyval \<Rightarrow> (queue_exn, requester option) result" where
  "validate_requester PNone = Inr None"
| "validate_requester (PDict d) =
     rbind (raise_if (has_key d ''legacy'')
        (QValueError ''requester.legacy is set by the store or the API, not by the caller'')) (\<lambda>_.
     rbind (raise_if (has_key d ''observed_addr'')
        (QValueError ''requester.observed_addr is set by the store or the API, not by the caller'')) (\<lambda>_.
     rbind (raise_if (has_key d ''verified_caller'')
        (QValueError ''requester.verified_caller is set by the store or the API, not by the caller'')) (\<lambda>_.
     let unknown = sort (remdups (filter (\<lambda>k. k \<notin> set REQUESTER_FIELDS) (map fst d))) in
     rbind (raise_if (unknown \<noteq> []) (QUnknownField unknown)) (\<lambda>_.
     rbind (raise_if (\<not> has_key d ''kind'') (QValueError ''requester.kind is required'')) (\<lambda>_.
     rbind (case dget d ''kind'' of
              PStr s \<Rightarrow> if py_strip s \<in> set REQUESTER_KINDS then Inr (py_strip s)
                       else Inl (QValueError ''requester.kind must be one of: user, ai, service'')
            | _ \<Rightarrow> Inl (QValueError ''requester.kind must be one of: user, ai, service'')) (\<lambda>kind.
     rbind (present_bounded d ''name'' ''requester.name is required'' 128) (\<lambda>name.
     rbind (present_bounded d ''host'' ''requester.host is required'' 128) (\<lambda>host.
     rbind (bounded_opt ''requester.address'' 128 (dget d ''address'')) (\<lambda>address.
     rbind (if kind = ''ai'' then ai_fields d else Inr (None, None, None)) (\<lambda>(agent, sid, cwd).
     rbind (bounded_opt ''requester.session_ref'' 64 (dget d ''session_ref'')) (\<lambda>sref.
     rbind (if dget d ''notify'' = PNone then Inr ''none''
            else bounded ''requester.notify'' 512 False (dget d ''notify'')) (\<lambda>notify.
     Inr (Some \<lparr>rq_kind = kind, rq_name = name, rq_host = host, rq_address = address, rq_cwd = cwd,
        rq_agent = agent, rq_session_id = sid,
        rq_session_ref = (case sref of
            Some r \<Rightarrow> Some r
          | None \<Rightarrow> (case sid of
               Some i \<Rightarrow> if kind = ''ai'' \<and> i \<noteq> [] \<and> looks_like_hex i then Some (take 6 i) else None
             | None \<Rightarrow> None)),
        rq_notify = notify, rq_legacy = False, rq_observed_addr = None,
        rq_verified_caller = None\<rparr>)))))))))))))"
| "validate_requester _ = Inl (QValueError ''requester must be an object'')"

definition derive_requested_by :: "requester \<Rightarrow> (queue_exn, string) result" where
  "derive_requested_by b = (case rq_session_ref b of
       Some (c # cs) \<Rightarrow>
         rbind (bounded ''requester.session_ref'' 64 False (PStr (c # cs))) (\<lambda>t.
           Inr (rq_name b @ ''@'' @ rq_host b @ '' ['' @ t @ '']''))
     | _ \<Rightarrow> Inr (rq_name b @ ''@'' @ rq_host b))"

definition stamp_requester :: "requester \<Rightarrow> string option \<Rightarrow> string option \<Rightarrow> requester" where
  "stamp_requester b observed_addr verified_caller =
     b\<lparr>rq_observed_addr := (case observed_addr of None \<Rightarrow> rq_observed_addr b | Some a \<Rightarrow> Some a),
       rq_verified_caller := (case verified_caller of None \<Rightarrow> rq_verified_caller b | Some c \<Rightarrow> Some c)\<rparr>"

section \<open>The whole request\<close>

definition KNOWN_REQUEST_KEYS :: "string list" where
  "KNOWN_REQUEST_KEYS = [''name'', ''task'', ''task_file'', ''workspace'', ''max_rounds'', ''trio'',
     ''roles'', ''model'', ''priority'', ''branch'', ''continue_branch'', ''base_check'',
     ''requested_by'', ''dedup_key'', ''requester'', ''time_limit_minutes'', ''gtm_manager'']"

definition queue_requester_mode :: "string option \<Rightarrow> string" where
  "queue_requester_mode env =
     (let raw = py_lower (py_strip (case env of None \<Rightarrow> ''strict'' | Some s \<Rightarrow> s))
      in if raw \<notin> set [''strict'', ''legacy''] then ''strict'' else raw)"

text \<open>The task file: absent, unreadable (with the exception reading raises), or its text.\<close>

datatype task_file = NoTaskFile | TaskFileError queue_exn | TaskFileText string

record request_env =
  re_mode :: "string option"
  re_task_file :: "pyval \<Rightarrow> task_file"
  re_valid_trios :: "string list"
  re_mcp :: mcp_env

record queue_params =
  qp_name :: string
  qp_task :: string
  qp_workspace :: string
  qp_max_rounds :: int
  qp_trio :: string
  qp_model :: "string option"
  qp_roles :: "role_pins option"
  qp_priority :: int
  qp_branch :: string
  qp_continue_branch :: bool
  qp_base_check :: string
  qp_requested_by :: string
  qp_dedup_key :: "string option"
  qp_requester :: "requester option"
  qp_time_limit :: "int option"
  qp_gtm_manager :: string

definition request_task :: "request_env \<Rightarrow> pydict \<Rightarrow> (queue_exn, string) result" where
  "request_task env body =
     (let task = dget body ''task''; tf = dget body ''task_file'' in
      rbind (raise_if (task \<noteq> PNone \<and> tf \<noteq> PNone)
               (QValueError ''supply task or task_file, not both'')) (\<lambda>_.
      if tf \<noteq> PNone
      then (case re_task_file env tf of
              NoTaskFile \<Rightarrow> Inl (QValueError ''task_file does not exist'')
            | TaskFileError x \<Rightarrow> Inl x
            | TaskFileText t \<Rightarrow> validate_task (PStr t))
      else validate_task task))"

definition request_roles ::
    "request_env \<Rightarrow> pydict \<Rightarrow> (queue_exn, role_pins option \<times> pyval) result" where
  "request_roles env body = (case dget body ''roles'' of
       PDict d \<Rightarrow> rbind (validate_roles_config (re_mcp env) d) (\<lambda>r. Inr (r, dget body ''trio''))
     | v \<Rightarrow> Inr (None, if has_key body ''roles'' then v else dget body ''trio''))"

definition request_requester :: "request_env \<Rightarrow> pydict \<Rightarrow> (queue_exn, requester option) result" where
  "request_requester env body =
     (let raw = dget body ''requester''; by = dget body ''requested_by'' in
      if queue_requester_mode (re_mode env) = ''legacy'' then
        (if raw = PNone then
           rbind (validate_requested_by by) (\<lambda>n.
           Inr (Some \<lparr>rq_kind = ''unknown'', rq_name = n, rq_host = ''unknown'', rq_address = None,
             rq_cwd = None, rq_agent = None, rq_session_id = None, rq_session_ref = None,
             rq_notify = ''none'', rq_legacy = True, rq_observed_addr = None,
             rq_verified_caller = None\<rparr>))
         else validate_requester raw)
      else if raw = PNone
      then Inl (QValueError ''requester is required (kind, name, host; agent, session_id, cwd when kind=ai)'')
      else validate_requester raw)"

definition normalize_request :: "request_env \<Rightarrow> pydict \<Rightarrow> (queue_exn, queue_params) result" where
  "normalize_request env body =
     (let unknown = sort (remdups (filter (\<lambda>k. k \<notin> set KNOWN_REQUEST_KEYS) (map fst body))) in
      rbind (raise_if (unknown \<noteq> []) (QUnknownField unknown)) (\<lambda>_.
      rbind (request_task env body) (\<lambda>task_text.
      rbind (request_roles env body) (\<lambda>(roles_config, trio).
      rbind (validate_branch (dget body ''branch'')) (\<lambda>branch.
      rbind (validate_continue_branch (dget body ''continue_branch'')) (\<lambda>continue_branch.
      rbind (raise_if (branch \<noteq> [] \<and> continue_branch)
               (QValueError ''set branch or continue_branch, not both'')) (\<lambda>_.
      rbind (request_requester env body) (\<lambda>block.
      rbind (case block of
               Some b \<Rightarrow>
                 if dget body ''requested_by'' = PNone \<and> dget body ''requester'' \<noteq> PNone
                 then derive_requested_by b
                 else validate_requested_by (dget body ''requested_by'')
             | None \<Rightarrow> validate_requested_by (dget body ''requested_by'')) (\<lambda>requested_by.
      rbind (validate_name (dget body ''name'')) (\<lambda>name.
      rbind (validate_workspace (dget body ''workspace'')) (\<lambda>workspace.
      rbind (validate_max_rounds (dget body ''max_rounds'')) (\<lambda>max_rounds.
      rbind (validate_trio (re_valid_trios env) trio) (\<lambda>trio'.
      rbind (validate_model_override (dget body ''model'')) (\<lambda>model.
      rbind (validate_priority (dget body ''priority'')) (\<lambda>priority.
      rbind (validate_base_check (dget body ''base_check'')) (\<lambda>base_check.
      rbind (validate_dedup_key (dget body ''dedup_key'')) (\<lambda>dedup_key.
      rbind (validate_time_limit_minutes (dget body ''time_limit_minutes'')) (\<lambda>time_limit.
      rbind (validate_gtm_manager (dget body ''gtm_manager'')) (\<lambda>gtm.
      Inr \<lparr>qp_name = name, qp_task = task_text, qp_workspace = workspace,
           qp_max_rounds = max_rounds, qp_trio = trio', qp_model = model, qp_roles = roles_config,
           qp_priority = priority, qp_branch = branch, qp_continue_branch = continue_branch,
           qp_base_check = base_check, qp_requested_by = requested_by, qp_dedup_key = dedup_key,
           qp_requester = block, qp_time_limit = time_limit, qp_gtm_manager = gtm\<rparr>)))))))))))))))))))"

section \<open>The live model list\<close>

text \<open>
  The catalogue fetch either raised (\<open>None\<close>) or returned a value; the known ids are
  the \<open>id\<close> fields of every agent bucket as text, \<open>str(entry.get("id"))\<close>.
\<close>

definition live_models :: "pyval option \<Rightarrow> pydict option" where
  "live_models fetched = (case fetched of
       Some (PDict c) \<Rightarrow> (case dget c ''models'' of PDict m \<Rightarrow> Some m | _ \<Rightarrow> None)
     | _ \<Rightarrow> None)"

fun entry_id :: "(pyval \<Rightarrow> string) \<Rightarrow> pyval \<Rightarrow> string option" where
  "entry_id render (PDict e) = Some (py_str render (dget e ''id''))"
| "entry_id render _ = None"

fun bucket_ids :: "(pyval \<Rightarrow> string) \<Rightarrow> pyval \<Rightarrow> string list" where
  "bucket_ids render (PList es) = List.map_filter (entry_id render) es"
| "bucket_ids render _ = []"

definition validate_model_live ::
    "(pyval \<Rightarrow> string) \<Rightarrow> string \<Rightarrow> pyval option \<Rightarrow> (queue_exn, unit) result" where
  "validate_model_live render model fetched = (case live_models fetched of
       None \<Rightarrow> Inl (QServiceUnavailable ''the live model list is unavailable; refusing to enqueue an unvalidated model override'')
     | Some m \<Rightarrow>
         raise_if (model \<notin> set (concat (map (\<lambda>p. bucket_ids render (snd p)) m)))
           (QValueError (''unknown model '' @ render (PStr model) @ '' in the live model list'')))"

section \<open>What an accepted request guarantees\<close>

definition short_text :: "nat \<Rightarrow> string \<Rightarrow> bool" where
  "short_text n s = (s \<noteq> [] \<and> length s \<le> n \<and> nul \<notin> set s)"

definition requester_wf :: "requester \<Rightarrow> bool" where
  "requester_wf b =
     (rq_kind b \<in> set (''unknown'' # REQUESTER_KINDS) \<and> rq_name b \<noteq> [] \<and> rq_host b \<noteq> [] \<and>
      (rq_kind b = ''ai'') = (rq_agent b \<noteq> None) \<and> (rq_kind b = ''ai'') = (rq_session_id b \<noteq> None) \<and>
      (rq_kind b = ''ai'') = (rq_cwd b \<noteq> None) \<and>
      rq_observed_addr b = None \<and> rq_verified_caller b = None)"

definition params_wf :: "string list \<Rightarrow> queue_params \<Rightarrow> bool" where
  "params_wf trios p =
     (short_text 100000 (qp_task p) \<and> short_text 256 (qp_name p) \<and> short_text 4096 (qp_workspace p) \<and>
      1 \<le> qp_max_rounds p \<and> qp_max_rounds p \<le> MAX_ROUNDS \<and>
      qp_trio p \<in> set ([] # trios) \<and>
      pred_option (short_text 256) (qp_model p) \<and> pred_option (short_text 256) (qp_dedup_key p) \<and>
      length (qp_branch p) \<le> 256 \<and> \<not> has_dotdot (qp_branch p) \<and>
      take 1 (qp_branch p) \<noteq> ''-'' \<and> \<not> (qp_branch p \<noteq> [] \<and> qp_continue_branch p) \<and>
      qp_requested_by p \<noteq> [] \<and> pred_option requester_wf (qp_requester p) \<and> qp_requester p \<noteq> None \<and>
      pred_option (\<lambda>i. 1 \<le> i \<and> i \<le> 1440) (qp_time_limit p) \<and>
      qp_gtm_manager p \<in> set GTM_MANAGERS)"

lemma validate_task_Inr: "validate_task v = Inr t \<Longrightarrow> short_text 100000 t"
  by (cases v) (auto simp: Let_def short_text_def split: if_splits)

lemma required_text_Inr: "required_text fld n v = Inr t \<Longrightarrow> short_text n t"
  by (cases v) (auto simp: Let_def short_text_def split: if_splits)

lemma optional_text_Inr: "optional_text fld n v = Inr t \<Longrightarrow> pred_option (short_text n) t"
  by (cases v) (auto simp: Let_def short_text_def split: if_splits)

lemma request_task_Inr: "request_task env body = Inr t \<Longrightarrow> short_text 100000 t"
  by (auto simp: request_task_def Let_def rbind_eq_Inr validate_task_Inr
      simp del: validate_task.simps split: if_splits task_file.splits)

lemma validate_max_rounds_Inr: "validate_max_rounds v = Inr n \<Longrightarrow> 1 \<le> n \<and> n \<le> MAX_ROUNDS"
  by (cases v) (auto simp: DEFAULT_MAX_ROUNDS_def MAX_ROUNDS_def split: if_splits)

lemma validate_trio_Inr: "validate_trio trios v = Inr t \<Longrightarrow> t \<in> set ([] # trios)"
  by (cases v) (auto simp: Let_def split: if_splits)

lemma validate_branch_Inr:
  "validate_branch v = Inr b \<Longrightarrow> length b \<le> 256 \<and> \<not> has_dotdot b \<and> take 1 b \<noteq> ''-''"
  by (cases v; cases b) (auto simp: Let_def split: if_splits)

lemma validate_requested_by_Inr: "validate_requested_by v = Inr t \<Longrightarrow> t \<noteq> []"
  by (cases v) (auto simp: Let_def split: if_splits)

lemma validate_time_limit_Inr:
  "validate_time_limit_minutes v = Inr t \<Longrightarrow> pred_option (\<lambda>i. 1 \<le> i \<and> i \<le> 1440) t"
  by (cases v) (auto split: if_splits)

lemma validate_gtm_manager_Inr: "validate_gtm_manager v = Inr m \<Longrightarrow> m \<in> set GTM_MANAGERS"
  by (cases v) (auto simp: GTM_MANAGERS_def DEFAULT_GTM_MANAGER_def split: if_splits)

lemma present_bounded_Inr: "present_bounded d k m n = Inr t \<Longrightarrow> t \<noteq> []"
  by (auto simp: present_bounded_def bounded_def rbind_eq_Inr split: if_splits)

lemma ai_fields_Inr: "ai_fields d = Inr (a, i, c) \<Longrightarrow> a \<noteq> None \<and> i \<noteq> None \<and> c \<noteq> None"
  by (auto simp: ai_fields_def rbind_eq_Inr)

lemma validate_requester_Inr:
  assumes "validate_requester v = Inr b" and "v \<noteq> PNone"
  shows "pred_option requester_wf b \<and> b \<noteq> None"
  using assms
  by (cases v)
     (auto simp: Let_def rbind_eq_Inr requester_wf_def REQUESTER_KINDS_def
       dest!: present_bounded_Inr ai_fields_Inr split: pyval.splits if_splits)

lemma request_requester_Inr:
  "request_requester env body = Inr b \<Longrightarrow> pred_option requester_wf b \<and> b \<noteq> None"
  by (auto simp: request_requester_def Let_def rbind_eq_Inr requester_wf_def REQUESTER_KINDS_def
      simp del: validate_requester.simps validate_requested_by.simps
      dest: validate_requester_Inr validate_requested_by_Inr split: if_splits)

lemma derive_requested_by_Inr: "derive_requested_by b = Inr t \<Longrightarrow> requester_wf b \<Longrightarrow> t \<noteq> []"
  by (auto simp: derive_requested_by_def requester_wf_def rbind_eq_Inr
      split: option.splits list.splits)

lemma normalize_request_unknown:
  assumes "\<not> set (map fst body) \<subseteq> set KNOWN_REQUEST_KEYS"
  shows "normalize_request env body =
    Inl (QUnknownField (sort (remdups (filter (\<lambda>k. k \<notin> set KNOWN_REQUEST_KEYS) (map fst body)))))"
    (is "_ = Inl (QUnknownField ?ks)")
proof -
  have "set ?ks = set (map fst body) - set KNOWN_REQUEST_KEYS" by auto
  with assms have "?ks \<noteq> []" by (metis Diff_eq_empty_iff set_empty)
  then show ?thesis by (simp add: normalize_request_def Let_def)
qed

text \<open>Which validator accepted which field of the result.\<close>

lemma normalize_request_Inr:
  assumes "normalize_request env body = Inr p"
  shows "request_task env body = Inr (qp_task p)"
    and "validate_name (dget body ''name'') = Inr (qp_name p)"
    and "validate_workspace (dget body ''workspace'') = Inr (qp_workspace p)"
    and "validate_max_rounds (dget body ''max_rounds'') = Inr (qp_max_rounds p)"
    and "\<exists>r t. request_roles env body = Inr (r, t) \<and> validate_trio (re_valid_trios env) t = Inr (qp_trio p)"
    and "validate_model_override (dget body ''model'') = Inr (qp_model p)"
    and "validate_dedup_key (dget body ''dedup_key'') = Inr (qp_dedup_key p)"
    and "validate_branch (dget body ''branch'') = Inr (qp_branch p)"
    and "\<not> (qp_branch p \<noteq> [] \<and> qp_continue_branch p)"
    and "request_requester env body = Inr (qp_requester p)"
    and "validate_requested_by (dget body ''requested_by'') = Inr (qp_requested_by p) \<or>
         (\<exists>b. qp_requester p = Some b \<and> derive_requested_by b = Inr (qp_requested_by p))"
    and "validate_time_limit_minutes (dget body ''time_limit_minutes'') = Inr (qp_time_limit p)"
    and "validate_gtm_manager (dget body ''gtm_manager'') = Inr (qp_gtm_manager p)"
    and "set (map fst body) \<subseteq> set KNOWN_REQUEST_KEYS"
proof -
  note unfold = normalize_request_def Let_def rbind_eq_Inr split_beta
  show "request_task env body = Inr (qp_task p)"
    "validate_name (dget body ''name'') = Inr (qp_name p)"
    "validate_workspace (dget body ''workspace'') = Inr (qp_workspace p)"
    "validate_max_rounds (dget body ''max_rounds'') = Inr (qp_max_rounds p)"
    "validate_model_override (dget body ''model'') = Inr (qp_model p)"
    "validate_dedup_key (dget body ''dedup_key'') = Inr (qp_dedup_key p)"
    "validate_branch (dget body ''branch'') = Inr (qp_branch p)"
    "\<not> (qp_branch p \<noteq> [] \<and> qp_continue_branch p)"
    "request_requester env body = Inr (qp_requester p)"
    "validate_time_limit_minutes (dget body ''time_limit_minutes'') = Inr (qp_time_limit p)"
    "validate_gtm_manager (dget body ''gtm_manager'') = Inr (qp_gtm_manager p)"
    using assms unfolding unfold by clarsimp+
  show "\<exists>r t. request_roles env body = Inr (r, t) \<and> validate_trio (re_valid_trios env) t = Inr (qp_trio p)"
    using assms unfolding unfold by (clarsimp simp del: validate_trio.simps)
  show "set (map fst body) \<subseteq> set KNOWN_REQUEST_KEYS"
    using assms normalize_request_unknown [of body env] by fastforce
  show "validate_requested_by (dget body ''requested_by'') = Inr (qp_requested_by p) \<or>
         (\<exists>b. qp_requester p = Some b \<and> derive_requested_by b = Inr (qp_requested_by p))"
    using assms unfolding unfold by clarsimp (auto split: option.splits if_splits)
qed

lemma validate_name_Inr: "validate_name v = Inr t \<Longrightarrow> short_text 256 t"
  unfolding validate_name_def by (rule required_text_Inr)

lemma validate_workspace_Inr: "validate_workspace v = Inr t \<Longrightarrow> short_text 4096 t"
  unfolding validate_workspace_def by (rule required_text_Inr)

lemma validate_model_override_Inr: "validate_model_override v = Inr t \<Longrightarrow> pred_option (short_text 256) t"
  unfolding validate_model_override_def by (rule optional_text_Inr)

lemma validate_dedup_key_Inr: "validate_dedup_key v = Inr t \<Longrightarrow> pred_option (short_text 256) t"
  unfolding validate_dedup_key_def by (rule optional_text_Inr)

text \<open>C27: bounds of an accepted request. If a \<open>POST /api/queue\<close> body is accepted, in
  either rollout mode, every launch parameter is within the documented bounds: non-empty
  bounded NUL-free task, name and workspace, 1 to 1000 rounds, a trio that is unset or
  valid, bounded optional model and dedup key, a branch without \<open>..\<close> or a leading dash
  and never together with \<open>continue_branch\<close>, a non-empty \<open>requested_by\<close>, a time
  limit of 1 to 1440 minutes, one of the two managers, and a requester block that is
  always present, whose AI fields are present exactly for kind \<open>ai\<close> and which carries no
  store-set stamp.\<close>

theorem normalize_request_bounds:
  assumes "normalize_request env body = Inr p"
  shows "params_wf (re_valid_trios env) p"
proof -
  note acc = normalize_request_Inr [OF assms]
  have req: "pred_option requester_wf (qp_requester p) \<and> qp_requester p \<noteq> None"
    using acc(10) by (rule request_requester_Inr)
  have rby: "qp_requested_by p \<noteq> []"
    using acc(11) req by (auto dest: validate_requested_by_Inr derive_requested_by_Inr)
  have trio: "qp_trio p \<in> set ([] # re_valid_trios env)"
    using acc(5) validate_trio_Inr by blast
  show ?thesis
    unfolding params_wf_def
    using req rby trio acc(9) request_task_Inr [OF acc(1)] validate_name_Inr [OF acc(2)]
      validate_workspace_Inr [OF acc(3)] validate_max_rounds_Inr [OF acc(4)]
      validate_model_override_Inr [OF acc(6)] validate_dedup_key_Inr [OF acc(7)]
      validate_branch_Inr [OF acc(8)] validate_time_limit_Inr [OF acc(12)]
      validate_gtm_manager_Inr [OF acc(13)]
    by blast
qed

text \<open>A concrete accepted request.\<close>

definition demo_request_env :: request_env where
  "demo_request_env = \<lparr>re_mode = None, re_task_file = (\<lambda>_. NoTaskFile),
     re_valid_trios = VALID_TRIOS, re_mcp = demo_mcp_env\<rparr>"

definition demo_body :: pydict where
  "demo_body = [(''name'', PStr ''TASK-a''), (''task'', PStr '' do it ''), (''workspace'', PStr ''/w''),
     (''trio'', PStr ''Kimi''), (''max_rounds'', PInt 3), (''dedup_key'', PStr ''k1''),
     (''requester'', PDict [(''kind'', PStr ''user''), (''name'', PStr ''ann''), (''host'', PStr ''h1'')])]"

definition demo_requester :: pydict where
  "demo_requester = [(''kind'', PStr ''user''), (''name'', PStr ''ann''), (''host'', PStr ''h1'')]"

definition demo_params :: queue_params where
  "demo_params = \<lparr>qp_name = ''TASK-a'', qp_task = ''do it'', qp_workspace = ''/w'', qp_max_rounds = 3,
     qp_trio = ''kimi'', qp_model = None, qp_roles = None, qp_priority = 0, qp_branch = [],
     qp_continue_branch = False, qp_base_check = [], qp_requested_by = ''ann@h1'', qp_dedup_key = Some ''k1'',
     qp_requester = Some \<lparr>rq_kind = ''user'', rq_name = ''ann'', rq_host = ''h1'', rq_address = None,
       rq_cwd = None, rq_agent = None, rq_session_id = None, rq_session_ref = None,
       rq_notify = ''none'', rq_legacy = False, rq_observed_addr = None, rq_verified_caller = None\<rparr>,
     qp_time_limit = None, qp_gtm_manager = ''overseer1''\<rparr>"

lemmas request_eval =
  normalize_request_def request_task_def request_roles_def request_requester_def
  queue_requester_mode_def validate_name_def validate_workspace_def validate_model_override_def
  validate_dedup_key_def derive_requested_by_def present_bounded_def bounded_def bounded_opt_def
  has_key_def KNOWN_REQUEST_KEYS_def REQUESTER_FIELDS_def REQUESTER_KINDS_def VALID_TRIOS_def
  REQUIRED_TRIOS_def OPTIONAL_TRIOS_def DEFAULT_GTM_MANAGER_def MAX_ROUNDS_def

lemma demo_lower: "py_lower ''Kimi'' = ''kimi''" "py_lower ''strict'' = ''strict''"
  by code_simp+

lemma demo_requester_accepted:
  "validate_requester (PDict demo_requester) = Inr (qp_requester demo_params)"
  by (simp add: demo_requester_def demo_params_def request_eval py_eval)

lemma demo_request_accepted: "normalize_request demo_request_env demo_body = Inr demo_params"
  by (simp add: demo_request_env_def demo_body_def demo_params_def request_eval py_eval
      demo_lower)

theorem normalize_request_bounds_witness:
  "normalize_request demo_request_env demo_body = Inr demo_params \<and>
     params_wf (re_valid_trios demo_request_env) demo_params"
  using demo_request_accepted normalize_request_bounds [OF demo_request_accepted] by simp

text \<open>Unknown fields are refused, never dropped. A body with a key outside the
  known set is rejected, whatever the rest holds, and the error names exactly the unknown
  keys, sorted and without repetition.\<close>

lemma unknown_fields_rejected:
  assumes "\<not> set (map fst body) \<subseteq> set KNOWN_REQUEST_KEYS"
  shows "\<exists>ks. normalize_request env body = Inl (QUnknownField ks) \<and> sorted ks \<and> distinct ks \<and>
     set ks = set (map fst body) - set KNOWN_REQUEST_KEYS"
  using normalize_request_unknown [OF assms]
  by (auto intro!: exI [of _ "sort (remdups (filter (\<lambda>k. k \<notin> set KNOWN_REQUEST_KEYS) (map fst body)))"])

lemma unknown_fields_rejected_witness:
  "\<exists>ks. normalize_request demo_request_env ((''continue'', PBool True) # demo_body) = Inl (QUnknownField ks) \<and>
     set ks = {''continue''}"
proof -
  have h: "set (map fst ((''continue'', PBool True) # demo_body)) - set KNOWN_REQUEST_KEYS = {''continue''}"
    by (simp add: demo_body_def KNOWN_REQUEST_KEYS_def insert_Diff_if)
  then have "\<not> set (map fst ((''continue'', PBool True) # demo_body)) \<subseteq> set KNOWN_REQUEST_KEYS"
    by blast
  from unknown_fields_rejected [OF this, of demo_request_env] show ?thesis unfolding h by blast
qed

text \<open>The store's stamps cannot be forged. A requester block in which the caller
  sets \<open>legacy\<close>, \<open>observed_addr\<close> or \<open>verified_caller\<close> is refused; and the
  stamps on an accepted block are exactly the ones the API supplies at creation.\<close>

lemma requester_stamps_not_forgeable:
  "(has_key d ''legacy'' \<or> has_key d ''observed_addr'' \<or> has_key d ''verified_caller'' \<longrightarrow>
      (\<exists>m. validate_requester (PDict d) = Inl (QValueError m))) \<and>
   (\<forall>b. validate_requester (PDict d) = Inr (Some b) \<longrightarrow>
      rq_observed_addr (stamp_requester b addr caller) = addr \<and>
      rq_verified_caller (stamp_requester b addr caller) = caller)"
proof (intro conjI impI allI)
  assume "has_key d ''legacy'' \<or> has_key d ''observed_addr'' \<or> has_key d ''verified_caller''"
  then show "\<exists>m. validate_requester (PDict d) = Inl (QValueError m)"
    by (cases "has_key d ''legacy''"; cases "has_key d ''observed_addr''"; simp)
next
  fix b assume "validate_requester (PDict d) = Inr (Some b)"
  then have "requester_wf b" using validate_requester_Inr by fastforce
  then show "rq_observed_addr (stamp_requester b addr caller) = addr"
    and "rq_verified_caller (stamp_requester b addr caller) = caller"
    by (simp_all add: requester_wf_def stamp_requester_def split: option.splits)
qed

lemma requester_stamps_not_forgeable_witness:
  "\<exists>b m. validate_requester (PDict demo_requester) = Inr (Some b) \<and>
     rq_verified_caller (stamp_requester b None (Some ''ci'')) = Some ''ci'' \<and>
     validate_requester (PDict ((''verified_caller'', PStr ''root'') # demo_requester)) = Inl (QValueError m)"
proof -
  obtain b where b: "validate_requester (PDict demo_requester) = Inr (Some b)"
    using demo_requester_accepted by (auto simp: demo_params_def)
  have k: "has_key ((''verified_caller'', PStr ''root'') # demo_requester) ''verified_caller''"
    by (simp add: has_key_def)
  show ?thesis
    using b k requester_stamps_not_forgeable [of demo_requester None "Some ''ci''"]
      requester_stamps_not_forgeable [of "(''verified_caller'', PStr ''root'') # demo_requester" None None]
    by (auto simp del: validate_requester.simps)
qed

end
