(* ===== verification/Queue_Store.thy ===== *)
theory Queue_Store
  imports Queue_Request Harness_Machine "HOL-Library.Product_Lexorder" "HOL-Library.Multiset"
begin

text \<open>
  The file-backed queue store of \<open>queue.py\<close>: one JSON file per entry below
  \<open>runs_root/queue\<close>, replaced atomically, plus the drain flag and the settings audit
  rows an override-carrying enqueue writes. The directory is an association list from
  queue id to file content in the order \<open>iterdir\<close> yields; a file the reader skips
  (unreadable, not JSON, not an entry) is \<open>QBad\<close>. A status string outside the five known
  ones is \<open>StatusOther\<close>. Clock readings and fresh identifiers are arguments, one reading
  per operation. Failing file operations (a full disk, a file that cannot be unlinked) and a
  failing audit write are outside the model, and so are files whose \<open>queue_id\<close> is not a
  safe file name.
\<close>

section \<open>Entries\<close>

datatype qstatus = Pending | Launched | Done | Failed | Blocked | StatusOther string

fun status_name :: "qstatus \<Rightarrow> string" where
  "status_name Pending = ''pending''"
| "status_name Launched = ''launched''"
| "status_name Done = ''done''"
| "status_name Failed = ''failed''"
| "status_name Blocked = ''blocked''"
| "status_name (StatusOther s) = s"

definition VALID_STATUS :: "qstatus list" where
  "VALID_STATUS = [Pending, Launched, Done, Failed, Blocked]"

definition NON_TERMINAL_STATUS :: "qstatus list" where
  "NON_TERMINAL_STATUS = [Pending, Launched, Blocked]"

record queue_entry =
  q_id :: string
  q_name :: string
  q_task :: string
  q_workspace :: string
  q_max_rounds :: int
  q_trio :: string
  q_priority :: int
  q_requested_by :: string
  q_branch :: string
  q_continue_branch :: bool
  q_base_check :: string
  q_status :: qstatus
  q_run_id :: "string option"
  q_reason :: "string option"
  q_skip_reasons :: "string list"
  q_created_at :: time
  q_updated_at :: time
  q_launched_at :: "time option"
  q_last_checked_at :: "time option"
  q_dedup_key :: "string option"
  q_requester :: "requester option"
  q_retry_of :: "string option"
  q_attempt :: int
  q_failure_cause :: "string option"
  q_interrupted_run :: "string option"
  q_successor :: "string option"
  q_needs_review :: bool
  q_not_before :: "time option"
  q_wait_reason :: "string option"
  q_time_limit :: "int option"
  q_model :: "string option"
  q_roles :: "role_pins option"
  q_gtm_manager :: string

definition MAX_QUEUE_REASON_CHARS :: nat where
  "MAX_QUEUE_REASON_CHARS = 4000"

definition bounded_reason :: "string \<Rightarrow> string" where
  "bounded_reason r = take MAX_QUEUE_REASON_CHARS r"

section \<open>Transitions\<close>

fun queue_transitions :: "qstatus \<Rightarrow> qstatus \<Rightarrow> bool" where
  "queue_transitions Pending Launched = True"
| "queue_transitions Pending Done = True"
| "queue_transitions Pending Failed = True"
| "queue_transitions Pending Blocked = True"
| "queue_transitions Launched Done = True"
| "queue_transitions Launched Failed = True"
| "queue_transitions Blocked Pending = True"
| "queue_transitions Blocked Launched = True"
| "queue_transitions _ _ = False"

definition is_ctrl :: "char \<Rightarrow> bool" where
  "is_ctrl c = ((of_char c :: nat) < 32 \<or> (of_char c :: nat) = 127)"

definition safe_queue_id :: "string \<Rightarrow> bool" where
  "safe_queue_id v = (v \<noteq> [] \<and> length v \<le> 128 \<and> v \<notin> set [''.'', ''..''] \<and>
     CHR ''/'' \<notin> set v \<and> CHR 0x5C \<notin> set v \<and> \<not> list_ex is_ctrl v)"

section \<open>The directory\<close>

datatype qfile = QBad | QEntry queue_entry

record drain_state =
  dr_enabled :: bool
  dr_reason :: "string option"
  dr_since :: "time option"

record audit_row =
  au_actor :: string
  au_target :: string
  au_model :: "string option"
  au_roles :: "role_pins option"

record queue_store =
  qs_files :: "(string \<times> qfile) list"
  qs_drain :: "drain_state option"
  qs_audit :: "audit_row list"

datatype store_exn = QueueExn queue_exn | DuplicateQueueEntry queue_entry

definition read_file :: "qfile \<Rightarrow> queue_entry option" where
  "read_file f = (case f of
       QBad \<Rightarrow> None
     | QEntry e \<Rightarrow> if q_status e \<in> set VALID_STATUS then Some e else None)"

definition q_write :: "queue_store \<Rightarrow> queue_entry \<Rightarrow> queue_store" where
  "q_write s e = s\<lparr>qs_files := aupd (q_id e) (QEntry e) (qs_files s)\<rparr>"

definition q_readable :: "queue_store \<Rightarrow> queue_entry list" where
  "q_readable s = List.map_filter (\<lambda>p. read_file (snd p)) (qs_files s)"

definition q_list :: "queue_store \<Rightarrow> queue_entry list" where
  "q_list s = sort_key (\<lambda>e. (- q_priority e, q_created_at e)) (q_readable s)"

definition q_path :: "string \<Rightarrow> (store_exn, string) result" where
  "q_path qid = (if safe_queue_id qid then Inr qid
                 else Inl (QueueExn (QValueError ''invalid queue id'')))"

definition q_lookup :: "queue_store \<Rightarrow> string \<Rightarrow> queue_entry option" where
  "q_lookup s qid = Option.bind (map_of (qs_files s) qid) read_file"

definition q_get :: "queue_store \<Rightarrow> string \<Rightarrow> (store_exn, queue_entry option) result" where
  "q_get s qid = rbind (q_path qid) (\<lambda>p. Inr (q_lookup s p))"

definition q_update :: "queue_store \<Rightarrow> queue_entry \<Rightarrow> time \<Rightarrow> queue_entry \<times> queue_store" where
  "q_update s e now = (let e' = e\<lparr>q_updated_at := now\<rparr> in (e', q_write s e'))"

section \<open>Creation\<close>

definition find_non_terminal_by_dedup :: "queue_store \<Rightarrow> string \<Rightarrow> queue_entry option" where
  "find_non_terminal_by_dedup s k =
     find (\<lambda>e. q_dedup_key e = Some k \<and> q_status e \<in> set NON_TERMINAL_STATUS) (q_list s)"

definition find_non_terminal_by_name :: "queue_store \<Rightarrow> string \<Rightarrow> queue_entry option" where
  "find_non_terminal_by_name s name =
     (let wanted = normalize_task_name name
      in if wanted = [] then None
         else find (\<lambda>e. q_status e \<in> set NON_TERMINAL_STATUS \<and> normalize_task_name (q_name e) = wanted)
                (q_list s))"

datatype audit_store = AuditStore | NoAuditStore "string option"

definition new_entry :: "queue_params \<Rightarrow> requester option \<Rightarrow> string \<Rightarrow> time \<Rightarrow> queue_entry" where
  "new_entry p rq qid now =
     \<lparr>q_id = qid, q_name = qp_name p, q_task = qp_task p, q_workspace = qp_workspace p,
      q_max_rounds = qp_max_rounds p, q_trio = qp_trio p, q_priority = qp_priority p,
      q_requested_by = qp_requested_by p, q_branch = qp_branch p,
      q_continue_branch = qp_continue_branch p, q_base_check = qp_base_check p,
      q_status = Pending, q_run_id = None, q_reason = None, q_skip_reasons = [],
      q_created_at = now, q_updated_at = now, q_launched_at = None, q_last_checked_at = None,
      q_dedup_key = qp_dedup_key p, q_requester = rq, q_retry_of = None, q_attempt = 1,
      q_failure_cause = None, q_interrupted_run = None, q_successor = None,
      q_needs_review = False, q_not_before = None, q_wait_reason = None,
      q_time_limit = qp_time_limit p, q_model = qp_model p, q_roles = qp_roles p,
      q_gtm_manager = qp_gtm_manager p\<rparr>"

definition q_create ::
    "request_env \<Rightarrow> queue_store \<Rightarrow> pydict \<Rightarrow> string option \<Rightarrow> string option \<Rightarrow> pyval option
     \<Rightarrow> audit_store \<Rightarrow> string \<Rightarrow> time \<Rightarrow> (store_exn, queue_entry \<times> queue_store) result" where
  "q_create env s body observed_addr verified_caller fetched audit hex now =
     rbind (case normalize_request env body of Inl e \<Rightarrow> Inl (QueueExn e) | Inr p \<Rightarrow> Inr p) (\<lambda>p.
     let rq = map_option (\<lambda>b. stamp_requester b observed_addr verified_caller) (qp_requester p);
         override = (qp_model p \<noteq> None \<or> qp_roles p \<noteq> None) in
     rbind (case qp_model p of
              None \<Rightarrow> Inr ()
            | Some m \<Rightarrow> (case validate_model_live (me_render (re_mcp env)) m fetched of
                 Inl e \<Rightarrow> Inl (QueueExn e) | Inr u \<Rightarrow> Inr u)) (\<lambda>_.
     rbind (case audit of
              AuditStore \<Rightarrow> Inr ()
            | NoAuditStore err \<Rightarrow> raise_if override (QueueExn (QServiceUnavailable
                (case err of
                   Some m \<Rightarrow> if m = [] then ''the settings store is not configured; refusing to enqueue unaudited model/roles overrides'' else m
                 | None \<Rightarrow> ''the settings store is not configured; refusing to enqueue unaudited model/roles overrides'')))) (\<lambda>_.
     case Option.bind (qp_dedup_key p) (find_non_terminal_by_dedup s) of
       Some existing \<Rightarrow> Inr (existing, s)
     | None \<Rightarrow>
         (case (if qp_dedup_key p = None then find_non_terminal_by_name s (qp_name p) else None) of
            Some dup \<Rightarrow> Inl (DuplicateQueueEntry dup)
          | None \<Rightarrow>
              let qid = ''q-'' @ hex;
                  e = new_entry p rq qid now;
                  s1 = q_write s e;
                  s2 = (if override
                        then s1\<lparr>qs_audit := qs_audit s1 @
                               [\<lparr>au_actor = (case verified_caller of
                                     Some (c # cs) \<Rightarrow> c # cs
                                   | _ \<Rightarrow> if q_requested_by e = [] then ''enqueue'' else q_requested_by e),
                                 au_target = ''queue_entry:'' @ qid,
                                 au_model = qp_model p, au_roles = qp_roles p\<rparr>]\<rparr>
                        else s1)
              in Inr (e, s2)))))"

section \<open>Entry operations\<close>

text \<open>
  The shape every entry operation shares: read the entry (an unsafe id raises), return
  \<open>None\<close> when there is none, otherwise let \<open>act\<close> refuse, decline or give the changed
  entry, which is stamped and written back.
\<close>

definition with_entry ::
    "queue_store \<Rightarrow> string \<Rightarrow> time \<Rightarrow> (queue_entry \<Rightarrow> (store_exn, queue_entry option) result)
     \<Rightarrow> (store_exn, queue_entry option \<times> queue_store) result" where
  "with_entry s qid now act =
     rbind (q_get s qid) (\<lambda>got. case got of
         None \<Rightarrow> Inr (None, s)
       | Some e \<Rightarrow> rbind (act e) (\<lambda>r. case r of
             None \<Rightarrow> Inr (None, s)
           | Some e1 \<Rightarrow> (let (e', s') = q_update s e1 now in Inr (Some e', s'))))"

definition q_delete :: "queue_store \<Rightarrow> string \<Rightarrow> (store_exn, queue_entry option \<times> queue_store) result" where
  "q_delete s qid =
     rbind (q_get s qid) (\<lambda>got. case got of
         None \<Rightarrow> Inr (None, s)
       | Some e \<Rightarrow> Inr (Some e, s\<lparr>qs_files := adel qid (qs_files s)\<rparr>))"

definition q_set_priority ::
    "queue_store \<Rightarrow> string \<Rightarrow> pyval \<Rightarrow> time \<Rightarrow> (store_exn, queue_entry option \<times> queue_store) result" where
  "q_set_priority s qid v now = with_entry s qid now (\<lambda>e. case v of
       PInt i \<Rightarrow> Inr (Some (e\<lparr>q_priority := i\<rparr>))
     | _ \<Rightarrow> Inl (QueueExn (QValueError ''priority must be an integer'')))"

definition q_mark_launched ::
    "queue_store \<Rightarrow> string \<Rightarrow> string \<Rightarrow> time \<Rightarrow> (store_exn, queue_entry option \<times> queue_store) result" where
  "q_mark_launched s qid run_id now = with_entry s qid now (\<lambda>e.
     if q_status e \<noteq> Pending then Inl (QueueExn (QValueError ''entry is not pending''))
     else Inr (Some (e\<lparr>q_status := Launched, q_run_id := Some run_id, q_launched_at := Some now\<rparr>)))"

definition q_mark_done ::
    "queue_store \<Rightarrow> string \<Rightarrow> string option \<Rightarrow> time \<Rightarrow> (store_exn, queue_entry option \<times> queue_store) result" where
  "q_mark_done s qid reason now = with_entry s qid now (\<lambda>e.
     if \<not> queue_transitions (q_status e) Done
     then Inl (QueueExn (QValueError (''invalid transition from '' @ status_name (q_status e) @ '' to done'')))
     else Inr (Some (e\<lparr>q_status := Done,
            q_reason := (case reason of None \<Rightarrow> q_reason e | Some r \<Rightarrow> Some (bounded_reason r))\<rparr>)))"

definition q_mark_failed ::
    "queue_store \<Rightarrow> string \<Rightarrow> string \<Rightarrow> time \<Rightarrow> (store_exn, queue_entry option \<times> queue_store) result" where
  "q_mark_failed s qid reason now = with_entry s qid now (\<lambda>e.
     if \<not> queue_transitions (q_status e) Failed
     then Inl (QueueExn (QValueError (''invalid transition from '' @ status_name (q_status e) @ '' to failed'')))
     else Inr (Some (e\<lparr>q_status := Failed, q_reason := Some (bounded_reason reason)\<rparr>)))"

definition q_record_skip ::
    "queue_store \<Rightarrow> string \<Rightarrow> string \<Rightarrow> time \<Rightarrow> (store_exn, queue_entry option \<times> queue_store) result" where
  "q_record_skip s qid reason now = with_entry s qid now (\<lambda>e.
     if q_status e \<notin> set [Pending, Failed] then Inr None
     else Inr (Some (e\<lparr>q_skip_reasons := q_skip_reasons e @ [bounded_reason reason]\<rparr>)))"

definition q_record_block ::
    "queue_store \<Rightarrow> string \<Rightarrow> time \<Rightarrow> (store_exn, queue_entry option \<times> queue_store) result" where
  "q_record_block s qid now = with_entry s qid now (\<lambda>e.
     if \<not> queue_transitions (q_status e) Blocked then Inr None
     else Inr (Some (e\<lparr>q_status := Blocked\<rparr>)))"

definition q_record_unblock ::
    "queue_store \<Rightarrow> string \<Rightarrow> time \<Rightarrow> (store_exn, queue_entry option \<times> queue_store) result" where
  "q_record_unblock s qid now = with_entry s qid now (\<lambda>e.
     if \<not> queue_transitions (q_status e) Pending then Inr None
     else Inr (Some (e\<lparr>q_status := Pending\<rparr>)))"

text \<open>The keyword arguments of \<open>requeue\<close>.\<close>

record requeue_args =
  ra_not_before :: "time option"
  ra_wait_reason :: "string option"
  ra_name_suffix :: string
  ra_interrupted_run :: "string option"
  ra_continue_branch :: "bool option"

definition plain_requeue :: requeue_args where
  "plain_requeue = \<lparr>ra_not_before = None, ra_wait_reason = None, ra_name_suffix = [],
     ra_interrupted_run = None, ra_continue_branch = None\<rparr>"

definition successor_entry :: "queue_entry \<Rightarrow> string \<Rightarrow> requeue_args \<Rightarrow> string \<Rightarrow> time \<Rightarrow> queue_entry" where
  "successor_entry e cause a qid now =
     \<lparr>q_id = qid, q_name = q_name e @ ra_name_suffix a, q_task = q_task e,
      q_workspace = q_workspace e, q_max_rounds = q_max_rounds e, q_trio = q_trio e,
      q_priority = q_priority e, q_requested_by = q_requested_by e, q_branch = q_branch e,
      q_continue_branch = (case ra_continue_branch a of None \<Rightarrow> q_continue_branch e | Some b \<Rightarrow> b),
      q_base_check = q_base_check e, q_status = Pending, q_run_id = None, q_reason = None,
      q_skip_reasons = [], q_created_at = now, q_updated_at = now, q_launched_at = None,
      q_last_checked_at = None, q_dedup_key = None, q_requester = q_requester e,
      q_retry_of = Some (q_id e), q_attempt = q_attempt e + 1, q_failure_cause = Some cause,
      q_interrupted_run = ra_interrupted_run a, q_successor = None, q_needs_review = False,
      q_not_before = ra_not_before a,
      q_wait_reason = (case (ra_not_before a, ra_wait_reason a) of
          (Some _, Some w) \<Rightarrow> if w = [] then None else Some (take 64 w) | _ \<Rightarrow> None),
      q_time_limit = q_time_limit e, q_model = q_model e, q_roles = q_roles e,
      q_gtm_manager = q_gtm_manager e\<rparr>"

text \<open>\<open>max_retries\<close>: the store's configured cap, 2 when built without a configuration.\<close>

definition max_retries_of :: "int option \<Rightarrow> int" where
  "max_retries_of cfg = (case cfg of None \<Rightarrow> 2 | Some n \<Rightarrow> n)"

definition q_requeue ::
    "int option \<Rightarrow> queue_store \<Rightarrow> string \<Rightarrow> string \<Rightarrow> requeue_args \<Rightarrow> string \<Rightarrow> time
     \<Rightarrow> (store_exn, queue_entry option \<times> queue_store) result" where
  "q_requeue cfg s qid cause a hex now =
     rbind (q_get s qid) (\<lambda>got. case got of
         None \<Rightarrow> Inr (None, s)
       | Some e \<Rightarrow>
           if q_attempt e > max_retries_of cfg
           then Inl (QueueExn (QValueError (''exceeded max_retries ('' @ show_int (max_retries_of cfg) @ '')'')))
           else if q_status e \<noteq> Failed
           then Inl (QueueExn (QValueError ''can only requeue failed entries''))
           else let suc = successor_entry e cause a (''q-'' @ hex) now
                in Inr (Some suc, q_write s suc))"

definition q_counts :: "queue_store \<Rightarrow> qstatus \<Rightarrow> nat" where
  "q_counts s st = length (filter (\<lambda>e. q_status e = st) (q_list s))"

section \<open>Drain flag\<close>

definition drain_off :: drain_state where
  "drain_off = \<lparr>dr_enabled = False, dr_reason = None, dr_since = None\<rparr>"

definition get_drain :: "queue_store \<Rightarrow> drain_state" where
  "get_drain s = (case qs_drain s of
       None \<Rightarrow> drain_off
     | Some d \<Rightarrow> if dr_enabled d then d else drain_off)"

definition set_drain :: "queue_store \<Rightarrow> bool \<Rightarrow> string option \<Rightarrow> time \<Rightarrow> drain_state \<times> queue_store" where
  "set_drain s enabled reason now =
     (let bounded = (case reason of None \<Rightarrow> None | Some r \<Rightarrow> if r = [] then None else Some (bounded_reason r));
          previous = get_drain s;
          payload = (if enabled
             then \<lparr>dr_enabled = True, dr_reason = bounded,
                   dr_since = Some (if dr_enabled previous
                     then (case dr_since previous of Some t \<Rightarrow> t | None \<Rightarrow> now) else now)\<rparr>
             else drain_off);
          s' = s\<lparr>qs_drain := Some payload\<rparr>
      in (get_drain s', s'))"

section \<open>The store as a machine\<close>

datatype queue_op =
    QCreate pydict "string option" "string option" "pyval option" audit_store string time
  | QDelete string
  | QSetPriority string pyval time
  | QMarkLaunched string string time
  | QMarkDone string "string option" time
  | QMarkFailed string string time
  | QRecordSkip string string time
  | QRecordBlock string time
  | QRecordUnblock string time
  | QRequeue string string requeue_args string time
  | QSetDrain bool "string option" time

fun queue_exec :: "request_env \<Rightarrow> int option \<Rightarrow> queue_store \<Rightarrow> queue_op \<Rightarrow> queue_store" where
  "queue_exec env cfg s (QCreate body a c f au hex now) = kept s (q_create env s body a c f au hex now)"
| "queue_exec env cfg s (QDelete k) = kept s (q_delete s k)"
| "queue_exec env cfg s (QSetPriority k v now) = kept s (q_set_priority s k v now)"
| "queue_exec env cfg s (QMarkLaunched k r now) = kept s (q_mark_launched s k r now)"
| "queue_exec env cfg s (QMarkDone k r now) = kept s (q_mark_done s k r now)"
| "queue_exec env cfg s (QMarkFailed k r now) = kept s (q_mark_failed s k r now)"
| "queue_exec env cfg s (QRecordSkip k r now) = kept s (q_record_skip s k r now)"
| "queue_exec env cfg s (QRecordBlock k now) = kept s (q_record_block s k now)"
| "queue_exec env cfg s (QRecordUnblock k now) = kept s (q_record_unblock s k now)"
| "queue_exec env cfg s (QRequeue k cause a hex now) = kept s (q_requeue cfg s k cause a hex now)"
| "queue_exec env cfg s (QSetDrain b r now) = snd (set_drain s b r now)"

text \<open>The identifier an operation may mint.\<close>

fun minted_id :: "queue_op \<Rightarrow> string option" where
  "minted_id (QCreate _ _ _ _ _ hex _) = Some (''q-'' @ hex)"
| "minted_id (QRequeue _ _ _ hex _) = Some (''q-'' @ hex)"
| "minted_id _ = None"

text \<open>An operation that deletes entry \<open>k\<close>, or mints an identifier that collides with it.\<close>

fun queue_removes :: "string \<Rightarrow> queue_op \<Rightarrow> bool" where
  "queue_removes k (QDelete k') = (k = k')"
| "queue_removes k x = (minted_id x = Some k)"

definition entry_step :: "queue_entry \<Rightarrow> queue_entry \<Rightarrow> bool" where
  "entry_step e e' = (q_id e' = q_id e \<and> q_attempt e' = q_attempt e \<and>
     q_dedup_key e' = q_dedup_key e \<and> q_status e' \<in> set VALID_STATUS \<and>
     (q_status e' = q_status e \<and> q_run_id e' = q_run_id e \<or>
      queue_transitions (q_status e) (q_status e') \<and>
      (if q_status e' = Launched then q_status e = Pending \<and> q_run_id e' \<noteq> None
       else q_run_id e' = q_run_id e)))"

definition entry_new :: "int option \<Rightarrow> queue_store \<Rightarrow> queue_entry \<Rightarrow> bool" where
  "entry_new cfg s e = (q_status e = Pending \<and> q_run_id e = None \<and>
     (q_attempt e = 1 \<or> (\<exists>k e0. q_lookup s k = Some e0 \<and> q_status e0 = Failed \<and>
        q_attempt e0 \<le> max_retries_of cfg \<and> q_attempt e = q_attempt e0 + 1)) \<and>
     (\<forall>d. q_dedup_key e = Some d \<longrightarrow> find_non_terminal_by_dedup s d = None))"

inductive queue_effect :: "int option \<Rightarrow> queue_store \<Rightarrow> queue_op \<Rightarrow> queue_store \<Rightarrow> bool" where
  eff_same: "qs_files s' = qs_files s \<Longrightarrow> queue_effect cfg s x s'"
| eff_delete: "qs_files s' = adel k (qs_files s) \<Longrightarrow> queue_effect cfg s (QDelete k) s'"
| eff_step: "q_lookup s k = Some e \<Longrightarrow> entry_step e e' \<Longrightarrow>
     qs_files s' = aupd (q_id e) (QEntry e') (qs_files s) \<Longrightarrow> queue_effect cfg s x s'"
| eff_new: "minted_id x = Some (q_id e) \<Longrightarrow> entry_new cfg s e \<Longrightarrow>
     qs_files s' = aupd (q_id e) (QEntry e) (qs_files s) \<Longrightarrow> queue_effect cfg s x s'"

definition entry_wf :: "int option \<Rightarrow> string \<Rightarrow> queue_entry \<Rightarrow> bool" where
  "entry_wf cfg k e = (q_id e = k \<and> 1 \<le> q_attempt e \<and> q_attempt e \<le> max 1 (max_retries_of cfg + 1) \<and>
     (q_status e = Launched \<longrightarrow> q_run_id e \<noteq> None))"

definition queue_wf :: "int option \<Rightarrow> queue_store \<Rightarrow> bool" where
  "queue_wf cfg s = (distinct (map fst (qs_files s)) \<and>
     (\<forall>k e. q_lookup s k = Some e \<longrightarrow> entry_wf cfg k e) \<and>
     (\<forall>k1 k2 e1 e2 d. q_lookup s k1 = Some e1 \<and> q_lookup s k2 = Some e2 \<and>
        q_dedup_key e1 = Some d \<and> q_dedup_key e2 = Some d \<and>
        q_status e1 \<in> set NON_TERMINAL_STATUS \<and> q_status e2 \<in> set NON_TERMINAL_STATUS \<longrightarrow> k1 = k2))"

definition empty_queue :: queue_store where
  "empty_queue = \<lparr>qs_files = [], qs_drain = None, qs_audit = []\<rparr>"

subsection \<open>Reading and writing\<close>

lemma read_file_Some: "read_file f = Some e \<longleftrightarrow> f = QEntry e \<and> q_status e \<in> set VALID_STATUS"
  by (cases f) (auto simp: read_file_def)

lemma q_lookup_write [simp]:
  "q_lookup (q_write s e) k = (if k = q_id e then read_file (QEntry e) else q_lookup s k)"
  by (simp add: q_lookup_def q_write_def)

lemma q_lookup_aupd:
  "qs_files s' = aupd i f (qs_files s) \<Longrightarrow>
     q_lookup s' k = (if k = i then read_file f else q_lookup s k)"
  by (simp add: q_lookup_def)

lemma q_lookup_adel:
  "qs_files s' = adel i (qs_files s) \<Longrightarrow> q_lookup s' k = (if k = i then None else q_lookup s k)"
  by (simp add: q_lookup_def)

lemma q_lookup_valid: "q_lookup s k = Some e \<Longrightarrow> q_status e \<in> set VALID_STATUS"
  by (auto simp: q_lookup_def read_file_Some bind_eq_Some_conv)

lemma set_q_list [simp]: "set (q_list s) = set (q_readable s)"
  by (simp add: q_list_def)

lemma set_q_readable:
  assumes "distinct (map fst (qs_files s))"
  shows "e \<in> set (q_readable s) \<longleftrightarrow> (\<exists>k. q_lookup s k = Some e)"
proof -
  have "e \<in> set (q_readable s) \<longleftrightarrow> (\<exists>k f. (k, f) \<in> set (qs_files s) \<and> read_file f = Some e)"
    by (force simp: q_readable_def map_filter_def)
  also have "\<dots> \<longleftrightarrow> (\<exists>k. q_lookup s k = Some e)"
    using assms by (auto simp: q_lookup_def bind_eq_Some_conv)
  finally show ?thesis .
qed

lemma find_dedup_None:
  assumes "distinct (map fst (qs_files s))" and "find_non_terminal_by_dedup s d = None"
    and "q_lookup s k = Some e" and "q_dedup_key e = Some d"
  shows "q_status e \<notin> set NON_TERMINAL_STATUS"
  using assms set_q_readable [OF assms(1), of e]
  by (auto simp: find_non_terminal_by_dedup_def find_None)

lemma with_entry_Inr:
  "with_entry s qid now act = Inr (r, s') \<longleftrightarrow> safe_queue_id qid \<and>
     (case q_lookup s qid of
        None \<Rightarrow> r = None \<and> s' = s
      | Some e \<Rightarrow> (case act e of
            Inl _ \<Rightarrow> False
          | Inr None \<Rightarrow> r = None \<and> s' = s
          | Inr (Some e1) \<Rightarrow> r = Some (e1\<lparr>q_updated_at := now\<rparr>) \<and>
              s' = q_write s (e1\<lparr>q_updated_at := now\<rparr>)))"
  by (auto simp: with_entry_def q_get_def q_path_def q_update_def rbind_eq_Inr Let_def
      split: option.splits sum.splits)

text \<open>An entry operation whose action keeps \<open>entry_step\<close> has only that effect.\<close>

lemma with_entry_effect:
  assumes "\<And>e e1. act e = Inr (Some e1) \<Longrightarrow> q_status e \<in> set VALID_STATUS \<Longrightarrow> entry_step e e1"
  shows "queue_effect cfg s x (kept s (with_entry s qid now act))"
proof (cases "with_entry s qid now act")
  case (Inl e)
  then show ?thesis by (simp add: eff_same)
next
  case (Inr p)
  then obtain r s' where p: "with_entry s qid now act = Inr (r, s')" and k: "kept s (with_entry s qid now act) = s'"
    by (cases p) simp
  show ?thesis
  proof (cases "s' = s")
    case True
    with k show ?thesis by (simp add: eff_same)
  next
    case False
    with p obtain e e1 where e: "q_lookup s qid = Some e" "act e = Inr (Some e1)"
      and s': "s' = q_write s (e1\<lparr>q_updated_at := now\<rparr>)"
      by (auto simp: with_entry_Inr split: option.splits sum.splits)
    have "entry_step e (e1\<lparr>q_updated_at := now\<rparr>)"
      using assms [OF e(2)] q_lookup_valid [OF e(1)] by (auto simp: entry_step_def split: if_splits)
    moreover from this have "qs_files s' = aupd (q_id e) (QEntry (e1\<lparr>q_updated_at := now\<rparr>)) (qs_files s)"
      using s' by (simp add: q_write_def entry_step_def)
    ultimately show ?thesis using e(1) k by (auto intro: eff_step)
  qed
qed

subsection \<open>Every operation has one of the four effects\<close>

lemma q_create_Inr:
  assumes "q_create env s body a c f au hex now = Inr (e, s')"
  shows "\<exists>p. normalize_request env body = Inr p \<and>
    (s' = s \<and> Option.bind (qp_dedup_key p) (find_non_terminal_by_dedup s) = Some e \<or>
     Option.bind (qp_dedup_key p) (find_non_terminal_by_dedup s) = None \<and>
     (qp_dedup_key p = None \<longrightarrow> find_non_terminal_by_name s (qp_name p) = None) \<and>
     e = new_entry p (map_option (\<lambda>b. stamp_requester b a c) (qp_requester p)) (''q-'' @ hex) now \<and>
     qs_files s' = aupd (q_id e) (QEntry e) (qs_files s) \<and>
     qs_drain s' = qs_drain s)"
  using assms
  by (auto simp: q_create_def rbind_eq_Inr Let_def q_write_def
      split: sum.splits option.splits if_splits audit_store.splits)

lemma q_create_effect:
  "queue_effect cfg s (QCreate body a c f au hex now) (kept s (q_create env s body a c f au hex now))"
proof (cases "q_create env s body a c f au hex now")
  case (Inl e)
  then show ?thesis by (simp add: eff_same)
next
  case (Inr r)
  then obtain e s' where r: "q_create env s body a c f au hex now = Inr (e, s')" by (cases r) simp
  from q_create_Inr [OF r] show ?thesis
  proof (elim exE conjE disjE)
    assume "s' = s"
    with r show ?thesis by (simp add: eff_same)
  next
    fix p
    assume d: "Option.bind (qp_dedup_key p) (find_non_terminal_by_dedup s) = None"
      and e: "e = new_entry p (map_option (\<lambda>b. stamp_requester b a c) (qp_requester p)) (''q-'' @ hex) now"
      and f: "qs_files s' = aupd (q_id e) (QEntry e) (qs_files s)"
    have "entry_new cfg s e" using d by (auto simp: entry_new_def e new_entry_def)
    moreover have "minted_id (QCreate body a c f au hex now) = Some (q_id e)"
      by (simp add: e new_entry_def)
    ultimately show ?thesis using f r by (simp add: eff_new)
  qed
qed

lemma q_requeue_Inr:
  "q_requeue cfg s qid cause a hex now = Inr (r, s') \<longleftrightarrow> safe_queue_id qid \<and>
     (case q_lookup s qid of
        None \<Rightarrow> r = None \<and> s' = s
      | Some e \<Rightarrow> q_attempt e \<le> max_retries_of cfg \<and> q_status e = Failed \<and>
          r = Some (successor_entry e cause a (''q-'' @ hex) now) \<and>
          s' = q_write s (successor_entry e cause a (''q-'' @ hex) now))"
  by (auto simp: q_requeue_def q_get_def q_path_def rbind_eq_Inr Let_def
      split: option.splits if_splits)

lemma q_requeue_effect:
  "queue_effect cfg s (QRequeue qid cause a hex now) (kept s (q_requeue cfg s qid cause a hex now))"
proof (cases "q_requeue cfg s qid cause a hex now")
  case (Inl e)
  then show ?thesis by (simp add: eff_same)
next
  case (Inr p)
  then obtain r s' where p: "q_requeue cfg s qid cause a hex now = Inr (r, s')" by (cases p) simp
  show ?thesis
  proof (cases "q_lookup s qid")
    case None
    with p have "s' = s" by (simp add: q_requeue_Inr)
    with p show ?thesis by (simp add: eff_same)
  next
    case (Some e)
    let ?e = "successor_entry e cause a (''q-'' @ hex) now"
    from Some p have "q_attempt e \<le> max_retries_of cfg" "q_status e = Failed" and s': "s' = q_write s ?e"
      by (auto simp: q_requeue_Inr)
    with Some have "entry_new cfg s ?e"
      by (auto simp: entry_new_def successor_entry_def)
    moreover have "minted_id (QRequeue qid cause a hex now) = Some (q_id ?e)"
      by (simp add: successor_entry_def)
    ultimately show ?thesis using p s' by (simp add: eff_new q_write_def)
  qed
qed

lemma q_delete_effect: "queue_effect cfg s (QDelete k) (kept s (q_delete s k))"
  by (auto simp: q_delete_def q_get_def q_path_def kept_def rbind_eq_Inr
      split: sum.splits option.splits if_splits intro: eff_same eff_delete)

lemma queue_transitions_valid:
  "queue_transitions a b \<Longrightarrow> b \<in> set VALID_STATUS"
  by (cases "(a, b)" rule: queue_transitions.cases) (auto simp: VALID_STATUS_def)

lemma queue_exec_effect: "queue_effect cfg s x (queue_exec env cfg s x)"
proof (cases x)
  case (QSetPriority k v now)
  then show ?thesis
    by (auto simp: q_set_priority_def entry_step_def intro!: with_entry_effect split: pyval.splits)
next
  case (QMarkLaunched k r now)
  then show ?thesis
    by (auto simp: q_mark_launched_def entry_step_def VALID_STATUS_def intro!: with_entry_effect
        split: if_splits)
next
  case (QMarkDone k r now)
  then show ?thesis
    by (auto simp: q_mark_done_def entry_step_def VALID_STATUS_def intro!: with_entry_effect
        split: if_splits)
next
  case (QMarkFailed k r now)
  then show ?thesis
    by (auto simp: q_mark_failed_def entry_step_def VALID_STATUS_def intro!: with_entry_effect
        split: if_splits)
next
  case (QRecordSkip k r now)
  then show ?thesis
    by (auto simp: q_record_skip_def entry_step_def intro!: with_entry_effect split: if_splits)
next
  case (QRecordBlock k now)
  then show ?thesis
    by (auto simp: q_record_block_def entry_step_def VALID_STATUS_def intro!: with_entry_effect
        split: if_splits)
next
  case (QRecordUnblock k now)
  then show ?thesis
    by (auto simp: q_record_unblock_def entry_step_def VALID_STATUS_def intro!: with_entry_effect
        split: if_splits)
next
  case (QSetDrain b r now)
  then show ?thesis by (auto simp: set_drain_def Let_def intro: eff_same)
qed (simp_all add: q_create_effect q_requeue_effect q_delete_effect)

subsection \<open>The invariant\<close>

lemma entry_step_wf: "entry_step e e' \<Longrightarrow> entry_wf cfg k e \<Longrightarrow> entry_wf cfg k e'"
  by (auto simp: entry_step_def entry_wf_def)

lemma entry_step_non_terminal:
  "entry_step e e' \<Longrightarrow> q_status e' \<in> set NON_TERMINAL_STATUS \<Longrightarrow> q_status e \<in> set VALID_STATUS \<Longrightarrow>
     q_status e \<in> set NON_TERMINAL_STATUS"
  by (auto simp: entry_step_def NON_TERMINAL_STATUS_def VALID_STATUS_def)

lemma entry_new_wf:
  assumes "queue_wf cfg s" and "entry_new cfg s e"
  shows "entry_wf cfg (q_id e) e"
  using assms by (fastforce simp: entry_new_def entry_wf_def queue_wf_def)

lemma queue_effect_wf:
  assumes "queue_effect cfg s x s'" and "queue_wf cfg s"
  shows "queue_wf cfg s'"
  using assms
proof (induction rule: queue_effect.induct)
  case (eff_same s' s cfg x)
  then show ?case by (simp add: queue_wf_def q_lookup_def)
next
  case (eff_delete s' k s cfg)
  then show ?case
    unfolding queue_wf_def by (auto simp: q_lookup_adel distinct_adel split: if_splits)
next
  case (eff_step s k e e' s' cfg x)
  have id: "q_id e = k" and ew: "entry_wf cfg k e" and id': "q_id e' = k"
    using eff_step by (auto simp: queue_wf_def entry_wf_def entry_step_def)
  have look: "q_lookup s' j = (if j = k then Some e' else q_lookup s j)" for j
    using eff_step(2,3) by (simp add: q_lookup_aupd [OF eff_step(3)] id read_file_def entry_step_def)
  have nt: "q_status e \<in> set NON_TERMINAL_STATUS" if "q_status e' \<in> set NON_TERMINAL_STATUS"
    using entry_step_non_terminal eff_step(1,2) that q_lookup_valid by blast
  have dd: "q_dedup_key e' = q_dedup_key e" using eff_step(2) by (simp add: entry_step_def)
  have "distinct (map fst (qs_files s'))" using eff_step(3,4) by (simp add: queue_wf_def)
  moreover have "\<forall>j f. q_lookup s' j = Some f \<longrightarrow> entry_wf cfg j f"
    using eff_step(4) entry_step_wf [OF eff_step(2) ew] by (auto simp: look queue_wf_def)
  moreover have "\<forall>k1 k2 e1 e2 d. q_lookup s' k1 = Some e1 \<and> q_lookup s' k2 = Some e2 \<and>
        q_dedup_key e1 = Some d \<and> q_dedup_key e2 = Some d \<and>
        q_status e1 \<in> set NON_TERMINAL_STATUS \<and> q_status e2 \<in> set NON_TERMINAL_STATUS \<longrightarrow> k1 = k2"
    using eff_step(1,4) nt dd unfolding queue_wf_def look by (metis option.inject)
  ultimately show ?case by (simp add: queue_wf_def)
next
  case (eff_new x e cfg s s')
  have look: "q_lookup s' j = (if j = q_id e then Some e else q_lookup s j)" for j
    using eff_new(2) by (simp add: q_lookup_aupd [OF eff_new(3)] read_file_def entry_new_def VALID_STATUS_def)
  have d: "distinct (map fst (qs_files s))" using eff_new(4) by (simp add: queue_wf_def)
  have fresh: "q_status f \<notin> set NON_TERMINAL_STATUS"
    if "q_lookup s j = Some f" "q_dedup_key f = Some k" "q_dedup_key e = Some k" for j f k
    using find_dedup_None [OF d] that eff_new(2) by (auto simp: entry_new_def)
  have "distinct (map fst (qs_files s'))" using eff_new(3) d by simp
  moreover have "\<forall>j f. q_lookup s' j = Some f \<longrightarrow> entry_wf cfg j f"
    using eff_new(4) entry_new_wf [OF eff_new(4,2)] by (auto simp: look queue_wf_def)
  moreover have "\<forall>k1 k2 e1 e2 d. q_lookup s' k1 = Some e1 \<and> q_lookup s' k2 = Some e2 \<and>
        q_dedup_key e1 = Some d \<and> q_dedup_key e2 = Some d \<and>
        q_status e1 \<in> set NON_TERMINAL_STATUS \<and> q_status e2 \<in> set NON_TERMINAL_STATUS \<longrightarrow> k1 = k2"
    using eff_new(4) fresh unfolding queue_wf_def look by (metis option.inject)
  ultimately show ?case by (simp add: queue_wf_def)
qed

lemma queue_exec_wf: "queue_wf cfg s \<Longrightarrow> queue_wf cfg (queue_exec env cfg s x)"
  using queue_exec_effect queue_effect_wf by blast

text \<open>What an entry has been claimed for: its status and the run bound to it.\<close>

definition q_claim_of :: "string \<Rightarrow> queue_store \<Rightarrow> (qstatus \<times> string option) option" where
  "q_claim_of k s = map_option (\<lambda>e. (q_status e, q_run_id e)) (q_lookup s k)"

text \<open>
  The edges the store's own operations take: all of the table but \<open>blocked\<close> to
  \<open>launched\<close>, and only the launch binds a run.
\<close>

definition claim_edge :: "qstatus \<times> string option \<Rightarrow> qstatus \<times> string option \<Rightarrow> bool" where
  "claim_edge a b = (queue_transitions (fst a) (fst b) \<and>
     (if fst b = Launched then fst a = Pending \<and> snd b \<noteq> None else snd b = snd a))"

lemma queue_effect_lookup:
  assumes "queue_effect cfg s x s'" and "queue_wf cfg s" and "\<not> queue_removes k x"
    and "q_lookup s k = Some e"
  shows "\<exists>e'. q_lookup s' k = Some e' \<and> (e' = e \<or> entry_step e e')"
  using assms
proof (induction rule: queue_effect.induct)
  case (eff_same s' s cfg x)
  then show ?case by (simp add: q_lookup_def)
next
  case (eff_delete s' j s cfg)
  then show ?case by (simp add: q_lookup_adel)
next
  case (eff_step s j f f' s' cfg x)
  have "q_id f = j" using eff_step by (auto simp: queue_wf_def entry_wf_def)
  then show ?case
    using eff_step by (auto simp: q_lookup_aupd [OF eff_step(3)] read_file_def entry_step_def)
next
  case (eff_new x f cfg s s')
  have "q_id f \<noteq> k" using eff_new(1,5) by (cases x) auto
  with eff_new show ?case by (simp add: q_lookup_aupd [OF eff_new(3)])
qed

lemma queue_exec_claim:
  assumes "queue_wf cfg s" and "\<not> queue_removes k x" and "q_claim_of k s = Some a"
  shows "\<exists>b. q_claim_of k (queue_exec env cfg s x) = Some b \<and> (a = b \<or> claim_edge a b)"
proof -
  obtain e where e: "q_lookup s k = Some e" and a: "a = (q_status e, q_run_id e)"
    using assms(3) by (auto simp: q_claim_of_def)
  obtain e' where "q_lookup (queue_exec env cfg s x) k = Some e'" and "e' = e \<or> entry_step e e'"
    using queue_effect_lookup [OF queue_exec_effect assms(1,2) e] by blast
  then show ?thesis using a by (auto simp: q_claim_of_def entry_step_def claim_edge_def)
qed

interpretation queue: status_machine "queue_exec env cfg" "queue_wf cfg" q_claim_of queue_removes claim_edge
  for env cfg
  by unfold_locales (rule queue_exec_wf, assumption, rule queue_exec_claim)

definition queue_after :: "request_env \<Rightarrow> int option \<Rightarrow> queue_op list \<Rightarrow> queue_store" where
  "queue_after env cfg ops = run_ops (queue_exec env cfg) empty_queue ops"

lemma empty_queue_wf: "queue_wf cfg empty_queue"
  by (simp add: queue_wf_def empty_queue_def q_lookup_def)

lemma queue_after_wf: "queue_wf cfg (queue_after env cfg ops)"
  unfolding queue_after_def by (rule queue.run_inv [OF empty_queue_wf])

lemma claim_edges_from_launched:
  assumes "claim_edge\<^sup>*\<^sup>* a b" and "fst a \<in> {Launched, Done, Failed}"
  shows "snd b = snd a \<and> fst b \<in> {Launched, Done, Failed}"
  using assms
proof (induction rule: rtranclp_induct)
  case (step y z)
  then show ?case by (cases "(fst y, fst z)" rule: queue_transitions.cases) (auto simp: claim_edge_def)
qed simp

lemma q_mark_launched_refused:
  assumes "safe_queue_id k" and "q_claim_of k s = Some c" and "fst c \<noteq> Pending"
  shows "q_mark_launched s k r now = Inl (QueueExn (QValueError ''entry is not pending''))"
  using assms by (auto simp: q_mark_launched_def with_entry_def q_get_def q_path_def q_claim_of_def)

lemma q_mark_launched_Inr:
  "q_mark_launched s k r now = Inr (Some e, s') \<Longrightarrow>
     safe_queue_id k \<and> (\<exists>e0. q_lookup s k = Some e0 \<and> q_status e0 = Pending \<and>
       e = e0\<lparr>q_status := Launched, q_run_id := Some r, q_launched_at := Some now, q_updated_at := now\<rparr> \<and>
       s' = q_write s e)"
  by (auto simp: q_mark_launched_def with_entry_Inr split: option.splits if_splits)

lemma find_dedup_unique:
  assumes "queue_wf cfg s" and "q_lookup s k = Some e" and "q_status e \<in> set NON_TERMINAL_STATUS"
    and "q_dedup_key e = Some d"
  shows "find_non_terminal_by_dedup s d = Some e"
proof -
  have dist: "distinct (map fst (qs_files s))" using assms(1) by (simp add: queue_wf_def)
  show ?thesis
  proof (cases "find_non_terminal_by_dedup s d")
    case None
    then show ?thesis using find_dedup_None [OF dist] assms(2-4) by blast
  next
    case (Some f)
    then have f: "f \<in> set (q_readable s)" "q_dedup_key f = Some d" "q_status f \<in> set NON_TERMINAL_STATUS"
      by (auto simp: find_non_terminal_by_dedup_def dest: find_SomeD)
    then obtain j where "q_lookup s j = Some f" using set_q_readable [OF dist] by blast
    with f assms have "j = k" unfolding queue_wf_def by blast
    with \<open>q_lookup s j = Some f\<close> assms(2) Some show ?thesis by simp
  qed
qed

lemma q_create_found:
  assumes "q_create env s body a c f au hex now = Inr (e, s')" and "normalize_request env body = Inr p"
    and "queue_wf cfg s" and "q_dedup_key e = Some d"
  shows "\<exists>k. q_lookup s' k = Some e \<and> q_status e \<in> set NON_TERMINAL_STATUS \<and> qp_dedup_key p = Some d"
  using q_create_Inr [OF assms(1)]
proof (elim exE conjE disjE)
  fix q assume q: "normalize_request env body = Inr q" and s: "s' = s"
    and b: "Option.bind (qp_dedup_key q) (find_non_terminal_by_dedup s) = Some e"
  obtain d' where d': "qp_dedup_key q = Some d'" "find_non_terminal_by_dedup s d' = Some e"
    using b by (auto simp: bind_eq_Some_conv)
  then have e: "e \<in> set (q_readable s)" "q_dedup_key e = Some d'" "q_status e \<in> set NON_TERMINAL_STATUS"
    by (auto simp: find_non_terminal_by_dedup_def dest: find_SomeD)
  moreover have "distinct (map fst (qs_files s))" using assms(3) by (simp add: queue_wf_def)
  ultimately obtain k where "q_lookup s k = Some e" using set_q_readable by blast
  with e d' q s assms(2,4) show ?thesis by auto
next
  fix q assume q: "normalize_request env body = Inr q"
    and e: "e = new_entry q (map_option (\<lambda>b. stamp_requester b a c) (qp_requester q)) (''q-'' @ hex) now"
    and f: "qs_files s' = aupd (q_id e) (QEntry e) (qs_files s)"
  have "q_status e = Pending" "q_dedup_key e = qp_dedup_key q" by (simp_all add: e new_entry_def)
  with q assms(2,4) have "q_lookup s' (q_id e) = Some e \<and> q_status e \<in> set NON_TERMINAL_STATUS \<and> qp_dedup_key p = Some d"
    by (auto simp: q_lookup_aupd [OF f] read_file_def VALID_STATUS_def NON_TERMINAL_STATUS_def)
  then show ?thesis by blast
qed

lemma q_create_replay:
  assumes "q_create env s body a c f au hex now = Inr (e, s')" and "normalize_request env body = Inr p"
    and "qp_dedup_key p = Some d" and "find_non_terminal_by_dedup s2 d = Some e2"
  shows "q_create env s2 body a c f au hex' now' = Inr (e2, s2)"
  using assms by (auto simp: q_create_def rbind_eq_Inr Let_def)

lemma sum_counts:
  assumes "\<And>x. x \<in> set xs \<Longrightarrow> g x \<in> set ks" and "distinct ks"
  shows "sum_list (map (\<lambda>k. length (filter (\<lambda>x. g x = k) xs)) ks) = length xs"
  using assms(1)
proof (induction xs)
  case Nil
  then show ?case by (simp add: sum_list_0)
next
  case (Cons x xs)
  have "sum_list (map (\<lambda>k. length (filter (\<lambda>y. g y = k) (x # xs))) ks) =
      sum_list (map (\<lambda>k. (if k = g x then 1 else 0) + length (filter (\<lambda>y. g y = k) xs)) ks)"
    by (rule arg_cong [where f = sum_list], rule map_cong) auto
  also have "\<dots> = sum_list (map (\<lambda>k. if k = g x then 1 else 0) ks) +
      sum_list (map (\<lambda>k. length (filter (\<lambda>y. g y = k) xs)) ks)"
    by (simp add: sum_list_addf)
  also have "sum_list (map (\<lambda>k. if k = g x then 1 else (0::nat)) ks) = 1"
    using assms(2) Cons.prems [of x] by (simp add: sum_list_distinct_conv_sum_set)
  finally show ?case using Cons by simp
qed

subsection \<open>The drain flag\<close>

fun drain_cleared :: "unit \<Rightarrow> queue_op \<Rightarrow> bool" where
  "drain_cleared _ (QSetDrain b _ _) = (\<not> b)"
| "drain_cleared _ _ = False"

text \<open>Since when the launcher has been draining.\<close>

definition draining_since :: "unit \<Rightarrow> queue_store \<Rightarrow> time option" where
  "draining_since _ s = (if dr_enabled (get_drain s) then dr_since (get_drain s) else None)"

lemma q_create_drain: "qs_drain (kept s (q_create env s body a c f au hex now)) = qs_drain s"
proof (cases "q_create env s body a c f au hex now")
  case (Inr r)
  then show ?thesis by (cases r) (auto dest: q_create_Inr)
qed simp

lemma with_entry_drain: "qs_drain (kept s (with_entry s k now act)) = qs_drain s"
  by (auto simp: with_entry_def q_get_def q_path_def q_update_def q_write_def rbind_def kept_def Let_def
      split: option.splits sum.splits)

lemma q_requeue_drain: "qs_drain (kept s (q_requeue cfg s k cause a hex now)) = qs_drain s"
  by (auto simp: q_requeue_def q_get_def q_path_def q_write_def rbind_def kept_def Let_def
      split: option.splits sum.splits)

lemma q_delete_drain: "qs_drain (kept s (q_delete s k)) = qs_drain s"
  by (auto simp: q_delete_def q_get_def q_path_def rbind_def kept_def split: option.splits sum.splits)

lemma queue_exec_drain:
  "\<nexists>b r now. x = QSetDrain b r now \<Longrightarrow> qs_drain (queue_exec env cfg s x) = qs_drain s"
  by (cases x)
     (simp_all add: q_create_drain with_entry_drain q_requeue_drain q_delete_drain q_set_priority_def
        q_mark_launched_def q_mark_done_def q_mark_failed_def q_record_skip_def q_record_block_def
        q_record_unblock_def)

lemma queue_exec_draining:
  assumes "\<not> drain_cleared u x" and "draining_since u s = Some t"
  shows "draining_since u (queue_exec env cfg s x) = Some t"
proof (cases "\<exists>b r now. x = QSetDrain b r now")
  case True
  then show ?thesis
    using assms by (auto simp: draining_since_def set_drain_def get_drain_def drain_off_def Let_def
        split: option.splits if_splits)
next
  case False
  then have "get_drain (queue_exec env cfg s x) = get_drain s"
    by (simp add: get_drain_def queue_exec_drain)
  with assms(2) show ?thesis by (simp add: draining_since_def split: if_splits)
qed

interpretation drain: status_machine "queue_exec env cfg" "\<lambda>_. True" draining_since drain_cleared "\<lambda>_ _. False"
  for env cfg
  by unfold_locales (auto intro: queue_exec_draining)

text \<open>A well-formed queue whose file names are safe.\<close>

definition safe_queue :: "int option \<Rightarrow> queue_store \<Rightarrow> bool" where
  "safe_queue cfg s = (queue_wf cfg s \<and> list_all (\<lambda>p. safe_queue_id (fst p)) (qs_files s))"

lemma safe_queue_lookup:
  assumes "safe_queue cfg s" and "q_lookup s k = Some e"
  shows "safe_queue_id k" and "q_id e = k"
proof -
  have "k \<in> fst ` set (qs_files s)"
    using assms(2) by (auto simp: q_lookup_def bind_eq_Some_conv dest: map_of_SomeD intro: rev_image_eqI)
  then show "safe_queue_id k" using assms(1) by (auto simp: safe_queue_def list_all_iff)
  show "q_id e = k" using assms by (auto simp: safe_queue_def queue_wf_def entry_wf_def)
qed

subsection \<open>A concrete queue\<close>

definition demo_entry :: queue_entry where
  "demo_entry = new_entry demo_params (qp_requester demo_params) ''q-1'' 10"

definition demo_store :: queue_store where
  "demo_store = \<lparr>qs_files = [(''q-1'', QEntry demo_entry)], qs_drain = None, qs_audit = []\<rparr>"

definition demo_create :: queue_op where
  "demo_create = QCreate demo_body None None None AuditStore ''1'' 10"

lemma demo_create_accepted:
  "q_create demo_request_env empty_queue demo_body None None None AuditStore ''1'' 10 =
     Inr (demo_entry, demo_store)"
  by (simp add: q_create_def demo_request_accepted empty_queue_def demo_store_def demo_entry_def
      find_non_terminal_by_dedup_def q_list_def q_readable_def q_write_def demo_params_def new_entry_def
      stamp_requester_def Let_def map_filter_def)

lemma queue_after_demo: "queue_after demo_request_env cfg [demo_create] = demo_store"
  by (simp add: queue_after_def demo_create_def demo_create_accepted)

lemma queue_after_demo_Cons:
  "queue_after demo_request_env cfg (demo_create # xs) = run_ops (queue_exec demo_request_env cfg) demo_store xs"
  using queue_after_demo by (simp add: queue_after_def)

lemmas queue_eval =
  with_entry_def q_get_def q_path_def q_lookup_def q_update_def q_write_def read_file_def Let_def
  VALID_STATUS_def safe_queue_id_def is_ctrl_def q_mark_launched_def q_mark_failed_def q_mark_done_def
  q_requeue_def bounded_reason_def MAX_QUEUE_REASON_CHARS_def max_retries_of_def

section \<open>Properties\<close>






text \<open>C21: creation with a dedup key is idempotent. In a reachable queue, when a request with a
  dedup key has been accepted, posting it again (whatever the clock and the fresh id) returns
  the same entry and changes nothing.\<close>

theorem create_dedup_idempotent:
  assumes "q_create env (queue_after env cfg ops) body a c f au hex now = Inr (e, s')"
    and "q_dedup_key e = Some d"
  shows "q_create env s' body a c f au hex' now' = Inr (e, s')"
proof -
  let ?s = "queue_after env cfg ops"
  from q_create_Inr [OF assms(1)] obtain p where p: "normalize_request env body = Inr p" by blast
  have "queue_exec env cfg ?s (QCreate body a c f au hex now) = s'" using assms(1) by simp
  then have wf: "queue_wf cfg s'" using queue_exec_wf queue_after_wf by metis
  obtain k where k: "q_lookup s' k = Some e" and live: "q_status e \<in> set NON_TERMINAL_STATUS"
      and dk: "qp_dedup_key p = Some d"
    using q_create_found [OF assms(1) p] queue_after_wf [of cfg env ops] assms(2) by blast
  have "find_non_terminal_by_dedup s' d = Some e"
    using find_dedup_unique [OF wf k live assms(2)] .
  from q_create_replay [OF assms(1) p dk this] show ?thesis .
qed

theorem create_dedup_idempotent_witness:
  "q_create demo_request_env demo_store demo_body None None None AuditStore ''2'' 20 =
     Inr (demo_entry, demo_store)"
proof -
  have "q_create demo_request_env (queue_after demo_request_env None []) demo_body None None None AuditStore ''1'' 10 =
     Inr (demo_entry, demo_store)"
    using demo_create_accepted by (simp add: queue_after_def)
  moreover have "q_dedup_key demo_entry = Some ''k1''"
    by (simp add: demo_entry_def new_entry_def demo_params_def)
  ultimately show ?thesis by (rule create_dedup_idempotent)
qed

text \<open>Retries. A successful \<open>requeue\<close> leaves a new pending entry that points back at the
  failed one with the attempt raised by one (never beyond the cap plus one), carries the
  work and its execution settings unchanged and no dedup key, and leaves every entry but
  the minted one as it was; it is refused on an entry that has not failed.\<close>

lemma requeue_successor:
  assumes "q_requeue cfg s k cause a hex now = Inr (Some r, s')"
  shows "(\<exists>e. q_lookup s k = Some e \<and> q_status e = Failed \<and> q_retry_of r = Some (q_id e) \<and>
            q_attempt r = q_attempt e + 1 \<and> q_attempt r \<le> max_retries_of cfg + 1 \<and>
            q_task r = q_task e \<and> q_workspace r = q_workspace e \<and> q_branch r = q_branch e \<and>
            q_max_rounds r = q_max_rounds e \<and> q_time_limit r = q_time_limit e \<and>
            q_model r = q_model e \<and> q_roles r = q_roles e \<and> q_requester r = q_requester e) \<and>
         q_status r = Pending \<and> q_run_id r = None \<and> q_dedup_key r = None \<and>
         q_failure_cause r = Some cause \<and> q_lookup s' (q_id r) = Some r \<and>
         (\<forall>j. j \<noteq> q_id r \<longrightarrow> q_lookup s' j = q_lookup s j)"
  using assms
  by (auto simp: q_requeue_Inr successor_entry_def read_file_def VALID_STATUS_def split: option.splits)

lemma requeue_successor_witness:
  "\<exists>r s'. q_requeue None (queue_after demo_request_env None [demo_create, QMarkFailed ''q-1'' ''x'' 11])
      ''q-1'' ''quota'' plain_requeue ''2'' 12 = Inr (Some r, s') \<and> q_retry_of r = Some ''q-1'' \<and> q_attempt r = 2"
proof -
  let ?s = "queue_after demo_request_env None [demo_create, QMarkFailed ''q-1'' ''x'' 11]"
  let ?f = "demo_entry\<lparr>q_status := Failed, q_reason := Some ''x'', q_updated_at := 11\<rparr>"
  let ?r = "successor_entry ?f ''quota'' plain_requeue ''q-2'' 12"
  have l: "q_lookup ?s ''q-1'' = Some ?f"
    by (simp add: queue_after_demo_Cons demo_store_def demo_entry_def new_entry_def queue_eval)
  have "safe_queue_id ''q-1''" by (simp add: queue_eval)
  with l have r: "q_requeue None ?s ''q-1'' ''quota'' plain_requeue ''2'' 12 = Inr (Some ?r, q_write ?s ?r)"
    by (simp add: q_requeue_Inr demo_entry_def new_entry_def max_retries_of_def)
  then show ?thesis using requeue_successor [OF r] l by (auto simp: demo_entry_def new_entry_def)
qed

text \<open>The listing. \<open>list\<close> returns every readable entry once, by descending priority and,
  among equals, by creation time; and the per-status counts add up to its length.\<close>

lemma q_list_sorted_complete:
  "mset (q_list s) = mset (q_readable s) \<and>
   sorted (map (\<lambda>e. (- q_priority e, q_created_at e)) (q_list s)) \<and>
   sum_list (map (q_counts s) VALID_STATUS) = length (q_list s)"
proof -
  have "q_status e \<in> set VALID_STATUS" if "e \<in> set (q_list s)" for e
    using that by (auto simp: q_readable_def map_filter_def read_file_def split: qfile.splits if_splits)
  then have "sum_list (map (q_counts s) VALID_STATUS) = length (q_list s)"
    unfolding q_counts_def by (rule sum_counts) (auto simp: VALID_STATUS_def)
  then show ?thesis by (simp add: q_list_def)
qed

text \<open>Draining. Once the drain flag is set, the launcher stays draining since that moment,
  whatever reasons later settings give, until an operation clears it.\<close>

lemma drain_since_stable:
  assumes "draining_since () s = None"
    and "list_all (\<lambda>x. \<not> drain_cleared () x) xs"
  shows "draining_since () (run_ops (queue_exec env cfg) s (QSetDrain True r now # xs)) = Some now"
proof -
  have "draining_since () (queue_exec env cfg s (QSetDrain True r now)) = Some now"
    using assms(1) by (auto simp: draining_since_def set_drain_def get_drain_def drain_off_def Let_def
        split: option.splits if_splits)
  from drain.stuck_status_run [OF TrueI assms(2) this] show ?thesis by simp
qed

lemma drain_since_stable_witness:
  "draining_since () (run_ops (queue_exec demo_request_env None) demo_store
     [QSetDrain True None 5, QSetDrain True (Some ''again'') 9]) = Some 5"
  by (rule drain_since_stable) (simp_all add: draining_since_def get_drain_def demo_store_def drain_off_def)

end
