(* ===== verification/Queue_Reconcile.thy ===== *)
theory Queue_Reconcile
  imports Queue_Store
begin

text \<open>
  The reconcile sweep of \<open>queue_reconcile.py\<close>: launched queue entries whose run has already
  ended (zombies) are moved to the matching terminal status, and leftover park stashes are
  inventoried. What the sweep reads of the runs directory and of git is the record
  \<open>run_world\<close>; the clock of each entry update is a function of the queue id.
\<close>

section \<open>What the sweep reads\<close>

text \<open>
  \<open>rw_status\<close> and \<open>rw_park\<close>: the JSON objects of \<open>control/status.json\<close> and
  \<open>control/park.json\<close> of a run, \<open>None\<close> when missing or invalid. \<open>rw_unpushed\<close>:
  what \<open>git rev-list --not --remotes\<close> prints for a workspace and a ref, \<open>None\<close> when
  the workspace is gone or git fails.
\<close>

record run_world =
  rw_status :: "string \<Rightarrow> pydict option"
  rw_park :: "string \<Rightarrow> pydict option"
  rw_unpushed :: "string \<Rightarrow> string \<Rightarrow> string option"
  rw_render :: "pyval \<Rightarrow> string"

definition RECONCILE_ENTRY_STATES :: "qstatus list" where
  "RECONCILE_ENTRY_STATES = [Launched]"

definition RUN_TO_QUEUE_TERMINAL :: "(string \<times> qstatus) list" where
  "RUN_TO_QUEUE_TERMINAL = [(''completed'', Done), (''complete'', Done), (''failed'', Failed),
     (''cancelled'', Failed), (''canceled'', Failed), (''blocked'', Failed), (''incomplete'', Failed)]"

definition TERMINAL_RUN_STATUSES :: "string list" where
  "TERMINAL_RUN_STATUSES = [''completed'', ''complete'', ''failed'', ''cancelled'', ''canceled'',
     ''blocked'', ''incomplete'']"

record zombie =
  z_queue_id :: string
  z_run_id :: string
  z_run_status :: string
  z_target :: qstatus
  z_note :: string

record stash_report =
  st_run_id :: string
  st_name :: string
  st_workspace :: string
  st_backup_ref :: "string option"
  st_on_remote :: "bool option"

record reconcile_report =
  rr_dry_run :: bool
  rr_zombies :: "zombie list"
  rr_stashes :: "stash_report list"
  rr_applied :: "zombie list"
  rr_live_entries :: "string list"

section \<open>Stashes\<close>

definition read_park_from_status :: "run_world \<Rightarrow> string \<Rightarrow> pydict option" where
  "read_park_from_status w run_id = (case rw_status w run_id of
       None \<Rightarrow> None
     | Some d \<Rightarrow> (case dget d ''park'' of PDict p \<Rightarrow> Some p | _ \<Rightarrow> None))"

definition commits_on_any_remote :: "run_world \<Rightarrow> string \<Rightarrow> string option \<Rightarrow> bool option" where
  "commits_on_any_remote w workspace ref = (case ref of
       None \<Rightarrow> None
     | Some r \<Rightarrow> if r = [] then None
                 else map_option (\<lambda>out. py_strip out = []) (rw_unpushed w workspace r))"

definition str_field :: "pydict \<Rightarrow> string \<Rightarrow> string option" where
  "str_field d k = (case dget d k of PStr s \<Rightarrow> Some s | _ \<Rightarrow> None)"

definition stash_from_park_record :: "run_world \<Rightarrow> string \<Rightarrow> pydict \<Rightarrow> string \<Rightarrow> stash_report option" where
  "stash_from_park_record w run_id park workspace = (case dget park ''stash'' of
       PStr name \<Rightarrow>
         if py_strip name = [] then None
         else Some \<lparr>st_run_id = run_id, st_name = name, st_workspace = workspace,
                st_backup_ref = str_field park ''backup_ref'',
                st_on_remote = (if workspace = [] then None
                  else commits_on_any_remote w workspace (str_field park ''backup_ref''))\<rparr>
     | _ \<Rightarrow> None)"

definition stash_report_for_run :: "run_world \<Rightarrow> string \<Rightarrow> string \<Rightarrow> stash_report option" where
  "stash_report_for_run w run_id workspace =
     (case (case rw_park w run_id of None \<Rightarrow> read_park_from_status w run_id | Some p \<Rightarrow> Some p) of
        None \<Rightarrow> None
      | Some park \<Rightarrow> stash_from_park_record w run_id park
          (if workspace = [] then str_or_empty (rw_render w) (dget park ''workspace'') else workspace))"

fun collect_stashes_from :: "run_world \<Rightarrow> string list \<Rightarrow> queue_entry list \<Rightarrow> stash_report list" where
  "collect_stashes_from w seen [] = []"
| "collect_stashes_from w seen (e # es) = (case q_run_id e of
       None \<Rightarrow> collect_stashes_from w seen es
     | Some r \<Rightarrow>
         if r = [] \<or> r \<in> set seen then collect_stashes_from w seen es
         else (case stash_report_for_run w r (q_workspace e) of
                 None \<Rightarrow> collect_stashes_from w (r # seen) es
               | Some rep \<Rightarrow> rep # collect_stashes_from w (r # seen) es))"

definition collect_stashes :: "run_world \<Rightarrow> queue_store \<Rightarrow> stash_report list" where
  "collect_stashes w s = collect_stashes_from w [] (q_list s)"

section \<open>Zombies\<close>

text \<open>The status the run's file names, when it is a terminal one.\<close>

definition run_ended :: "run_world \<Rightarrow> string \<Rightarrow> string option" where
  "run_ended w run_id = (case rw_status w run_id of
       None \<Rightarrow> None
     | Some d \<Rightarrow> if d = [] then None
         else let lifecycle = py_lower (py_strip (str_or_empty (rw_render w) (dget d ''status'')))
              in if lifecycle \<in> set TERMINAL_RUN_STATUSES then Some lifecycle else None)"

definition zombie_note :: "string \<Rightarrow> string \<Rightarrow> string" where
  "zombie_note lifecycle run_id = take 4000
     (''reconciled from run status '' @ [CHR 0x27] @ lifecycle @ [CHR 0x27] @ '' (runs/'' @ run_id @ ''/control/status.json)'')"

definition zombie_of :: "run_world \<Rightarrow> queue_entry \<Rightarrow> zombie option" where
  "zombie_of w e = (case q_run_id e of
       None \<Rightarrow> None
     | Some r \<Rightarrow> if r = [] then None
         else map_option (\<lambda>lifecycle. \<lparr>z_queue_id = q_id e, z_run_id = r, z_run_status = lifecycle,
                z_target = (case map_of RUN_TO_QUEUE_TERMINAL lifecycle of Some t \<Rightarrow> t | None \<Rightarrow> Failed),
                z_note = zombie_note lifecycle r\<rparr>) (run_ended w r))"

definition launched_entries :: "queue_store \<Rightarrow> queue_entry list" where
  "launched_entries s = filter (\<lambda>e. q_status e \<in> set RECONCILE_ENTRY_STATES) (q_list s)"

definition find_zombies :: "run_world \<Rightarrow> queue_store \<Rightarrow> zombie list" where
  "find_zombies w s = List.map_filter (zombie_of w) (launched_entries s)"

definition list_live_entries :: "queue_store \<Rightarrow> string list" where
  "list_live_entries s = map q_id (launched_entries s)"

section \<open>Applying\<close>

text \<open>An exception of the store ends the sweep; what was written before it stays.\<close>

fun apply_reconciliation ::
    "queue_store \<Rightarrow> (string \<Rightarrow> time) \<Rightarrow> zombie list \<Rightarrow> zombie list \<times> store_exn option \<times> queue_store" where
  "apply_reconciliation s clock [] = ([], None, s)"
| "apply_reconciliation s clock (z # zs) = (case q_get s (z_queue_id z) of
       Inl x \<Rightarrow> ([], Some x, s)
     | Inr None \<Rightarrow> apply_reconciliation s clock zs
     | Inr (Some e) \<Rightarrow>
         if q_status e \<noteq> Launched then apply_reconciliation s clock zs
         else (case (if z_target z = Done
                     then q_mark_done s (z_queue_id z) (Some (z_note z)) (clock (z_queue_id z))
                     else q_mark_failed s (z_queue_id z) (z_note z) (clock (z_queue_id z))) of
                 Inl x \<Rightarrow> ([], Some x, s)
               | Inr (upd, s') \<Rightarrow>
                   let (applied, x, s'') = apply_reconciliation s' clock zs
                   in (if upd = None then applied else z # applied, x, s'')))"

definition reconcile_sweep ::
    "run_world \<Rightarrow> (string \<Rightarrow> time) \<Rightarrow> queue_store \<Rightarrow> bool \<Rightarrow> reconcile_report \<times> store_exn option \<times> queue_store" where
  "reconcile_sweep w clock s dry_run =
     (let zs = find_zombies w s;
          (applied, x, s') = (if \<not> dry_run \<and> zs \<noteq> [] then apply_reconciliation s clock zs else ([], None, s))
      in (\<lparr>rr_dry_run = dry_run, rr_zombies = zs, rr_stashes = collect_stashes w s,
           rr_applied = applied, rr_live_entries = list_live_entries s\<rparr>, x, s'))"

section \<open>The text report\<close>

text \<open>\<open>format_report_text\<close>; \<open>runs_root\<close> is the resolved runs root the report carries.\<close>

definition report_lines :: "(pyval \<Rightarrow> string) \<Rightarrow> string \<Rightarrow> reconcile_report \<Rightarrow> string list" where
  "report_lines render runs_root r =
     [''reconcile sweep ('' @ (if rr_dry_run r then ''DRY RUN'' else ''APPLIED'') @ '') runs_root='' @ runs_root,
      ''  zombies='' @ show_nat (length (rr_zombies r)) @ '' stashes='' @ show_nat (length (rr_stashes r)) @
      '' live_entries='' @ show_nat (length (rr_live_entries r))] @
     (if rr_zombies r = [] then [] else ''  zombies:'' #
        map (\<lambda>z. ''    - '' @ z_queue_id z @ '' run='' @ z_run_id z @ '' '' @ z_run_status z @ '' -> '' @
               status_name (z_target z)) (rr_zombies r)) @
     (if rr_dry_run r \<or> rr_applied r = [] then [] else ''  applied:'' #
        map (\<lambda>a. ''    - '' @ z_queue_id a @ '' -> '' @ status_name (z_target a)) (rr_applied r)) @
     (if rr_stashes r = [] then [] else ''  stashes:'' #
        map (\<lambda>st. ''    - run='' @ st_run_id st @ '' stash='' @ render (PStr (st_name st)) @ '' '' @
               (case st_on_remote st of None \<Rightarrow> ''on_remote=unknown''
                | Some b \<Rightarrow> ''on_remote='' @ (if b then ''true'' else ''false''))) (rr_stashes r)) @
     (if rr_live_entries r = [] then []
      else [''  live entries (untouched): '' @ py_join '', '' (rr_live_entries r)])"

definition format_report_text :: "(pyval \<Rightarrow> string) \<Rightarrow> string \<Rightarrow> reconcile_report \<Rightarrow> string" where
  "format_report_text render runs_root r = py_join [newline] (report_lines render runs_root r) @ [newline]"

section \<open>Lemmas\<close>

lemma zombie_of_Some:
  "zombie_of w e = Some z \<longleftrightarrow> (\<exists>r l. q_run_id e = Some r \<and> r \<noteq> [] \<and> run_ended w r = Some l \<and>
     z = \<lparr>z_queue_id = q_id e, z_run_id = r, z_run_status = l,
          z_target = (case map_of RUN_TO_QUEUE_TERMINAL l of Some t \<Rightarrow> t | None \<Rightarrow> Failed),
          z_note = zombie_note l r\<rparr>)"
  by (auto simp: zombie_of_def split: option.splits)

lemma run_ended_target:
  "run_ended w r = Some l \<Longrightarrow> l \<in> set TERMINAL_RUN_STATUSES \<and>
     map_of RUN_TO_QUEUE_TERMINAL l = Some (if l \<in> {''completed'', ''complete''} then Done else Failed)"
  by (auto simp: run_ended_def TERMINAL_RUN_STATUSES_def RUN_TO_QUEUE_TERMINAL_def Let_def
      split: option.splits if_splits)

text \<open>What an applied reconciliation makes of the entry.\<close>

definition resolved :: "(string \<Rightarrow> time) \<Rightarrow> zombie \<Rightarrow> queue_entry \<Rightarrow> queue_entry" where
  "resolved clock z e = e\<lparr>q_status := (if z_target z = Done then Done else Failed),
     q_reason := Some (bounded_reason (z_note z)), q_updated_at := clock (z_queue_id z)\<rparr>"

lemma mark_zombie:
  assumes "safe_queue_id k" and "q_lookup s k = Some e" and "q_status e = Launched"
  shows "q_mark_done s k (Some note) now =
      Inr (Some (e\<lparr>q_status := Done, q_reason := Some (bounded_reason note), q_updated_at := now\<rparr>),
        q_write s (e\<lparr>q_status := Done, q_reason := Some (bounded_reason note), q_updated_at := now\<rparr>))"
    and "q_mark_failed s k note now =
      Inr (Some (e\<lparr>q_status := Failed, q_reason := Some (bounded_reason note), q_updated_at := now\<rparr>),
        q_write s (e\<lparr>q_status := Failed, q_reason := Some (bounded_reason note), q_updated_at := now\<rparr>))"
  using assms by (simp_all add: q_mark_done_def q_mark_failed_def with_entry_def q_get_def q_path_def
      q_update_def Let_def)

definition zombie_in :: "queue_store \<Rightarrow> zombie \<Rightarrow> bool" where
  "zombie_in s z = (safe_queue_id (z_queue_id z) \<and>
     (\<exists>e. q_lookup s (z_queue_id z) = Some e \<and> q_id e = z_queue_id z \<and> q_status e = Launched))"

lemma apply_one:
  assumes "zombie_in s z" and "q_lookup s (z_queue_id z) = Some e"
  shows "apply_reconciliation s clock (z # zs) =
    (let (applied, x, s'') = apply_reconciliation (q_write s (resolved clock z e)) clock zs
     in (z # applied, x, s''))"
  using assms by (auto simp: zombie_in_def q_get_def q_path_def mark_zombie resolved_def)

lemma lookup_resolved:
  assumes "q_id e = z_queue_id z"
  shows "q_lookup (q_write s (resolved clock z e)) k =
     (if k = z_queue_id z then Some (resolved clock z e) else q_lookup s k)"
  using assms by (simp add: resolved_def read_file_def VALID_STATUS_def)

text \<open>Applied to distinct zombies, the sweep resolves each of them and nothing else.\<close>

lemma apply_all:
  assumes "distinct (map z_queue_id zs)" and "list_all (zombie_in s) zs"
  shows "\<exists>s'. apply_reconciliation s clock zs = (zs, None, s') \<and>
    (\<forall>k. q_lookup s' k = (case find (\<lambda>z. z_queue_id z = k) zs of
        None \<Rightarrow> q_lookup s k
      | Some z \<Rightarrow> map_option (resolved clock z) (q_lookup s k)))"
  using assms
proof (induction zs arbitrary: s)
  case (Cons z zs)
  obtain e where e: "q_lookup s (z_queue_id z) = Some e" and id: "q_id e = z_queue_id z"
    using Cons.prems(2) by (auto simp: zombie_in_def)
  let ?s = "q_write s (resolved clock z e)"
  note look = lookup_resolved [OF id, of s clock]
  have "list_all (zombie_in ?s) zs"
    unfolding list_all_iff
  proof
    fix y assume "y \<in> set zs"
    then have "zombie_in s y" and "z_queue_id y \<noteq> z_queue_id z"
      using Cons.prems by (auto simp: list_all_iff image_iff)
    then show "zombie_in ?s y" by (simp add: zombie_in_def look del: q_lookup_write)
  qed
  then obtain s' where s': "apply_reconciliation ?s clock zs = (zs, None, s')"
    and l: "\<forall>k. q_lookup s' k = (case find (\<lambda>z. z_queue_id z = k) zs of
        None \<Rightarrow> q_lookup ?s k | Some z \<Rightarrow> map_option (resolved clock z) (q_lookup ?s k))"
    using Cons.IH [of ?s] Cons.prems(1) by auto
  have "find (\<lambda>y. z_queue_id y = z_queue_id z) zs = None"
    using Cons.prems(1) by (auto simp: find_None image_iff)
  then have "q_lookup s' k = (case find (\<lambda>z. z_queue_id z = k) (z # zs) of
        None \<Rightarrow> q_lookup s k | Some z \<Rightarrow> map_option (resolved clock z) (q_lookup s k))" for k
    using l [rule_format, of k] e
    by (cases "k = z_queue_id z") (simp_all add: look del: q_lookup_write split: option.splits)
  moreover have "apply_reconciliation s clock (z # zs) = (z # zs, None, s')"
    using apply_one [of s z e clock zs] Cons.prems(2) e s' by simp
  ultimately show ?case by blast
qed simp

text \<open>The zombies a sweep finds are launched entries of the store, each once.\<close>

lemma find_zombies_in:
  assumes "safe_queue cfg s"
  shows "list_all (zombie_in s) (find_zombies w s)"
    and "z \<in> set (find_zombies w s) \<longleftrightarrow>
      (\<exists>k e. q_lookup s k = Some e \<and> q_status e = Launched \<and> zombie_of w e = Some z)"
proof -
  have d: "distinct (map fst (qs_files s))" using assms by (simp add: safe_queue_def queue_wf_def)
  have launched: "e \<in> set (launched_entries s) \<longleftrightarrow> (\<exists>k. q_lookup s k = Some e) \<and> q_status e = Launched" for e
    using set_q_readable [OF d] by (auto simp: launched_entries_def RECONCILE_ENTRY_STATES_def)
  show z: "z \<in> set (find_zombies w s) \<longleftrightarrow>
      (\<exists>k e. q_lookup s k = Some e \<and> q_status e = Launched \<and> zombie_of w e = Some z)" for z
    by (force simp: find_zombies_def map_filter_def launched)
  show "list_all (zombie_in s) (find_zombies w s)"
    unfolding list_all_iff zombie_in_def
  proof
    fix z assume "z \<in> set (find_zombies w s)"
    then obtain k e where k: "q_lookup s k = Some e" "q_status e = Launched" "zombie_of w e = Some z"
      using z by blast
    then have "z_queue_id z = k" using safe_queue_lookup(2) [OF assms k(1)] by (auto simp: zombie_of_Some)
    with k safe_queue_lookup [OF assms k(1)]
    show "safe_queue_id (z_queue_id z) \<and>
      (\<exists>e. q_lookup s (z_queue_id z) = Some e \<and> q_id e = z_queue_id z \<and> q_status e = Launched)" by simp
  qed
qed

lemma set_map_filter_keys:
  "(\<And>x y. x \<in> set xs \<Longrightarrow> g x = Some y \<Longrightarrow> h y = f x) \<Longrightarrow>
     h ` set (List.map_filter g xs) \<subseteq> f ` set xs"
  by (force simp: map_filter_def)

lemma distinct_map_filter:
  assumes "distinct (map f xs)" and "\<And>x y. x \<in> set xs \<Longrightarrow> g x = Some y \<Longrightarrow> h y = f x"
  shows "distinct (map h (List.map_filter g xs))"
  using assms
proof (induction xs)
  case (Cons x xs)
  have "h ` set (List.map_filter g xs) \<subseteq> f ` set xs"
    by (rule set_map_filter_keys) (simp add: Cons.prems(2))
  then have "h y \<notin> h ` set (List.map_filter g xs)" if "g x = Some y" for y
    using Cons.prems(1) Cons.prems(2) [of x y] that by auto
  then show ?case using Cons by (auto simp: map_filter_simps split: option.splits)
qed (simp add: map_filter_simps)

lemma distinct_zombies:
  assumes "safe_queue cfg s"
  shows "distinct (map z_queue_id (find_zombies w s))"
proof -
  have d: "distinct (map fst (qs_files s))" using assms by (simp add: safe_queue_def queue_wf_def)
  have "distinct (map q_id (q_readable s))"
    unfolding q_readable_def using d
  proof (rule distinct_map_filter)
    fix p e assume "p \<in> set (qs_files s)" and "read_file (snd p) = Some e"
    then have "map_of (qs_files s) (fst p) = Some (snd p)" using d by simp
    then have "q_lookup s (fst p) = Some e" using \<open>read_file (snd p) = Some e\<close> by (simp add: q_lookup_def)
    then show "q_id e = fst p" by (rule safe_queue_lookup(2) [OF assms])
  qed
  then have "distinct (map q_id (launched_entries s))"
    by (auto simp: launched_entries_def q_list_def distinct_map intro: inj_on_subset)
  then show ?thesis unfolding find_zombies_def
    by (rule distinct_map_filter) (auto simp: zombie_of_Some)
qed

lemma sweep_apply:
  assumes "safe_queue cfg s"
  shows "\<exists>rep s'. reconcile_sweep w clock s False = (rep, None, s') \<and>
    rr_zombies rep = find_zombies w s \<and> rr_applied rep = find_zombies w s \<and>
    (\<forall>k. q_lookup s' k = (case find (\<lambda>z. z_queue_id z = k) (find_zombies w s) of
        None \<Rightarrow> q_lookup s k
      | Some z \<Rightarrow> map_option (resolved clock z) (q_lookup s k)))"
proof -
  obtain s' where "apply_reconciliation s clock (find_zombies w s) = (find_zombies w s, None, s')"
    and "\<forall>k. q_lookup s' k = (case find (\<lambda>z. z_queue_id z = k) (find_zombies w s) of
        None \<Rightarrow> q_lookup s k | Some z \<Rightarrow> map_option (resolved clock z) (q_lookup s k))"
    using apply_all [OF distinct_zombies [OF assms] find_zombies_in(1) [OF assms]] by blast
  then show ?thesis by (cases "find_zombies w s = []") (auto simp: reconcile_sweep_def Let_def)
qed

lemma find_zombie_of:
  assumes "safe_queue cfg s" and "q_lookup s k = Some e"
  shows "find (\<lambda>z. z_queue_id z = k) (find_zombies w s) =
     (if q_status e = Launched then zombie_of w e else None)"
proof -
  have id: "z_queue_id z = k \<longleftrightarrow> j = k" if "q_lookup s j = Some f" "zombie_of w f = Some z" for j f z
    using safe_queue_lookup(2) [OF assms(1) that(1)] that(2) by (auto simp: zombie_of_Some)
  show ?thesis
  proof (cases "find (\<lambda>z. z_queue_id z = k) (find_zombies w s)")
    case None
    then have "\<forall>z\<in>set (find_zombies w s). z_queue_id z \<noteq> k" by (simp add: find_None)
    moreover have "z \<in> set (find_zombies w s) \<and> z_queue_id z = k"
      if "q_status e = Launched" "zombie_of w e = Some z" for z
      using that assms(2) id [OF assms(2)] find_zombies_in(2) [OF assms(1)] by blast
    ultimately show ?thesis using None by (cases "zombie_of w e") auto
  next
    case (Some z)
    then obtain j f where "q_lookup s j = Some f" "q_status f = Launched" "zombie_of w f = Some z" "z_queue_id z = k"
      by (auto simp: find_zombies_in(2) [OF assms(1)] dest!: find_SomeD)
    with id assms(2) Some show ?thesis by auto
  qed
qed

text \<open>Applying writes through the store's own operations.\<close>

lemma apply_as_ops:
  "\<exists>ops. snd (snd (apply_reconciliation s clock zs)) = run_ops (queue_exec env cfg) s ops \<and>
     list_all (\<lambda>x. \<exists>k r t. x = QMarkDone k r t \<or> (\<exists>m. x = QMarkFailed k m t)) ops"
proof (induction zs arbitrary: s)
  case Nil
  show ?case by (rule exI [of _ "[]"]) simp
next
  case (Cons z zs)
  let ?ok = "\<lambda>ops. list_all (\<lambda>x. \<exists>k r t. x = QMarkDone k r t \<or> (\<exists>m. x = QMarkFailed k m t)) ops"
  let ?now = "clock (z_queue_id z)"
  define mark where "mark = (if z_target z = Done then QMarkDone (z_queue_id z) (Some (z_note z)) ?now
     else QMarkFailed (z_queue_id z) (z_note z) ?now)"
  define res where "res = (if z_target z = Done
     then q_mark_done s (z_queue_id z) (Some (z_note z)) ?now else q_mark_failed s (z_queue_id z) (z_note z) ?now)"
  have ex: "queue_exec env cfg s mark = kept s res" by (simp add: mark_def res_def)
  have okm: "?ok [mark]" by (simp add: mark_def)
  obtain ops where ops: "snd (snd (apply_reconciliation s clock zs)) = run_ops (queue_exec env cfg) s ops" "?ok ops"
    using Cons.IH by blast
  show ?case
  proof (cases "\<exists>e. q_get s (z_queue_id z) = Inr (Some e) \<and> q_status e = Launched")
    case False
    have "\<exists>ops. s = run_ops (queue_exec env cfg) s ops \<and> ?ok ops" by (rule exI [of _ "[]"]) simp
    with False ops show ?thesis by (auto split: sum.splits option.splits)
  next
    case True
    then obtain e where e: "q_get s (z_queue_id z) = Inr (Some e)" "q_status e = Launched" by blast
    show ?thesis
    proof (cases res)
      case (Inl x)
      have "\<exists>ops. s = run_ops (queue_exec env cfg) s ops \<and> ?ok ops" by (rule exI [of _ "[]"]) simp
      with e Inl show ?thesis by (auto simp: res_def)
    next
      case (Inr p)
      then obtain u s1 where p: "res = Inr (u, s1)" by (cases p) simp
      obtain ops1 where "snd (snd (apply_reconciliation s1 clock zs)) = run_ops (queue_exec env cfg) s1 ops1" "?ok ops1"
        using Cons.IH by blast
      moreover have "queue_exec env cfg s mark = s1" using ex p by simp
      ultimately have "snd (snd (apply_reconciliation s clock (z # zs))) = run_ops (queue_exec env cfg) s (mark # ops1)"
        using e p by (auto simp: res_def split: prod.splits)
      with okm \<open>?ok ops1\<close> show ?thesis by (intro exI [of _ "mark # ops1"]) simp
    qed
  qed
qed

lemma sweep_wf:
  assumes "queue_wf cfg s"
  shows "queue_wf cfg (snd (snd (reconcile_sweep w clock s dry_run)))"
proof -
  obtain ops where "snd (snd (apply_reconciliation s clock (find_zombies w s))) =
      run_ops (queue_exec demo_request_env cfg) s ops"
    using apply_as_ops by blast
  then have "queue_wf cfg (snd (snd (apply_reconciliation s clock (find_zombies w s))))"
    using queue.run_inv [OF assms] by simp
  then show ?thesis using assms by (auto simp: reconcile_sweep_def Let_def split: prod.splits if_splits)
qed

lemma find_zombies_empty:
  assumes "queue_wf cfg s"
    and "\<And>k e. q_lookup s k = Some e \<Longrightarrow> q_status e = Launched \<Longrightarrow> zombie_of w e = None"
  shows "find_zombies w s = []"
proof -
  have d: "distinct (map fst (qs_files s))" using assms(1) by (simp add: queue_wf_def)
  have "\<forall>e\<in>set (launched_entries s). zombie_of w e = None"
    using set_q_readable [OF d] assms(2) by (auto simp: launched_entries_def RECONCILE_ENTRY_STATES_def)
  then show ?thesis by (auto simp: find_zombies_def map_filter_def filter_empty_conv)
qed

section \<open>Properties\<close>

text \<open>A dry run only reads. It leaves the queue as it was, applies nothing and raises nothing,
  and every zombie it reports is named with the status its run ended in and the terminal queue
  status that stands for it.\<close>

lemma reconcile_dry_run_pure:
  "case reconcile_sweep w clock s True of (rep, x, s') \<Rightarrow>
     s' = s \<and> x = None \<and> rr_applied rep = [] \<and>
     list_all (\<lambda>z. run_ended w (z_run_id z) = Some (z_run_status z) \<and>
        z_target z = (if z_run_status z \<in> {''completed'', ''complete''} then Done else Failed) \<and>
        length (z_note z) \<le> 4000) (rr_zombies rep)"
proof -
  have "run_ended w (z_run_id z) = Some (z_run_status z) \<and>
        z_target z = (if z_run_status z \<in> {''completed'', ''complete''} then Done else Failed) \<and>
        length (z_note z) \<le> 4000" if zin: "z \<in> set (find_zombies w s)" for z
  proof -
    obtain e where "zombie_of w e = Some z"
      using zin by (auto simp: find_zombies_def map_filter_def)
    then show ?thesis using run_ended_target [of w "z_run_id z" "z_run_status z"]
      by (auto simp: zombie_of_Some zombie_note_def)
  qed
  then show ?thesis by (simp add: reconcile_sweep_def list_all_iff)
qed

text \<open>Applying is exact and settles the queue. On a well-formed queue the sweep raises
  nothing and applies every zombie it found; an entry that was not a launched entry of an ended
  run is unchanged; each zombie's entry becomes done when its run completed and failed
  otherwise; and a second sweep finds no zombie.\<close>

lemma reconcile_apply_settles:
  assumes "safe_queue cfg s"
  shows "\<exists>rep s'. reconcile_sweep w clock s False = (rep, None, s') \<and>
     rr_applied rep = rr_zombies rep \<and>
     (\<forall>k e. q_lookup s k = Some e \<longrightarrow>
        (\<exists>e'. q_lookup s' k = Some e' \<and>
          (case (if q_status e = Launched then zombie_of w e else None) of
             None \<Rightarrow> e' = e
           | Some z \<Rightarrow> q_status e' = (if z_run_status z \<in> {''completed'', ''complete''} then Done else Failed) \<and>
               q_run_id e' = q_run_id e))) \<and>
     find_zombies w s' = []"
proof -
  let ?zs = "find_zombies w s"
  obtain rep s' where sweep: "reconcile_sweep w clock s False = (rep, None, s')"
    and rep: "rr_zombies rep = ?zs" "rr_applied rep = ?zs"
    and look: "\<And>k. q_lookup s' k = (case find (\<lambda>z. z_queue_id z = k) ?zs of
        None \<Rightarrow> q_lookup s k | Some z \<Rightarrow> map_option (resolved clock z) (q_lookup s k))"
    using sweep_apply [OF assms, of w clock] by blast
  have found: "find (\<lambda>z. z_queue_id z = k) ?zs = (if q_status e = Launched then zombie_of w e else None)"
    if k: "q_lookup s k = Some e" for k e
    using find_zombie_of [OF assms k] .
  have target: "z_target z = (if z_run_status z \<in> {''completed'', ''complete''} then Done else Failed)"
    if "zombie_of w e = Some z" for e z
    using that run_ended_target by (auto simp: zombie_of_Some)
  have entry: "\<exists>e'. q_lookup s' k = Some e' \<and>
      (case (if q_status e = Launched then zombie_of w e else None) of
         None \<Rightarrow> e' = e
       | Some z \<Rightarrow> q_status e' = (if z_run_status z \<in> {''completed'', ''complete''} then Done else Failed) \<and>
           q_run_id e' = q_run_id e)" if k: "q_lookup s k = Some e" for k e
    using look [of k] found [OF k] k target [of e]
    by (cases "if q_status e = Launched then zombie_of w e else None")
       (auto simp: resolved_def split: if_splits)
  have "queue_wf cfg s'" using sweep_wf [of cfg s w clock False] assms sweep by (simp add: safe_queue_def)
  moreover have "zombie_of w e' = None" if k': "q_lookup s' k = Some e'" "q_status e' = Launched" for k e'
  proof -
    obtain e where k: "q_lookup s k = Some e" using look [of k] k'
      by (cases "q_lookup s k") (auto split: option.splits)
    show ?thesis using entry [OF k] k' by (cases "if q_status e = Launched then zombie_of w e else None")
        (auto split: if_splits)
  qed
  ultimately have "find_zombies w s' = []" by (rule find_zombies_empty)
  with sweep rep entry show ?thesis by auto
qed

definition demo_world :: run_world where
  "demo_world = \<lparr>rw_status = (\<lambda>r. if r = ''r1'' then Some [(''status'', PStr ''completed'')] else None),
     rw_park = (\<lambda>_. None), rw_unpushed = (\<lambda>_ _. None), rw_render = (\<lambda>_. ''x'')\<rparr>"

lemma reconcile_apply_settles_witness:
  "\<exists>s rep s' e'. q_mark_launched demo_store ''q-1'' ''r1'' 11 = Inr (Some e', s) \<and> safe_queue None s \<and>
     reconcile_sweep demo_world (\<lambda>_. 20) s False = (rep, None, s') \<and> find_zombies demo_world s' = []"
proof -
  let ?e = "demo_entry\<lparr>q_status := Launched, q_run_id := Some ''r1'', q_launched_at := Some 11, q_updated_at := 11\<rparr>"
  let ?s = "demo_store\<lparr>qs_files := [(''q-1'', QEntry ?e)]\<rparr>"
  have l: "q_mark_launched demo_store ''q-1'' ''r1'' 11 = Inr (Some ?e, ?s)"
    by (simp add: demo_store_def demo_entry_def new_entry_def queue_eval)
  have "queue_wf None (queue_exec demo_request_env None (queue_after demo_request_env None [demo_create])
      (QMarkLaunched ''q-1'' ''r1'' 11))"
    by (rule queue_exec_wf [OF queue_after_wf])
  then have "queue_wf None ?s" by (simp add: queue_after_demo l)
  then have "safe_queue None ?s" by (simp add: safe_queue_def demo_store_def queue_eval)
  with l reconcile_apply_settles [OF this, of demo_world "\<lambda>_. 20"] show ?thesis by blast
qed

end
