(* ===== verification/Queue_Config.thy ===== *)
theory Queue_Config
  imports Queue_Request
begin

text \<open>
  The queue sections of a project configuration (\<open>queue_config_from_config\<close> and
  \<open>normalize_quota_backoff_minutes\<close> of \<open>queue.py\<close>): trios, capacities, the node ceiling
  and the flags the launcher reads on every pass. A trio is the dictionary of strings and
  nulls the normaliser builds.
\<close>

section \<open>Reading the sections\<close>

datatype config_exn = AttributeErrorExn

definition dget_or :: "pydict \<Rightarrow> string \<Rightarrow> pyval \<Rightarrow> pyval" where
  "dget_or d k v = (case map_of d k of None \<Rightarrow> v | Some x \<Rightarrow> x)"

text \<open>\<open>max(0, v)\<close> of a value that is an \<open>int\<close> (booleans are), else the default.\<close>

fun nat_setting :: "int \<Rightarrow> pyval \<Rightarrow> int" where
  "nat_setting dflt (PInt i) = max 0 i"
| "nat_setting dflt (PBool b) = (if b then 1 else 0)"
| "nat_setting dflt _ = dflt"

fun seconds_setting :: "time \<Rightarrow> pyval \<Rightarrow> time" where
  "seconds_setting dflt (PInt i) = max 1 (of_int i)"
| "seconds_setting dflt (PFloat r) = max 1 r"
| "seconds_setting dflt (PBool b) = 1"
| "seconds_setting dflt _ = dflt"

fun flag_setting :: "pyval \<Rightarrow> bool" where
  "flag_setting (PBool b) = b"
| "flag_setting _ = False"

definition DEFAULT_QUOTA_BACKOFF_MINUTES :: "time list" where
  "DEFAULT_QUOTA_BACKOFF_MINUTES = [30, 90]"

fun backoff_minute :: "pyval \<Rightarrow> time option" where
  "backoff_minute (PInt i) = (if i < 0 then None else Some (of_int i))"
| "backoff_minute (PFloat r) = (if r < 0 then None else Some r)"
| "backoff_minute _ = None"

fun all_minutes :: "pyval list \<Rightarrow> time list option" where
  "all_minutes [] = Some []"
| "all_minutes (v # vs) = (case backoff_minute v of
       None \<Rightarrow> None
     | Some m \<Rightarrow> map_option (\<lambda>ms. m # ms) (all_minutes vs))"

fun normalize_quota_backoff_minutes :: "pyval \<Rightarrow> time list option" where
  "normalize_quota_backoff_minutes (PInt i) = all_minutes [PInt i]"
| "normalize_quota_backoff_minutes (PFloat r) = all_minutes [PFloat r]"
| "normalize_quota_backoff_minutes (PList vs) = (if vs = [] then None else all_minutes vs)"
| "normalize_quota_backoff_minutes _ = None"

section \<open>Trios\<close>

type_synonym trio_spec = "(string \<times> string option) list"

definition TRIO_ROLE_KEYS :: "string list" where
  "TRIO_ROLE_KEYS = [''manager_agent'', ''manager_model'', ''executor_agent'', ''executor_model'',
     ''auditor_agent'', ''auditor_model'']"

text \<open>\<open>str(spec.get(key, "")).strip()\<close>\<close>

definition spec_text :: "(pyval \<Rightarrow> string) \<Rightarrow> pydict \<Rightarrow> string \<Rightarrow> string" where
  "spec_text render spec key = py_strip (py_str render (dget_or spec key (PStr [])))"

definition text_or_none :: "string \<Rightarrow> string option" where
  "text_or_none s = (if s = [] then None else Some s)"

definition normalize_trio :: "(pyval \<Rightarrow> string) \<Rightarrow> pyval \<Rightarrow> trio_spec option" where
  "normalize_trio render v = (case v of
       PDict spec \<Rightarrow>
         let agent = spec_text render spec ''agent''
         in if agent = [] then None
            else Some ([(''agent'', Some agent),
                        (''model'', text_or_none (spec_text render spec ''model'')),
                        (''mcp_profile'', text_or_none (spec_text render spec ''mcp_profile'')),
                        (''auditor_mcp_profile'', text_or_none (spec_text render spec ''auditor_mcp_profile''))] @
                       List.map_filter (\<lambda>k. let t = spec_text render spec k
                          in if t = [] then None else Some (k, Some t)) TRIO_ROLE_KEYS)
     | _ \<Rightarrow> None)"

definition normalize_trios :: "(pyval \<Rightarrow> string) \<Rightarrow> pydict \<Rightarrow> (string \<times> trio_spec) list" where
  "normalize_trios render trios =
     List.map_filter (\<lambda>(name, v). map_option (Pair name) (normalize_trio render v)) trios"

definition fallback_trio :: "string \<Rightarrow> trio_spec" where
  "fallback_trio name = [(''agent'', Some (if name = ''kimi'' then ''claude_code'' else ''codex'')),
     (''model'', None), (''mcp_profile'', None)]"

definition add_required :: "(string \<times> trio_spec) list \<Rightarrow> (string \<times> trio_spec) list" where
  "add_required trios = foldl (\<lambda>ts name. if name \<in> fst ` set ts then ts else ts @ [(name, fallback_trio name)])
     trios REQUIRED_TRIOS"

section \<open>The configuration\<close>

record capacity_config =
  cc_max :: "(string \<times> int) list"
  cc_min_healthy_keys :: int
  cc_key_health_url :: string
  cc_poll_seconds :: time
  cc_max_retries :: int
  cc_quota_backoff :: "time list"

record queue_config =
  qc_trios :: "(string \<times> trio_spec) list"
  qc_capacity :: capacity_config
  qc_node_max_runs :: int
  qc_observe :: bool
  qc_ignore_dirty :: bool
  qc_default_time_limit :: "int option"
  qc_protected_trios :: "string list"

definition TRIO_CAPS :: "(string \<times> int) list" where
  "TRIO_CAPS = [(''kimi'', 3), (''qwen'', 1), (''glm'', 1), (''zai'', 5), (''zaiq'', 1), (''minimax'', 2)]"

definition DEFAULT_NODE_MAX_RUNS :: int where
  "DEFAULT_NODE_MAX_RUNS = 5"

definition normalize_capacity :: "pydict \<Rightarrow> capacity_config" where
  "normalize_capacity c =
     \<lparr>cc_max = map (\<lambda>(n, d). (n, nat_setting d (dget c (n @ ''_max'')))) TRIO_CAPS,
      cc_min_healthy_keys = nat_setting 2 (dget c ''min_healthy_keys''),
      cc_key_health_url = (case dget c ''key_health_url'' of PStr s \<Rightarrow> s | _ \<Rightarrow> []),
      cc_poll_seconds = seconds_setting 15 (dget c ''poll_seconds''),
      cc_max_retries = nat_setting 2 (dget c ''max_retries''),
      cc_quota_backoff = (case normalize_quota_backoff_minutes (dget c ''quota_backoff_minutes'') of
          None \<Rightarrow> DEFAULT_QUOTA_BACKOFF_MINUTES | Some ms \<Rightarrow> ms)\<rparr>"

fun node_max_setting :: "pyval \<Rightarrow> int" where
  "node_max_setting (PInt i) = (if i < 1 then DEFAULT_NODE_MAX_RUNS else i)"
| "node_max_setting _ = DEFAULT_NODE_MAX_RUNS"

definition valid_trio_name :: "pyval \<Rightarrow> bool" where
  "valid_trio_name v = (case v of PStr s \<Rightarrow> py_strip s \<noteq> [] | _ \<Rightarrow> False)"

definition first_occurrences :: "string list \<Rightarrow> string list" where
  "first_occurrences xs = foldl (\<lambda>seen x. if x \<in> set seen then seen else seen @ [x]) [] xs"

definition DEFAULT_PROTECTED_TRIOS :: "string list" where
  "DEFAULT_PROTECTED_TRIOS = [''kimi'', ''glm'', ''qwen'']"

definition protected_setting :: "pyval \<Rightarrow> string list" where
  "protected_setting v = (case v of
       PList vs \<Rightarrow> if list_all valid_trio_name vs
          then first_occurrences (List.map_filter (\<lambda>x. case x of PStr s \<Rightarrow> Some (py_strip s) | _ \<Rightarrow> None) vs)
          else DEFAULT_PROTECTED_TRIOS
     | _ \<Rightarrow> DEFAULT_PROTECTED_TRIOS)"

text \<open>
  \<open>queue.get("protected_trios", ...)\<close> is the one read of the section that is not guarded by
  \<open>isinstance(queue, dict)\<close>.
\<close>

definition queue_config_from_config ::
    "(pyval \<Rightarrow> string) \<Rightarrow> pyval \<Rightarrow> (config_exn, queue_config) result" where
  "queue_config_from_config render config =
     (case (case config of PDict d \<Rightarrow> dget_or d ''queue'' (PDict []) | _ \<Rightarrow> PDict []) of
        PDict queue \<Rightarrow>
          Inr \<lparr>qc_trios = add_required (normalize_trios render
                  (case dget queue ''trios'' of PDict t \<Rightarrow> t | _ \<Rightarrow> [])),
               qc_capacity = normalize_capacity (case dget queue ''capacity'' of PDict c \<Rightarrow> c | _ \<Rightarrow> []),
               qc_node_max_runs = node_max_setting (dget queue ''node_max_runs''),
               qc_observe = flag_setting (dget queue ''observe''),
               qc_ignore_dirty = flag_setting (dget queue ''occupancy_ignore_dirty''),
               qc_default_time_limit = (case validate_time_limit_minutes (dget queue ''default_time_limit_minutes'') of
                  Inl _ \<Rightarrow> None | Inr v \<Rightarrow> v),
               qc_protected_trios = protected_setting
                  (dget_or queue ''protected_trios'' (PList (map PStr DEFAULT_PROTECTED_TRIOS)))\<rparr>
      | _ \<Rightarrow> Inl AttributeErrorExn)"

section \<open>Lemmas\<close>

lemma nat_setting_nonneg: "0 \<le> d \<Longrightarrow> 0 \<le> nat_setting d v"
  by (cases v) auto

lemma all_minutes_ok: "all_minutes vs = Some ms \<Longrightarrow> length ms = length vs \<and> (\<forall>m\<in>set ms. 0 \<le> m)"
proof (induction vs arbitrary: ms)
  case (Cons v vs)
  then obtain m ms' where "backoff_minute v = Some m" "all_minutes vs = Some ms'" "ms = m # ms'"
    by (auto split: option.splits)
  moreover from this have "0 \<le> m" by (cases v) (auto split: if_splits)
  ultimately show ?case using Cons.IH by auto
qed simp

lemma quota_backoff_ok:
  "normalize_quota_backoff_minutes v = Some ms \<Longrightarrow> ms \<noteq> [] \<and> (\<forall>m\<in>set ms. 0 \<le> m)"
  by (cases v) (auto dest!: all_minutes_ok split: if_splits)

lemma normalize_trio_agent:
  assumes "normalize_trio render v = Some t"
  shows "\<exists>a. map_of t ''agent'' = Some (Some a) \<and> a \<noteq> []"
  using assms by (auto simp: normalize_trio_def Let_def split: pyval.splits if_splits)

definition trio_ok :: "string \<times> trio_spec \<Rightarrow> bool" where
  "trio_ok p = (\<exists>a. map_of (snd p) ''agent'' = Some (Some a) \<and> a \<noteq> [])"

lemma normalize_trios_ok: "list_all trio_ok (normalize_trios render ts)"
  unfolding list_all_iff normalize_trios_def
proof
  fix p assume "p \<in> set (List.map_filter (\<lambda>(name, v). map_option (Pair name) (normalize_trio render v)) ts)"
  then obtain name v where "map_option (Pair name) (normalize_trio render v) = Some p"
    by (auto simp: map_filter_def)
  then show "trio_ok p" by (auto simp: trio_ok_def dest: normalize_trio_agent)
qed

lemma add_required_ok:
  assumes "list_all trio_ok ts"
  shows "list_all trio_ok (add_required ts)" and "set REQUIRED_TRIOS \<subseteq> fst ` set (add_required ts)"
proof -
  have fb: "trio_ok (n, fallback_trio n)" for n by (simp add: trio_ok_def fallback_trio_def)
  show "list_all trio_ok (add_required ts)"
    using assms fb by (simp add: add_required_def REQUIRED_TRIOS_def)
  show "set REQUIRED_TRIOS \<subseteq> fst ` set (add_required ts)"
    by (auto simp: add_required_def REQUIRED_TRIOS_def)
qed

section \<open>Properties\<close>

text \<open>A loaded configuration is usable. Whatever the file holds, a configuration that loads
  has every required trio, an agent for every trio, capacities and retries that are not
  negative, a poll interval of at least a second, a node ceiling of at least one run and a
  non-empty schedule of waits that are not negative; and loading fails only when the queue
  section is not a table.\<close>

lemma queue_config_sane:
  "case queue_config_from_config render config of
     Inl _ \<Rightarrow> (\<exists>d q. config = PDict d \<and> map_of d ''queue'' = Some q \<and> \<not> is_dict q)
   | Inr c \<Rightarrow>
       set REQUIRED_TRIOS \<subseteq> fst ` set (qc_trios c) \<and> list_all trio_ok (qc_trios c) \<and>
       list_all (\<lambda>p. 0 \<le> snd p) (cc_max (qc_capacity c)) \<and> 0 \<le> cc_max_retries (qc_capacity c) \<and>
       1 \<le> cc_poll_seconds (qc_capacity c) \<and> 1 \<le> qc_node_max_runs c \<and>
       cc_quota_backoff (qc_capacity c) \<noteq> [] \<and> list_all (\<lambda>m. 0 \<le> m) (cc_quota_backoff (qc_capacity c))"
proof -
  let ?q = "case config of PDict d \<Rightarrow> dget_or d ''queue'' (PDict []) | _ \<Rightarrow> PDict []"
  show ?thesis
  proof (cases "is_dict ?q")
    case False
    then have "\<exists>d q. config = PDict d \<and> map_of d ''queue'' = Some q \<and> \<not> is_dict q"
      by (auto simp: dget_or_def split: pyval.splits option.splits)
    with False show ?thesis by (cases ?q) (simp_all add: queue_config_from_config_def)
  next
    case True
    then obtain queue where q: "?q = PDict queue" by (cases ?q) auto
    let ?c = "normalize_capacity (case dget queue ''capacity'' of PDict c \<Rightarrow> c | _ \<Rightarrow> [])"
    have caps: "list_all (\<lambda>p. 0 \<le> snd p) (cc_max ?c)" "0 \<le> cc_max_retries ?c"
      by (simp_all add: normalize_capacity_def TRIO_CAPS_def nat_setting_nonneg)
    have "1 \<le> seconds_setting 15 v" for v by (cases v) auto
    then have poll: "1 \<le> cc_poll_seconds ?c" by (simp add: normalize_capacity_def)
    have node: "1 \<le> node_max_setting v" for v by (cases v) (auto simp: DEFAULT_NODE_MAX_RUNS_def)
    have waits: "cc_quota_backoff ?c \<noteq> []" "list_all (\<lambda>m. 0 \<le> m) (cc_quota_backoff ?c)"
      using quota_backoff_ok
      by (auto simp: normalize_capacity_def DEFAULT_QUOTA_BACKOFF_MINUTES_def list_all_iff split: option.splits)
    show ?thesis
      using caps poll node waits add_required_ok [OF normalize_trios_ok]
      by (simp add: queue_config_from_config_def q)
  qed
qed

text \<open>A queue section that is not a table is not read as an empty one: loading raises.\<close>

lemma queue_section_not_table:
  "queue_config_from_config render (PDict [(''queue'', PStr ''off'')]) = Inl AttributeErrorExn"
  by (simp add: queue_config_from_config_def dget_or_def)

end
