(* ===== verification/Run_Lifecycle.thy ===== *)
theory Run_Lifecycle
  imports Harness_Machine
begin

text \<open>
  The lifecycle vocabulary (\<open>supervisor/lifecycle.py\<close>) and how a finished run ended
  (\<open>run_outcome.py\<close>): status aliases, the terminal and active sets, the resume epoch, the
  ASCII reason text, the three outcome fields derived from a run's lifecycle, report, status
  record and log tail, and the memo that spares re-reading finished runs. Strings are Latin-1
  here, so the entries of the ASCII map beyond code point 255 are never met.
\<close>

section \<open>lifecycle.py\<close>

definition STATUS_ALIASES :: "(string \<times> string) list" where
  "STATUS_ALIASES = [(''complete'', ''completed''), (''done'', ''completed''), (''success'', ''completed''),
     (''succeeded'', ''completed''), (''finished'', ''completed''), (''canceled'', ''cancelled'')]"

definition TERMINAL_STATUSES :: "string list" where
  "TERMINAL_STATUSES = [''completed'', ''failed'', ''cancelled'', ''blocked'', ''incomplete'']"

definition ACTIVE_STATUSES :: "string list" where
  "ACTIVE_STATUSES = [''creating'', ''starting'', ''running'', ''waiting_approval'', ''stopping'']"

definition MAX_RESUME_EPOCH :: int where
  "MAX_RESUME_EPOCH = 10000"

definition resume_epoch :: "pyval \<Rightarrow> int" where
  "resume_epoch r = (case r of
       PDict d \<Rightarrow> (case dget d ''resume_epoch'' of
          PInt i \<Rightarrow> if i < 0 then 0 else min i MAX_RESUME_EPOCH
        | _ \<Rightarrow> 0)
     | _ \<Rightarrow> 0)"

definition status_text :: "string \<Rightarrow> string" where
  "status_text s = py_replace_char CHR '' '' ''_'' (py_lower (py_strip s))"

definition canonical_lifecycle_status :: "(pyval \<Rightarrow> string) \<Rightarrow> pyval \<Rightarrow> string \<Rightarrow> string" where
  "canonical_lifecycle_status render v dflt =
     (if v = PNone then dflt
      else let text = status_text (py_str render v)
           in if text = [] then dflt
              else (case map_of STATUS_ALIASES text of Some c \<Rightarrow> c | None \<Rightarrow> text))"

definition is_terminal_status :: "(pyval \<Rightarrow> string) \<Rightarrow> pyval \<Rightarrow> bool" where
  "is_terminal_status render v = (canonical_lifecycle_status render v ''idle'' \<in> set TERMINAL_STATUSES)"

definition is_active_status :: "(pyval \<Rightarrow> string) \<Rightarrow> pyval \<Rightarrow> bool" where
  "is_active_status render v = (canonical_lifecycle_status render v ''idle'' \<in> set ACTIVE_STATUSES)"

section \<open>run-outcome.py\<close>

definition REASON_MAX_CHARS :: nat where
  "REASON_MAX_CHARS = 200"

definition ASCII_MAP :: "(char \<times> string) list" where
  "ASCII_MAP = [(CHR 0xA0, '' ''), (CHR 0xB7, ''-'')]"

definition ascii_map_text :: "string \<Rightarrow> string" where
  "ascii_map_text s = foldl (\<lambda>t p. py_replace_char (fst p) (snd p) t) s ASCII_MAP"

definition ascii_reason_text :: "string \<Rightarrow> nat \<Rightarrow> string" where
  "ascii_reason_text s limit =
     (let text = py_join '' '' (py_split (filter is_ascii (ascii_map_text s)))
      in if length text > limit then py_rstrip (take (limit - 3) text) @ ''...'' else text)"

definition ascii_reason :: "(pyval \<Rightarrow> string) \<Rightarrow> pyval \<Rightarrow> string" where
  "ascii_reason render v = ascii_reason_text (str_or_empty render v) REASON_MAX_CHARS"

definition status_value :: "(pyval \<Rightarrow> string) \<Rightarrow> pyval \<Rightarrow> string" where
  "status_value render v = status_text (str_or_empty render v)"

text \<open>
  One match of \<open>^Stopped:\s+(\S.*?)\s*$\<close> at the start of the text (\<open>bol\<close>: the text
  starts a line): the group, and the text left to search, which starts at the line's end.
\<close>

definition stopped_at :: "bool \<Rightarrow> string \<Rightarrow> (string \<times> string) option" where
  "stopped_at bol s =
     (let r = drop 8 s; v = dropWhile is_space r
      in if bol \<and> take 8 s = ''Stopped:'' \<and> r \<noteq> [] \<and> is_space (hd r) \<and> v \<noteq> []
         then Some (py_rstrip (takeWhile (\<lambda>c. c \<noteq> newline) v), dropWhile (\<lambda>c. c \<noteq> newline) v)
         else None)"

lemma stopped_at_shorter:
  assumes "stopped_at bol s = Some (v, rest)"
  shows "length rest < length s"
proof -
  have rest: "rest = dropWhile (\<lambda>c. c \<noteq> newline) (dropWhile is_space (drop 8 s))"
    and "take 8 s = ''Stopped:''" using assms by (auto simp: stopped_at_def Let_def split: if_splits)
  then have "s \<noteq> []" by auto
  have "length rest \<le> length s - 8" unfolding rest
    by (metis length_dropWhile_le length_drop order_trans)
  with \<open>s \<noteq> []\<close> show ?thesis by (cases s) auto
qed

function stopped_values :: "bool \<Rightarrow> string \<Rightarrow> string list" where
  "stopped_values bol [] = []"
| "stopped_values bol (c # cs) = (case stopped_at bol (c # cs) of
       Some (v, rest) \<Rightarrow> v # stopped_values False rest
     | None \<Rightarrow> stopped_values (c = newline) cs)"
  by pat_completeness auto
termination
  by (relation "measure (\<lambda>(bol, s). length s)") (auto dest: stopped_at_shorter)

definition stopped_line :: "string \<Rightarrow> string" where
  "stopped_line tail = (let ms = stopped_values True tail in if ms = [] then [] else last ms)"

record outcome =
  oc_outcome :: string
  oc_abort :: "string option"
  oc_failure :: "string option"

definition nonempty :: "string \<Rightarrow> string option" where
  "nonempty s = (if s = [] then None else Some s)"

definition dedup_parts :: "string list \<Rightarrow> string list" where
  "dedup_parts parts = foldl (\<lambda>seen p. if p \<noteq> [] \<and> p \<notin> set seen then seen @ [p] else seen) [] parts"

definition as_dict :: "pyval \<Rightarrow> pydict" where
  "as_dict v = (case v of PDict d \<Rightarrow> d | _ \<Rightarrow> [])"

definition outcome_status :: "string \<Rightarrow> string \<Rightarrow> string option" where
  "outcome_status lifecycle report_status =
     (if lifecycle \<in> set TERMINAL_STATUSES then Some lifecycle
      else if report_status \<in> set TERMINAL_STATUSES then Some report_status else None)"

definition derive_outcome ::
    "(pyval \<Rightarrow> string) \<Rightarrow> string \<Rightarrow> pyval \<Rightarrow> pyval \<Rightarrow> string \<Rightarrow> outcome option" where
  "derive_outcome render lifecycle_status report_v record_v log_tail =
     (let report = as_dict report_v; status_record = as_dict record_v;
          lifecycle = status_text lifecycle_status;
          report_status = status_value render (dget report ''status'')
      in case outcome_status lifecycle report_status of
           None \<Rightarrow> None
         | Some out \<Rightarrow>
             let abort = ascii_reason render (dget report ''abort_reason'');
                 parts = [abort, ascii_reason render (dget report ''failure_reason''),
                          ascii_reason render (dget status_record ''failure_reason'')];
                 parts1 = (if list_all (\<lambda>p. p = []) parts \<and> truthy (dget report ''supervisor_generated'')
                           then parts @ [ascii_reason render (dget report ''error'')] else parts);
                 stopped = ascii_reason_text (stopped_line log_tail) REASON_MAX_CHARS;
                 use_stopped = (list_all (\<lambda>p. p = []) parts1 \<and> stopped \<noteq> []);
                 abort2 = (if use_stopped \<and> abort = [] then stopped else abort);
                 parts2 = (if use_stopped then parts1 @ [stopped] else parts1)
             in Some \<lparr>oc_outcome = out, oc_abort = nonempty abort2,
                      oc_failure = nonempty (ascii_reason_text (py_join '' | '' (dedup_parts parts2)) REASON_MAX_CHARS)\<rparr>)"

section \<open>The memo\<close>

type_synonym file_sig = "(int \<times> int) option"

record outcome_key =
  ok_lifecycle :: string
  ok_failure :: string
  ok_report_sig :: file_sig
  ok_log_sig :: file_sig

type_synonym outcome_cache = "(string \<times> outcome_key \<times> outcome option) list"

text \<open>
  What a call sees: the run directory, the lifecycle and status record passed in, the
  signatures of the two files, what \<open>read_report\<close> returns for the report and the log's tail.
\<close>

record outcome_call =
  ol_dir :: string
  ol_lifecycle :: string
  ol_record :: pydict
  ol_report_sig :: file_sig
  ol_log_sig :: file_sig
  ol_report :: pydict
  ol_log :: string

definition call_key :: "(pyval \<Rightarrow> string) \<Rightarrow> outcome_call \<Rightarrow> outcome_key" where
  "call_key render c = \<lparr>ok_lifecycle = status_text (ol_lifecycle c),
     ok_failure = str_or_empty render (dget (ol_record c) ''failure_reason''),
     ok_report_sig = ol_report_sig c, ok_log_sig = ol_log_sig c\<rparr>"

text \<open>The value a call computes when the memo has none.\<close>

definition outcome_fresh :: "(pyval \<Rightarrow> string) \<Rightarrow> outcome_call \<Rightarrow> outcome option" where
  "outcome_fresh render c =
     (let report = (if ol_report_sig c \<noteq> None then ol_report c else []);
          lifecycle = status_text (ol_lifecycle c);
          needs_log = ((lifecycle \<in> set TERMINAL_STATUSES \<or>
                        status_value render (dget report ''status'') \<in> set TERMINAL_STATUSES) \<and>
                       \<not> truthy (dget report ''abort_reason'') \<and> \<not> truthy (dget report ''failure_reason'') \<and>
                       \<not> truthy (dget (ol_record c) ''failure_reason''));
          log_tail = (if needs_log \<and> ol_log_sig c \<noteq> None then ol_log c else [])
      in derive_outcome render (ol_lifecycle c) (PDict report) (PDict (ol_record c)) log_tail)"

definition cache_get ::
    "(pyval \<Rightarrow> string) \<Rightarrow> nat \<Rightarrow> outcome_cache \<Rightarrow> outcome_call \<Rightarrow> outcome option \<times> outcome_cache" where
  "cache_get render max_entries cache c =
     (let key = call_key render c; value = outcome_fresh render c;
          kept = (if length cache \<ge> max_entries then [] else cache);
          miss = (value, aupd (ol_dir c) (key, value) kept)
      in case map_of cache (ol_dir c) of
           Some (k, v) \<Rightarrow> if k = key then (v, cache) else miss
         | None \<Rightarrow> miss)"

section \<open>Lemmas\<close>

definition status_char :: "char \<Rightarrow> char" where
  "status_char c = (if lower_char c = CHR '' '' then CHR ''_'' else lower_char c)"

lemma status_text_map: "status_text s = map status_char (py_strip s)"
proof -
  have "py_replace_char CHR '' '' ''_'' (map lower_char u) = map status_char u" for u
    by (induction u) (simp_all add: py_replace_char_def status_char_def)
  then show ?thesis by (simp add: status_text_def py_lower_def)
qed

definition upper_code :: "nat \<Rightarrow> bool" where
  "upper_code n = ((65 \<le> n \<and> n \<le> 90) \<or> (192 \<le> n \<and> n \<le> 222 \<and> n \<noteq> 215))"

lemma of_char_lower:
  "(of_char (lower_char c) :: nat) = (if upper_code (of_char c) then of_char c + 32 else of_char c)"
  by (simp add: lower_char_def Let_def upper_code_def)

lemma upper_code_add: "upper_code n \<Longrightarrow> \<not> upper_code (n + 32)"
  unfolding upper_code_def by presburger

lemma lower_char_idem [simp]: "lower_char (lower_char c) = lower_char c"
proof -
  have "(of_char (lower_char (lower_char c)) :: nat) = of_char (lower_char c)"
    using upper_code_add [of "of_char c"] by (simp add: of_char_lower)
  then show ?thesis by (simp only: of_char_eq_iff)
qed

lemma status_char_idem [simp]: "status_char (status_char c) = status_char c"
proof -
  have "lower_char CHR ''_'' = CHR ''_''" by code_simp
  then show ?thesis by (simp add: status_char_def)
qed

definition space_code :: "nat \<Rightarrow> bool" where
  "space_code n = ((9 \<le> n \<and> n \<le> 13) \<or> (28 \<le> n \<and> n \<le> 32) \<or> n = 133 \<or> n = 160)"

lemma upper_not_space: "upper_code n \<Longrightarrow> \<not> space_code n \<and> \<not> space_code (n + 32)"
  unfolding upper_code_def space_code_def by presburger

lemma is_space_code: "is_space c = space_code (of_char c)"
  by (simp add: is_space_def space_code_def Let_def)

lemma is_space_lower: "is_space (lower_char c) \<longleftrightarrow> is_space c"
  using upper_not_space [of "of_char c"] by (simp add: is_space_code of_char_lower)

lemma status_char_space: "\<not> is_space c \<Longrightarrow> \<not> is_space (status_char c)"
  by (auto simp: status_char_def is_space_lower) (simp add: is_space_def)

lemma status_text_idem: "status_text (status_text s) = status_text s"
proof -
  let ?u = "py_strip s"
  have "py_strip (map status_char ?u) = map status_char ?u"
  proof (rule py_strip_id)
    show "map status_char ?u = [] \<or> \<not> is_space (hd (map status_char ?u)) \<and> \<not> is_space (last (map status_char ?u))"
      using py_strip_ends [of s] by (auto simp: hd_map last_map status_char_space)
  qed
  then show ?thesis by (simp add: status_text_map comp_def)
qed

lemma alias_targets:
  "map_of STATUS_ALIASES t = Some c \<Longrightarrow>
     map_of STATUS_ALIASES c = None \<and> status_text c = c \<and> c \<noteq> []"
proof -
  have "status_text ''completed'' = ''completed''" "status_text ''cancelled'' = ''cancelled''"
    by code_simp+
  then show "map_of STATUS_ALIASES t = Some c \<Longrightarrow>
     map_of STATUS_ALIASES c = None \<and> status_text c = c \<and> c \<noteq> []"
    by (auto simp: STATUS_ALIASES_def split: if_splits)
qed

lemma canonical_fixed:
  "let r = canonical_lifecycle_status render v ''idle''
   in status_text r = r \<and> r \<noteq> [] \<and> map_of STATUS_ALIASES r = None"
proof -
  have idle: "status_text ''idle'' = ''idle''" by code_simp
  let ?t = "status_text (py_str render v)"
  consider (dflt) "v = PNone \<or> ?t = []" | (known) c where "v \<noteq> PNone" and "?t \<noteq> []" and "map_of STATUS_ALIASES ?t = Some c"
    | (plain) "v \<noteq> PNone" "?t \<noteq> []" "map_of STATUS_ALIASES ?t = None" by fastforce
  then show ?thesis
  proof cases
    case dflt
    then have "canonical_lifecycle_status render v ''idle'' = ''idle''"
      by (auto simp: canonical_lifecycle_status_def)
    then show ?thesis using idle by (simp add: STATUS_ALIASES_def)
  next
    case known
    then have "canonical_lifecycle_status render v ''idle'' = c"
      by (simp add: canonical_lifecycle_status_def)
    then show ?thesis using alias_targets [OF known(3)] by simp
  next
    case plain
    then have "canonical_lifecycle_status render v ''idle'' = ?t"
      by (simp add: canonical_lifecycle_status_def)
    then show ?thesis using plain status_text_idem by simp
  qed
qed

subsection \<open>Reason texts\<close>

lemma split_aux_chars:
  "\<forall>c\<in>set acc. \<not> is_space c \<Longrightarrow> w \<in> set (split_aux s acc) \<Longrightarrow>
     w \<noteq> [] \<and> (\<forall>c\<in>set w. \<not> is_space c) \<and> set w \<subseteq> set s \<union> set acc"
proof (induction s arbitrary: acc)
  case Nil
  then show ?case by (simp split: if_splits)
next
  case (Cons c cs)
  have "is_space c \<and> w \<in> set (split_aux cs []) \<or> w = rev acc \<and> acc \<noteq> [] \<or>
      \<not> is_space c \<and> w \<in> set (split_aux cs (c # acc))"
    using Cons.prems(2) by (auto split: if_splits)
  then consider (sp) "is_space c" "w \<in> set (split_aux cs [])" | (hd) "w = rev acc" "acc \<noteq> []"
    | (go) "\<not> is_space c" "w \<in> set (split_aux cs (c # acc))" by blast
  then show ?case
  proof cases
    case sp
    have "w \<noteq> [] \<and> (\<forall>c\<in>set w. \<not> is_space c) \<and> set w \<subseteq> set cs \<union> set []"
      by (rule Cons.IH) (simp_all add: sp)
    then show ?thesis by auto
  next
    case hd
    then show ?thesis using Cons.prems(1) by auto
  next
    case go
    have "w \<noteq> [] \<and> (\<forall>c\<in>set w. \<not> is_space c) \<and> set w \<subseteq> set cs \<union> set (c # acc)"
      by (rule Cons.IH) (simp_all add: go Cons.prems(1))
    then show ?thesis by auto
  qed
qed

lemma py_split_chars:
  "w \<in> set (py_split s) \<Longrightarrow> w \<noteq> [] \<and> (\<forall>c\<in>set w. \<not> is_space c \<and> c \<in> set s)"
  unfolding py_split_def using split_aux_chars [of "[]" w s] by auto

lemma set_py_join: "c \<in> set (py_join sep ws) \<Longrightarrow> c \<in> set sep \<or> (\<exists>w\<in>set ws. c \<in> set w)"
  by (induction sep ws rule: py_join.induct) auto

lemma set_py_rstrip: "set (py_rstrip s) \<subseteq> set s"
  unfolding py_rstrip_def by (auto dest: set_dropWhileD)

definition reason_ok :: "nat \<Rightarrow> string \<Rightarrow> bool" where
  "reason_ok limit s = (length s \<le> limit \<and> (\<forall>c\<in>set s. is_ascii c \<and> (is_space c \<longrightarrow> c = CHR '' '')))"

lemma reason_chars:
  assumes "c \<in> set (py_join '' '' (py_split (filter is_ascii s)))"
  shows "is_ascii c \<and> (is_space c \<longrightarrow> c = CHR '' '')"
  using set_py_join [OF assms]
proof
  assume "c \<in> set '' ''"
  then show ?thesis by (simp add: is_ascii_def)
next
  assume "\<exists>w\<in>set (py_split (filter is_ascii s)). c \<in> set w"
  then have "\<not> is_space c \<and> c \<in> set (filter is_ascii s)" using py_split_chars by blast
  then show ?thesis by simp
qed

lemma reason_truncate:
  assumes "\<forall>c\<in>set t. is_ascii c \<and> (is_space c \<longrightarrow> c = CHR '' '')" and "3 \<le> limit"
  shows "reason_ok limit (if length t > limit then py_rstrip (take (limit - 3) t) @ ''...'' else t)"
proof (cases "length t > limit")
  case True
  let ?u = "py_rstrip (take (limit - 3) t)"
  have "set ?u \<subseteq> set t" by (rule subset_trans [OF set_py_rstrip set_take_subset])
  then have u: "\<forall>c\<in>set ?u. is_ascii c \<and> (is_space c \<longrightarrow> c = CHR '' '')" using assms(1) by blast
  have dot: "is_ascii CHR ''.''" "\<not> is_space CHR ''.''" by (simp_all add: is_ascii_def is_space_def)
  have "length ?u \<le> limit - 3" using length_py_rstrip [of "take (limit - 3) t"] by simp
  then have "length (?u @ ''...'') \<le> limit" using assms(2) by simp
  moreover have "\<forall>c\<in>set (?u @ ''...''). is_ascii c \<and> (is_space c \<longrightarrow> c = CHR '' '')"
    using u dot by (metis (no_types, lifting) Un_iff emptyE insertE list.set set_append)
  ultimately have "reason_ok limit (?u @ ''...'')" unfolding reason_ok_def by blast
  with True show ?thesis by (simp only: if_True)
next
  case False
  then have "length t \<le> limit" by simp
  then show ?thesis unfolding if_not_P [OF False] reason_ok_def using assms(1) by blast
qed

lemma ascii_reason_ok: "3 \<le> limit \<Longrightarrow> reason_ok limit (ascii_reason_text s limit)"
  unfolding ascii_reason_text_def Let_def by (rule reason_truncate) (use reason_chars in blast)

lemma reason_ok_nonempty: "nonempty s = Some r \<Longrightarrow> reason_ok n s \<Longrightarrow> reason_ok n r \<and> r \<noteq> []"
  by (auto simp: nonempty_def split: if_splits)

subsection \<open>The memo\<close>

lemma derive_outcome_cong:
  assumes "status_text l = status_text l'"
    and "str_or_empty render (dget d ''failure_reason'') = str_or_empty render (dget d' ''failure_reason'')"
  shows "derive_outcome render l r (PDict d) lg = derive_outcome render l' r (PDict d') lg"
proof -
  have eq: "ascii_reason render (dget d ''failure_reason'') = ascii_reason render (dget d' ''failure_reason'')"
    by (simp add: ascii_reason_def assms(2))
  show ?thesis unfolding derive_outcome_def Let_def as_dict_def pyval.case assms(1) eq ..
qed

text \<open>What a call computes depends on its key and on the files behind the signatures only.\<close>

lemma outcome_fresh_cong:
  assumes "render_ok render" and "call_key render c = call_key render c'"
    and "ol_report_sig c \<noteq> None \<Longrightarrow> ol_report c = ol_report c'"
    and "ol_log_sig c \<noteq> None \<Longrightarrow> ol_log c = ol_log c'"
  shows "outcome_fresh render c = outcome_fresh render c'"
proof -
  have k: "status_text (ol_lifecycle c) = status_text (ol_lifecycle c')"
    "str_or_empty render (dget (ol_record c) ''failure_reason'') =
     str_or_empty render (dget (ol_record c') ''failure_reason'')"
    using assms(2) by (simp_all add: call_key_def)
  have tr: "truthy (dget (ol_record c) ''failure_reason'') = truthy (dget (ol_record c') ''failure_reason'')"
    using str_or_empty_Nil [OF assms(1)] k(2) by metis
  have sig: "ol_report_sig c = ol_report_sig c'" "ol_log_sig c = ol_log_sig c'"
    using assms(2) by (simp_all add: call_key_def)
  have rep: "(if ol_report_sig c \<noteq> None then ol_report c else []) =
      (if ol_report_sig c' \<noteq> None then ol_report c' else [])"
    and lg: "(if b \<and> ol_log_sig c \<noteq> None then ol_log c else []) =
      (if b \<and> ol_log_sig c' \<noteq> None then ol_log c' else [])" for b
    using assms(3,4) sig by auto
  show ?thesis
    unfolding outcome_fresh_def Let_def rep lg tr k(1)
    by (rule derive_outcome_cong [OF k])
qed

text \<open>Calls on a file system in which equal signatures of a run's file mean equal content.\<close>

definition in_world ::
    "(string \<Rightarrow> file_sig \<Rightarrow> pydict) \<Rightarrow> (string \<Rightarrow> file_sig \<Rightarrow> string) \<Rightarrow> outcome_call \<Rightarrow> outcome_call" where
  "in_world rep lg c = c\<lparr>ol_report := rep (ol_dir c) (ol_report_sig c), ol_log := lg (ol_dir c) (ol_log_sig c)\<rparr>"

definition cache_ok ::
    "(pyval \<Rightarrow> string) \<Rightarrow> nat \<Rightarrow> (string \<Rightarrow> file_sig \<Rightarrow> pydict) \<Rightarrow> (string \<Rightarrow> file_sig \<Rightarrow> string) \<Rightarrow> outcome_cache \<Rightarrow> bool" where
  "cache_ok render m rep lg cache = (length cache \<le> max 1 m \<and>
     (\<forall>d k v c. map_of cache d = Some (k, v) \<and> ol_dir c = d \<and> call_key render (in_world rep lg c) = k \<longrightarrow>
        v = outcome_fresh render (in_world rep lg c)))"

definition cache_step ::
    "(pyval \<Rightarrow> string) \<Rightarrow> nat \<Rightarrow> (string \<Rightarrow> file_sig \<Rightarrow> pydict) \<Rightarrow> (string \<Rightarrow> file_sig \<Rightarrow> string) \<Rightarrow>
     outcome_cache \<Rightarrow> outcome_call \<Rightarrow> outcome_cache" where
  "cache_step render m rep lg cache c = snd (cache_get render m cache (in_world rep lg c))"

lemma in_world_sel [simp]:
  "ol_dir (in_world rep lg c) = ol_dir c" "ol_report_sig (in_world rep lg c) = ol_report_sig c"
  "ol_log_sig (in_world rep lg c) = ol_log_sig c"
  by (simp_all add: in_world_def)

lemma in_world_fresh:
  assumes "render_ok render" and "ol_dir c = ol_dir c'"
    and "call_key render (in_world rep lg c) = call_key render (in_world rep lg c')"
  shows "outcome_fresh render (in_world rep lg c) = outcome_fresh render (in_world rep lg c')"
proof -
  have "ol_report_sig c = ol_report_sig c'" "ol_log_sig c = ol_log_sig c'"
    using assms(3) by (simp_all add: call_key_def)
  with assms show ?thesis by (intro outcome_fresh_cong) (simp_all add: in_world_def)
qed

lemma cache_get_value:
  assumes "cache_ok render m rep lg cache"
  shows "fst (cache_get render m cache (in_world rep lg c)) = outcome_fresh render (in_world rep lg c)"
  using assms by (auto simp: cache_get_def cache_ok_def Let_def split: option.splits)

lemma cache_step_ok:
  assumes "render_ok render" and "cache_ok render m rep lg cache"
  shows "cache_ok render m rep lg (cache_step render m rep lg cache c)"
proof (cases "cache_step render m rep lg cache c = cache")
  case False
  let ?w = "in_world rep lg c"
  let ?kept = "if m \<le> length cache then [] else cache"
  have s: "cache_step render m rep lg cache c =
      aupd (ol_dir c) (call_key render ?w, outcome_fresh render ?w) ?kept"
    using False by (auto simp: cache_step_def cache_get_def Let_def split: option.splits if_splits)
  have len: "length (cache_step render m rep lg cache c) \<le> max 1 m"
    unfolding s using length_aupd [of "ol_dir c" "(call_key render ?w, outcome_fresh render ?w)" ?kept]
    by (auto split: if_splits)
  have "v = outcome_fresh render (in_world rep lg c')"
    if "map_of (cache_step render m rep lg cache c) (ol_dir c') = Some (k, v)"
      "call_key render (in_world rep lg c') = k" for c' k v
    using that assms(2) in_world_fresh [OF assms(1), of c c']
    by (auto simp: s cache_ok_def split: if_splits)
  with len show ?thesis by (auto simp: cache_ok_def)
qed (use assms in simp)

text \<open>The memo is a machine of calls on such a file system.\<close>

text \<open>Only a rendering that is never empty (as Python's is) makes it one, so others step nowhere.\<close>

definition memo_step ::
    "(pyval \<Rightarrow> string) \<Rightarrow> nat \<Rightarrow> (string \<Rightarrow> file_sig \<Rightarrow> pydict) \<Rightarrow> (string \<Rightarrow> file_sig \<Rightarrow> string) \<Rightarrow>
     outcome_cache \<Rightarrow> outcome_call \<Rightarrow> outcome_cache" where
  "memo_step render m rep lg cache c =
     (if render_ok render then cache_step render m rep lg cache c else cache)"

interpretation memo: step_machine "memo_step render m rep lg" "cache_ok render m rep lg"
  for render m rep lg
  by unfold_locales (simp add: memo_step_def cache_step_ok)

lemma cache_run_ok:
  assumes "render_ok render"
  shows "cache_ok render m rep lg (run_ops (cache_step render m rep lg) [] cs)"
proof -
  have "cache_ok render m rep lg []" by (simp add: cache_ok_def)
  moreover have "memo_step render m rep lg = cache_step render m rep lg"
    by (simp add: fun_eq_iff memo_step_def assms)
  ultimately show ?thesis using memo.run_inv [of render m rep lg "[]" cs] by simp
qed

section \<open>Properties\<close>

text \<open>Lifecycle spellings. Normalising a status twice gives what once gives, no value is both
  terminal and active, and a resume epoch is always between 0 and its cap.\<close>

lemma lifecycle_canonical:
  "canonical_lifecycle_status render (PStr (canonical_lifecycle_status render v ''idle'')) ''idle'' =
     canonical_lifecycle_status render v ''idle'' \<and>
   \<not> (is_terminal_status render v \<and> is_active_status render v) \<and>
   resume_epoch v \<in> {0..MAX_RESUME_EPOCH}"
proof (intro conjI)
  show "canonical_lifecycle_status render (PStr (canonical_lifecycle_status render v ''idle'')) ''idle'' =
     canonical_lifecycle_status render v ''idle''"
    using canonical_fixed [of render v] by (simp add: canonical_lifecycle_status_def [of _ "PStr _"] Let_def)
  show "\<not> (is_terminal_status render v \<and> is_active_status render v)"
    by (auto simp: is_terminal_status_def is_active_status_def TERMINAL_STATUSES_def ACTIVE_STATUSES_def)
  show "resume_epoch v \<in> {0..MAX_RESUME_EPOCH}"
    by (auto simp: resume_epoch_def MAX_RESUME_EPOCH_def split: pyval.splits)
qed

text \<open>How a run ended. Fields are derived exactly when the lifecycle or the report is
  terminal; the lifecycle, when terminal, decides the outcome; and both reasons are non-empty
  plain ASCII of at most 200 characters with no whitespace but blanks.\<close>

lemma derive_outcome_spec:
  "case derive_outcome render lifecycle report record_v tail of
     None \<Rightarrow> status_text lifecycle \<notin> set TERMINAL_STATUSES \<and>
        status_value render (dget (as_dict report) ''status'') \<notin> set TERMINAL_STATUSES
   | Some oc \<Rightarrow> oc_outcome oc \<in> set TERMINAL_STATUSES \<and>
        (if status_text lifecycle \<in> set TERMINAL_STATUSES then oc_outcome oc = status_text lifecycle
         else oc_outcome oc = status_value render (dget (as_dict report) ''status'')) \<and>
        list_all (\<lambda>r. reason_ok 200 r \<and> r \<noteq> [])
          (List.map_filter id [oc_abort oc, oc_failure oc])"
proof -
  have ok: "reason_ok 200 (ascii_reason_text s REASON_MAX_CHARS)" for s
    using ascii_reason_ok [of 200] by (simp add: REASON_MAX_CHARS_def)
  then have ok': "reason_ok 200 (ascii_reason render v)" for v by (simp add: ascii_reason_def)
  show ?thesis
  proof (cases "derive_outcome render lifecycle report record_v tail")
    case None
    then show ?thesis
      by (auto simp: derive_outcome_def outcome_status_def Let_def split: option.splits if_splits)
  next
    case (Some oc)
    obtain out a f where oc: "oc = \<lparr>oc_outcome = out, oc_abort = nonempty a, oc_failure = nonempty f\<rparr>"
      and out: "outcome_status (status_text lifecycle) (status_value render (dget (as_dict report) ''status'')) = Some out"
      and a: "reason_ok 200 a" and f: "reason_ok 200 f"
      using Some ok ok' by (auto simp: derive_outcome_def Let_def split: option.splits)
    have "list_all (\<lambda>r. reason_ok 200 r \<and> r \<noteq> []) (List.map_filter id [nonempty a, nonempty f])"
      using a f by (simp add: nonempty_def map_filter_def)
    then show ?thesis using out Some
      by (auto simp: oc outcome_status_def split: if_splits)
  qed
qed

text \<open>The memo is invisible. On a file system where a file's signature determines its
  content, after any sequence of calls the memo returns exactly what a fresh derivation
  would, and it never holds more entries than its bound (or one).\<close>

lemma outcome_cache_transparent:
  assumes "render_ok render"
  shows "fst (cache_get render m (run_ops (cache_step render m rep lg) [] cs) (in_world rep lg c)) =
           outcome_fresh render (in_world rep lg c) \<and>
         length (run_ops (cache_step render m rep lg) [] cs) \<le> max 1 m"
  using cache_run_ok [OF assms, of m rep lg cs] cache_get_value by (auto simp: cache_ok_def)

definition demo_call :: outcome_call where
  "demo_call = \<lparr>ol_dir = ''r1'', ol_lifecycle = ''failed'', ol_record = [], ol_report_sig = None,
     ol_log_sig = None, ol_report = [], ol_log = []\<rparr>"

lemma outcome_cache_transparent_witness:
  "fst (cache_get (\<lambda>_. ''x'') 2 (run_ops (cache_step (\<lambda>_. ''x'') 2 (\<lambda>_ _. []) (\<lambda>_ _. [])) [] [demo_call])
     (in_world (\<lambda>_ _. []) (\<lambda>_ _. []) demo_call)) =
   outcome_fresh (\<lambda>_. ''x'') (in_world (\<lambda>_ _. []) (\<lambda>_ _. []) demo_call)"
proof -
  have "render_ok (\<lambda>_. ''x'')" by (simp add: render_ok_def)
  from outcome_cache_transparent [OF this, of 2 "\<lambda>_ _. []" "\<lambda>_ _. []" "[demo_call]" demo_call]
  show ?thesis ..
qed

end
