(* ===== verification/Provider_Reset.thy ===== *)
theory Provider_Reset
  imports Harness_Prelude
begin

text \<open>
  Reset times named in provider errors (\<open>_parse_provider_reset\<close>, \<open>_duration_seconds\<close> and
  \<open>_format_utc\<close> of \<open>launcher.py\<close>). The five regular expressions are written with
  combinators that return every match at a position in the order Python's backtracking
  matcher tries them, so that the first one is the match; \<open>finditer\<close> scans from left to right. All
  five patterns ignore case. \<open>datetime.fromisoformat\<close> and \<open>strftime\<close> are written out for
  the shapes used here, with the proleptic Gregorian calendar of the \<open>datetime\<close> module.
\<close>

section \<open>Regular expressions\<close>

type_synonym captures = "(string \<times> string) list"

type_synonym rx = "string \<Rightarrow> (captures \<times> string) list"

definition rx_one :: "(char \<Rightarrow> bool) \<Rightarrow> rx" where
  "rx_one p s = (case s of c # cs \<Rightarrow> if p c then [([], cs)] else [] | [] \<Rightarrow> [])"

text \<open>A literal, given in lower case.\<close>

definition rx_lit :: "string \<Rightarrow> rx" where
  "rx_lit w s = (if map lower_char (take (length w) s) = w then [([], drop (length w) s)] else [])"

definition rx_any :: "string list \<Rightarrow> rx" where
  "rx_any ws s = concat (map (\<lambda>w. rx_lit w s) ws)"

definition rx_seq :: "rx \<Rightarrow> rx \<Rightarrow> rx" where
  "rx_seq p q s = concat (map (\<lambda>(a, r). map (\<lambda>(b, r'). (a @ b, r')) (q r)) (p s))"

definition rx_alt :: "rx \<Rightarrow> rx \<Rightarrow> rx" where
  "rx_alt p q s = p s @ q s"

definition rx_opt :: "rx \<Rightarrow> rx" where
  "rx_opt p s = p s @ [([], s)]"

text \<open>Greedy repetition; each round consumes a character, so the length of the text bounds the rounds.\<close>

fun rx_rounds :: "nat \<Rightarrow> rx \<Rightarrow> rx" where
  "rx_rounds 0 p s = [([], s)]"
| "rx_rounds (Suc n) p s =
     concat (map (\<lambda>(a, r). if length r < length s then map (\<lambda>(b, r'). (a @ b, r')) (rx_rounds n p r) else []) (p s)) @
     [([], s)]"

definition rx_star :: "rx \<Rightarrow> rx" where
  "rx_star p s = rx_rounds (length s) p s"

definition rx_plus :: "rx \<Rightarrow> rx" where
  "rx_plus p = rx_seq p (rx_star p)"

fun rx_times :: "nat \<Rightarrow> rx \<Rightarrow> rx" where
  "rx_times 0 p s = [([], s)]"
| "rx_times (Suc n) p s = rx_seq p (rx_times n p) s"

definition rx_not_before :: "(char \<Rightarrow> bool) \<Rightarrow> rx" where
  "rx_not_before p s = (case s of c # cs \<Rightarrow> if p c then [] else [([], s)] | [] \<Rightarrow> [([], s)])"

definition rx_group :: "string \<Rightarrow> rx \<Rightarrow> rx" where
  "rx_group name p s = map (\<lambda>(a, r). (a @ [(name, take (length s - length r) s)], r)) (p s)"

fun rx_all :: "rx list \<Rightarrow> rx" where
  "rx_all [] s = [([], s)]"
| "rx_all (p # ps) s = rx_seq p (rx_all ps) s"

text \<open>\<open>finditer\<close>, for patterns that never match the empty text.\<close>

function finditer :: "rx \<Rightarrow> string \<Rightarrow> captures list" where
  "finditer p s = (case s of
       [] \<Rightarrow> []
     | c # cs \<Rightarrow> (case p s of
           (caps, r) # _ \<Rightarrow> if length r < length s then caps # finditer p r else finditer p cs
         | [] \<Rightarrow> finditer p cs))"
  by pat_completeness auto
termination
  by (relation "measure (\<lambda>(p, s). length s)") auto

declare finditer.simps [simp del]

section \<open>The patterns\<close>

definition is_letter :: "char \<Rightarrow> bool" where
  "is_letter c = (is_lower_alpha c \<or> is_upper_alpha c)"

text \<open>A word character in the Latin-1 range: letters, digits and numerics, and the underscore.\<close>

definition is_word :: "char \<Rightarrow> bool" where
  "is_word c = (is_letter c \<or> is_digit c \<or> c = CHR ''_'' \<or> (let n = (of_char c :: nat) in
     n \<in> set [170, 178, 179, 181, 185, 186, 188, 189, 190] \<or> (192 \<le> n \<and> n \<noteq> 215 \<and> n \<noteq> 247)))"

definition UNITS :: "string list" where
  "UNITS = [''ms'', ''milliseconds'', ''millisecond'', ''hours'', ''hour'', ''hrs'', ''hr'', ''h'',
     ''minutes'', ''minute'', ''mins'', ''min'', ''m'', ''seconds'', ''second'', ''secs'', ''sec'', ''s'']"

definition rx_spaces :: rx where "rx_spaces = rx_star (rx_one is_space)"
definition rx_quote :: rx where "rx_quote = rx_opt (rx_one (\<lambda>c. c = CHR 0x22 \<or> c = CHR 0x27))"
definition rx_digits :: "nat \<Rightarrow> rx" where "rx_digits n = rx_times n (rx_one is_digit)"

definition rx_fraction :: rx where
  "rx_fraction = rx_opt (rx_seq (rx_one (\<lambda>c. c = CHR ''.'')) (rx_plus (rx_one is_digit)))"

definition rx_number :: rx where
  "rx_number = rx_seq (rx_plus (rx_one is_digit)) rx_fraction"

definition rx_assign :: rx where
  "rx_assign = rx_all [rx_quote, rx_spaces, rx_opt (rx_one (\<lambda>c. c = CHR '':'' \<or> c = CHR ''='')), rx_spaces]"

definition DURATION_PART :: rx where
  "DURATION_PART = rx_all [rx_group ''1'' rx_number, rx_spaces, rx_group ''2'' (rx_any UNITS), rx_not_before is_letter]"

definition RETRY_AFTER :: rx where
  "RETRY_AFTER = rx_all [rx_lit ''retry'', rx_opt (rx_one (\<lambda>c. c \<in> set ''-_ '')), rx_lit ''after'',
     rx_opt (rx_group ''ms'' (rx_seq (rx_opt (rx_one (\<lambda>c. c \<in> set ''-_ ''))) (rx_lit ''ms''))),
     rx_assign, rx_group ''value'' rx_number, rx_spaces, rx_opt (rx_group ''unit'' (rx_any UNITS)),
     rx_not_before is_letter]"

definition TRY_AGAIN_IN :: rx where
  "TRY_AGAIN_IN = rx_all [rx_lit ''try again in'', rx_plus (rx_one is_space),
     rx_group ''spec'' (rx_plus (rx_all [rx_number, rx_spaces, rx_any UNITS, rx_not_before is_letter,
       rx_star (rx_one (\<lambda>c. is_space c \<or> c = CHR '','')),
       rx_opt (rx_seq (rx_lit ''and'') (rx_plus (rx_one is_space)))]))]"

definition rx_reset :: rx where
  "rx_reset = rx_all [rx_lit ''reset'', rx_opt (rx_any [''s'', ''_at'', ''s_at'', ''s at'', '' at'']), rx_assign, rx_quote]"

definition rx_char :: "char \<Rightarrow> rx" where "rx_char c = rx_one (\<lambda>d. d = c)"

definition RESET_ISO :: rx where
  "RESET_ISO = rx_seq rx_reset (rx_group ''ts'' (rx_all
     [rx_digits 4, rx_char CHR ''-'', rx_digits 2, rx_char CHR ''-'', rx_digits 2,
      rx_one (\<lambda>c. lower_char c = CHR ''t'' \<or> c = CHR '' ''),
      rx_digits 2, rx_char CHR '':'', rx_digits 2,
      rx_opt (rx_all [rx_char CHR '':'', rx_digits 2, rx_fraction]),
      rx_opt (rx_alt (rx_lit ''z'')
        (rx_all [rx_one (\<lambda>c. c \<in> set ''+-''), rx_digits 2, rx_opt (rx_char CHR '':''), rx_digits 2]))]))"

definition RESET_EPOCH :: rx where
  "RESET_EPOCH = rx_all
     [rx_alt rx_reset (rx_all [rx_lit ''usage limit reached'', rx_spaces, rx_char CHR ''|'', rx_spaces]),
      rx_group ''epoch'' (rx_digits 10),
      rx_opt (rx_seq (rx_char CHR ''.'') (rx_plus (rx_one is_digit))),
      rx_not_before is_word]"

section \<open>Numbers and durations\<close>

definition digits_val :: "string \<Rightarrow> int" where
  "digits_val s = foldl (\<lambda>a c. a * 10 + digit_val c) 0 s"

text \<open>\<open>float(text)\<close> of digits with an optional fraction.\<close>

definition number_val :: "string \<Rightarrow> rat" where
  "number_val s = (let whole = takeWhile is_digit s; frac = drop (Suc (length whole)) s
     in of_int (digits_val whole) + of_int (digits_val frac) / 10 ^ length frac)"

definition starts_with :: "string \<Rightarrow> string \<Rightarrow> bool" where
  "starts_with w s = (take (length w) s = w)"

definition duration_seconds :: "rat \<Rightarrow> string option \<Rightarrow> time" where
  "duration_seconds value unit =
     (let u = (case unit of Some (c # cs) \<Rightarrow> py_lower (c # cs) | _ \<Rightarrow> ''s'')
      in if starts_with ''ms'' u \<or> starts_with ''milli'' u then value / 1000
         else if starts_with ''h'' u then value * 3600
         else if starts_with ''m'' u then value * 60
         else value)"

section \<open>The calendar\<close>

definition is_leap :: "int \<Rightarrow> bool" where
  "is_leap y = (y mod 4 = 0 \<and> (y mod 100 \<noteq> 0 \<or> y mod 400 = 0))"

definition month_lengths :: "int \<Rightarrow> int list" where
  "month_lengths y = [31, if is_leap y then 29 else 28, 31, 30, 31, 30, 31, 31, 30, 31, 30, 31]"

definition days_before_year :: "int \<Rightarrow> int" where
  "days_before_year y = (y - 1) * 365 + (y - 1) div 4 - (y - 1) div 100 + (y - 1) div 400"

definition days_before_month :: "int \<Rightarrow> int \<Rightarrow> int" where
  "days_before_month y m = sum_list (take (nat (m - 1)) (month_lengths y))"

definition valid_date :: "int \<Rightarrow> int \<Rightarrow> int \<Rightarrow> bool" where
  "valid_date y m d = (1 \<le> y \<and> y \<le> 9999 \<and> 1 \<le> m \<and> m \<le> 12 \<and> 1 \<le> d \<and> d \<le> month_lengths y ! nat (m - 1))"

text \<open>Days since 1970-01-01.\<close>

definition epoch_day :: "int \<Rightarrow> int \<Rightarrow> int \<Rightarrow> int" where
  "epoch_day y m d = days_before_year y + days_before_month y m + d - 719163"

fun split_month :: "int list \<Rightarrow> int \<Rightarrow> int \<Rightarrow> int \<times> int" where
  "split_month [] m n = (m, n + 1)"
| "split_month (l # ls) m n = (if n < l then (m, n + 1) else split_month ls (m + 1) (n - l))"

text \<open>The date of a day since the epoch, by the cycles of 400, 100, 4 and 1 years.\<close>

definition civil_of_day :: "int \<Rightarrow> int \<times> int \<times> int" where
  "civil_of_day day =
     (let n = day + 719162;
          n400 = n div 146097; r400 = n mod 146097;
          n100 = r400 div 36524; r100 = r400 mod 36524;
          n4 = r100 div 1461; r4 = r100 mod 1461;
          n1 = r4 div 365; r1 = r4 mod 365;
          year = n400 * 400 + 1 + n100 * 100 + n4 * 4 + n1
      in if n1 = 4 \<or> n100 = 4 then (year - 1, 12, 31)
         else (case split_month (month_lengths year) 1 r1 of (m, d) \<Rightarrow> (year, m, d)))"

definition two_digits :: "int \<Rightarrow> string" where
  "two_digits n = [char_of (48 + nat (n div 10 mod 10)), char_of (48 + nat (n mod 10))]"

definition four_digits :: "int \<Rightarrow> string" where
  "four_digits n = two_digits (n div 100) @ two_digits (n mod 100)"

definition round_half_even :: "rat \<Rightarrow> int" where
  "round_half_even x = (let f = floor x; r = x - of_int f
     in if r < 1 / 2 then f else if r > 1 / 2 then f + 1 else if even f then f else f + 1)"

text \<open>The whole second of \<open>datetime.fromtimestamp\<close>, which rounds to microseconds.\<close>

definition utc_second :: "time \<Rightarrow> int" where
  "utc_second ts = round_half_even (ts * 10 ^ 6) div 10 ^ 6"

text \<open>\<open>strftime("%Y-%m-%dT%H:%M:%SZ")\<close> of a time from the year 1000 up to the year 9999.\<close>

definition format_utc :: "time \<Rightarrow> string" where
  "format_utc ts =
     (let t = utc_second ts; (y, m, d) = civil_of_day (t div 86400); sec = t mod 86400
      in four_digits y @ ''-'' @ two_digits m @ ''-'' @ two_digits d @ ''T'' @
         two_digits (sec div 3600) @ '':'' @ two_digits (sec div 60 mod 60) @ '':'' @ two_digits (sec mod 60) @ ''Z'')"

text \<open>
  \<open>datetime.fromisoformat\<close> on the shapes the pattern lets through, then \<open>timestamp()\<close>;
  \<open>None\<close> where it raises. Digits of a second's fraction beyond the sixth are dropped; an
  offset of a whole day or more is refused.
\<close>

definition offset_seconds :: "string \<Rightarrow> int option" where
  "offset_seconds tz = (case tz of
       [] \<Rightarrow> Some 0
     | c # cs \<Rightarrow>
         let ds = filter is_digit cs;
             off = digits_val (take 2 ds) * 3600 + digits_val (drop 2 ds) * 60
         in if off \<ge> 86400 then None else Some (if c = CHR ''-'' then - off else off))"

definition iso_seconds :: "string \<Rightarrow> int \<times> rat \<times> string" where
  "iso_seconds s = (if take 1 s = '':''
     then (let sec = digits_val (take 2 (drop 1 s)); r = drop 3 s
           in if take 1 r = ''.''
              then (let frac = takeWhile is_digit (drop 1 r); us = take 6 frac
                    in (sec, of_int (digits_val us) / 10 ^ length us, drop (Suc (length frac)) r))
              else (sec, 0, r))
     else (0, 0, s))"

definition iso_timestamp :: "string \<Rightarrow> time option" where
  "iso_timestamp ts =
     (let t1 = map (\<lambda>c. if c = CHR '' '' then CHR ''T'' else c) ts;
          raw = (if t1 \<noteq> [] \<and> last t1 \<in> set ''Zz'' then butlast t1 @ ''+00:00'' else t1);
          y = digits_val (take 4 raw); m = digits_val (take 2 (drop 5 raw)); d = digits_val (take 2 (drop 8 raw));
          hh = digits_val (take 2 (drop 11 raw)); mm = digits_val (take 2 (drop 14 raw));
          (ss, frac, tz) = iso_seconds (drop 16 raw)
      in if \<not> valid_date y m d \<or> hh > 23 \<or> mm > 59 \<or> ss > 59 then None
         else map_option (\<lambda>off. of_int (epoch_day y m d * 86400 + hh * 3600 + mm * 60 + ss - off) + frac)
                (offset_seconds tz))"

section \<open>The reset time of an error text\<close>

definition cap :: "captures \<Rightarrow> string \<Rightarrow> string option" where
  "cap cs name = map_of cs name"

definition cap_text :: "captures \<Rightarrow> string \<Rightarrow> string" where
  "cap_text cs name = (case cap cs name of None \<Rightarrow> [] | Some t \<Rightarrow> t)"

definition spec_seconds :: "string \<Rightarrow> time" where
  "spec_seconds spec = sum_list (map (\<lambda>cs. duration_seconds (number_val (cap_text cs ''1'')) (cap cs ''2''))
     (finditer DURATION_PART spec))"

definition reset_times :: "string \<Rightarrow> time \<Rightarrow> time list" where
  "reset_times text now =
     map (\<lambda>cs. now + duration_seconds (number_val (cap_text cs ''value''))
            (if cap_text cs ''ms'' \<noteq> [] then Some ''ms'' else cap cs ''unit'')) (finditer RETRY_AFTER text) @
     List.map_filter (\<lambda>cs. let total = spec_seconds (cap_text cs ''spec'')
            in if total > 0 then Some (now + total) else None) (finditer TRY_AGAIN_IN text) @
     List.map_filter (\<lambda>cs. iso_timestamp (cap_text cs ''ts'')) (finditer RESET_ISO text) @
     map (\<lambda>cs. of_int (digits_val (cap_text cs ''epoch''))) (finditer RESET_EPOCH text)"

section \<open>The calendar inverts itself\<close>

lemma sum_month_lengths: "sum_list (month_lengths y) = (if is_leap y then 366 else 365)"
  by (simp add: month_lengths_def)

lemma month_lengths_pos: "l \<in> set (month_lengths y) \<Longrightarrow> 0 < l"
  by (auto simp: month_lengths_def split: if_splits)

lemma split_month_spec:
  assumes "0 \<le> n" and "n < sum_list ls"
  shows "\<exists>i < length ls. split_month ls m n = (m + int i, n - sum_list (take i ls) + 1) \<and>
     1 \<le> n - sum_list (take i ls) + 1 \<and> n - sum_list (take i ls) + 1 \<le> ls ! i"
  using assms
proof (induction ls m n rule: split_month.induct)
  case (2 l ls m n)
  show ?case
  proof (cases "n < l")
    case True
    then show ?thesis using 2 by (intro exI [of _ 0]) simp
  next
    case False
    then obtain i where "i < length ls"
      "split_month ls (m + 1) (n - l) = (m + 1 + int i, n - l - sum_list (take i ls) + 1)"
      "1 \<le> n - l - sum_list (take i ls) + 1" "n - l - sum_list (take i ls) + 1 \<le> ls ! i"
      using 2 by auto
    then show ?thesis using False by (intro exI [of _ "Suc i"]) (simp add: algebra_simps)
  qed
qed simp

lemma month_of_day:
  assumes "0 \<le> n" and "n < 365" and "split_month (month_lengths y) 1 n = (m, d)"
  shows "1 \<le> m \<and> m \<le> 12 \<and> 1 \<le> d \<and> d \<le> month_lengths y ! nat (m - 1) \<and> days_before_month y m + d = n + 1"
proof -
  have "n < sum_list (month_lengths y)" using assms(2) by (simp add: sum_month_lengths)
  from split_month_spec [OF assms(1) this, of 1] assms(3)
  obtain i where "i < length (month_lengths y)" "m = 1 + int i" "d = n - sum_list (take i (month_lengths y)) + 1"
    "1 \<le> d" "d \<le> month_lengths y ! i" by auto
  moreover have "length (month_lengths y) = 12" by (simp add: month_lengths_def)
  ultimately show ?thesis by (simp add: days_before_month_def)
qed

text \<open>The days before a year, by its position in the cycles.\<close>

lemma days_before_year_cycles:
  fixes a b c d :: int
  assumes "0 \<le> b" "b < 4" "0 \<le> c" "c < 25" "0 \<le> d" "d < 4"
  shows "days_before_year (a * 400 + 1 + b * 100 + c * 4 + d) = a * 146097 + b * 36524 + c * 1461 + d * 365"
proof -
  let ?k = "a * 400 + b * 100 + c * 4 + d"
  have d4: "?k div 4 = a * 100 + b * 25 + c" using assms by (intro int_div_pos_eq [of _ _ _ d]) auto
  have d100: "?k div 100 = a * 4 + b" using assms by (intro int_div_pos_eq [of _ _ _ "c * 4 + d"]) auto
  have d400: "?k div 400 = a" using assms by (intro int_div_pos_eq [of _ _ _ "b * 100 + c * 4 + d"]) auto
  have k: "a * 400 + 1 + b * 100 + c * 4 + d - 1 = ?k" by simp
  show ?thesis unfolding days_before_year_def k d4 d100 d400 by simp
qed

text \<open>The last day of a leap year closes a cycle of 4 years that does not end a common century.\<close>

lemma leap_year_end:
  fixes a b c :: int
  assumes "0 \<le> b" "b < 4" "0 \<le> c" "c < 25" and "c < 24 \<or> b = 3"
  shows "is_leap (a * 400 + 1 + b * 100 + c * 4 + 3)"
proof -
  let ?y = "a * 400 + 1 + b * 100 + c * 4 + 3"
  have "?y mod 4 = 0" by (intro int_mod_pos_eq [of _ _ "a * 100 + b * 25 + c + 1"]) auto
  moreover have "?y mod 100 = c * 4 + 4" if "c < 24"
    using that assms by (intro int_mod_pos_eq [of _ _ "a * 4 + b"]) auto
  moreover have "?y mod 400 = 0" if "c = 24" "b = 3"
    using that by (intro int_mod_pos_eq [of _ _ "a + 1"]) auto
  ultimately show ?thesis unfolding is_leap_def using assms by (cases "c < 24") auto
qed

lemma december_31:
  "31 \<le> month_lengths y ! 11" "epoch_day y 12 31 = days_before_year y + (if is_leap y then 366 else 365) - 719163"
  by (simp_all add: month_lengths_def epoch_day_def days_before_month_def eval_nat_numeral)

lemma civil_of_day_spec:
  assumes "civil_of_day day = (y, m, d)"
  shows "1 \<le> m \<and> m \<le> 12 \<and> 1 \<le> d \<and> d \<le> month_lengths y ! nat (m - 1) \<and> epoch_day y m d = day"
proof -
  define n where "n = day + 719162"
  define a where "a = n div 146097"
  define r400 where "r400 = n mod 146097"
  define b where "b = r400 div 36524"
  define r100 where "r100 = r400 mod 36524"
  define c where "c = r100 div 1461"
  define r4 where "r4 = r100 mod 1461"
  define e where "e = r4 div 365"
  define r1 where "r1 = r4 mod 365"
  define year where "year = a * 400 + 1 + b * 100 + c * 4 + e"
  have r400: "0 \<le> r400" "r400 < 146097" "n = a * 146097 + r400" by (simp_all add: r400_def a_def)
  have r100: "0 \<le> r100" "r100 < 36524" "r400 = b * 36524 + r100" by (simp_all add: r100_def b_def)
  have b: "0 \<le> b" "b \<le> 4" using r400 r100 by linarith+
  have r4: "0 \<le> r4" "r4 < 1461" "r100 = c * 1461 + r4" by (simp_all add: r4_def c_def)
  have c: "0 \<le> c" "c < 25" using r100 r4 by linarith+
  have r1: "0 \<le> r1" "r1 < 365" "r4 = e * 365 + r1" by (simp_all add: r1_def e_def)
  have e: "0 \<le> e" "e \<le> 4" using r4 r1 by linarith+
  have civ: "civil_of_day day = (if e = 4 \<or> b = 4 then (year - 1, 12, 31)
      else (case split_month (month_lengths year) 1 r1 of (m, d) \<Rightarrow> (year, m, d)))"
    unfolding civil_of_day_def Let_def year_def r1_def e_def r4_def c_def r100_def b_def r400_def a_def n_def ..
  show ?thesis
  proof (cases "e = 4 \<or> b = 4")
    case False
    then have "b < 4" "e < 4" using b e by simp_all
    then have dby: "days_before_year year = n - r1"
      unfolding year_def using b c e r400 r100 r4 r1 by (simp add: days_before_year_cycles)
    obtain m' d' where sp: "split_month (month_lengths year) 1 r1 = (m', d')" by fastforce
    then have "y = year" "m = m'" "d = d'" using civ False assms(1) by auto
    with month_of_day [OF r1(1,2) sp] dby show ?thesis
      by (simp add: epoch_day_def n_def)
  next
    case True
    then have y: "y = year - 1" "m = 12" "d = 31" using civ assms(1) by auto
    show ?thesis
    proof (cases "b = 4")
      case True
      then have z: "c = 0" "e = 0" "r1 = 0" using r400 r100 r4 r1 c e by linarith+
      have yy: "y = a * 400 + 1 + 3 * 100 + 24 * 4 + 3" unfolding y year_def using True z by simp
      have "is_leap y" unfolding yy by (rule leap_year_end) simp_all
      moreover have "days_before_year y = a * 146097 + 3 * 36524 + 24 * 1461 + 3 * 365"
        unfolding yy by (rule days_before_year_cycles) simp_all
      ultimately show ?thesis
        using True z r400 r100 r4 r1 by (simp add: y(2,3) december_31 n_def)
    next
      case False
      then have e4: "e = 4" "b < 4" "r1 = 0" using True b r4 r1 by linarith+
      have "c < 24 \<or> b = 3" using r400 r100 r4 r1 e4 c b by linarith
      moreover have yy: "y = a * 400 + 1 + b * 100 + c * 4 + 3" unfolding y year_def using e4 by simp
      ultimately have "is_leap y" using b c e4 leap_year_end [of b c a] by auto
      moreover have "days_before_year y = a * 146097 + b * 36524 + c * 1461 + 3 * 365"
        unfolding yy using b c e4 by (intro days_before_year_cycles) simp_all
      ultimately show ?thesis
        using e4 r400 r100 r4 r1 by (simp add: y(2,3) december_31 n_def)
    qed
  qed
qed

lemma year_sums:
  fixes a b c e :: int
  shows "a \<le> a' \<Longrightarrow> c' \<le> c + 1 \<Longrightarrow> b \<le> b' \<Longrightarrow> (z - 1) * 365 + a - c + b \<le> (z + 1 - 1) * 365 + a' - c' + b'"
    and "4 \<le> a \<Longrightarrow> 0 \<le> b \<Longrightarrow> 0 \<le> c \<Longrightarrow> 0 \<le> e \<Longrightarrow> 1 \<le> a * 400 + 1 + b * 100 + c * 4 + e - 1"
  by simp_all

lemma days_before_year_mono:
  assumes "y \<le> z"
  shows "days_before_year y \<le> days_before_year z"
  using assms
proof (induction z rule: int_ge_induct)
  case (step z)
  have "(z + 1 - 1) div 100 \<le> (z - 1 + 1 * 100) div 100" by (rule zdiv_mono1) simp_all
  then have "(z + 1 - 1) div 100 \<le> (z - 1) div 100 + 1" by (subst (asm) div_mult_self1) simp_all
  moreover have "(z - 1) div 4 \<le> (z + 1 - 1) div 4" "(z - 1) div 400 \<le> (z + 1 - 1) div 400"
    by (rule zdiv_mono1, simp_all)+
  ultimately have "days_before_year z \<le> days_before_year (z + 1)"
    unfolding days_before_year_def by (intro year_sums(1))
  with step show ?case by simp
qed simp

lemma civil_of_day_year:
  assumes "civil_of_day day = (y, m, d)" and "0 \<le> day" and "day \<le> 2932896"
  shows "1 \<le> y \<and> y \<le> 9999"
proof
  define n where "n = day + 719162"
  have "719162 div 146097 \<le> n div 146097" using assms(2) unfolding n_def by (intro zdiv_mono1) simp_all
  then have a: "4 \<le> n div 146097" by simp
  have b: "0 \<le> n mod 146097 div 36524" "0 \<le> n mod 146097 mod 36524 div 1461"
    "0 \<le> n mod 146097 mod 36524 mod 1461 div 365" by (simp_all only: pos_imp_zdiv_nonneg_iff zero_less_numeral pos_mod_sign)
  define year where "year = n div 146097 * 400 + 1 + n mod 146097 div 36524 * 100 +
    n mod 146097 mod 36524 div 1461 * 4 + n mod 146097 mod 36524 mod 1461 div 365"
  have "1 \<le> year - 1" unfolding year_def by (rule year_sums(2) [OF a b])
  moreover have "y = year \<or> y = year - 1"
    using assms(1) unfolding civil_of_day_def Let_def n_def [symmetric] year_def [symmetric]
    by (simp only: split: if_splits prod.splits) auto
  ultimately show "1 \<le> y" by auto
  have "days_before_month y m \<ge> 0"
    unfolding days_before_month_def
    by (intro sum_list_nonneg) (auto dest!: in_set_takeD simp: month_lengths_pos less_imp_le)
  then have "days_before_year y < 3652059"
    using civil_of_day_spec [OF assms(1)] assms(3) by (simp add: epoch_day_def)
  moreover have "days_before_year 10000 = 3652059" by (simp add: days_before_year_def)
  ultimately show "y \<le> 9999" using days_before_year_mono [of 10000 y] by linarith
qed

section \<open>Texts of times\<close>

lemma digit_char: "0 \<le> n \<Longrightarrow> n < 10 \<Longrightarrow> digit_val (char_of (48 + nat n)) = n \<and> is_digit (char_of (48 + nat n))"
  by (simp add: digit_val_def is_digit_def)

lemma two_digits_val:
  assumes "0 \<le> n" "n < 100"
  shows "digits_val (two_digits n) = n"
proof -
  have "digit_val (char_of (48 + nat (n div 10 mod 10))) = n div 10" "digit_val (char_of (48 + nat (n mod 10))) = n mod 10"
    using digit_char [of "n div 10 mod 10"] digit_char [of "n mod 10"] assms by simp_all
  then show ?thesis unfolding two_digits_def digits_val_def by simp
qed

lemma two_digits_chars: "\<exists>a b. two_digits n = [a, b] \<and> is_digit a \<and> is_digit b"
  using digit_char [of "n div 10 mod 10"] digit_char [of "n mod 10"] by (simp add: two_digits_def)

lemma digits_val_append: "digits_val (xs @ ys) = digits_val xs * 10 ^ length ys + digits_val ys"
proof (induction ys rule: rev_induct)
  case (snoc y ys)
  then show ?case by (simp add: digits_val_def algebra_simps)
qed (simp add: digits_val_def)

lemma four_digits_val:
  assumes "0 \<le> n" "n < 10000"
  shows "digits_val (four_digits n) = n"
proof -
  obtain a b where "two_digits (n mod 100) = [a, b]" using two_digits_chars by blast
  then have "digits_val (four_digits n) = digits_val (two_digits (n div 100)) * 100 + digits_val (two_digits (n mod 100))"
    by (simp add: four_digits_def digits_val_append)
  then show ?thesis using assms by (simp add: two_digits_val)
qed

text \<open>A text in the launcher's format, with its fields.\<close>

lemma iso_timestamp_utc:
  assumes "valid_date y m d" and "0 \<le> hh" "hh \<le> 23" "0 \<le> mm" "mm \<le> 59" "0 \<le> ss" "ss \<le> 59"
  shows "iso_timestamp (four_digits y @ ''-'' @ two_digits m @ ''-'' @ two_digits d @ ''T'' @
      two_digits hh @ '':'' @ two_digits mm @ '':'' @ two_digits ss @ ''Z'') =
    Some (of_int (epoch_day y m d * 86400 + hh * 3600 + mm * 60 + ss))"
proof -
  have space: "is_digit c \<Longrightarrow> c \<noteq> CHR '' ''" for c by (auto simp: is_digit_def)
  obtain y1 y2 where y12: "two_digits (y div 100) = [y1, y2]" "is_digit y1" "is_digit y2" using two_digits_chars by blast
  obtain y3 y4 where y34: "two_digits (y mod 100) = [y3, y4]" "is_digit y3" "is_digit y4" using two_digits_chars by blast
  obtain m1 m2 where m12: "two_digits m = [m1, m2]" "is_digit m1" "is_digit m2" using two_digits_chars by blast
  obtain d1 d2 where d12: "two_digits d = [d1, d2]" "is_digit d1" "is_digit d2" using two_digits_chars by blast
  obtain h1 h2 where h12: "two_digits hh = [h1, h2]" "is_digit h1" "is_digit h2" using two_digits_chars by blast
  obtain i1 i2 where i12: "two_digits mm = [i1, i2]" "is_digit i1" "is_digit i2" using two_digits_chars by blast
  obtain s1 s2 where s12: "two_digits ss = [s1, s2]" "is_digit s1" "is_digit s2" using two_digits_chars by blast
  have len: "month_lengths y ! nat (m - 1) \<le> 31" if "1 \<le> m" "m \<le> 12"
  proof -
    have "nat (m - 1) < length (month_lengths y)" using that by (simp add: month_lengths_def)
    then have "month_lengths y ! nat (m - 1) \<in> set (month_lengths y)" by (rule nth_mem)
    then show ?thesis by (auto simp: month_lengths_def split: if_splits)
  qed
  have "digits_val [y1, y2, y3, y4] = y" "digits_val [m1, m2] = m" "digits_val [d1, d2] = d"
    "digits_val [h1, h2] = hh" "digits_val [i1, i2] = mm" "digits_val [s1, s2] = ss"
    using four_digits_val [of y] two_digits_val [of m] two_digits_val [of d] two_digits_val [of hh]
      two_digits_val [of mm] two_digits_val [of ss] assms len y12 y34 m12 d12 h12 i12 s12
    by (auto simp: four_digits_def valid_date_def)
  moreover have "offset_seconds ''+00:00'' = Some 0" by code_simp
  moreover have "\<forall>c \<in> {y1, y2, y3, y4, m1, m2, d1, d2, h1, h2, i1, i2, s1, s2}. c \<noteq> CHR '' ''"
    using space y12 y34 m12 d12 h12 i12 s12 by blast
  ultimately show ?thesis
    using assms y12(1) y34(1) m12(1) d12(1) h12(1) i12(1) s12(1)
    by (simp add: iso_timestamp_def iso_seconds_def four_digits_def Let_def)
qed

lemma clock_fields:
  fixes sec :: int
  assumes "0 \<le> sec" and "sec \<le> 86399"
  shows "0 \<le> sec div 3600" "sec div 3600 \<le> 23" "0 \<le> sec div 60 mod 60" "sec div 60 mod 60 \<le> 59"
    "0 \<le> sec mod 60" "sec mod 60 \<le> 59"
proof -
  have "sec div 3600 \<le> 86399 div 3600" using assms by (intro zdiv_mono1) simp_all
  then show "sec div 3600 \<le> 23" by simp
  have "k mod 60 \<le> 59" for k :: int
    using pos_mod_bound [of 60 k] zle_diff1_eq [of "k mod 60" 60] by (simp del: zle_diff1_eq)
  from this [of "sec div 60"] this [of sec] show "sec div 60 mod 60 \<le> 59" "sec mod 60 \<le> 59" .
qed (simp_all only: assms pos_imp_zdiv_nonneg_iff zero_less_numeral pos_mod_sign)

lemma clock_fields_sum:
  fixes sec :: int
  shows "sec div 3600 * 3600 + sec div 60 mod 60 * 60 + sec mod 60 = sec"
proof -
  have h: "sec div 3600 = sec div 60 div 60" using zdiv_zmult2_eq [of 60 sec 60] by simp
  have "(a * 60 + b) * 60 = a * 3600 + b * 60" for a b :: int by simp
  then have "k div 60 * 3600 + k mod 60 * 60 = k * 60" for k :: int
    using div_mult_mod_eq [of k 60] by metis
  then show ?thesis unfolding h using div_mult_mod_eq [of sec 60] by metis
qed

lemma round_half_even_near: "of_int (round_half_even x) - 1 / 2 \<le> x \<and> x \<le> of_int (round_half_even x) + 1 / 2"
proof -
  define f where "f = \<lfloor>x\<rfloor>"
  have "of_int f \<le> x" "x < of_int f + 1" unfolding f_def by linarith+
  then show ?thesis by (auto simp: round_half_even_def f_def [symmetric] Let_def)
qed

lemma utc_second_near: "of_int (utc_second ts) - 1 / 2000000 \<le> ts \<and> ts < of_int (utc_second ts) + 1"
proof -
  define k where "k = round_half_even (ts * 10 ^ 6)"
  have k: "(of_int k :: rat) - 1 / 2 \<le> ts * 1000000" "ts * 1000000 \<le> of_int k + 1 / 2"
    using round_half_even_near [of "ts * 10 ^ 6"] by (simp_all add: k_def)
  define q where "q = utc_second ts"
  define r where "r = k mod 1000000"
  have r: "0 \<le> r" "r + 1 \<le> 1000000" unfolding r_def
    using pos_mod_sign [of 1000000 k] pos_mod_bound [of 1000000 k] zless_imp_add1_zle by simp_all
  have "k = q * 1000000 + r" unfolding q_def r_def utc_second_def k_def [symmetric] by simp
  then have "(of_int k :: rat) = of_int q * 1000000 + of_int r" by simp
  moreover have "(0 :: rat) \<le> of_int r" "of_int r + 1 \<le> (1000000 :: rat)"
    using r by (simp, metis of_int_1 of_int_add of_int_le_iff of_int_numeral)
  ultimately show ?thesis using k unfolding q_def [symmetric] by linarith
qed

lemma utc_second_range:
  assumes "0 \<le> ts" and "ts \<le> 253402300799"
  shows "0 \<le> utc_second ts \<and> utc_second ts < 253402300800"
proof -
  have "(-1 :: rat) < of_int (utc_second ts)" "of_int (utc_second ts) < (253402300800 :: rat)"
    using utc_second_near [of ts] assms by linarith+
  then have "-1 < utc_second ts" "utc_second ts < 253402300800" by linarith+
  then show ?thesis by simp
qed

text \<open>Reset times survive being printed. A moment between 1970 and the end of the year 9999
  printed by the launcher in its UTC format reads back as a whole second less than a second
  before the moment (or at most half a microsecond after it, by the rounding of the clock).\<close>

lemma format_utc_roundtrip:
  assumes "0 \<le> ts" and "ts \<le> 253402300799"
  shows "\<exists>t. iso_timestamp (format_utc ts) = Some t \<and> t - 1 / 2000000 \<le> ts \<and> ts < t + 1"
proof -
  define t where "t = utc_second ts"
  have t: "0 \<le> t" "t < 253402300800" using utc_second_range [OF assms] by (simp_all add: t_def)
  obtain y m d where c: "civil_of_day (t div 86400) = (y, m, d)" by (metis prod_cases3)
  have "t div 86400 \<le> 253402300799 div 86400" using t by (intro zdiv_mono1) simp_all
  then have tu: "t div 86400 \<le> 2932896" by simp
  have tl: "0 \<le> t div 86400" using t(1) by (simp only: pos_imp_zdiv_nonneg_iff zero_less_numeral)
  have y: "1 \<le> y \<and> y \<le> 9999" by (rule civil_of_day_year [OF c tl tu])
  have v: "valid_date y m d \<and> epoch_day y m d = t div 86400"
    using civil_of_day_spec [OF c] y unfolding valid_date_def by blast
  have f: "format_utc ts = four_digits y @ ''-'' @ two_digits m @ ''-'' @ two_digits d @ ''T'' @
      two_digits (t mod 86400 div 3600) @ '':'' @ two_digits (t mod 86400 div 60 mod 60) @ '':'' @
      two_digits (t mod 86400 mod 60) @ ''Z''"
    unfolding format_utc_def t_def [symmetric] Let_def c prod.case ..
  have "0 \<le> t mod 86400" "t mod 86400 \<le> 86399" using pos_mod_sign [of 86400 t] pos_mod_bound [of 86400 t] by simp_all
  note b = clock_fields [OF this]
  have "t div 86400 * 86400 + t mod 86400 = t" by (rule div_mult_mod_eq)
  then have "t div 86400 * 86400 + t mod 86400 div 3600 * 3600 + t mod 86400 div 60 mod 60 * 60 + t mod 86400 mod 60 = t"
    using clock_fields_sum [of "t mod 86400"] by (metis add.assoc)
  then have "iso_timestamp (format_utc ts) = Some (of_int t)"
    unfolding f iso_timestamp_utc [OF conjunct1 [OF v] b] conjunct2 [OF v] by (simp only:)
  with utc_second_near [of ts] show ?thesis unfolding t_def [symmetric] by blast
qed

lemma format_utc_roundtrip_witness:
  "format_utc (17 * 10 ^ 8 + 1 / 2) = ''2023-11-14T22:13:20Z'' \<and>
   (\<exists>t. iso_timestamp ''2023-11-14T22:13:20Z'' = Some t \<and> t - 1 / 2000000 \<le> 17 * 10 ^ 8 + 1 / 2 \<and> 17 * 10 ^ 8 + 1 / 2 < t + 1)"
proof -
  have f: "format_utc (17 * 10 ^ 8 + 1 / 2) = ''2023-11-14T22:13:20Z''" by code_simp
  with format_utc_roundtrip [of "17 * 10 ^ 8 + 1 / 2"] show ?thesis by simp
qed

end
