(* ===== verification/Launch_Policy.thy ===== *)
theory Launch_Policy
  imports Queue_Store Queue_Config Run_Lifecycle Provider_Reset
begin

text \<open>
  The decisions of the launcher (\<open>launcher.py\<close>): which failures are retried and after what
  wait, which agent and model each role of a launch gets, and whether a pending entry may be
  launched now. What the launcher asks of the machine (git, the file system, the key-health
  endpoint, the process table) is the record \<open>probe_env\<close>.
\<close>

section \<open>Failure causes\<close>

definition NON_RETRYABLE_CAUSE_SIGNATURES :: "string list" where
  "NON_RETRYABLE_CAUSE_SIGNATURES =
     [''task must be a string'', ''task is required'', ''task is too large'', ''contains a nul byte'',
      ''invalid workspace path'', ''workspace must be inside'', ''workspace does not exist'',
      ''agent must be'', ''max_rounds must be'', ''prompt_language must be'', ''model must be'',
      ''does not accept a reasoning effort'', ''run already exists'', ''cannot create runs'',
      ''idempotency-key'', ''request is already being created'', ''max_retries'',
      ''exceeded max_retries'', ''max_rounds_exhausted'', ''needs_human_input'', ''user_cancelled'',
      ''manager_blocked'', ''worker_cancelled'', ''time_limit'']"

definition QUOTA_CAUSE_SIGNATURES :: "string list" where
  "QUOTA_CAUSE_SIGNATURES = [''provider_quota'', ''insufficient_quota'', ''insufficient quota'',
     ''quota exceeded'', ''usage limit'']"

definition BACKOFF_CAUSES :: "string list" where
  "BACKOFF_CAUSES = [''provider_quota'', ''provider_rate_limit'']"

definition RETRYABLE_CAUSE_SIGNATURES :: "string list" where
  "RETRYABLE_CAUSE_SIGNATURES = [''provider_rate_limit'', ''429'', ''rate limit'', ''rate_limit'',
     ''too many requests'', ''provider_timeout'', ''timed out'', ''timeout'', ''provider_stall'',
     ''stalled_execution'', ''no_output_stall'', ''stalled episode'']"

definition TIME_LIMIT_CAUSE :: string where
  "TIME_LIMIT_CAUSE = ''time_limit''"

definition signature_label :: "string \<Rightarrow> string" where
  "signature_label sig =
     (if py_contains ''rate'' sig \<or> sig = ''429'' then ''provider_rate_limit''
      else if py_contains ''stall'' sig \<or> py_contains ''no_output'' sig then ''provider_stall''
      else ''episode_timeout'')"

definition classify_failure_cause :: "string \<Rightarrow> string option" where
  "classify_failure_cause text =
     (let lowered = py_lower text in
      if lowered = [] then None
      else if list_ex (\<lambda>sig. py_contains sig lowered) NON_RETRYABLE_CAUSE_SIGNATURES then None
      else if list_ex (\<lambda>sig. py_contains sig lowered) QUOTA_CAUSE_SIGNATURES then Some ''provider_quota''
      else map_option signature_label (find (\<lambda>sig. py_contains sig lowered) RETRYABLE_CAUSE_SIGNATURES))"

definition is_retryable_cause :: "string \<Rightarrow> bool" where
  "is_retryable_cause cause = (classify_failure_cause cause \<noteq> None)"

section \<open>Waiting out a provider\<close>

definition MAX_RESET_HORIZON_SECONDS :: time where
  "MAX_RESET_HORIZON_SECONDS = 7 * 24 * 3600"

fun list_max :: "time \<Rightarrow> time list \<Rightarrow> time" where
  "list_max m [] = m"
| "list_max m (x # xs) = list_max (max m x) xs"

text \<open>The latest usable time among the ones the patterns found in the text.\<close>

definition parse_provider_reset :: "string \<Rightarrow> time \<Rightarrow> time option" where
  "parse_provider_reset text now =
     (if text = [] then None
      else case filter (\<lambda>ts. now < ts \<and> ts \<le> now + MAX_RESET_HORIZON_SECONDS) (reset_times text now) of
             [] \<Rightarrow> None
           | t # ts \<Rightarrow> Some (list_max t ts))"

definition quota_backoff ::
    "time list \<Rightarrow> int \<Rightarrow> string \<Rightarrow> time \<Rightarrow> (time \<times> string) option" where
  "quota_backoff schedule attempt cause now =
     (case classify_failure_cause cause of
        None \<Rightarrow> None
      | Some label \<Rightarrow>
          if label \<notin> set BACKOFF_CAUSES then None
          else let index = nat (max 0 ((if attempt = 0 then 1 else attempt) - 1));
                   minutes = schedule ! min index (length schedule - 1);
                   not_before = now + minutes * 60
               in Some (case parse_provider_reset cause now of
                          Some r \<Rightarrow> if r > not_before then r else not_before
                        | None \<Rightarrow> not_before, label))"

section \<open>Role specifications of a launch\<close>

type_synonym role_spec = "(string \<times> string) list"

definition trio_get :: "trio_spec \<Rightarrow> string \<Rightarrow> string option" where
  "trio_get t k = (case map_of t k of Some (Some v) \<Rightarrow> Some v | _ \<Rightarrow> None)"

definition stripped :: "string option \<Rightarrow> string option" where
  "stripped v = (case v of None \<Rightarrow> None | Some s \<Rightarrow> if py_strip s = [] then None else Some (py_strip s))"

definition trio_role_overrides :: "trio_spec \<Rightarrow> (string \<times> role_spec) list" where
  "trio_role_overrides t =
     List.map_filter (\<lambda>role.
        let spec = List.map_filter (\<lambda>key. map_option (Pair key) (stripped (trio_get t (role @ ''_'' @ key))))
                     [''agent'', ''model'']
        in if spec = [] then None else Some (role, spec)) ROLE_KEYS"

text \<open>\<open>a or b\<close> on optional strings.\<close>

definition str_or :: "string option \<Rightarrow> string option \<Rightarrow> string option" where
  "str_or a b = (case a of Some (c # cs) \<Rightarrow> Some (c # cs) | _ \<Rightarrow> b)"

definition override_of :: "(string \<times> role_spec) list \<Rightarrow> string \<Rightarrow> string \<Rightarrow> string option" where
  "override_of ov role key = (case map_of ov role of None \<Rightarrow> None | Some spec \<Rightarrow> map_of spec key)"

definition role_configs :: "string \<Rightarrow> string option \<Rightarrow> (string \<times> role_spec) list \<Rightarrow> (string \<times> role_spec) list" where
  "role_configs agent model ov = map (\<lambda>role.
      (role, (''agent'', the (str_or (override_of ov role ''agent'') (Some agent))) #
         (case str_or (override_of ov role ''model'') model of
            Some (c # cs) \<Rightarrow> [(''model'', c # cs)] | _ \<Rightarrow> []))) ROLE_KEYS"

definition entry_model_override :: "queue_entry \<Rightarrow> string option" where
  "entry_model_override e = stripped (q_model e)"

definition pin_spec :: "role_spec \<Rightarrow> role_spec" where
  "pin_spec raw = List.map_filter (\<lambda>key. map_option (Pair key) (stripped (map_of raw key)))
     [''agent'', ''model'', ''reasoning_effort'']"

definition overlay_pin :: "(string \<times> role_spec) list \<Rightarrow> string \<times> role_spec \<Rightarrow> (string \<times> role_spec) list" where
  "overlay_pin configs p = (case map_of configs (fst p) of
       None \<Rightarrow> configs
     | Some base \<Rightarrow> aupd (fst p) (foldl (\<lambda>d kv. aupd (fst kv) (snd kv) d) base (pin_spec (snd p))) configs)"

definition launch_role_configs ::
    "queue_entry \<Rightarrow> string \<Rightarrow> string option \<Rightarrow> (string \<times> role_spec) list \<Rightarrow> (string \<times> role_spec) list" where
  "launch_role_configs e agent model ov =
     foldl overlay_pin (role_configs agent model ov) (case q_roles e of None \<Rightarrow> [] | Some pins \<Rightarrow> pins)"

definition auditor_read_only_violation ::
    "mcp_env \<Rightarrow> string \<Rightarrow> string option \<Rightarrow> string option \<Rightarrow> (string \<times> role_spec) list \<Rightarrow> string option" where
  "auditor_read_only_violation env agent model profile configs =
     (case normalise_role_configs env False agent model None profile
             (PDict (map (\<lambda>(r, spec). (r, PDict (map (\<lambda>(k, v). (k, PStr v)) spec))) configs)) of
        Inl (QValueError m) \<Rightarrow>
          if py_contains ''is not read-only'' m \<and> py_contains ''auditor'' m then Some m else None
      | _ \<Rightarrow> None)"

section \<open>Eligibility\<close>

record probe_env =
  pe_config :: queue_config
  pe_now :: time
  pe_render :: "pyval \<Rightarrow> string"
  pe_maintenance :: "pydict option"
  pe_disk_pct :: "rat option"
  pe_disk_pause_pct :: rat
  pe_disk_resume_pct :: rat
  pe_key_health :: "pyval option"
  pe_worker_alive :: "string \<Rightarrow> string \<Rightarrow> bool"
  pe_reserved :: "string \<Rightarrow> bool"
  pe_norm_path :: "string \<Rightarrow> string"
  pe_dirty :: "string \<Rightarrow> bool"
  pe_unpushed :: "string \<Rightarrow> bool"

text \<open>The active runs of the pass: run id and the workspace its owner record names.\<close>

type_synonym active_scan = "(string \<times> string) list"

definition drain_skip_reason :: "queue_store \<Rightarrow> string option" where
  "drain_skip_reason s = (let d = get_drain s in
     if \<not> dr_enabled d then None
     else Some (case dr_reason d of
        Some (c # cs) \<Rightarrow> ''queue drained: '' @ take 200 (c # cs)
      | _ \<Rightarrow> ''queue drained''))"

definition maintenance_pause_skip_reason :: "probe_env \<Rightarrow> string option" where
  "maintenance_pause_skip_reason env = (case pe_maintenance env of
       None \<Rightarrow> None
     | Some d \<Rightarrow> if \<not> truthy (dget d ''enabled'') then None
         else Some (if truthy (dget d ''suspend_id'')
            then ''maintenance launch pause: suspend '' @ py_str (pe_render env) (dget d ''suspend_id'')
            else ''maintenance launch pause''))"

definition disk_skip_reason :: "probe_env \<Rightarrow> bool \<Rightarrow> string option" where
  "disk_skip_reason env sticky = (case pe_disk_pct env of
       None \<Rightarrow> None
     | Some pct \<Rightarrow>
         if pct \<ge> pe_disk_pause_pct env \<or> sticky \<and> pct \<ge> pe_disk_resume_pct env
         then Some ''disk_full'' else None)"

definition waiting_skip_reason :: "probe_env \<Rightarrow> queue_entry \<Rightarrow> string option" where
  "waiting_skip_reason env e = (case q_not_before e of
       None \<Rightarrow> None
     | Some t \<Rightarrow> if t \<le> pe_now env then None
         else Some (''waiting: '' @ the (str_or (q_wait_reason e) (Some ''backoff'')) @ '' until '' @ format_utc t))"

definition key_health_ok :: "string \<Rightarrow> int \<Rightarrow> pyval option \<Rightarrow> bool" where
  "key_health_ok url min_healthy data =
     (if url = [] then True
      else case data of
             None \<Rightarrow> False
           | Some v \<Rightarrow> int (case v of
                PDict d \<Rightarrow> (case dget d ''healthy_keys'' of
                   PList ks \<Rightarrow> length (filter (\<lambda>k. case k of
                      PDict kd \<Rightarrow> dget kd ''healthy'' = PBool True | _ \<Rightarrow> False) ks)
                 | _ \<Rightarrow> 0)
              | _ \<Rightarrow> 0) \<ge> min_healthy)"

definition capacity_of :: "(string \<times> int) list \<Rightarrow> string \<Rightarrow> int" where
  "capacity_of caps trio = (case map_of caps trio of None \<Rightarrow> 0 | Some n \<Rightarrow> n)"

definition capacity_reason :: "queue_entry \<Rightarrow> (string \<times> int) list \<Rightarrow> string option" where
  "capacity_reason e caps = (if capacity_of caps (q_trio e) \<le> 0 then Some (q_trio e @ '' at capacity'') else None)"

definition node_capacity_reason :: "probe_env \<Rightarrow> int \<Rightarrow> string option" where
  "node_capacity_reason env node_active =
     (let node_max = qc_node_max_runs (pe_config env) in
      if node_active \<ge> node_max
      then Some (''node at capacity: '' @ show_int node_active @ '' active runs, node max '' @ show_int node_max)
      else None)"

definition interrupted_worker_alive_reason :: "probe_env \<Rightarrow> queue_entry \<Rightarrow> string option" where
  "interrupted_worker_alive_reason env e = (case q_interrupted_run e of
       Some (c # cs) \<Rightarrow> if pe_worker_alive env (q_workspace e) (c # cs)
          then Some (''interrupted run '' @ (c # cs) @ '' still has a live worker; waiting before the restart successor launches'')
          else None
     | _ \<Rightarrow> None)"

definition is_continuation :: "queue_entry \<Rightarrow> bool" where
  "is_continuation e = (q_branch e \<noteq> [] \<or> q_continue_branch e)"

definition active_run_reason :: "probe_env \<Rightarrow> active_scan \<Rightarrow> queue_entry \<Rightarrow> string option" where
  "active_run_reason env active e =
     map_option (\<lambda>p. ''workspace '' @ q_workspace e @ '' has active run '' @ fst p)
       (find (\<lambda>p. pe_norm_path env (snd p) \<noteq> [] \<and> pe_norm_path env (snd p) = pe_norm_path env (q_workspace e)) active)"

definition occupancy_reason :: "probe_env \<Rightarrow> queue_entry \<Rightarrow> string option" where
  "occupancy_reason env e =
     (if qc_ignore_dirty (pe_config env) \<or> is_continuation e then None
      else if pe_dirty env (q_workspace e)
      then Some (''workspace '' @ q_workspace e @ '' occupied: dirty tree (git status --porcelain non-empty)'')
      else if pe_unpushed env (q_workspace e)
      then Some (''workspace '' @ q_workspace e @ '' occupied: checked-out branch has no upstream and carries commits not on origin/main'')
      else None)"

text \<open>The first reason of a list of checks.\<close>

fun first_reason :: "string option list \<Rightarrow> string option" where
  "first_reason [] = None"
| "first_reason (None # rs) = first_reason rs"
| "first_reason (Some r # rs) = Some r"

text \<open>
  \<open>_check_eligibility\<close>, with the sticky disk flag it carries from check to check: the disk is
  looked at only when neither the drain flag nor the maintenance pause refuses.
\<close>

definition check_eligibility ::
    "probe_env \<Rightarrow> queue_store \<Rightarrow> queue_entry \<Rightarrow> active_scan \<Rightarrow> (string \<times> int) list \<Rightarrow> int \<Rightarrow> bool
     \<Rightarrow> string option \<times> bool" where
  "check_eligibility env s e active caps node_active sticky =
     (case first_reason [drain_skip_reason s, maintenance_pause_skip_reason env] of
        Some r \<Rightarrow> (Some r, sticky)
      | None \<Rightarrow>
          let disk = disk_skip_reason env sticky; c = qc_capacity (pe_config env) in
          (first_reason
             [disk,
              waiting_skip_reason env e,
              if q_trio e = ''kimi'' \<and> cc_key_health_url c \<noteq> [] \<and>
                 \<not> key_health_ok (cc_key_health_url c) (cc_min_healthy_keys c) (pe_key_health env)
              then Some ''key health insufficient'' else None,
              capacity_reason e caps,
              node_capacity_reason env node_active,
              interrupted_worker_alive_reason env e,
              if pe_reserved env (q_workspace e)
              then Some (''workspace '' @ q_workspace e @ '' is reserved for a launch'') else None,
              active_run_reason env active e,
              occupancy_reason env e],
           disk \<noteq> None))"

section \<open>Lemmas\<close>

lemma py_lower_append: "py_lower (a @ b) = py_lower a @ py_lower b"
  by (simp add: py_lower_def)

lemma time_limit_signature: "''time_limit'' \<in> set NON_RETRYABLE_CAUSE_SIGNATURES"
  by code_simp

lemma first_reason_None: "first_reason rs = None \<longleftrightarrow> list_all (\<lambda>r. r = None) rs"
  by (induction rs rule: first_reason.induct) auto

lemma list_max_ge: "m \<le> list_max m xs \<and> (\<forall>x\<in>set xs. x \<le> list_max m xs)"
  by (induction m xs rule: list_max.induct) (auto intro: order_trans)

lemma list_max_in: "list_max m xs \<in> insert m (set xs)"
  by (induction m xs rule: list_max.induct) (auto simp: max_def split: if_splits)

lemma parse_provider_reset_bounds:
  assumes "parse_provider_reset text now = Some r"
  shows "now < r \<and> r \<le> now + MAX_RESET_HORIZON_SECONDS"
proof -
  obtain t ts where f: "filter (\<lambda>ts. now < ts \<and> ts \<le> now + MAX_RESET_HORIZON_SECONDS) (reset_times text now) = t # ts"
    and r: "r = list_max t ts"
    using assms by (auto simp: parse_provider_reset_def split: if_splits list.splits)
  have "r \<in> set (t # ts)" using list_max_in [of t ts] r by simp
  then have "r \<in> set (filter (\<lambda>ts. now < ts \<and> ts \<le> now + MAX_RESET_HORIZON_SECONDS) (reset_times text now))"
    by (simp only: f)
  then show ?thesis by simp
qed

lemma signature_labels:
  "classify_failure_cause c = Some l \<Longrightarrow> l \<in> {''provider_quota'', ''provider_rate_limit'', ''provider_stall'', ''episode_timeout''}"
  by (auto simp: classify_failure_cause_def signature_label_def Let_def split: if_splits)

lemma time_limit_lower: "py_lower TIME_LIMIT_CAUSE = ''time_limit''"
  by code_simp

lemma time_limit_not_retryable:
  "\<not> is_retryable_cause (TIME_LIMIT_CAUSE @ '' | '' @ cause) \<and>
   quota_backoff schedule attempt (TIME_LIMIT_CAUSE @ '' | '' @ cause) now = None"
proof -
  let ?c = "TIME_LIMIT_CAUSE @ '' | '' @ cause"
  have "py_contains ''time_limit'' (py_lower ?c)"
    unfolding py_lower_append [of TIME_LIMIT_CAUSE] time_limit_lower by (rule py_contains_prefix)
  then have "list_ex (\<lambda>sig. py_contains sig (py_lower ?c)) NON_RETRYABLE_CAUSE_SIGNATURES"
    unfolding list_ex_iff using time_limit_signature by (rule bexI)
  then have "classify_failure_cause (TIME_LIMIT_CAUSE @ '' | '' @ cause) = None"
    unfolding classify_failure_cause_def Let_def by (simp only: if_True if_cancel)
  then show ?thesis unfolding is_retryable_cause_def quota_backoff_def by (simp only: option.case not_True_eq_False simp_thms)
qed

section \<open>Properties\<close>

text \<open>A run stopped for its time limit is never retried. Whatever the run's own report says
  after it, a cause that starts with the time-limit marker is not retryable and has no wait.\<close>

lemma time_limit_never_retried:
  "\<not> is_retryable_cause (TIME_LIMIT_CAUSE @ '' | '' @ cause) \<and>
   quota_backoff schedule attempt (TIME_LIMIT_CAUSE @ '' | '' @ cause) now = None"
  by (rule time_limit_not_retryable)

text \<open>The wait of a retry. A wait is set only for quota and rate-limit failures; it lasts at
  least the configured minutes of the failed attempt (the last ones when the schedule is
  shorter) and never beyond both that and a week.\<close>

lemma quota_backoff_bounds:
  assumes "quota_backoff schedule attempt cause now = Some (t, label)" and "1 \<le> attempt" and "schedule \<noteq> []"
  shows "label \<in> {''provider_quota'', ''provider_rate_limit''} \<and> is_retryable_cause cause \<and>
     (let wait = 60 * schedule ! min (nat (attempt - 1)) (length schedule - 1)
      in now + wait \<le> t \<and> t \<le> max (now + wait) (now + 7 * 24 * 3600))"
proof -
  let ?nb = "now + schedule ! min (nat (attempt - 1)) (length schedule - 1) * 60"
  obtain l where l: "classify_failure_cause cause = Some l" "l \<in> set BACKOFF_CAUSES" "label = l"
    and t: "t = (case parse_provider_reset cause now of Some r \<Rightarrow> if r > ?nb then r else ?nb | None \<Rightarrow> ?nb)"
    using assms(1,2) by (auto simp: quota_backoff_def Let_def split: option.splits if_splits)
  have "?nb \<le> t \<and> t \<le> max ?nb (now + 7 * 24 * 3600)"
    using t parse_provider_reset_bounds [of cause now]
    by (auto simp: MAX_RESET_HORIZON_SECONDS_def le_max_iff_disj split: option.splits if_splits)
  then show ?thesis using l by (simp add: is_retryable_cause_def BACKOFF_CAUSES_def Let_def mult.commute)
qed

lemma quota_backoff_bounds_witness:
  "\<exists>t. quota_backoff [30, 90] 1 ''429: retry-after 2h'' 0 = Some (t, ''provider_rate_limit'') \<and> 1800 \<le> t \<and> t = 7200"
proof -
  have c: "classify_failure_cause ''429: retry-after 2h'' = Some ''provider_rate_limit''"
    "reset_times ''429: retry-after 2h'' 0 = [7200]" by code_simp+
  have q: "quota_backoff [30, 90] 1 ''429: retry-after 2h'' 0 = Some (7200, ''provider_rate_limit'')"
    by (simp add: quota_backoff_def c BACKOFF_CAUSES_def parse_provider_reset_def MAX_RESET_HORIZON_SECONDS_def)
  from quota_backoff_bounds [OF q] have "0 + 60 * [30, 90] ! min (nat (1 - 1)) (length [30::time, 90] - 1) \<le> (7200::time)"
    by (simp add: Let_def)
  with q show ?thesis by simp
qed

text \<open>C23: what an eligible entry is. The gate lets an entry through exactly when nothing is
  drained or paused, the disk is not full, its wait is over, the key pool is healthy (for
  kimi), its trio and the node have room, no worker of the run it succeeds is alive, its
  workspace is neither reserved nor in use by an active run, and (unless it continues a
  branch or the probes are switched off) the workspace holds no other work.\<close>

theorem eligible_iff:
  "fst (check_eligibility env s e active caps node_active sticky) = None \<longleftrightarrow>
     \<not> dr_enabled (get_drain s) \<and>
     (case pe_maintenance env of None \<Rightarrow> True | Some d \<Rightarrow> \<not> truthy (dget d ''enabled'')) \<and>
     (case pe_disk_pct env of None \<Rightarrow> True
      | Some p \<Rightarrow> p < pe_disk_pause_pct env \<and> \<not> (sticky \<and> p \<ge> pe_disk_resume_pct env)) \<and>
     (case q_not_before e of None \<Rightarrow> True | Some t \<Rightarrow> t \<le> pe_now env) \<and>
     (if q_trio e = ''kimi'' then key_health_ok (cc_key_health_url (qc_capacity (pe_config env)))
        (cc_min_healthy_keys (qc_capacity (pe_config env))) (pe_key_health env) else True) \<and>
     0 < capacity_of caps (q_trio e) \<and> node_active < qc_node_max_runs (pe_config env) \<and>
     (case q_interrupted_run e of Some (c # cs) \<Rightarrow> \<not> pe_worker_alive env (q_workspace e) (c # cs) | _ \<Rightarrow> True) \<and>
     \<not> pe_reserved env (q_workspace e) \<and>
     list_all (\<lambda>p. \<not> (pe_norm_path env (snd p) \<noteq> [] \<and>
        pe_norm_path env (snd p) = pe_norm_path env (q_workspace e))) active \<and>
     (if qc_ignore_dirty (pe_config env) \<or> is_continuation e then True
      else \<not> (pe_dirty env (q_workspace e) \<or> pe_unpushed env (q_workspace e)))"
proof -
  have parts: "drain_skip_reason s = None \<longleftrightarrow> \<not> dr_enabled (get_drain s)"
    "maintenance_pause_skip_reason env = None \<longleftrightarrow>
       (case pe_maintenance env of None \<Rightarrow> True | Some d \<Rightarrow> \<not> truthy (dget d ''enabled''))"
    "disk_skip_reason env sticky = None \<longleftrightarrow> (case pe_disk_pct env of None \<Rightarrow> True
       | Some p \<Rightarrow> p < pe_disk_pause_pct env \<and> \<not> (sticky \<and> p \<ge> pe_disk_resume_pct env))"
    "waiting_skip_reason env e = None \<longleftrightarrow> (case q_not_before e of None \<Rightarrow> True | Some t \<Rightarrow> t \<le> pe_now env)"
    by (auto simp: drain_skip_reason_def maintenance_pause_skip_reason_def disk_skip_reason_def
        waiting_skip_reason_def Let_def not_le split: option.splits)
  have parts': "interrupted_worker_alive_reason env e = None \<longleftrightarrow>
      (case q_interrupted_run e of Some (c # cs) \<Rightarrow> \<not> pe_worker_alive env (q_workspace e) (c # cs) | _ \<Rightarrow> True)"
    "active_run_reason env active e = None \<longleftrightarrow> list_all (\<lambda>p. \<not> (pe_norm_path env (snd p) \<noteq> [] \<and>
        pe_norm_path env (snd p) = pe_norm_path env (q_workspace e))) active"
    "capacity_reason e caps = None \<longleftrightarrow> 0 < capacity_of caps (q_trio e)"
    "node_capacity_reason env node_active = None \<longleftrightarrow> node_active < qc_node_max_runs (pe_config env)"
    "occupancy_reason env e = None \<longleftrightarrow> (if qc_ignore_dirty (pe_config env) \<or> is_continuation e then True
      else \<not> (pe_dirty env (q_workspace e) \<or> pe_unpushed env (q_workspace e)))"
    by (auto simp: interrupted_worker_alive_reason_def active_run_reason_def find_None list_all_iff
        capacity_reason_def node_capacity_reason_def occupancy_reason_def Let_def not_le
        split: option.splits list.splits)
  have health: "(q_trio e = ''kimi'' \<and> url \<noteq> [] \<and> \<not> key_health_ok url m d) \<longleftrightarrow>
      \<not> (if q_trio e = ''kimi'' then key_health_ok url m d else True)" for url m d
    by (simp add: key_health_ok_def)
  show ?thesis
    unfolding parts [symmetric] parts' [symmetric]
    by (cases "drain_skip_reason s"; cases "maintenance_pause_skip_reason env")
       (simp_all add: check_eligibility_def Let_def first_reason_None health)
qed

end
