(* ===== verification/Launch_Pass.thy ===== *)
theory Launch_Pass
  imports Launch_Policy
begin

text \<open>
  One launch pass (\<open>launcher.py\<close>: \<open>_run_pass\<close> from the point where the active runs and
  the remaining capacity are known, \<open>_launch\<close>, \<open>_skip\<close>, \<open>_handle_retry\<close>, the shadow
  decisions and the stall detector). The pass threads a state through the calls: the queue
  store, the capacities it uses up, the runs it asked the supervisor for, the events it
  emits and the exception that ended it, if one did. What git, the supervisor and the
  worker answer is the record \<open>launch_env\<close>; the clock is read once per pass.
\<close>

section \<open>State\<close>

datatype launch_event =
    EvSkipped string string
  | EvRequeued string string string int
  | EvRequeueError string string
  | EvLaunched string string
  | EvShadowLaunch string "(string \<times> string \<times> string option \<times> string option) list" time
  | EvShadowSkip string string
  | EvStalled nat

text \<open>
  \<open>run_base\<close>: what \<open>resolve_run_base\<close> decides about the workspace. \<open>run_args\<close>: the
  arguments of \<open>create_run\<close> (the prompt language is always \<open>en\<close> and there is no
  run-wide MCP profile).
\<close>

record run_base =
  rb_workspace :: string
  rb_mode :: string
  rb_summary :: string

record run_args =
  rn_task :: string
  rn_agent :: string
  rn_model :: "string option"
  rn_roles :: "(string \<times> role_spec) list"
  rn_workspace :: string
  rn_max_rounds :: int
  rn_base_check :: "string option"
  rn_base_mode :: string
  rn_base_summary :: string
  rn_queue_id :: string
  rn_trio :: string

record launch_env =
  le_probe :: probe_env
  le_mcp :: mcp_env
  le_auditor_profile :: "string option"
  le_base :: "queue_entry \<Rightarrow> (string, run_base) result"
  le_create :: "run_args \<Rightarrow> (string, string) result"
  le_status :: "string \<Rightarrow> pyval"
  le_fresh :: "string \<Rightarrow> string"
  le_max_retries :: "int option"

text \<open>
  \<open>le_base\<close>: what \<open>resolve_run_base\<close> returns, or the text of its refusal.
  \<open>le_create\<close>: the run id \<open>create_run\<close> returns, or the text of the exception it raises.
  \<open>le_status\<close>: the status the supervisor gives for a run just created.
\<close>

record pass_state =
  ps_store :: queue_store
  ps_caps :: "(string \<times> int) list"
  ps_node :: int
  ps_launched :: bool
  ps_eligible :: bool
  ps_sticky :: bool
  ps_created :: "string list"
  ps_started :: "(string \<times> string) list"
  ps_events :: "launch_event list"
  ps_error :: "store_exn option"

text \<open>A computation that threads a state and may end in an exception.\<close>

type_synonym ('s, 'a) exec = "'s \<Rightarrow> 'a option \<times> 's"

type_synonym 'a pass = "(pass_state, 'a) exec"

definition pret :: "'a \<Rightarrow> ('s, 'a) exec" where
  "pret a s = (Some a, s)"

text \<open>Sequencing: an exception (\<open>None\<close>) skips the rest.\<close>

definition pbind :: "('s, 'a) exec \<Rightarrow> ('a \<Rightarrow> ('s, 'b) exec) \<Rightarrow> ('s, 'b) exec" where
  "pbind m f s = (case m s of (None, s') \<Rightarrow> (None, s') | (Some a, s') \<Rightarrow> f a s')"

definition store_call :: "(queue_store \<Rightarrow> (store_exn, 'a \<times> queue_store) result) \<Rightarrow> 'a pass" where
  "store_call act s = (case act (ps_store s) of
       Inl x \<Rightarrow> (None, s\<lparr>ps_error := Some x\<rparr>)
     | Inr (a, q) \<Rightarrow> (Some a, s\<lparr>ps_store := q\<rparr>))"

definition emit :: "launch_event \<Rightarrow> unit pass" where
  "emit ev s = (Some (), s\<lparr>ps_events := ps_events s @ [ev]\<rparr>)"

definition modify :: "(pass_state \<Rightarrow> pass_state) \<Rightarrow> unit pass" where
  "modify f s = (Some (), f s)"

text \<open>\<open>updated.last_checked_at = _now(); store.update(updated)\<close>, when there is an entry.\<close>

definition touch :: "time \<Rightarrow> queue_entry option \<Rightarrow> unit pass" where
  "touch now u s = (case u of
       None \<Rightarrow> (Some (), s)
     | Some e \<Rightarrow> (Some (), s\<lparr>ps_store := snd (q_update (ps_store s) (e\<lparr>q_last_checked_at := Some now\<rparr>) now)\<rparr>))"

section \<open>Skips and retries\<close>

definition skip_entry :: "launch_env \<Rightarrow> queue_entry \<Rightarrow> string \<Rightarrow> unit pass" where
  "skip_entry env e reason =
     (let now = pe_now (le_probe env) in
      pbind (store_call (\<lambda>q. q_record_skip q (q_id e) reason now)) (\<lambda>u.
      pbind (emit (EvSkipped (q_id e) reason)) (\<lambda>_.
      touch now u)))"

definition handle_retry :: "launch_env \<Rightarrow> queue_entry \<Rightarrow> string \<Rightarrow> unit pass" where
  "handle_retry env failed cause s =
     (let p = le_probe env; now = pe_now p;
          wait = quota_backoff (cc_quota_backoff (qc_capacity (pe_config p))) (q_attempt failed) cause now;
          args = (case wait of
             None \<Rightarrow> plain_requeue
           | Some (t, label) \<Rightarrow> plain_requeue\<lparr>ra_not_before := Some t, ra_wait_reason := Some label\<rparr>)
      in case q_requeue (le_max_retries env) (ps_store s) (q_id failed) cause args (le_fresh env (q_id failed)) now of
           Inl (QueueExn (QValueError m)) \<Rightarrow> emit (EvRequeueError (q_id failed) (take 200 m)) s
         | Inl x \<Rightarrow> (None, s\<lparr>ps_error := Some x\<rparr>)
         | Inr (None, q) \<Rightarrow> (Some (), s\<lparr>ps_store := q\<rparr>)
         | Inr (Some suc, q) \<Rightarrow>
             emit (EvRequeued (q_id failed) (q_id suc) cause (q_attempt suc)) (s\<lparr>ps_store := q\<rparr>))"

text \<open>\<open>mark_failed\<close> and, for a retryable cause, the successor.\<close>

definition fail_entry :: "launch_env \<Rightarrow> queue_entry \<Rightarrow> string \<Rightarrow> bool \<Rightarrow> bool pass" where
  "fail_entry env e cause event =
     pbind (store_call (\<lambda>q. q_mark_failed q (q_id e) cause (pe_now (le_probe env)))) (\<lambda>u.
     pbind (if event then emit (EvSkipped (q_id e) cause) else pret ()) (\<lambda>_.
     pbind (case u of
              Some failed \<Rightarrow> if is_retryable_cause cause then handle_retry env failed cause else pret ()
            | None \<Rightarrow> pret ()) (\<lambda>_.
     pret False)))"

section \<open>Launching one entry\<close>

definition launch_agent :: "trio_spec \<Rightarrow> string" where
  "launch_agent trio = (case trio_get trio ''agent'' of Some a \<Rightarrow> a | None \<Rightarrow> ''codex'')"

definition launch_model :: "queue_entry \<Rightarrow> trio_spec \<Rightarrow> string option" where
  "launch_model e trio = str_or (entry_model_override e) (trio_get trio ''model'')"

definition launch_roles :: "queue_entry \<Rightarrow> trio_spec \<Rightarrow> (string \<times> role_spec) list" where
  "launch_roles e trio = launch_role_configs e (launch_agent trio) (launch_model e trio) (trio_role_overrides trio)"

definition auditor_refusal :: "launch_env \<Rightarrow> queue_entry \<Rightarrow> trio_spec \<Rightarrow> string option" where
  "auditor_refusal env e trio =
     (let spec = (case map_of (launch_roles e trio) ''auditor'' of Some sp \<Rightarrow> sp | None \<Rightarrow> []);
          profile = str_or (trio_get trio ''auditor_mcp_profile'') (trio_get trio ''mcp_profile'');
          spec' = (case str_or (le_auditor_profile env) None of
                     Some p \<Rightarrow> aupd ''mcp_profile'' p spec
                   | None \<Rightarrow> (case str_or profile None of
                        Some p \<Rightarrow> aupd ''mcp_profile'' (py_strip p) spec | None \<Rightarrow> spec))
      in auditor_read_only_violation (le_mcp env) (launch_agent trio) (launch_model e trio) None
           [(''auditor'', spec')])"

definition launch_args :: "queue_entry \<Rightarrow> trio_spec \<Rightarrow> run_base \<Rightarrow> run_args" where
  "launch_args e trio base =
     \<lparr>rn_task = q_task e, rn_agent = launch_agent trio, rn_model = launch_model e trio,
      rn_roles = launch_roles e trio, rn_workspace = rb_workspace base, rn_max_rounds = q_max_rounds e,
      rn_base_check = (if q_base_check e = [] then None else Some (q_base_check e)),
      rn_base_mode = rb_mode base, rn_base_summary = rb_summary base,
      rn_queue_id = q_id e, rn_trio = q_trio e\<rparr>"

text \<open>
  After \<open>mark_launched\<close>: a worker that is not active any more puts the entry back to pending
  by a plain \<open>update\<close>, which the transition table does not govern.
\<close>

definition revert_launch :: "time \<Rightarrow> string \<Rightarrow> unit pass" where
  "revert_launch now qid =
     pbind (store_call (\<lambda>q. rbind (q_get q qid) (\<lambda>e. Inr (e, q)))) (\<lambda>got s. case got of
         None \<Rightarrow> (Some (), s)
       | Some e \<Rightarrow> if q_status e = Pending then (Some (), s)
           else (Some (), s\<lparr>ps_store := snd (q_update (ps_store s)
                   (e\<lparr>q_status := Pending, q_run_id := None, q_launched_at := None\<rparr>) now)\<rparr>))"

definition confirm_launch :: "launch_env \<Rightarrow> queue_entry \<Rightarrow> string \<Rightarrow> queue_entry option \<Rightarrow> bool pass" where
  "confirm_launch env e run_id launched =
     (let p = le_probe env; now = pe_now p; st = le_status env run_id;
          lifecycle = canonical_lifecycle_status (pe_render p) st ''idle'' in
      if launched \<noteq> None \<and> lifecycle \<notin> set ACTIVE_STATUSES
      then pbind (store_call (\<lambda>q. q_record_skip q (q_id e)
             (''worker exited before launch confirmed: '' @
                (if truthy st then py_str (pe_render p) st else ''unknown'')) now)) (\<lambda>_.
           pbind (revert_launch now (q_id e)) (\<lambda>_. pret False))
      else pbind (emit (EvLaunched (q_id e) run_id)) (\<lambda>_.
           pbind (touch now launched) (\<lambda>_.
           pbind (modify (\<lambda>s. s\<lparr>ps_started := ps_started s @ [(q_id e, run_id)]\<rparr>)) (\<lambda>_.
           pret True))))"

definition launch_entry :: "launch_env \<Rightarrow> queue_entry \<Rightarrow> bool pass" where
  "launch_entry env e =
     (let now = pe_now (le_probe env) in
      case map_of (qc_trios (pe_config (le_probe env))) (q_trio e) of
        None \<Rightarrow> pbind (skip_entry env e (''unknown trio '' @ q_trio e)) (\<lambda>_. pret False)
      | Some trio \<Rightarrow>
          (case auditor_refusal env e trio of
             Some m \<Rightarrow> pbind (skip_entry env e (''launch refused: '' @ take 4000 m)) (\<lambda>_. pret False)
           | None \<Rightarrow>
               (case le_base env e of
                  Inl m \<Rightarrow> pbind (skip_entry env e (''workspace base refused: '' @ take 4000 m)) (\<lambda>_. pret False)
                | Inr base \<Rightarrow>
                    pbind (modify (\<lambda>s. s\<lparr>ps_created := ps_created s @ [q_id e]\<rparr>)) (\<lambda>_.
                    (case le_create env (launch_args e trio base) of
                       Inl m \<Rightarrow> fail_entry env e (''launch failed: '' @ m) True
                     | Inr run_id \<Rightarrow>
                         if run_id = [] then fail_entry env e ''launch returned no run id'' False
                         else pbind (store_call (\<lambda>q. q_mark_launched q (q_id e) run_id now)) (\<lambda>launched.
                              confirm_launch env e run_id launched))))))"

section \<open>The pass\<close>

text \<open>The roles a shadow decision names: agent, model and the trio's MCP profile.\<close>

definition shadow_roles ::
    "queue_entry \<Rightarrow> trio_spec \<Rightarrow> (string \<times> string \<times> string option \<times> string option) list" where
  "shadow_roles e trio = map (\<lambda>role.
     (role, the (str_or (override_of (trio_role_overrides trio) role ''agent'') (Some (launch_agent trio))),
      str_or (override_of (trio_role_overrides trio) role ''model'') (launch_model e trio),
      trio_get trio ''mcp_profile'')) ROLE_KEYS"

definition shadow_launch_decision :: "launch_env \<Rightarrow> queue_entry \<Rightarrow> unit pass" where
  "shadow_launch_decision env e =
     (case map_of (qc_trios (pe_config (le_probe env))) (q_trio e) of
        None \<Rightarrow> emit (EvShadowSkip (q_id e) (''unknown trio '' @ q_trio e))
      | Some trio \<Rightarrow> emit (EvShadowLaunch (q_id e) (shadow_roles e trio) (pe_now (le_probe env))))"

definition consume_capacity :: "queue_entry \<Rightarrow> unit pass" where
  "consume_capacity e = modify (\<lambda>s. s\<lparr>ps_launched := True,
     ps_caps := aupd (q_trio e) (capacity_of (ps_caps s) (q_trio e) - 1) (ps_caps s),
     ps_node := ps_node s + 1\<rparr>)"

definition batch_reason :: "probe_env \<Rightarrow> pass_state \<Rightarrow> queue_entry \<Rightarrow> string" where
  "batch_reason p s e = (case first_reason [waiting_skip_reason p e, capacity_reason e (ps_caps s),
        node_capacity_reason p (ps_node s)] of
       Some r \<Rightarrow> r | None \<Rightarrow> ''launch batch already consumed capacity'')"

definition pass_entry :: "launch_env \<Rightarrow> active_scan \<Rightarrow> queue_entry \<Rightarrow> unit pass" where
  "pass_entry env active e s =
     (let p = le_probe env; observe = qc_observe (pe_config p) in
      if q_status e \<noteq> Pending then (Some (), s)
      else if ps_launched s then
        (if observe then emit (EvShadowSkip (q_id e) (batch_reason p s e)) s
         else skip_entry env e (batch_reason p s e) s)
      else case check_eligibility p (ps_store s) e active (ps_caps s) (ps_node s) (ps_sticky s) of
             (None, sticky) \<Rightarrow>
               let s1 = s\<lparr>ps_sticky := sticky, ps_eligible := True\<rparr> in
               if observe then pbind (shadow_launch_decision env e) (\<lambda>_. consume_capacity e) s1
               else pbind (launch_entry env e) (\<lambda>ok. if ok then consume_capacity e else pret ()) s1
           | (Some r, sticky) \<Rightarrow>
               let s1 = s\<lparr>ps_sticky := sticky\<rparr> in
               if observe then emit (EvShadowSkip (q_id e) r) s1 else skip_entry env e r s1)"

fun pass_entries :: "launch_env \<Rightarrow> active_scan \<Rightarrow> queue_entry list \<Rightarrow> unit pass" where
  "pass_entries env active [] s = (Some (), s)"
| "pass_entries env active (e # es) s = pbind (pass_entry env active e) (\<lambda>_. pass_entries env active es) s"

definition count_launched :: "queue_store \<Rightarrow> active_scan \<Rightarrow> string \<Rightarrow> int" where
  "count_launched q active trio = int (length (filter (\<lambda>e. q_status e = Launched \<and> q_trio e = trio \<and>
     (case q_run_id e of Some (c # cs) \<Rightarrow> (c # cs) \<in> fst ` set active | _ \<Rightarrow> False)) (q_list q)))"

definition remaining_capacity :: "queue_config \<Rightarrow> queue_store \<Rightarrow> active_scan \<Rightarrow> (string \<times> int) list" where
  "remaining_capacity c q active = map (\<lambda>(name, _).
     (name, max 0 ((case map_of (cc_max (qc_capacity c)) name of Some n \<Rightarrow> n | None \<Rightarrow> 0) -
        count_launched q active name))) (qc_trios c)"

definition pass_start :: "launch_env \<Rightarrow> queue_store \<Rightarrow> active_scan \<Rightarrow> bool \<Rightarrow> pass_state" where
  "pass_start env q active sticky =
     \<lparr>ps_store = q, ps_caps = remaining_capacity (pe_config (le_probe env)) q active,
      ps_node = int (length active), ps_launched = False, ps_eligible = False, ps_sticky = sticky,
      ps_created = [], ps_started = [], ps_events = [], ps_error = None\<rparr>"

text \<open>\<open>entries\<close>: the listing taken before the launched entries were brought up to date.\<close>

definition launch_pass ::
    "launch_env \<Rightarrow> queue_entry list \<Rightarrow> queue_store \<Rightarrow> active_scan \<Rightarrow> bool \<Rightarrow> unit option \<times> pass_state" where
  "launch_pass env entries q active sticky = pass_entries env active entries (pass_start env q active sticky)"

section \<open>The stall detector\<close>

record stall_state =
  ss_cycles :: nat
  ss_fired :: bool
  ss_signals :: nat

definition update_stall_detector :: "nat \<Rightarrow> stall_state \<Rightarrow> bool \<times> bool \<Rightarrow> stall_state" where
  "update_stall_detector threshold s c = (case c of (eligible_seen, launched) \<Rightarrow>
     if launched then s\<lparr>ss_cycles := 0, ss_fired := False\<rparr>
     else if \<not> eligible_seen then s
     else let s1 = s\<lparr>ss_cycles := ss_cycles s + 1\<rparr>
          in if ss_cycles s1 < threshold then s1
             else if \<not> ss_fired s1 then s1\<lparr>ss_fired := True, ss_signals := ss_signals s1 + 1\<rparr>
             else s1)"

section \<open>What the parts leave alone\<close>

text \<open>A projection of the state that a computation does not change.\<close>

definition keeps :: "('s \<Rightarrow> 'b) \<Rightarrow> ('s, 'a) exec \<Rightarrow> bool" where
  "keeps f m = (\<forall>s. f (snd (m s)) = f s)"

lemma keepsD: "keeps f m \<Longrightarrow> m s = (r, s') \<Longrightarrow> f s' = f s"
  unfolding keeps_def by (metis snd_conv)

lemma keeps_pret: "keeps f (pret a)"
  by (simp add: keeps_def pret_def)

lemma keeps_pbind: "keeps f m \<Longrightarrow> (\<And>a. keeps f (g a)) \<Longrightarrow> keeps f (pbind m g)"
  unfolding keeps_def pbind_def by (auto split: prod.splits option.splits) (metis snd_conv)+

text \<open>The control part of the state: everything but the store, the events and the exception.\<close>

definition ctl :: "pass_state \<Rightarrow> (string \<times> int) list \<times> int \<times> bool \<times> bool \<times> bool \<times> string list \<times> (string \<times> string) list" where
  "ctl s = (ps_caps s, ps_node s, ps_launched s, ps_eligible s, ps_sticky s, ps_created s, ps_started s)"

lemma keeps_ctl_basic:
  "keeps ctl (store_call act)" "keeps ctl (emit ev)" "keeps ctl (touch now u)"
  "keeps ctl (handle_retry env failed cause)"
  by (auto simp: keeps_def ctl_def store_call_def emit_def touch_def handle_retry_def Let_def
      split: sum.splits option.splits store_exn.splits queue_exn.splits)

lemma keeps_ctl_skip: "keeps ctl (skip_entry env e r)"
  unfolding skip_entry_def Let_def by (intro keeps_pbind keeps_ctl_basic)

lemma keeps_ctl_fail: "keeps ctl (fail_entry env e cause ev)"
  unfolding fail_entry_def
  by (intro keeps_pbind keeps_ctl_basic keeps_pret)
     (auto intro: keeps_ctl_basic keeps_pret split: option.splits)

lemma keeps_ctl_revert: "keeps ctl (revert_launch now qid)"
  unfolding revert_launch_def
  by (intro keeps_pbind keeps_ctl_basic) (auto simp: keeps_def ctl_def split: option.splits)

lemma fail_not_started: "fst (fail_entry env e cause ev s) \<noteq> Some True"
  by (auto simp: fail_entry_def pbind_def pret_def split: prod.splits option.splits)

lemma skip_not_started: "fst (pbind (skip_entry env e r) (\<lambda>_. pret False) s) \<noteq> Some True"
  by (auto simp: pbind_def pret_def split: prod.splits option.splits)

lemma keeps_ctl_skip_False: "keeps ctl (pbind (skip_entry env e r) (\<lambda>_. pret False))"
  by (intro keeps_pbind keeps_ctl_skip keeps_pret)

text \<open>A launch either succeeds, adding one run, or leaves the control part alone but for the request.\<close>

definition launch_outcome :: "queue_entry \<Rightarrow> pass_state \<Rightarrow> bool option \<times> pass_state \<Rightarrow> bool" where
  "launch_outcome e s x =
     (if fst x = Some True
      then \<exists>run. ctl (snd x) = ctl (s\<lparr>ps_created := ps_created s @ [q_id e], ps_started := ps_started s @ [(q_id e, run)]\<rparr>)
      else ctl (snd x) = ctl s \<or> ctl (snd x) = ctl (s\<lparr>ps_created := ps_created s @ [q_id e]\<rparr>))"

lemma confirm_launch_ctl:
  "if fst (confirm_launch env e run l s) = Some True
   then ctl (snd (confirm_launch env e run l s)) = ctl (s\<lparr>ps_started := ps_started s @ [(q_id e, run)]\<rparr>)
   else ctl (snd (confirm_launch env e run l s)) = ctl s"
proof (cases "l \<noteq> None \<and> canonical_lifecycle_status (pe_render (le_probe env)) (le_status env run) ''idle'' \<notin> set ACTIVE_STATUSES")
  case True
  let ?m = "pbind (store_call (\<lambda>q. q_record_skip q (q_id e)
             (''worker exited before launch confirmed: '' @
                (if truthy (le_status env run) then py_str (pe_render (le_probe env)) (le_status env run) else ''unknown''))
             (pe_now (le_probe env)))) (\<lambda>_. pbind (revert_launch (pe_now (le_probe env)) (q_id e)) (\<lambda>_. pret False))"
  have c: "confirm_launch env e run l = ?m"
    unfolding confirm_launch_def Let_def if_P [OF True] ..
  have "keeps ctl ?m" by (intro keeps_pbind keeps_ctl_basic keeps_ctl_revert keeps_pret)
  moreover have "fst (?m s) \<noteq> Some True"
    by (auto simp: pbind_def pret_def split: prod.splits option.splits)
  ultimately show ?thesis unfolding c by (simp add: keeps_def)
next
  case False
  then show ?thesis unfolding confirm_launch_def Let_def if_not_P [OF False]
    by (auto simp: pbind_def pret_def emit_def touch_def modify_def ctl_def split: option.splits)
qed

lemma launch_entry_outcome: "launch_outcome e s (launch_entry env e s)"
proof -
  let ?s = "s\<lparr>ps_created := ps_created s @ [q_id e]\<rparr>"
  have skip: "launch_outcome e s (pbind (skip_entry env e r) (\<lambda>_. pret False) s)" for r
    using skip_not_started keeps_ctl_skip_False by (auto simp: launch_outcome_def keeps_def)
  have fail: "launch_outcome e s (fail_entry env e cause ev ?s)" for cause ev
    using fail_not_started keeps_ctl_fail by (auto simp: launch_outcome_def keeps_def)
  have go: "launch_outcome e s (pbind (store_call (\<lambda>q. q_mark_launched q (q_id e) run now))
      (\<lambda>l. confirm_launch env e run l) ?s)" for run now
  proof (cases "store_call (\<lambda>q. q_mark_launched q (q_id e) run now) ?s")
    case (Pair l s1)
    then have ctl1: "ctl s1 = ctl ?s" using keeps_ctl_basic(1) keepsD by metis
    show ?thesis
    proof (cases l)
      case None
      then show ?thesis using Pair ctl1 by (simp add: pbind_def launch_outcome_def)
    next
      case (Some a)
      have "ps_started s1 = ps_started s" using ctl1 by (simp add: ctl_def)
      then show ?thesis
        using Pair Some ctl1 confirm_launch_ctl [of env e run a s1]
        by (auto simp: pbind_def launch_outcome_def ctl_def split: if_splits)
    qed
  qed
  show ?thesis
    unfolding launch_entry_def Let_def
    by (auto simp: skip pbind_def [of "modify _"] modify_def fail go split: option.splits sum.splits)
qed

section \<open>The invariant of a pass\<close>

definition pass_inv :: "launch_env \<Rightarrow> queue_entry list \<Rightarrow> (string \<times> int) list \<Rightarrow> int \<Rightarrow> pass_state \<Rightarrow> bool" where
  "pass_inv env entries caps n s =
     ((if ps_launched s
       then ps_node s = n + 1 \<and> n < qc_node_max_runs (pe_config (le_probe env)) \<and> length (ps_started s) \<le> 1
       else ps_caps s = caps \<and> ps_node s = n \<and> ps_started s = []) \<and>
      list_all (\<lambda>st. \<exists>e\<in>set entries. q_id e = fst st \<and> q_status e = Pending \<and>
         0 < capacity_of caps (q_trio e)) (ps_started s) \<and>
      list_all (\<lambda>k. \<exists>e\<in>set entries. q_id e = k \<and> q_status e = Pending) (ps_created s))"

lemma pass_inv_ctl: "ctl s' = ctl s \<Longrightarrow> pass_inv env entries caps n s' = pass_inv env entries caps n s"
  by (simp add: pass_inv_def ctl_def)

lemma pass_inv_flags [simp]:
  "pass_inv env entries caps n (s\<lparr>ps_sticky := b\<rparr>) = pass_inv env entries caps n s"
  "pass_inv env entries caps n (s\<lparr>ps_eligible := b\<rparr>) = pass_inv env entries caps n s"
  by (simp_all add: pass_inv_def)

lemma eligible_capacity:
  assumes "check_eligibility p q e active caps n sticky = (None, b)"
  shows "0 < capacity_of caps (q_trio e) \<and> n < qc_node_max_runs (pe_config p)"
proof -
  have "capacity_reason e caps = None" "node_capacity_reason p n = None"
    using assms by (auto simp: check_eligibility_def Let_def first_reason_None split: option.splits)
  then show ?thesis
    by (simp_all add: capacity_reason_def node_capacity_reason_def Let_def not_le split: if_splits)
qed

lemma launch_step_inv:
  assumes "pass_inv env entries caps n s" and "e \<in> set entries" and "q_status e = Pending"
    and "\<not> ps_launched s" and "0 < capacity_of caps (q_trio e)"
    and "n < qc_node_max_runs (pe_config (le_probe env))"
  shows "pass_inv env entries caps n
    (snd (pbind (launch_entry env e) (\<lambda>ok. if ok then consume_capacity e else pret ()) s))"
proof -
  obtain r s' where l: "launch_entry env e s = (r, s')" by (cases "launch_entry env e s") auto
  have out: "launch_outcome e s (r, s')" using launch_entry_outcome [of e s env] l by simp
  show ?thesis
  proof (cases "r = Some True")
    case True
    with out obtain run where c: "ctl s' = ctl (s\<lparr>ps_created := ps_created s @ [q_id e],
        ps_started := ps_started s @ [(q_id e, run)]\<rparr>)" by (auto simp: launch_outcome_def)
    then have "ps_created s' = ps_created s @ [q_id e]" "ps_started s' = ps_started s @ [(q_id e, run)]"
      "ps_node s' = ps_node s" by (simp_all add: ctl_def)
    moreover have "ps_started s = []" "ps_node s = n" using assms(1,4) by (simp_all add: pass_inv_def)
    ultimately show ?thesis using True assms
      by (simp add: l pbind_def consume_capacity_def modify_def pass_inv_def) blast
  next
    case False
    with out have "ctl s' = ctl s \<or> ctl s' = ctl (s\<lparr>ps_created := ps_created s @ [q_id e]\<rparr>)"
      by (simp add: launch_outcome_def)
    moreover have "pass_inv env entries caps n (s\<lparr>ps_created := ps_created s @ [q_id e]\<rparr>)"
      using assms(1-4) by (simp add: pass_inv_def) blast
    ultimately have "pass_inv env entries caps n s'" using assms(1) pass_inv_ctl by metis
    with False show ?thesis by (auto simp: l pbind_def pret_def split: option.splits)
  qed
qed

lemma skip_inv: "pass_inv env entries caps n (snd (skip_entry env' e r s)) = pass_inv env entries caps n s"
  using keeps_ctl_skip pass_inv_ctl by (metis keeps_def)

lemma emit_inv: "pass_inv env entries caps n (snd (emit ev s)) = pass_inv env entries caps n s"
  using keeps_ctl_basic(2) pass_inv_ctl by (metis keeps_def)

lemma shadow_inv:
  assumes "pass_inv env entries caps n s" and "\<not> ps_launched s"
    and "n < qc_node_max_runs (pe_config (le_probe env))"
  shows "pass_inv env entries caps n (snd (pbind (shadow_launch_decision env e) (\<lambda>_. consume_capacity e) s))"
  using assms
  by (auto simp: shadow_launch_decision_def pbind_def emit_def consume_capacity_def modify_def pass_inv_def
      split: option.splits)

lemma pass_entry_inv:
  assumes "pass_inv env entries caps n s" and "e \<in> set entries"
  shows "pass_inv env entries caps n (snd (pass_entry env active e s))"
proof (cases "q_status e = Pending \<and> \<not> ps_launched s")
  case False
  then show ?thesis
    using assms(1) by (auto simp: pass_entry_def Let_def skip_inv emit_inv)
next
  case True
  obtain r b where elig: "check_eligibility (le_probe env) (ps_store s) e active (ps_caps s) (ps_node s) (ps_sticky s) = (r, b)"
    by (cases "check_eligibility (le_probe env) (ps_store s) e active (ps_caps s) (ps_node s) (ps_sticky s)") auto
  show ?thesis
  proof (cases r)
    case (Some reason)
    then show ?thesis using True elig assms(1) by (simp add: pass_entry_def Let_def skip_inv emit_inv)
  next
    case None
    have c: "ps_caps s = caps" "ps_node s = n" using assms(1) True by (simp_all add: pass_inv_def)
    note room = eligible_capacity [OF elig [unfolded None c]]
    let ?s = "s\<lparr>ps_sticky := b, ps_eligible := True\<rparr>"
    have s: "pass_inv env entries caps n ?s" "\<not> ps_launched ?s" using assms(1) True by simp_all
    show ?thesis
      using launch_step_inv [OF s(1) assms(2) _ s(2)] shadow_inv [OF s] room True None elig c
      by (simp add: pass_entry_def Let_def)
  qed
qed

lemma pass_entries_inv:
  assumes "pass_inv env entries caps n s" and "set es \<subseteq> set entries"
  shows "pass_inv env entries caps n (snd (pass_entries env active es s))"
  using assms
proof (induction es arbitrary: s)
  case (Cons e es)
  have "pass_inv env entries caps n (snd (pass_entry env active e s))"
    using Cons.prems by (intro pass_entry_inv) auto
  then show ?case using Cons.IH Cons.prems(2)
    by (auto simp: pbind_def split: prod.splits option.splits)
qed simp

lemma launch_pass_inv:
  "pass_inv env entries (remaining_capacity (pe_config (le_probe env)) q active) (int (length active))
     (snd (launch_pass env entries q active sticky))"
  unfolding launch_pass_def by (rule pass_entries_inv) (simp_all add: pass_inv_def pass_start_def)

section \<open>Skipping changes no entry's status\<close>

lemma record_skip_effect:
  assumes "queue_wf cfg q" and "q_record_skip q k r now = Inr (u, q')"
  shows "queue_wf cfg q' \<and> qs_drain q' = qs_drain q \<and> (\<forall>j. q_claim_of j q' = q_claim_of j q) \<and>
    (case u of None \<Rightarrow> True | Some e' \<Rightarrow> q_lookup q' (q_id e') = Some e')"
proof -
  have wf: "queue_wf cfg q'"
    using queue_exec_wf [OF assms(1), of demo_request_env "QRecordSkip k r now"] assms(2) by simp
  have drain: "qs_drain q' = qs_drain q"
    using queue_exec_drain [of "QRecordSkip k r now" demo_request_env cfg q] assms(2) by simp
  show ?thesis
  proof (cases "q_lookup q k")
    case None
    then show ?thesis using assms wf drain by (auto simp: q_record_skip_def with_entry_Inr)
  next
    case (Some e)
    have id: "q_id e = k" and v: "q_status e \<in> set VALID_STATUS"
      using assms(1) Some q_lookup_valid by (auto simp: queue_wf_def entry_wf_def)
    show ?thesis
      using assms(2) Some wf drain id v
      by (auto simp: q_record_skip_def with_entry_Inr q_claim_of_def read_file_def split: if_splits)
  qed
qed

lemma update_effect:
  assumes "queue_wf cfg q" and "q_lookup q (q_id e) = Some e"
  shows "queue_wf cfg (snd (q_update q (e\<lparr>q_last_checked_at := c\<rparr>) now)) \<and>
     qs_drain (snd (q_update q (e\<lparr>q_last_checked_at := c\<rparr>) now)) = qs_drain q \<and>
     q_claim_of j (snd (q_update q (e\<lparr>q_last_checked_at := c\<rparr>) now)) = q_claim_of j q"
proof -
  let ?e = "e\<lparr>q_last_checked_at := c, q_updated_at := now\<rparr>"
  have v: "q_status e \<in> set VALID_STATUS" using assms(2) q_lookup_valid by blast
  have "queue_effect cfg q (QDelete []) (q_write q ?e)"
    by (rule eff_step [OF assms(2)]) (simp_all add: entry_step_def v q_write_def)
  then have "queue_wf cfg (q_write q ?e)" using assms(1) queue_effect_wf by blast
  then show ?thesis using assms(2) v
    by (auto simp: q_update_def Let_def q_claim_of_def read_file_def) (simp add: q_write_def)
qed

lemma handle_retry_effect:
  assumes "safe_queue_id (q_id f)" and "q_lookup (ps_store s) (q_id f) = Some f" and "q_status f = Failed"
  shows "\<exists>args s'. handle_retry env f cause s = (Some (), s') \<and>
      ps_store s' = (if q_attempt f \<le> max_retries_of (le_max_retries env)
        then q_write (ps_store s) (successor_entry f cause args (''q-'' @ le_fresh env (q_id f)) (pe_now (le_probe env)))
        else ps_store s) \<and>
    ra_not_before args = map_option fst (quota_backoff
      (cc_quota_backoff (qc_capacity (pe_config (le_probe env)))) (q_attempt f) cause (pe_now (le_probe env)))"
proof -
  let ?w = "quota_backoff
      (cc_quota_backoff (qc_capacity (pe_config (le_probe env)))) (q_attempt f) cause (pe_now (le_probe env))"
  let ?a = "case ?w of None \<Rightarrow> plain_requeue
     | Some (t, label) \<Rightarrow> plain_requeue\<lparr>ra_not_before := Some t, ra_wait_reason := Some label\<rparr>"
  have rq: "q_requeue (le_max_retries env) (ps_store s) (q_id f) cause ?a (le_fresh env (q_id f)) (pe_now (le_probe env)) =
     (if q_attempt f \<le> max_retries_of (le_max_retries env)
      then (let suc = successor_entry f cause ?a (''q-'' @ le_fresh env (q_id f)) (pe_now (le_probe env))
            in Inr (Some suc, q_write (ps_store s) suc))
      else Inl (QueueExn (QValueError (''exceeded max_retries ('' @ show_int (max_retries_of (le_max_retries env)) @ '')''))))"
    using assms by (simp add: q_requeue_def q_get_def q_path_def not_le)
  have "\<exists>s'. handle_retry env f cause s = (Some (), s') \<and>
      ps_store s' = (if q_attempt f \<le> max_retries_of (le_max_retries env)
        then q_write (ps_store s) (successor_entry f cause ?a (''q-'' @ le_fresh env (q_id f)) (pe_now (le_probe env)))
        else ps_store s)"
    unfolding handle_retry_def Let_def rq by (simp add: emit_def)
  moreover have "ra_not_before ?a = map_option fst ?w"
    by (simp add: plain_requeue_def split: option.splits prod.splits)
  ultimately show ?thesis by blast
qed

definition quiet :: "int option \<Rightarrow> queue_store \<Rightarrow> pass_state \<Rightarrow> bool" where
  "quiet cfg q s = (queue_wf cfg (ps_store s) \<and> qs_drain (ps_store s) = qs_drain q \<and>
     (\<forall>j. q_claim_of j (ps_store s) = q_claim_of j q) \<and> ps_created s = [])"

lemma quiet_emit: "quiet cfg q (snd (emit ev s)) = quiet cfg q s"
  by (simp add: emit_def quiet_def)

lemma quiet_skip:
  assumes "quiet cfg q s"
  shows "quiet cfg q (snd (skip_entry env e r s))"
proof -
  let ?now = "pe_now (le_probe env)"
  show ?thesis
  proof (cases "q_record_skip (ps_store s) (q_id e) r ?now")
    case (Inl x)
    then show ?thesis using assms by (simp add: skip_entry_def Let_def pbind_def store_call_def quiet_def)
  next
    case (Inr p)
    then obtain u q' where p: "q_record_skip (ps_store s) (q_id e) r ?now = Inr (u, q')" by (cases p) simp
    have eff: "queue_wf cfg q' \<and> qs_drain q' = qs_drain (ps_store s) \<and>
      (\<forall>j. q_claim_of j q' = q_claim_of j (ps_store s)) \<and>
      (case u of None \<Rightarrow> True | Some e' \<Rightarrow> q_lookup q' (q_id e') = Some e')"
    proof (rule record_skip_effect [OF _ p])
      show "queue_wf cfg (ps_store s)" using assms by (simp add: quiet_def)
    qed
    show ?thesis
    proof (cases u)
      case None
      then show ?thesis using p eff assms
        by (simp add: skip_entry_def Let_def pbind_def store_call_def emit_def touch_def quiet_def)
    next
      case (Some e')
      then show ?thesis using p eff assms update_effect [of cfg q' e' "Some ?now" ?now]
        by (simp add: skip_entry_def Let_def pbind_def store_call_def emit_def touch_def quiet_def)
    qed
  qed
qed

lemma drained_ineligible:
  assumes "dr_enabled (get_drain q)"
  shows "\<exists>r. check_eligibility p q e active caps n sticky = (Some r, sticky)"
  using assms by (simp add: check_eligibility_def drain_skip_reason_def Let_def)

lemma drained_pass_entry:
  assumes "quiet cfg q s" and "dr_enabled (get_drain q)" and "\<not> ps_launched s"
  shows "quiet cfg q (snd (pass_entry env active e s)) \<and> \<not> ps_launched (snd (pass_entry env active e s))"
proof -
  have "get_drain (ps_store s) = get_drain q" using assms(1) by (simp add: quiet_def get_drain_def)
  then obtain r where elig: "check_eligibility (le_probe env) (ps_store s) e active (ps_caps s) (ps_node s) (ps_sticky s)
      = (Some r, ps_sticky s)"
    using drained_ineligible assms(2) by metis
  have "ps_launched (snd (skip_entry env e r s)) = ps_launched s" "ps_launched (snd (emit ev s)) = ps_launched s" for ev
    using keeps_ctl_skip [of env e r] keeps_ctl_basic(2) [of ev] by (simp_all add: keeps_def ctl_def)
  then show ?thesis using assms(1,3) elig quiet_skip [OF assms(1)]
    by (simp add: pass_entry_def Let_def quiet_emit)
qed

lemma drained_pass_entries:
  assumes "quiet cfg q s" and "dr_enabled (get_drain q)" and "\<not> ps_launched s"
  shows "quiet cfg q (snd (pass_entries env active es s))"
  using assms
proof (induction es arbitrary: s)
  case (Cons e es)
  have "quiet cfg q (snd (pass_entry env active e s)) \<and> \<not> ps_launched (snd (pass_entry env active e s))"
    by (rule drained_pass_entry [OF Cons.prems])
  then show ?case using Cons.IH Cons.prems(2) by (auto simp: pbind_def split: prod.splits option.splits)
qed simp

lemma observe_pass_entry:
  assumes "qc_observe (pe_config (le_probe env))"
  shows "ps_store (snd (pass_entry env active e s)) = ps_store s \<and> ps_created (snd (pass_entry env active e s)) = ps_created s"
  using assms
  by (auto simp: pass_entry_def Let_def emit_def pbind_def shadow_launch_decision_def consume_capacity_def
      modify_def split: prod.splits option.splits)

lemma observe_pass_entries:
  assumes "qc_observe (pe_config (le_probe env))"
  shows "ps_store (snd (pass_entries env active es s)) = ps_store s \<and>
     ps_created (snd (pass_entries env active es s)) = ps_created s"
proof (induction es arbitrary: s)
  case (Cons e es)
  show ?case using observe_pass_entry [OF assms, of active e s] Cons.IH
    by (auto simp: pbind_def split: prod.splits option.splits)
qed simp

section \<open>Properties\<close>

text \<open>C13: a pass keeps the ceilings. Whatever the probes, the supervisor and the store answer, a
  pass starts at most one run; it asks for runs only for entries that were pending; a run it
  starts belongs to an entry whose trio had room; and with the runs that were active before,
  the node stays within its maximum (or within what was active, when that was more).\<close>

theorem launch_pass_ceilings:
  "case launch_pass env entries q active sticky of (r, s) \<Rightarrow>
     length (ps_started s) \<le> 1 \<and>
     int (length active + length (ps_started s)) \<le>
       max (int (length active)) (qc_node_max_runs (pe_config (le_probe env))) \<and>
     list_all (\<lambda>st. \<exists>e. e \<in> set entries \<and> q_id e = fst st \<and> q_status e = Pending \<and>
       0 < capacity_of (remaining_capacity (pe_config (le_probe env)) q active) (q_trio e)) (ps_started s) \<and>
     list_all (\<lambda>k. \<exists>e. e \<in> set entries \<and> q_id e = k \<and> q_status e = Pending) (ps_created s)"
proof -
  obtain r s where s: "launch_pass env entries q active sticky = (r, s)"
    by (cases "launch_pass env entries q active sticky") auto
  have inv: "pass_inv env entries (remaining_capacity (pe_config (le_probe env)) q active) (int (length active)) s"
    using launch_pass_inv [of env entries q active sticky] s by simp
  have len: "length (ps_started s) \<le> 1" using inv by (auto simp: pass_inv_def split: if_splits)
  moreover have "int (length active + length (ps_started s)) \<le>
       max (int (length active)) (qc_node_max_runs (pe_config (le_probe env)))"
    using inv len by (cases "ps_launched s") (auto simp: pass_inv_def)
  ultimately show ?thesis using inv s by (auto simp: pass_inv_def list_all_iff Bex_def)
qed


definition demo_config :: queue_config where
  "demo_config = \<lparr>qc_trios = [(''kimi'', fallback_trio ''kimi'')], qc_capacity = normalize_capacity [],
     qc_node_max_runs = 5, qc_observe = False, qc_ignore_dirty = False, qc_default_time_limit = None,
     qc_protected_trios = []\<rparr>"

definition demo_launch_env :: launch_env where
  "demo_launch_env = \<lparr>le_probe = \<lparr>pe_config = demo_config, pe_now = 100, 
       pe_render = (\<lambda>_. ''x''), pe_maintenance = None, pe_disk_pct = None,
       pe_disk_pause_pct = 95, pe_disk_resume_pct = 90, pe_key_health = None,
       pe_worker_alive = (\<lambda>_ _. False), pe_reserved = (\<lambda>_. False), pe_norm_path = id,
       pe_dirty = (\<lambda>_. False), pe_unpushed = (\<lambda>_. False)\<rparr>,
     le_mcp = demo_mcp_env, le_auditor_profile = None,
     le_base = (\<lambda>e. Inr \<lparr>rb_workspace = q_workspace e, rb_mode = ''on-default'', rb_summary = ''mode=on-default''\<rparr>),
     le_create = (\<lambda>_. Inr ''r1''), le_status = (\<lambda>_. PStr ''running''), le_fresh = (\<lambda>k. k @ ''b''),
     le_max_retries = None\<rparr>"


text \<open>A launch that fails. The entry ends failed; it gets a successor exactly when the cause
  is retryable and the cap is not reached, pending with the next attempt and the provider's
  wait, and otherwise no other entry changes.\<close>

lemma failed_launch_retry:
  assumes "safe_queue_id (q_id e)" and "q_lookup (ps_store s) (q_id e) = Some e" and "q_status e = Pending"
    and "''q-'' @ le_fresh env (q_id e) \<noteq> q_id e"
  shows "\<exists>s' f. fail_entry env e cause ev s = (Some False, s') \<and>
     q_lookup (ps_store s') (q_id e) = Some f \<and> q_status f = Failed \<and>
     (if is_retryable_cause cause \<and> q_attempt e \<le> max_retries_of (le_max_retries env)
      then \<exists>r. q_lookup (ps_store s') (''q-'' @ le_fresh env (q_id e)) = Some r \<and> q_status r = Pending \<and>
        q_attempt r = q_attempt e + 1 \<and> q_retry_of r = Some (q_id e) \<and>
        q_not_before r = map_option fst (quota_backoff
          (cc_quota_backoff (qc_capacity (pe_config (le_probe env)))) (q_attempt e) cause (pe_now (le_probe env)))
      else \<forall>k. k \<noteq> q_id e \<longrightarrow> q_lookup (ps_store s') k = q_lookup (ps_store s) k)"
proof -
  let ?now = "pe_now (le_probe env)"
  define f where "f = e\<lparr>q_status := Failed, q_reason := Some (bounded_reason cause), q_updated_at := ?now\<rparr>"
  define s1 where "s1 = (if ev then s\<lparr>ps_store := q_write (ps_store s) f, ps_events := ps_events s @ [EvSkipped (q_id e) cause]\<rparr>
     else s\<lparr>ps_store := q_write (ps_store s) f\<rparr>)"
  have f: "q_id f = q_id e" "q_attempt f = q_attempt e" "q_status f = Failed" by (simp_all add: f_def)
  have mark: "q_mark_failed (ps_store s) (q_id e) cause ?now = Inr (Some f, q_write (ps_store s) f)"
    using assms(1-3) by (simp add: q_mark_failed_def with_entry_def q_get_def q_path_def q_update_def Let_def f_def)
  have store1: "ps_store s1 = q_write (ps_store s) f" by (simp add: s1_def)
  have look: "q_lookup (ps_store s1) k = (if k = q_id e then Some f else q_lookup (ps_store s) k)" for k
    by (simp add: store1 f read_file_def VALID_STATUS_def)
  have fail: "fail_entry env e cause ev s =
      pbind (if is_retryable_cause cause then handle_retry env f cause else pret ()) (\<lambda>_. pret False) s1"
    by (simp add: fail_entry_def pbind_def store_call_def mark emit_def pret_def s1_def)
  show ?thesis
  proof (cases "is_retryable_cause cause")
    case False
    then show ?thesis using fail look f by (simp add: pbind_def pret_def)
  next
    case True
    have "safe_queue_id (q_id f)" "q_lookup (ps_store s1) (q_id f) = Some f"
      using assms(1) look f by simp_all
    from handle_retry_effect [OF this f(3), of env cause] obtain args s2
      where s2: "handle_retry env f cause s1 = (Some (), s2)"
        and st: "ps_store s2 = (if q_attempt f \<le> max_retries_of (le_max_retries env)
           then q_write (ps_store s1) (successor_entry f cause args (''q-'' @ le_fresh env (q_id f)) ?now) else ps_store s1)"
        and nb: "ra_not_before args = map_option fst (quota_backoff
          (cc_quota_backoff (qc_capacity (pe_config (le_probe env)))) (q_attempt f) cause ?now)" by blast
    have "fail_entry env e cause ev s = (Some False, s2)"
      using fail True s2 by (simp add: pbind_def pret_def)
    moreover have "q_lookup (ps_store s2) k = (if q_attempt e \<le> max_retries_of (le_max_retries env) \<and>
          k = ''q-'' @ le_fresh env (q_id e)
        then Some (successor_entry f cause args (''q-'' @ le_fresh env (q_id e)) ?now)
        else if k = q_id e then Some f else q_lookup (ps_store s) k)" for k
      by (simp add: st f look successor_entry_def read_file_def VALID_STATUS_def)
    moreover have "q_status (successor_entry f cause args i ?now) = Pending"
      "q_attempt (successor_entry f cause args i ?now) = q_attempt e + 1"
      "q_retry_of (successor_entry f cause args i ?now) = Some (q_id e)"
      "q_not_before (successor_entry f cause args i ?now) = ra_not_before args" for i
      by (simp_all add: successor_entry_def f)
    ultimately show ?thesis using True assms(4) nb f by simp
  qed
qed

lemma failed_launch_retry_witness:
  "\<exists>s' f. fail_entry demo_launch_env demo_entry ''launch failed: 429'' True (pass_start demo_launch_env demo_store [] False) = (Some False, s') \<and>
     q_lookup (ps_store s') ''q-1'' = Some f \<and> q_status f = Failed"
proof -
  have id: "q_id demo_entry = ''q-1''" by (simp add: demo_entry_def new_entry_def)
  have "safe_queue_id (q_id demo_entry)" by (simp add: id queue_eval)
  moreover have "q_lookup (ps_store (pass_start demo_launch_env demo_store [] False)) (q_id demo_entry) = Some demo_entry"
    by (simp add: id pass_start_def demo_store_def queue_eval) (simp add: demo_entry_def new_entry_def)
  moreover have "q_status demo_entry = Pending" by (simp add: demo_entry_def new_entry_def)
  moreover have "''q-'' @ le_fresh demo_launch_env (q_id demo_entry) \<noteq> q_id demo_entry"
    by (simp add: id demo_launch_env_def)
  ultimately show ?thesis
    using failed_launch_retry [of demo_entry "pass_start demo_launch_env demo_store [] False" demo_launch_env "''launch failed: 429''" True]
    unfolding id by blast
qed

text \<open>The stall alarm. Over any cycles without a launch, counted from a reset, the detector
  counts exactly the cycles that had an eligible entry, is up exactly when they reach the
  threshold, and has signalled once if it is up and not at all otherwise.\<close>

lemma stall_detector_exact:
  assumes "list_all (\<lambda>c. \<not> snd c) cs" and "1 \<le> threshold" and "ss_cycles s = 0" and "\<not> ss_fired s"
  shows "foldl (update_stall_detector threshold) s cs =
     (let n = length (filter fst cs)
      in \<lparr>ss_cycles = n, ss_fired = (threshold \<le> n),
          ss_signals = ss_signals s + (if threshold \<le> n then 1 else 0)\<rparr>)"
  using assms(1)
proof (induction cs rule: rev_induct)
  case Nil
  then show ?case using assms(2-4) by (simp add: Let_def)
next
  case (snoc c cs)
  then show ?case
    by (cases c) (auto simp: update_stall_detector_def Let_def split: if_splits)
qed

lemma stall_detector_exact_witness:
  "ss_signals (foldl (update_stall_detector 3) \<lparr>ss_cycles = 0, ss_fired = False, ss_signals = 0\<rparr>
     [(True, False), (False, False), (True, False), (True, False), (True, False)]) = 1"
  by (subst stall_detector_exact) (simp_all add: Let_def)

end
