(* ===== verification/Restart_Recovery.thy ===== *)
theory Restart_Recovery
  imports Launch_Pass
begin

text \<open>
  Restart recovery (\<open>restart_recovery.py\<close>): the record of the service instance, the
  classification of a worker that disappeared, the detection of what the interrupted run left
  in its workspace, and the one successor entry it may get. Git, the GitHub command line and
  the file system are the record \<open>recovery_env\<close>; a workspace path stands for its expanded
  form, and git answers a probe the same way throughout one recovery. What the recovery
  changes is the record \<open>recovery_state\<close>: the queue, the run reports and the stashes it
  pushed. A dictionary that cannot be read is the empty one.
\<close>

section \<open>The service epoch\<close>

definition INTERRUPTED_BY_RESTART :: string where
  "INTERRUPTED_BY_RESTART = ''interrupted_by_restart''"

definition RETRY_NAME_SUFFIX :: string where "RETRY_NAME_SUFFIX = ''-r1''"

definition NEEDS_REVIEW_REASON :: string where
  "NEEDS_REVIEW_REASON = ''needs_review: restart recovery could not determine the interrupted run'' @
     [CHR 0x27] @ ''s effects''"

definition WORKER_DISAPPEARED_REASON :: string where
  "WORKER_DISAPPEARED_REASON = ''worker disappeared without a final report''"

record service_epoch =
  se_pid :: int
  se_started_at :: time
  se_previous_pid :: "int option"
  se_previous_started_at :: "time option"

text \<open>A JSON number that is not a boolean.\<close>

fun number_of :: "pyval \<Rightarrow> rat option" where
  "number_of (PInt i) = Some (of_int i)"
| "number_of (PFloat r) = Some r"
| "number_of _ = None"

fun int_of :: "pyval \<Rightarrow> int option" where
  "int_of (PInt i) = Some i"
| "int_of _ = None"

definition as_dict :: "service_epoch \<Rightarrow> pydict" where
  "as_dict ep =
     [(''pid'', PInt (se_pid ep)), (''started_at'', PFloat (se_started_at ep)),
      (''previous_pid'', case se_previous_pid ep of None \<Rightarrow> PNone | Some p \<Rightarrow> PInt p),
      (''previous_started_at'', case se_previous_started_at ep of None \<Rightarrow> PNone | Some t \<Rightarrow> PFloat t)]"

text \<open>The argument is the parsed file, \<open>None\<close> when it is absent, unreadable or not JSON.\<close>

definition read_epoch :: "pyval option \<Rightarrow> service_epoch option" where
  "read_epoch file = (case file of
       Some (PDict d) \<Rightarrow>
         (case (int_of (dget d ''pid''), number_of (dget d ''started_at'')) of
            (Some pid, Some t) \<Rightarrow> Some \<lparr>se_pid = pid, se_started_at = t,
               se_previous_pid = int_of (dget d ''previous_pid''),
               se_previous_started_at = number_of (dget d ''previous_started_at'')\<rparr>
          | _ \<Rightarrow> None)
     | _ \<Rightarrow> None)"

text \<open>The epoch of a starting service and the file after it; \<open>writable\<close> says the write succeeds.\<close>

definition begin_service_epoch :: "bool \<Rightarrow> pyval option \<Rightarrow> int \<Rightarrow> time \<Rightarrow> service_epoch \<times> pyval option" where
  "begin_service_epoch writable file pid started_at =
     (let previous = read_epoch file;
          ep = \<lparr>se_pid = pid, se_started_at = started_at,
                se_previous_pid = map_option se_pid previous,
                se_previous_started_at = map_option se_started_at previous\<rparr>
      in (ep, if writable then Some (PDict (as_dict ep)) else file))"

section \<open>How a worker died\<close>

definition positive_int :: "pyval \<Rightarrow> int option" where
  "positive_int v = (case v of PInt i \<Rightarrow> if i > 0 then Some i else None | _ \<Rightarrow> None)"

definition owner_pid :: "pydict \<Rightarrow> int option" where
  "owner_pid owner = (case positive_int (dget owner ''supervisor_pid'') of
       Some p \<Rightarrow> Some p
     | None \<Rightarrow> positive_int (dget owner ''service_pid''))"

definition owner_started_at :: "pydict \<Rightarrow> time option" where
  "owner_started_at owner = number_of (dget owner ''started_at'')"

definition is_worker_disappeared :: "(pyval \<Rightarrow> string) \<Rightarrow> pyval \<Rightarrow> bool" where
  "is_worker_disappeared render reason =
     (let text = py_lower (py_strip (str_or_empty render reason))
      in text \<noteq> [] \<and> py_contains WORKER_DISAPPEARED_REASON text)"

definition worker_belonged_to_previous_epoch :: "pydict \<Rightarrow> service_epoch option \<Rightarrow> bool" where
  "worker_belonged_to_previous_epoch owner epoch = (case epoch of
       None \<Rightarrow> False
     | Some ep \<Rightarrow>
         (case owner_pid owner of
            Some p \<Rightarrow> se_previous_pid ep = Some p \<or> p \<noteq> se_pid ep
          | None \<Rightarrow>
              (case owner_started_at owner of
                 Some t \<Rightarrow> se_started_at ep > 0 \<and> t < se_started_at ep
               | None \<Rightarrow> False)))"

definition SHUTDOWN_SIGNALS :: "string list" where
  "SHUTDOWN_SIGNALS = [''SIGKILL'', ''SIGTERM'']"

definition signal_is_shutdown_signal :: "pyval \<Rightarrow> bool" where
  "signal_is_shutdown_signal v = (case v of
       PStr s \<Rightarrow> map upper_char (py_strip s) \<in> set SHUTDOWN_SIGNALS
     | PInt i \<Rightarrow> (if i < 0 then - i else i) \<in> set [9, 15]
     | _ \<Rightarrow> False)"

definition death_took_a_shutdown_signal :: "pydict \<Rightarrow> pydict \<Rightarrow> bool" where
  "death_took_a_shutdown_signal status owner =
     (list_ex (\<lambda>k. signal_is_shutdown_signal (dget status k))
        [''exit_signal'', ''signal'', ''term_signal'', ''killed_by_signal''] \<or>
      (case dget status ''exit_code'' of PInt i \<Rightarrow> signal_is_shutdown_signal (PInt i) | _ \<Rightarrow> False) \<or>
      signal_is_shutdown_signal (dget owner ''exit_signal''))"

definition classify_worker_death ::
    "(pyval \<Rightarrow> string) \<Rightarrow> pyval \<Rightarrow> pydict \<Rightarrow> service_epoch option \<Rightarrow> string option" where
  "classify_worker_death render failure_reason owner epoch =
     (if \<not> is_worker_disappeared render failure_reason then None
      else if epoch = None then None
      else if \<not> worker_belonged_to_previous_epoch owner epoch then None
      else Some INTERRUPTED_BY_RESTART)"

section \<open>Retry history\<close>

definition find_restart_successor :: "queue_entry list \<Rightarrow> string \<Rightarrow> queue_entry option" where
  "find_restart_successor entries qid = find (\<lambda>e. q_retry_of e = Some qid) entries"

definition restart_cause :: "queue_entry \<Rightarrow> bool" where
  "restart_cause e = py_contains INTERRUPTED_BY_RESTART
     (py_lower (py_strip (case q_failure_cause e of None \<Rightarrow> [] | Some c \<Rightarrow> c)))"

definition already_restart_retried :: "queue_entry \<Rightarrow> queue_entry list \<Rightarrow> bool" where
  "already_restart_retried e entries =
     (list_ex (\<lambda>c. q_retry_of c = Some (q_id e) \<and> restart_cause c) entries \<or>
      (case q_retry_of e of
         Some p \<Rightarrow> p \<noteq> [] \<and> list_ex (\<lambda>c. q_id c = p \<and> restart_cause c) entries
       | None \<Rightarrow> False))"

section \<open>What the interrupted run left\<close>

datatype pr_answer = PrRaises | PrAnswer "string option"

definition PROBE_UNKNOWN :: string where "PROBE_UNKNOWN = ''__lh_probe_unknown__''"

text \<open>The answer of \<open>gh pr list\<close>; \<open>GhOutput None\<close> is output that is not JSON.\<close>

datatype gh_result = GhMissing | GhFailed | GhOutput "pyval option"

definition pr_text :: "(pyval \<Rightarrow> string) \<Rightarrow> pydict \<Rightarrow> string" where
  "pr_text render item = py_strip (''#'' @ py_str render (dget item ''number'') @ '' '' @ [CHR 0x27] @
     take 60 (py_strip (str_or_empty render (dget item ''title''))) @ [CHR 0x27] @ '' '' @
     py_str render (dget item ''url''))"

definition probe_open_pr_gh_strict :: "(pyval \<Rightarrow> string) \<Rightarrow> gh_result \<Rightarrow> string option" where
  "probe_open_pr_gh_strict render r = (case r of
       GhOutput (Some (PList items)) \<Rightarrow>
         (if items = [] then None
          else if list_all is_dict (take 2 items)
          then Some (py_join '', '' (map (\<lambda>v. case v of PDict d \<Rightarrow> pr_text render d | _ \<Rightarrow> []) (take 2 items)))
          else Some PROBE_UNKNOWN)
     | _ \<Rightarrow> Some PROBE_UNKNOWN)"

text \<open>
  \<open>rv_git workspace args\<close>: the stripped output of git, \<open>None\<close> when it fails.
  \<open>rv_probe\<close>: the probe for open pull requests, \<open>None\<close> when it is disabled.
  \<open>rv_report_ok\<close>: the report of a run can be written.
\<close>

record recovery_env =
  rv_render :: "pyval \<Rightarrow> string"
  rv_is_dir :: "string \<Rightarrow> bool"
  rv_git :: "string \<Rightarrow> string list \<Rightarrow> string option"
  rv_probe :: "(string \<Rightarrow> string \<Rightarrow> pr_answer) option"
  rv_report_ok :: "string \<Rightarrow> bool"
  rv_epoch :: "service_epoch option"
  rv_max_retries :: "int option"
  rv_fresh :: "string \<Rightarrow> string"
  rv_now :: time

record run_effects =
  ef_branch :: string
  ef_branch_pushed :: bool
  ef_open_pr :: string
  ef_local_commits :: int
  ef_dirty :: bool
  ef_decided :: bool

definition no_effects :: run_effects where
  "no_effects = \<lparr>ef_branch = [], ef_branch_pushed = False, ef_open_pr = [], ef_local_commits = 0,
     ef_dirty = False, ef_decided = True\<rparr>"

definition has_effects :: "run_effects \<Rightarrow> bool" where
  "has_effects ef = (ef_branch_pushed ef \<or> ef_open_pr ef \<noteq> [] \<or> ef_local_commits ef \<noteq> 0)"

definition detect_pushed :: "recovery_env \<Rightarrow> string \<Rightarrow> string \<Rightarrow> run_effects \<Rightarrow> run_effects" where
  "detect_pushed env ws branch ef =
     (if branch = [] then ef
      else case rv_git env ws [''ls-remote'', ''--heads'', ''origin'', branch] of
             None \<Rightarrow> ef\<lparr>ef_decided := False\<rparr>
           | Some heads \<Rightarrow> ef\<lparr>ef_branch_pushed := (heads \<noteq> [])\<rparr>)"

definition detect_pr :: "recovery_env \<Rightarrow> string \<Rightarrow> string \<Rightarrow> run_effects \<Rightarrow> run_effects" where
  "detect_pr env ws branch ef = (case rv_probe env of
       None \<Rightarrow> ef
     | Some probe \<Rightarrow>
         if branch = [] then ef
         else case probe ws branch of
                PrRaises \<Rightarrow> ef\<lparr>ef_decided := False\<rparr>
              | PrAnswer None \<Rightarrow> ef\<lparr>ef_open_pr := []\<rparr>
              | PrAnswer (Some pr) \<Rightarrow>
                  if pr = PROBE_UNKNOWN then ef\<lparr>ef_decided := False\<rparr> else ef\<lparr>ef_open_pr := pr\<rparr>)"

definition detect_commits :: "recovery_env \<Rightarrow> string \<Rightarrow> string \<Rightarrow> run_effects \<Rightarrow> run_effects" where
  "detect_commits env ws branch ef =
     (case rv_git env ws [''rev-parse'', ''--verify'', ''--quiet'', ''refs/remotes/origin/main''] of
        None \<Rightarrow> ef\<lparr>ef_decided := False\<rparr>
      | Some _ \<Rightarrow>
          if branch = [] then ef
          else case rv_git env ws [''rev-list'', ''--count'', ''refs/remotes/origin/main..'' @ branch] of
                 None \<Rightarrow> ef\<lparr>ef_decided := False\<rparr>
               | Some out \<Rightarrow>
                   (case py_int_of_string (if out = [] then ''0'' else out) of
                      None \<Rightarrow> ef\<lparr>ef_decided := False\<rparr>
                    | Some n \<Rightarrow> ef\<lparr>ef_local_commits := n\<rparr>))"

definition detect_dirty :: "recovery_env \<Rightarrow> string \<Rightarrow> run_effects \<Rightarrow> run_effects" where
  "detect_dirty env ws ef = (case rv_git env ws [''status'', ''--porcelain''] of
       None \<Rightarrow> ef\<lparr>ef_decided := False\<rparr>
     | Some st \<Rightarrow> ef\<lparr>ef_dirty := (py_strip st \<noteq> [])\<rparr>)"

definition detect_run_effects :: "recovery_env \<Rightarrow> string \<Rightarrow> run_effects" where
  "detect_run_effects env ws =
     (if \<not> rv_is_dir env ws then no_effects
      else if rv_git env ws [''rev-parse'', ''--is-inside-work-tree''] \<noteq> Some ''true'' then no_effects
      else case rv_git env ws [''rev-parse'', ''--abbrev-ref'', ''HEAD''] of
             None \<Rightarrow> no_effects\<lparr>ef_decided := False\<rparr>
           | Some out \<Rightarrow>
               let branch = (if py_strip out = ''HEAD'' then [] else py_strip out)
               in detect_dirty env ws (detect_commits env ws branch (detect_pr env ws branch
                    (detect_pushed env ws branch (no_effects\<lparr>ef_branch := branch\<rparr>)))))"

text \<open>The gate against two workers for one task, over the lines of the process table (\<open>None\<close>: \<open>ps\<close> failed).\<close>

definition workspace_worker_is_alive :: "bool \<Rightarrow> string list option \<Rightarrow> string \<Rightarrow> bool" where
  "workspace_worker_is_alive is_dir lines run_id = (is_dir \<and> (case lines of
       None \<Rightarrow> False
     | Some ls \<Rightarrow> list_ex (\<lambda>l. py_contains (''--run-id='' @ run_id) l \<and> py_contains ''lh_harness'' l) ls))"

section \<open>The recovery\<close>

record recovery_state =
  rs_store :: queue_store
  rs_reports :: "(string \<times> pyval) list"
  rs_stashes :: "(string \<times> string) list"

definition workspace_is_dirty :: "recovery_env \<Rightarrow> string \<Rightarrow> bool" where
  "workspace_is_dirty env ws = (case rv_git env ws [''status'', ''--porcelain''] of
       None \<Rightarrow> False | Some st \<Rightarrow> py_strip st \<noteq> [])"

definition stash_message :: "string \<Rightarrow> string" where
  "stash_message run_id = ''lh-harness interrupted '' @ run_id"

text \<open>The stash name, empty when there was nothing to stash or git refused.\<close>

definition stash_interrupted_workspace :: "recovery_env \<Rightarrow> string \<Rightarrow> string \<Rightarrow> string option" where
  "stash_interrupted_workspace env ws run_id =
     (if \<not> rv_is_dir env ws then None
      else if \<not> workspace_is_dirty env ws then None
      else case rv_git env ws [''stash'', ''push'', ''--include-untracked'', ''--message'', stash_message run_id] of
             None \<Rightarrow> None
           | Some _ \<Rightarrow> Some (stash_message run_id))"

definition effects_dict :: "run_effects \<Rightarrow> pydict" where
  "effects_dict ef =
     [(''branch'', PStr (ef_branch ef)), (''branch_pushed'', PBool (ef_branch_pushed ef)),
      (''open_pr'', PStr (ef_open_pr ef)), (''local_commits'', PInt (ef_local_commits ef)),
      (''dirty'', PBool (ef_dirty ef)), (''decided'', PBool (ef_decided ef))]"

definition report_dict :: "(string \<times> pyval) list \<Rightarrow> string \<Rightarrow> pydict" where
  "report_dict reports run_id = (case map_of reports run_id of Some (PDict d) \<Rightarrow> d | _ \<Rightarrow> [])"

definition log_stash_in_report ::
    "recovery_env \<Rightarrow> string \<Rightarrow> string \<Rightarrow> string \<Rightarrow> pydict \<Rightarrow> recovery_state \<Rightarrow> recovery_state" where
  "log_stash_in_report env run_id stash ws lineage s =
     (if \<not> rv_report_ok env run_id then s
      else let d = aupd ''interrupted_by'' (PStr INTERRUPTED_BY_RESTART)
                 (aupd ''stash_workspace'' (PStr ws) (aupd ''stash'' (PStr stash) (report_dict (rs_reports s) run_id)));
               d' = (if lineage = [] then d else aupd ''restart_recovery'' (PDict lineage) d)
           in s\<lparr>rs_reports := aupd run_id (PDict d') (rs_reports s)\<rparr>)"

definition put_entry :: "recovery_env \<Rightarrow> queue_entry \<Rightarrow> recovery_state \<Rightarrow> queue_entry \<times> recovery_state" where
  "put_entry env e s = (let (e', q) = q_update (rs_store s) e (rv_now env) in (e', s\<lparr>rs_store := q\<rparr>))"

definition mark_needs_review :: "recovery_env \<Rightarrow> queue_entry \<Rightarrow> recovery_state \<Rightarrow> queue_entry \<times> recovery_state" where
  "mark_needs_review env e = put_entry env (e\<lparr>q_needs_review := True, q_reason := Some (take 500 NEEDS_REVIEW_REASON)\<rparr>)"

definition record_successor :: "recovery_env \<Rightarrow> queue_entry \<Rightarrow> string \<Rightarrow> recovery_state \<Rightarrow> queue_entry \<times> recovery_state" where
  "record_successor env e qid = put_entry env (e\<lparr>q_successor := Some qid\<rparr>)"

definition continues_branch :: "run_effects \<Rightarrow> bool" where
  "continues_branch ef = (ef_branch_pushed ef \<or> ef_open_pr ef \<noteq> [])"

definition restart_requeue :: "run_effects \<Rightarrow> string \<Rightarrow> requeue_args" where
  "restart_requeue ef run_id = plain_requeue\<lparr>ra_name_suffix := RETRY_NAME_SUFFIX,
     ra_interrupted_run := (if run_id = [] then None else Some run_id),
     ra_continue_branch := (if continues_branch ef then Some True else None)\<rparr>"

definition lineage_dict :: "queue_entry \<Rightarrow> string \<Rightarrow> string \<Rightarrow> string \<Rightarrow> run_effects \<Rightarrow> pydict" where
  "lineage_dict e suc run_id stash ef =
     [(''original_queue_id'', PStr (q_id e)), (''successor_queue_id'', PStr suc),
      (''interrupted_run'', PStr run_id), (''stash'', PStr stash), (''stash_workspace'', PStr (q_workspace e)),
      (''effects'', PDict (effects_dict ef)), (''continue_branch'', PBool (continues_branch ef))]"

text \<open>
  \<open>reconcile_interrupted_run\<close>: its result or the exception of \<open>requeue\<close>, the entry
  object as the function leaves it (the caller keeps using that object), and the state.
\<close>

definition reconcile_interrupted_run ::
    "recovery_env \<Rightarrow> pydict \<Rightarrow> pydict \<Rightarrow> queue_entry \<Rightarrow> recovery_state
     \<Rightarrow> (store_exn, queue_entry option) result \<times> queue_entry \<times> recovery_state" where
  "reconcile_interrupted_run env status owner e s =
     (if rv_epoch env = None then (Inr None, e, s)
      else if classify_worker_death (rv_render env) (dget status ''failure_reason'') owner (rv_epoch env)
                \<noteq> Some INTERRUPTED_BY_RESTART then (Inr None, e, s)
      else let entries = q_list (rs_store s) in
      if q_id e = [] then (Inr None, e, s)
      else if find_restart_successor entries (q_id e) \<noteq> None then (Inr None, e, s)
      else if already_restart_retried e entries then (Inr None, e, s)
      else let ws = q_workspace e; run_id = (case q_run_id e of None \<Rightarrow> [] | Some r \<Rightarrow> r);
               ef = (if ws = [] then no_effects else detect_run_effects env ws) in
      if \<not> ef_decided ef then (let (e', s') = mark_needs_review env e s in (Inr None, e', s'))
      else let stash = (if ws \<noteq> [] \<and> run_id \<noteq> []
                        then (case stash_interrupted_workspace env ws run_id of None \<Rightarrow> [] | Some n \<Rightarrow> n) else []);
               s1 = (if stash = [] then s else s\<lparr>rs_stashes := rs_stashes s @ [(ws, stash)]\<rparr>) in
      case q_requeue (rv_max_retries env) (rs_store s1) (q_id e) INTERRUPTED_BY_RESTART
             (restart_requeue ef run_id) (rv_fresh env (q_id e)) (rv_now env) of
        Inl x \<Rightarrow> (Inl x, e, s1)
      | Inr (None, q) \<Rightarrow> (Inr None, e, s1\<lparr>rs_store := q\<rparr>)
      | Inr (Some suc, q) \<Rightarrow>
          let (e', s2) = record_successor env e (q_id suc) (s1\<lparr>rs_store := q\<rparr>);
              s3 = (if run_id = [] then s2
                    else log_stash_in_report env run_id stash ws (lineage_dict e (q_id suc) run_id stash ef) s2)
          in (Inr (Some suc), e', s3))"

section \<open>Lemmas\<close>

lemma read_epoch_as_dict: "read_epoch (Some (PDict (as_dict ep))) = Some ep"
  by (cases ep) (auto simp: read_epoch_def as_dict_def split: option.splits)

lemma restart_cause_INTERRUPTED [simp]: "q_failure_cause e = Some INTERRUPTED_BY_RESTART \<Longrightarrow> restart_cause e"
proof -
  have "py_contains INTERRUPTED_BY_RESTART (py_lower (py_strip INTERRUPTED_BY_RESTART))" by code_simp
  then show "q_failure_cause e = Some INTERRUPTED_BY_RESTART \<Longrightarrow> restart_cause e" by (simp add: restart_cause_def)
qed

text \<open>A recovery that may create a successor at all.\<close>

definition may_recover :: "recovery_env \<Rightarrow> pydict \<Rightarrow> pydict \<Rightarrow> queue_entry \<Rightarrow> queue_store \<Rightarrow> bool" where
  "may_recover env status owner e q =
     (classify_worker_death (rv_render env) (dget status ''failure_reason'') owner (rv_epoch env) =
        Some INTERRUPTED_BY_RESTART \<and> q_id e \<noteq> [] \<and>
      find_restart_successor (q_list q) (q_id e) = None \<and> \<not> already_restart_retried e (q_list q))"

definition found_effects :: "recovery_env \<Rightarrow> queue_entry \<Rightarrow> run_effects" where
  "found_effects env e = (if q_workspace e = [] then no_effects else detect_run_effects env (q_workspace e))"

definition run_of :: "queue_entry \<Rightarrow> string" where
  "run_of e = (case q_run_id e of None \<Rightarrow> [] | Some r \<Rightarrow> r)"

definition found_stash :: "recovery_env \<Rightarrow> queue_entry \<Rightarrow> string" where
  "found_stash env e = (if q_workspace e \<noteq> [] \<and> run_of e \<noteq> []
     then (case stash_interrupted_workspace env (q_workspace e) (run_of e) of None \<Rightarrow> [] | Some n \<Rightarrow> n) else [])"

lemma classify_epoch: "classify_worker_death render fr owner None = None"
  by (simp add: classify_worker_death_def)

lemma reconcile_idle:
  "\<not> may_recover env status owner e (rs_store s) \<Longrightarrow>
     reconcile_interrupted_run env status owner e s = (Inr None, e, s)"
  by (auto simp: may_recover_def reconcile_interrupted_run_def Let_def)

lemma reconcile_undecided:
  "may_recover env status owner e (rs_store s) \<Longrightarrow> \<not> ef_decided (found_effects env e) \<Longrightarrow>
     reconcile_interrupted_run env status owner e s =
       (case mark_needs_review env e s of (e', s') \<Rightarrow> (Inr None, e', s'))"
  by (auto simp: may_recover_def reconcile_interrupted_run_def found_effects_def Let_def classify_epoch
      split: prod.splits)

lemma reconcile_decided:
  "may_recover env status owner e (rs_store s) \<Longrightarrow> ef_decided (found_effects env e) \<Longrightarrow>
     reconcile_interrupted_run env status owner e s =
      (let s1 = (if found_stash env e = [] then s
                 else s\<lparr>rs_stashes := rs_stashes s @ [(q_workspace e, found_stash env e)]\<rparr>) in
       case q_requeue (rv_max_retries env) (rs_store s1) (q_id e) INTERRUPTED_BY_RESTART
             (restart_requeue (found_effects env e) (run_of e)) (rv_fresh env (q_id e)) (rv_now env) of
        Inl x \<Rightarrow> (Inl x, e, s1)
      | Inr (None, q) \<Rightarrow> (Inr None, e, s1\<lparr>rs_store := q\<rparr>)
      | Inr (Some suc, q) \<Rightarrow>
          let (e', s2) = record_successor env e (q_id suc) (s1\<lparr>rs_store := q\<rparr>);
              s3 = (if run_of e = [] then s2
                    else log_stash_in_report env (run_of e) (found_stash env e) (q_workspace e)
                      (lineage_dict e (q_id suc) (run_of e) (found_stash env e) (found_effects env e)) s2)
          in (Inr (Some suc), e', s3))"
  unfolding may_recover_def reconcile_interrupted_run_def found_effects_def found_stash_def run_of_def
  by (auto simp: Let_def classify_epoch)

lemma log_stash_store [simp]:
  "rs_store (log_stash_in_report env r n ws l s) = rs_store s"
  "rs_stashes (log_stash_in_report env r n ws l s) = rs_stashes s"
  by (simp_all add: log_stash_in_report_def Let_def)

text \<open>A recovery that created a successor, taken apart.\<close>

lemma reconcile_created:
  assumes "reconcile_interrupted_run env status owner e s = (Inr (Some suc), e', s')"
  obtains q where "may_recover env status owner e (rs_store s)" and "ef_decided (found_effects env e)"
    and "q_requeue (rv_max_retries env) (rs_store s) (q_id e) INTERRUPTED_BY_RESTART
           (restart_requeue (found_effects env e) (run_of e)) (rv_fresh env (q_id e)) (rv_now env) = Inr (Some suc, q)"
    and "e' = e\<lparr>q_successor := Some (q_id suc), q_updated_at := rv_now env\<rparr>"
    and "rs_store s' = q_write q e'"
    and "rs_stashes s' = rs_stashes s @ (if found_stash env e = [] then [] else [(q_workspace e, found_stash env e)])"
proof -
  have may: "may_recover env status owner e (rs_store s)" using assms reconcile_idle by fastforce
  moreover have dec: "ef_decided (found_effects env e)"
    using assms reconcile_undecided [OF may] by (fastforce split: prod.splits)
  ultimately show ?thesis
    using assms that
    by (auto simp: reconcile_decided record_successor_def put_entry_def q_update_def Let_def
        split: sum.splits option.splits if_splits prod.splits)
qed

section \<open>Properties\<close>

text \<open>The service instance is remembered. What a starting service writes is read back unchanged,
  so the next instance knows the process id and the start of the one it replaced; an
  unreadable record only means that there is no predecessor.\<close>

lemma epoch_roundtrip:
  "begin_service_epoch True file pid t = (ep, file') \<Longrightarrow>
     read_epoch file' = Some ep \<and> se_pid ep = pid \<and> se_started_at ep = t \<and>
     se_previous_pid ep = map_option se_pid (read_epoch file) \<and>
     (\<exists>ep2 file2. begin_service_epoch w file' pid2 t2 = (ep2, file2) \<and>
        se_previous_pid ep2 = Some pid \<and> se_previous_started_at ep2 = Some t)"
  by (auto simp: begin_service_epoch_def Let_def read_epoch_as_dict)

text \<open>When a lost worker counts as interrupted by a restart. The run's status must say the worker
  disappeared, and its owner record must name a service process other than this one or the
  process this one replaced, or, naming none, must predate this instance. A replaced
  process with the same process id therefore makes every worker of this instance count as
  interrupted.\<close>

lemma restart_death_iff:
  "classify_worker_death render reason owner (Some ep) = Some INTERRUPTED_BY_RESTART \<longleftrightarrow>
     is_worker_disappeared render reason \<and>
     (case owner_pid owner of
        Some p \<Rightarrow> (if p = se_pid ep then se_previous_pid ep = Some (se_pid ep) else True)
      | None \<Rightarrow> \<exists>t. owner_started_at owner = Some t \<and> t < se_started_at ep \<and> 0 < se_started_at ep)"
  by (auto simp: classify_worker_death_def worker_belonged_to_previous_epoch_def split: option.splits)


definition demo_recovery_env :: recovery_env where
  "demo_recovery_env = \<lparr>rv_render = (\<lambda>_. ''x''), rv_is_dir = (\<lambda>_. True),
     rv_git = (\<lambda>_ args. if args = [''rev-parse'', ''--is-inside-work-tree''] then Some ''true''
        else if args = [''rev-parse'', ''--abbrev-ref'', ''HEAD''] then Some ''feature''
        else if hd args = ''ls-remote'' then Some ''abc refs/heads/feature''
        else if hd args = ''rev-list'' then Some ''2''
        else if hd args = ''status'' then Some ''?? notes'' else Some ''ok''),
     rv_probe = Some (\<lambda>_ _. PrAnswer None), rv_report_ok = (\<lambda>_. True),
     rv_epoch = Some \<lparr>se_pid = 2, se_started_at = 50, se_previous_pid = Some 1, se_previous_started_at = Some 5\<rparr>,
     rv_max_retries = None, rv_fresh = (\<lambda>_. ''2''), rv_now = 60\<rparr>"

definition demo_interrupted :: queue_entry where
  "demo_interrupted = demo_entry\<lparr>q_status := Failed, q_run_id := Some ''r1'',
     q_failure_cause := Some INTERRUPTED_BY_RESTART\<rparr>"

definition demo_recovery_state :: recovery_state where
  "demo_recovery_state = \<lparr>rs_store = \<lparr>qs_files = [(''q-1'', QEntry demo_interrupted)], qs_drain = None, qs_audit = []\<rparr>,
     rs_reports = [], rs_stashes = []\<rparr>"

definition demo_recovery :: "(store_exn, queue_entry option) result \<times> queue_entry \<times> recovery_state" where
  "demo_recovery = reconcile_interrupted_run demo_recovery_env [(''failure_reason'', PStr WORKER_DISAPPEARED_REASON)]
     [(''supervisor_pid'', PInt 1)] demo_interrupted demo_recovery_state"

lemma demo_recovery_created:
  "\<exists>suc e' s'. demo_recovery = (Inr (Some suc), e', s') \<and> q_id suc = ''q-2'' \<and> q_id e' = ''q-1'' \<and>
     q_continue_branch suc \<and> rs_stashes s' = [(q_workspace demo_interrupted, ''lh-harness interrupted r1'')]"
proof -
  have "case demo_recovery of (Inr (Some suc), e', s') \<Rightarrow> q_id suc = ''q-2'' \<and> q_id e' = ''q-1'' \<and>
     q_continue_branch suc \<and> rs_stashes s' = [(q_workspace demo_interrupted, ''lh-harness interrupted r1'')] | _ \<Rightarrow> False"
    by code_simp
  then show ?thesis by (auto split: prod.splits sum.splits option.splits) blast
qed

lemma demo_recovery_wf: "queue_wf None (rs_store demo_recovery_state)"
  by (auto simp: queue_wf_def demo_recovery_state_def q_lookup_def entry_wf_def read_file_def demo_interrupted_def
      demo_entry_def new_entry_def max_retries_of_def split: if_splits)


text \<open>Nothing is guessed and nothing is thrown away. When a probe of the workspace fails, the
  entry is flagged for review, and neither a successor nor a stash is made. A successor is made
  only after every probe answered; it continues the branch exactly when the branch was pushed, has
  an open pull request or the original entry asked for it (commits that were never pushed do not
  count), and a dirty workspace has been stashed under the run's name first if git could.\<close>

lemma restart_effects_respected:
  assumes "may_recover env status owner e (rs_store s)"
    and "reconcile_interrupted_run env status owner e s = (r, e', s')"
  shows "(\<not> ef_decided (found_effects env e) \<longrightarrow> r = Inr None \<and> q_needs_review e' \<and>
            rs_store s' = q_write (rs_store s) e' \<and> rs_stashes s' = rs_stashes s \<and> rs_reports s' = rs_reports s) \<and>
         (\<forall>suc. r = Inr (Some suc) \<longrightarrow> ef_decided (found_effects env e) \<and>
            (q_continue_branch suc \<longleftrightarrow>
               ef_branch_pushed (found_effects env e) \<or> ef_open_pr (found_effects env e) \<noteq> [] \<or>
               (\<exists>orig. q_lookup (rs_store s) (q_id e) = Some orig \<and> q_continue_branch orig)) \<and>
            (q_workspace e \<noteq> [] \<and> run_of e \<noteq> [] \<and> rv_is_dir env (q_workspace e) \<and> workspace_is_dirty env (q_workspace e) \<and>
             rv_git env (q_workspace e) [''stash'', ''push'', ''--include-untracked'', ''--message'', stash_message (run_of e)] \<noteq> None \<longrightarrow>
               (q_workspace e, stash_message (run_of e)) \<in> set (rs_stashes s')))"
proof (intro conjI impI allI)
  assume "\<not> ef_decided (found_effects env e)"
  with reconcile_undecided [OF assms(1)] assms(2)
  show "r = Inr None" "q_needs_review e'" "rs_store s' = q_write (rs_store s) e'"
    "rs_stashes s' = rs_stashes s" "rs_reports s' = rs_reports s"
    by (auto simp: mark_needs_review_def put_entry_def q_update_def Let_def)
next
  fix suc assume r: "r = Inr (Some suc)"
  obtain q where dec: "ef_decided (found_effects env e)"
    and req: "q_requeue (rv_max_retries env) (rs_store s) (q_id e) INTERRUPTED_BY_RESTART
           (restart_requeue (found_effects env e) (run_of e)) (rv_fresh env (q_id e)) (rv_now env) = Inr (Some suc, q)"
    and st: "rs_stashes s' = rs_stashes s @ (if found_stash env e = [] then [] else [(q_workspace e, found_stash env e)])"
    using reconcile_created [OF assms(2) [unfolded r]] by metis
  show "ef_decided (found_effects env e)" by (rule dec)
  show "q_continue_branch suc \<longleftrightarrow>
      ef_branch_pushed (found_effects env e) \<or> ef_open_pr (found_effects env e) \<noteq> [] \<or>
      (\<exists>orig. q_lookup (rs_store s) (q_id e) = Some orig \<and> q_continue_branch orig)"
    using req by (auto simp: q_requeue_Inr successor_entry_def restart_requeue_def continues_branch_def plain_requeue_def
        split: option.splits)
  show "(q_workspace e, stash_message (run_of e)) \<in> set (rs_stashes s')"
    if "q_workspace e \<noteq> [] \<and> run_of e \<noteq> [] \<and> rv_is_dir env (q_workspace e) \<and> workspace_is_dirty env (q_workspace e) \<and>
        rv_git env (q_workspace e) [''stash'', ''push'', ''--include-untracked'', ''--message'', stash_message (run_of e)] \<noteq> None"
    using st that by (auto simp: found_stash_def stash_interrupted_workspace_def stash_message_def)
qed

lemma restart_effects_respected_witness:
  "\<exists>suc e' s'. demo_recovery = (Inr (Some suc), e', s') \<and> q_continue_branch suc \<and> ef_decided (found_effects demo_recovery_env demo_interrupted)"
proof -
  obtain suc e' s' where d: "demo_recovery = (Inr (Some suc), e', s')" using demo_recovery_created by blast
  have may: "may_recover demo_recovery_env [(''failure_reason'', PStr WORKER_DISAPPEARED_REASON)]
     [(''supervisor_pid'', PInt 1)] demo_interrupted (rs_store demo_recovery_state)" by code_simp
  have "ef_branch_pushed (found_effects demo_recovery_env demo_interrupted)" by code_simp
  with restart_effects_respected [OF may d [unfolded demo_recovery_def]] d show ?thesis by blast
qed

end
