(* ===== verification/Launched_Entries.thy ===== *)
theory Launched_Entries
  imports Restart_Recovery
begin

text \<open>
  The first half of a launcher pass (\<open>launcher.py\<close>: \<open>_update_launched_entries\<close> with
  \<open>_enforce_time_limit\<close>, \<open>_reconcile_failure_cause\<close>, \<open>_classify_interrupted_by_restart\<close> and
  \<open>_recover_interrupted_run\<close>), and the whole pass \<open>_run_pass\<close> made of it and of the launching
  half. Every launched entry is compared with its run: an active run may only outlive its time
  limit, a run that has ended settles its entry and may give it a successor. What the
  supervisor says of a run and what its \<open>stop\<close> raises are fields of \<open>settle_env\<close>; the
  supervisor answers every query, and a run event is only recorded.
\<close>

section \<open>State\<close>

datatype settle_event =
    EvDone string string
  | EvFailed string string string bool
  | EvTimeLimit string string int rat "string option"

record settle_env =
  te_launch :: launch_env
  te_recovery :: recovery_env
  te_status :: "string \<Rightarrow> pydict"
  te_owner :: "string \<Rightarrow> pydict"
  te_maintenance :: "string list"
  te_stop :: "string \<Rightarrow> string option"

record settle_state =
  st_pass :: pass_state
  st_reports :: "(string \<times> pyval) list"
  st_stashes :: "(string \<times> string) list"
  st_stopped :: "string list"
  st_log :: "settle_event list"

type_synonym 'a settle = "(settle_state, 'a) exec"

definition lift_pass :: "'a pass \<Rightarrow> 'a settle" where
  "lift_pass m s = (case m (st_pass s) of (r, p) \<Rightarrow> (r, s\<lparr>st_pass := p\<rparr>))"

definition log_event :: "settle_event \<Rightarrow> unit settle" where
  "log_event ev s = (Some (), s\<lparr>st_log := st_log s @ [ev]\<rparr>)"

definition st_queue :: "settle_state \<Rightarrow> queue_store" where
  "st_queue s = ps_store (st_pass s)"

definition te_now :: "settle_env \<Rightarrow> time" where
  "te_now env = pe_now (le_probe (te_launch env))"

definition te_render :: "settle_env \<Rightarrow> pyval \<Rightarrow> string" where
  "te_render env = pe_render (le_probe (te_launch env))"

section \<open>Time limits\<close>

definition time_limit_minutes :: "queue_config \<Rightarrow> queue_entry \<Rightarrow> int option" where
  "time_limit_minutes cfg e = (case q_time_limit e of
       Some n \<Rightarrow> if n > 0 then Some n else (case qc_default_time_limit cfg of
           Some d \<Rightarrow> if d > 0 then Some d else None | None \<Rightarrow> None)
     | None \<Rightarrow> (case qc_default_time_limit cfg of Some d \<Rightarrow> if d > 0 then Some d else None | None \<Rightarrow> None))"

text \<open>\<open>update(entry)\<close> of the entry as changed by the caller.\<close>

definition write_back :: "settle_env \<Rightarrow> queue_entry \<Rightarrow> queue_entry settle" where
  "write_back env e s = (case q_update (st_queue s) e (te_now env) of
     (e', q) \<Rightarrow> (Some e', s\<lparr>st_pass := (st_pass s)\<lparr>ps_store := q\<rparr>\<rparr>))"

definition over_limit :: "settle_env \<Rightarrow> queue_entry \<Rightarrow> (int \<times> rat) option" where
  "over_limit env e =
     (if q_failure_cause e = Some TIME_LIMIT_CAUSE then None
      else case (time_limit_minutes (pe_config (le_probe (te_launch env))) e, q_launched_at e) of
             (Some limit, Some launched) \<Rightarrow>
               let elapsed = te_now env - launched
               in if launched = 0 \<or> elapsed \<le> of_int limit * 60 then None
                  else Some (limit, of_int (round_half_even (elapsed / 60 * 10)) / 10)
           | _ \<Rightarrow> None)"

definition enforce_time_limit :: "settle_env \<Rightarrow> queue_entry \<Rightarrow> bool settle" where
  "enforce_time_limit env e = (case over_limit env e of
       None \<Rightarrow> pret False
     | Some (limit, elapsed) \<Rightarrow>
         (let run = run_of e; err = map_option (take 200) (te_stop env run) in
          pbind (\<lambda>s. (Some (), s\<lparr>st_stopped := st_stopped s @ [run]\<rparr>)) (\<lambda>_.
          pbind (log_event (EvTimeLimit (q_id e) run limit elapsed err)) (\<lambda>_.
          pbind (write_back env (e\<lparr>q_failure_cause := Some TIME_LIMIT_CAUSE,
             q_reason := Some (''time limit '' @ show_int limit @ '' min exceeded after '' @
               te_render env (PFloat elapsed) @ '' min; run stopped'')\<rparr>)) (\<lambda>_.
          pret True)))))"

section \<open>Why a run failed\<close>

definition signal_label :: "(pyval \<Rightarrow> string) \<Rightarrow> pyval \<Rightarrow> string" where
  "signal_label render item = (case item of
     PDict d \<Rightarrow> py_strip (str_or_empty render (dget d ''signal'')) | _ \<Rightarrow> [])"

definition reconcile_failure_cause :: "(pyval \<Rightarrow> string) \<Rightarrow> pydict \<Rightarrow> string \<Rightarrow> string" where
  "reconcile_failure_cause render report reason =
     py_join '' | '' (filter (\<lambda>p. p \<noteq> [])
       ([py_strip (str_or_empty render (dget report ''abort_reason'')),
         py_strip (str_or_empty render (dget report ''failure_reason''))] @
        (case dget report ''runtime_signals'' of
           PList items \<Rightarrow> filter (\<lambda>l. l \<noteq> []) (map (signal_label render) items) | _ \<Rightarrow> []) @
        [reason]))"

definition classify_interrupted_by_restart :: "settle_env \<Rightarrow> string \<Rightarrow> pydict \<Rightarrow> string option" where
  "classify_interrupted_by_restart env run status =
     classify_worker_death (te_render env) (dget status ''failure_reason'') (te_owner env run) (rv_epoch (te_recovery env))"

text \<open>The recovery, with the entry object as it leaves it.\<close>

definition recover_interrupted_run :: "settle_env \<Rightarrow> pydict \<Rightarrow> queue_entry \<Rightarrow> queue_entry settle" where
  "recover_interrupted_run env status failed s =
     (let rs = \<lparr>rs_store = st_queue s, rs_reports = st_reports s, rs_stashes = st_stashes s\<rparr>
      in case reconcile_interrupted_run (te_recovery env) status (te_owner env (run_of failed)) failed rs of
           (r, failed', rs') \<Rightarrow>
             let s1 = s\<lparr>st_pass := (st_pass s)\<lparr>ps_store := rs_store rs'\<rparr>, st_reports := rs_reports rs',
                        st_stashes := rs_stashes rs'\<rparr>
             in case r of
                  Inl (QueueExn (QValueError m)) \<Rightarrow>
                    pbind (lift_pass (emit (EvRequeueError (q_id failed) (take 200 m)))) (\<lambda>_. pret failed') s1
                | Inl x \<Rightarrow> (None, s1\<lparr>st_pass := (st_pass s1)\<lparr>ps_error := Some x\<rparr>\<rparr>)
                | Inr None \<Rightarrow> (Some failed', s1)
                | Inr (Some suc) \<Rightarrow>
                    pbind (lift_pass (emit (EvRequeued (q_id failed) (q_id suc) INTERRUPTED_BY_RESTART (q_attempt suc))))
                      (\<lambda>_. pret failed') s1)"

section \<open>Settling one entry\<close>

definition MAX_REASON_LEN :: nat where "MAX_REASON_LEN = 4000"

definition run_status_of :: "pydict \<Rightarrow> pyval" where
  "run_status_of status = (if truthy (dget status ''status'') then dget status ''status'' else PStr ''unknown'')"

definition completion_satisfied :: "settle_state \<Rightarrow> string \<Rightarrow> bool" where
  "completion_satisfied s run = (dget (report_dict (st_reports s) run) ''completion_satisfied'' = PBool True)"

definition run_done :: "settle_env \<Rightarrow> settle_state \<Rightarrow> string \<Rightarrow> bool" where
  "run_done env s run = (run_status_of (te_status env run) = PStr ''completed'' \<or> completion_satisfied s run)"

definition failure_cause_of :: "settle_env \<Rightarrow> settle_state \<Rightarrow> queue_entry \<Rightarrow> string" where
  "failure_cause_of env s e =
     (let run = run_of e;
          cause = reconcile_failure_cause (te_render env) (report_dict (st_reports s) run)
            (''run '' @ py_str (te_render env) (run_status_of (te_status env run)))
      in if q_failure_cause e = Some TIME_LIMIT_CAUSE then TIME_LIMIT_CAUSE @ '' | '' @ cause else cause)"

definition settle_done :: "settle_env \<Rightarrow> queue_entry \<Rightarrow> queue_entry option settle" where
  "settle_done env e =
     (let run = run_of e; rs = run_status_of (te_status env run) in
      pbind (lift_pass (store_call (\<lambda>q. q_mark_done q (q_id e)
         (Some (if rs = PStr ''completed'' then ''run completed''
                else ''run '' @ py_str (te_render env) rs @ '' with completion satisfied'')) (te_now env)))) (\<lambda>u.
      pbind (log_event (EvDone (q_id e) run)) (\<lambda>_. pret u)))"

definition settle_failed :: "settle_env \<Rightarrow> queue_entry \<Rightarrow> queue_entry option settle" where
  "settle_failed env e s =
     (let run = run_of e; status = te_status env run;
          interrupted = classify_interrupted_by_restart env run status;
          cause = (case interrupted of Some c \<Rightarrow> c | None \<Rightarrow> failure_cause_of env s e) in
      pbind (lift_pass (store_call (\<lambda>q. q_mark_failed q (q_id e) (take MAX_REASON_LEN cause) (te_now env)))) (\<lambda>u.
      pbind (case (interrupted, u) of
               (Some c, Some f) \<Rightarrow> pbind (write_back env (f\<lparr>q_failure_cause := Some c\<rparr>)) (\<lambda>f'. pret (Some f'))
             | _ \<Rightarrow> pret u) (\<lambda>u1.
      pbind (log_event (EvFailed (q_id e) run (py_str (te_render env) (run_status_of status)) (interrupted \<noteq> None))) (\<lambda>_.
      case u1 of
        None \<Rightarrow> pret None
      | Some f \<Rightarrow>
          if interrupted \<noteq> None then pbind (recover_interrupted_run env status f) (\<lambda>f'. pret (Some f'))
          else if is_retryable_cause cause
          then pbind (lift_pass (handle_retry (te_launch env) f cause)) (\<lambda>_. pret (Some f))
          else pret (Some f)))) s)"

definition run_open :: "settle_env \<Rightarrow> string \<Rightarrow> bool" where
  "run_open env run =
     (canonical_lifecycle_status (te_render env) (dget (te_status env run) ''status'') ''idle'' \<in> set ACTIVE_STATUSES \<or>
      run \<in> set (te_maintenance env))"

definition settle_entry :: "settle_env \<Rightarrow> active_scan \<Rightarrow> queue_entry \<Rightarrow> unit settle" where
  "settle_entry env active e s =
     (let run = run_of e in
      if q_status e \<noteq> Launched \<or> run = [] then (Some (), s)
      else if run \<in> fst ` set active then pbind (enforce_time_limit env e) (\<lambda>_. pret ()) s
      else if run_open env run then (Some (), s)
      else pbind (if run_done env s run then settle_done env e else settle_failed env e)
             (\<lambda>u. lift_pass (touch (te_now env) u)) s)"

fun settle_entries :: "settle_env \<Rightarrow> active_scan \<Rightarrow> queue_entry list \<Rightarrow> unit settle" where
  "settle_entries env active [] s = (Some (), s)"
| "settle_entries env active (e # es) s = pbind (settle_entry env active e) (\<lambda>_. settle_entries env active es) s"

definition update_launched_entries :: "settle_env \<Rightarrow> active_scan \<Rightarrow> unit settle" where
  "update_launched_entries env active s = settle_entries env active (q_list (st_queue s)) s"

section \<open>The whole pass\<close>

text \<open>
  \<open>_run_pass\<close> after the configuration is loaded: the entries are listed before the launched
  ones are brought up to date. The contention check in between only reports.
\<close>

definition run_pass ::
    "settle_env \<Rightarrow> active_scan \<Rightarrow> bool \<Rightarrow> nat \<Rightarrow> stall_state \<Rightarrow> settle_state
     \<Rightarrow> unit option \<times> stall_state \<times> settle_state" where
  "run_pass env active sticky threshold stall s =
     (let entries = q_list (st_queue s) in
      case update_launched_entries env active s of
        (None, s1) \<Rightarrow> (None, stall, s1)
      | (Some _, s1) \<Rightarrow>
          (case launch_pass (te_launch env) entries (st_queue s1) active sticky of
             (r, p) \<Rightarrow>
               (r, if r = None then stall else update_stall_detector threshold stall (ps_eligible p, ps_launched p),
                s1\<lparr>st_pass := p\<lparr>ps_events := ps_events (st_pass s1) @ ps_events p\<rparr>\<rparr>)))"

section \<open>Lemmas\<close>

lemmas settle_simps = pbind_def pret_def lift_pass_def log_event_def store_call_def emit_def write_back_def
  st_queue_def q_update_def Let_def

lemma mark_launched_entry:
  assumes "safe_queue_id (q_id e)" and "q_lookup q (q_id e) = Some e" and "q_status e = Launched"
  shows "q_mark_done q (q_id e) (Some r) now =
      Inr (Some (e\<lparr>q_status := Done, q_reason := Some (bounded_reason r), q_updated_at := now\<rparr>),
           q_write q (e\<lparr>q_status := Done, q_reason := Some (bounded_reason r), q_updated_at := now\<rparr>))"
    and "q_mark_failed q (q_id e) r now =
      Inr (Some (e\<lparr>q_status := Failed, q_reason := Some (bounded_reason r), q_updated_at := now\<rparr>),
           q_write q (e\<lparr>q_status := Failed, q_reason := Some (bounded_reason r), q_updated_at := now\<rparr>))"
  using assms by (simp_all add: q_mark_done_def q_mark_failed_def with_entry_def q_get_def q_path_def q_update_def Let_def)

text \<open>What a step leaves alone: every entry but \<open>i\<close> and \<open>j\<close>.\<close>

definition except2 :: "queue_store \<Rightarrow> queue_store \<Rightarrow> string \<Rightarrow> string \<Rightarrow> bool" where
  "except2 q q' i j = (\<forall>k. k \<noteq> i \<longrightarrow> k \<noteq> j \<longrightarrow> q_lookup q' k = q_lookup q k)"

lemma except2_refl [simp]: "except2 q q i j"
  by (simp add: except2_def)

lemma except2_trans: "except2 q q1 i j \<Longrightarrow> except2 q1 q2 i j \<Longrightarrow> except2 q q2 i j"
  by (simp add: except2_def)

lemma except2_write [simp]: "q_id e = i \<or> q_id e = j \<Longrightarrow> except2 q (q_write q e) i j"
  by (auto simp: except2_def)

lemma requeue_result:
  "q_requeue cfg q i cause a hex now = Inl x \<Longrightarrow> \<exists>m. x = QueueExn (QValueError m)"
  "q_requeue cfg q i cause a hex now = Inr (r, q') \<Longrightarrow> except2 q q' i (''q-'' @ hex)"
  by (auto simp: q_requeue_def q_get_def q_path_def rbind_eq_Inl q_requeue_Inr successor_entry_def Let_def except2_def
      split: option.splits if_splits)

definition same_identity :: "queue_entry \<Rightarrow> queue_entry \<Rightarrow> bool" where
  "same_identity e e' = (q_id e' = q_id e \<and> q_status e' = q_status e \<and> q_run_id e' = q_run_id e)"

lemma reconcile_frame:
  assumes "reconcile_interrupted_run env status owner e s = (r, e', s')"
  shows "\<forall>x. r = Inl x \<longrightarrow> (\<exists>m. x = QueueExn (QValueError m))"
    and "same_identity e e'" and "except2 (rs_store s) (rs_store s') (q_id e) (''q-'' @ rv_fresh env (q_id e))"
    and "dget (report_dict (rs_reports s') run) ''completion_satisfied'' =
         dget (report_dict (rs_reports s) run) ''completion_satisfied''"
proof -
  let ?P = "(\<forall>x. r = Inl x \<longrightarrow> (\<exists>m. x = QueueExn (QValueError m))) \<and> same_identity e e' \<and>
     except2 (rs_store s) (rs_store s') (q_id e) (''q-'' @ rv_fresh env (q_id e)) \<and>
     dget (report_dict (rs_reports s') run) ''completion_satisfied'' =
       dget (report_dict (rs_reports s) run) ''completion_satisfied''"
  have reports: "dget (report_dict (rs_reports (log_stash_in_report env r0 n ws l t)) run) ''completion_satisfied'' =
      dget (report_dict (rs_reports t) run) ''completion_satisfied''" for r0 n ws l t
    by (simp add: log_stash_in_report_def Let_def report_dict_def dget_def)
  have ?P
  proof (cases "may_recover env status owner e (rs_store s)")
    case False
    then show ?thesis using assms by (auto simp: reconcile_idle same_identity_def)
  next
    case may: True
    show ?thesis
    proof (cases "ef_decided (found_effects env e)")
      case False
      then show ?thesis using assms reconcile_undecided [OF may]
        by (auto simp: mark_needs_review_def put_entry_def q_update_def Let_def same_identity_def)
    next
      case True
      let ?q = "q_requeue (rv_max_retries env) (rs_store s) (q_id e) INTERRUPTED_BY_RESTART
             (restart_requeue (found_effects env e) (run_of e)) (rv_fresh env (q_id e)) (rv_now env)"
      show ?thesis
      proof (cases ?q)
        case (Inl x)
        then show ?thesis using assms requeue_result(1) [OF Inl] reconcile_decided [OF may True]
          by (auto simp: Let_def same_identity_def split: if_splits)
      next
        case (Inr p)
        obtain o1 q where p: "p = (o1, q)" by fastforce
        note fr = requeue_result(2) [OF Inr [unfolded p]]
        show ?thesis
          using assms Inr p fr reconcile_decided [OF may True] reports
          by (auto simp: Let_def same_identity_def record_successor_def put_entry_def q_update_def
              split: if_splits option.splits elim!: except2_trans)
      qed
    qed
  qed
  then show "\<forall>x. r = Inl x \<longrightarrow> (\<exists>m. x = QueueExn (QValueError m))"
    "same_identity e e'" "except2 (rs_store s) (rs_store s') (q_id e) (''q-'' @ rv_fresh env (q_id e))"
    "dget (report_dict (rs_reports s') run) ''completion_satisfied'' =
         dget (report_dict (rs_reports s) run) ''completion_satisfied''" by blast+
qed

lemma handle_retry_frame:
  "\<exists>p'. handle_retry env f cause p = (Some (), p') \<and>
     except2 (ps_store p) (ps_store p') (q_id f) (''q-'' @ le_fresh env (q_id f))"
  by (auto simp: handle_retry_def emit_def Let_def split: sum.splits prod.splits option.splits store_exn.splits queue_exn.splits
      dest: requeue_result)

definition minted :: "settle_env \<Rightarrow> string set" where
  "minted env = range (\<lambda>k. ''q-'' @ le_fresh (te_launch env) k) \<union> range (\<lambda>k. ''q-'' @ rv_fresh (te_recovery env) k)"

text \<open>Everything but entry \<open>i\<close> and the freshly minted ones is as it was, and so is what the reports say.\<close>

definition settles_only :: "settle_env \<Rightarrow> string \<Rightarrow> settle_state \<Rightarrow> settle_state \<Rightarrow> bool" where
  "settles_only env i s s' =
     ((\<forall>k. k \<noteq> i \<longrightarrow> k \<notin> minted env \<longrightarrow> q_lookup (st_queue s') k = q_lookup (st_queue s) k) \<and>
      (\<forall>run. completion_satisfied s' run = completion_satisfied s run))"

lemma except2_minted:
  "except2 q q' i (''q-'' @ le_fresh (te_launch env) x) \<Longrightarrow> k \<noteq> i \<Longrightarrow> k \<notin> minted env \<Longrightarrow> q_lookup q' k = q_lookup q k"
  by (auto simp: except2_def minted_def)

lemma recover_frame:
  "\<exists>f' s'. recover_interrupted_run env status f s = (Some f', s') \<and> same_identity f f' \<and> settles_only env (q_id f) s s'"
proof -
  let ?rs = "\<lparr>rs_store = st_queue s, rs_reports = st_reports s, rs_stashes = st_stashes s\<rparr>"
  obtain r f' rs' where r: "reconcile_interrupted_run (te_recovery env) status (te_owner env (run_of f)) f ?rs = (r, f', rs')"
    by (metis prod_cases3)
  note fr = reconcile_frame [OF r]
  have "same_identity f f'" "\<forall>k. k \<noteq> q_id f \<longrightarrow> k \<notin> minted env \<longrightarrow> q_lookup (rs_store rs') k = q_lookup (st_queue s) k"
    "\<And>run. dget (report_dict (rs_reports rs') run) ''completion_satisfied'' = dget (report_dict (st_reports s) run) ''completion_satisfied''"
    using fr by (auto simp: except2_def minted_def)
  then show ?thesis
    using r fr(1) by (auto simp: recover_interrupted_run_def settle_simps settles_only_def completion_satisfied_def
        split: sum.splits option.splits)
qed

lemma settles_only_trans: "settles_only env i s s1 \<Longrightarrow> settles_only env i s1 s2 \<Longrightarrow> settles_only env i s s2"
  by (simp add: settles_only_def)

lemma settles_only_write:
  "st_queue s' = q_write (st_queue s) e \<Longrightarrow> st_reports s' = st_reports s \<Longrightarrow> settles_only env (q_id e) s s'"
  by (simp add: settles_only_def completion_satisfied_def)

lemma settle_done_result:
  assumes "safe_queue_id (q_id e)" and "q_lookup (st_queue s) (q_id e) = Some e" and "q_status e = Launched"
  shows "\<exists>e' s'. settle_done env e s = (Some (Some e'), s') \<and> q_id e' = q_id e \<and> q_run_id e' = q_run_id e \<and>
     q_status e' = Done \<and> settles_only env (q_id e) s s'"
  using mark_launched_entry(1) [OF assms]
  by (auto simp: settle_done_def settle_simps settles_only_def completion_satisfied_def)

lemma settle_failed_result:
  assumes "safe_queue_id (q_id e)" and "q_lookup (st_queue s) (q_id e) = Some e" and "q_status e = Launched"
  shows "\<exists>e' s'. settle_failed env e s = (Some (Some e'), s') \<and> q_id e' = q_id e \<and> q_run_id e' = q_run_id e \<and>
     q_status e' = Failed \<and> settles_only env (q_id e) s s'"
proof -
  define run where "run = run_of e"
  define intr where "intr = classify_interrupted_by_restart env run (te_status env run)"
  define cause where "cause = (case intr of Some c \<Rightarrow> c | None \<Rightarrow> failure_cause_of env s e)"
  define f where "f = e\<lparr>q_status := Failed, q_reason := Some (bounded_reason (take MAX_REASON_LEN cause)),
    q_updated_at := te_now env\<rparr>"
  define f1 where "f1 = (case intr of None \<Rightarrow> f | Some c \<Rightarrow> f\<lparr>q_failure_cause := Some c, q_updated_at := te_now env\<rparr>)"
  define s1 where "s1 = s\<lparr>st_pass := (st_pass s)\<lparr>ps_store := (case intr of None \<Rightarrow> q_write (st_queue s) f
      | Some _ \<Rightarrow> q_write (q_write (st_queue s) f) f1)\<rparr>,
    st_log := st_log s @ [EvFailed (q_id e) run (py_str (te_render env) (run_status_of (te_status env run))) (intr \<noteq> None)]\<rparr>"
  have f1: "q_id f1 = q_id e" "q_run_id f1 = q_run_id e" "q_status f1 = Failed"
    by (simp_all add: f1_def f_def split: option.splits)
  have s1: "settles_only env (q_id e) s s1"
    using f1(1) by (auto simp: settles_only_def s1_def st_queue_def completion_satisfied_def f_def split: option.splits)
  have "settle_failed env e s =
      (if intr \<noteq> None then pbind (recover_interrupted_run env (te_status env run) f1) (\<lambda>f'. pret (Some f'))
       else if is_retryable_cause cause
       then pbind (lift_pass (handle_retry (te_launch env) f1 cause)) (\<lambda>_. pret (Some f1))
       else pret (Some f1)) s1"
    unfolding settle_failed_def Let_def run_def [symmetric] intr_def [symmetric] cause_def [symmetric]
    using mark_launched_entry(2) [OF assms, of "take MAX_REASON_LEN cause" "te_now env"]
    by (auto simp: settle_simps f_def f1_def s1_def split: option.splits)
  moreover have "\<exists>e' s'. pbind (recover_interrupted_run env st f1) (\<lambda>f'. pret (Some f')) s1 = (Some (Some e'), s') \<and>
      q_id e' = q_id e \<and> q_run_id e' = q_run_id e \<and> q_status e' = Failed \<and> settles_only env (q_id e) s s'" for st
    using recover_frame [of env st f1 s1] f1 s1
    by (auto simp: pbind_def pret_def same_identity_def intro: settles_only_trans)
  moreover have "\<exists>s'. pbind (lift_pass (handle_retry (te_launch env) f1 cause)) (\<lambda>_. pret (Some f1)) s1 = (Some (Some f1), s') \<and>
      settles_only env (q_id e) s s'"
  proof -
    obtain p' where p: "handle_retry (te_launch env) f1 cause (st_pass s1) = (Some (), p')"
      and fr: "except2 (st_queue s1) (ps_store p') (q_id e) (''q-'' @ le_fresh (te_launch env) (q_id e))"
      using handle_retry_frame [of "te_launch env" f1 cause "st_pass s1"] f1(1) by (auto simp: st_queue_def)
    have "settles_only env (q_id e) s1 (s1\<lparr>st_pass := p'\<rparr>)"
      using except2_minted [OF fr] by (simp add: settles_only_def st_queue_def completion_satisfied_def)
    then show ?thesis using p settles_only_trans [OF s1] by (auto simp: pbind_def pret_def lift_pass_def)
  qed
  ultimately show ?thesis using f1 s1 by (auto simp: pret_def)
qed

text \<open>The status an entry has after its turn.\<close>

definition ended :: "settle_env \<Rightarrow> active_scan \<Rightarrow> queue_entry \<Rightarrow> bool" where
  "ended env active e = (q_status e = Launched \<and> run_of e \<noteq> [] \<and> run_of e \<notin> fst ` set active \<and> \<not> run_open env (run_of e))"

definition settled_status :: "settle_env \<Rightarrow> active_scan \<Rightarrow> settle_state \<Rightarrow> queue_entry \<Rightarrow> qstatus" where
  "settled_status env active s e =
     (if ended env active e then (if run_done env s (run_of e) then Done else Failed) else q_status e)"

lemma settle_entry_result:
  assumes "safe_queue_id (q_id e)" and "q_lookup (st_queue s) (q_id e) = Some e"
  shows "\<exists>e' s'. settle_entry env active e s = (Some (), s') \<and> q_lookup (st_queue s') (q_id e) = Some e' \<and>
     q_run_id e' = q_run_id e \<and> q_status e' = settled_status env active s e \<and> settles_only env (q_id e) s s'"
proof (cases "ended env active e")
  case True
  then have l: "q_status e = Launched" by (simp add: ended_def)
  let ?m = "if run_done env s (run_of e) then settle_done env e else settle_failed env e"
  obtain e' s1 where m: "?m s = (Some (Some e'), s1)" and e': "q_id e' = q_id e" "q_run_id e' = q_run_id e"
    "q_status e' = (if run_done env s (run_of e) then Done else Failed)" and s1: "settles_only env (q_id e) s s1"
    using settle_done_result [OF assms l, of env] settle_failed_result [OF assms l, of env]
    by (cases "run_done env s (run_of e)") fastforce+
  have "settle_entry env active e s = lift_pass (touch (te_now env) (Some e')) s1"
    using True m by (simp add: settle_entry_def ended_def Let_def pbind_def)
  then show ?thesis
    using e' s1 True
    by (auto simp: lift_pass_def touch_def q_update_def Let_def settled_status_def settles_only_def st_queue_def
        completion_satisfied_def read_file_def VALID_STATUS_def)
next
  case False
  have v: "q_status e \<in> set VALID_STATUS" using assms(2) by (rule q_lookup_valid)
  show ?thesis
  proof (cases "q_status e = Launched \<and> run_of e \<noteq> [] \<and> run_of e \<in> fst ` set active")
    case True
    then show ?thesis
      using False assms(2) v
      by (auto simp: settle_entry_def enforce_time_limit_def settle_simps settled_status_def settles_only_def
          completion_satisfied_def read_file_def split: option.splits)
  next
    case c: False
    then have "settle_entry env active e s = (Some (), s)"
      using False by (auto simp: settle_entry_def ended_def Let_def)
    then show ?thesis using False assms(2) by (simp add: settled_status_def settles_only_def)
  qed
qed

lemma settled_status_reports:
  "(\<And>run. completion_satisfied s' run = completion_satisfied s run) \<Longrightarrow>
     settled_status env active s' e = settled_status env active s e"
  by (simp add: settled_status_def run_done_def)

lemma settle_entries_result:
  assumes "distinct (map q_id es)" and "q_id ` set es \<inter> minted env = {}"
    and "\<And>e. e \<in> set es \<Longrightarrow> safe_queue_id (q_id e) \<and> q_lookup (st_queue s) (q_id e) = Some e"
  shows "\<exists>s'. settle_entries env active es s = (Some (), s') \<and>
     (\<forall>e\<in>set es. \<exists>e'. q_lookup (st_queue s') (q_id e) = Some e' \<and> q_run_id e' = q_run_id e \<and>
        q_status e' = settled_status env active s e) \<and>
     (\<forall>k. k \<notin> q_id ` set es \<longrightarrow> k \<notin> minted env \<longrightarrow> q_lookup (st_queue s') k = q_lookup (st_queue s) k)"
  using assms
proof (induction es arbitrary: s)
  case (Cons e es)
  obtain e' s1 where step: "settle_entry env active e s = (Some (), s1)" and e': "q_lookup (st_queue s1) (q_id e) = Some e'"
    "q_run_id e' = q_run_id e" "q_status e' = settled_status env active s e" and only: "settles_only env (q_id e) s s1"
    using settle_entry_result [of e s env active] Cons.prems(3) [of e] by auto
  have same: "q_lookup (st_queue s1) k = q_lookup (st_queue s) k" if "k \<noteq> q_id e" "k \<notin> minted env" for k
    using only that by (simp add: settles_only_def)
  have st: "settled_status env active s1 x = settled_status env active s x" for x
    using only by (intro settled_status_reports) (simp add: settles_only_def)
  have "safe_queue_id (q_id x) \<and> q_lookup (st_queue s1) (q_id x) = Some x" if "x \<in> set es" for x
  proof -
    have "q_id x \<in> q_id ` set es" using that by simp
    then have "q_id x \<noteq> q_id e" "q_id x \<notin> minted env" using Cons.prems(1,2) by auto
    then show ?thesis using that Cons.prems(3) [of x] same by simp
  qed
  with Cons.IH [of s1] Cons.prems obtain s' where s': "settle_entries env active es s1 = (Some (), s')"
    "\<forall>x\<in>set es. \<exists>x'. q_lookup (st_queue s') (q_id x) = Some x' \<and> q_run_id x' = q_run_id x \<and>
        q_status x' = settled_status env active s1 x"
    "\<forall>k. k \<notin> q_id ` set es \<longrightarrow> k \<notin> minted env \<longrightarrow> q_lookup (st_queue s') k = q_lookup (st_queue s1) k" by auto
  have "q_lookup (st_queue s') (q_id e) = Some e'" using s'(3) e'(1) Cons.prems(1,2) by auto
  then have here: "\<exists>e'. q_lookup (st_queue s') (q_id e) = Some e' \<and> q_run_id e' = q_run_id e \<and> q_status e' = settled_status env active s e"
    using e' by blast
  have "settle_entries env active (e # es) s = (Some (), s')" using step s'(1) by (simp add: pbind_def)
  then show ?case using here s'(2,3) st same by auto
qed simp

lemma safe_queue_listing:
  assumes "safe_queue cfg q"
  shows "distinct (map q_id (q_list q))"
    and "e \<in> set (q_list q) \<longleftrightarrow> q_lookup q (q_id e) = Some e"
    and "q_lookup q k = Some e \<Longrightarrow> e \<in> set (q_list q) \<and> q_id e = k \<and> safe_queue_id k"
proof -
  have d: "distinct (map fst (qs_files q))" using assms by (simp add: safe_queue_def queue_wf_def)
  show in3: "q_lookup q k = Some e \<Longrightarrow> e \<in> set (q_list q) \<and> q_id e = k \<and> safe_queue_id k" for k e
    using safe_queue_lookup [OF assms] set_q_readable [OF d] by auto
  show "e \<in> set (q_list q) \<longleftrightarrow> q_lookup q (q_id e) = Some e" for e
    using set_q_readable [OF d] safe_queue_lookup(2) [OF assms] by auto
  have pairs: "(k, f) \<in> set (qs_files q) \<Longrightarrow> read_file f = Some e \<Longrightarrow> q_id e = k" for k f e
    using in3 [of k e] d by (simp add: q_lookup_def)
  then have "map q_id (List.map_filter (\<lambda>p. read_file (snd p)) fs) =
      List.map_filter (\<lambda>p. map_option (\<lambda>_. fst p) (read_file (snd p))) fs" if "set fs \<subseteq> set (qs_files q)" for fs
    using that by (induction fs) (auto simp: map_filter_simps split: option.splits)
  moreover have "distinct (List.map_filter (\<lambda>p. map_option (\<lambda>_. fst p) (read_file (snd p))) fs)" if "distinct (map fst fs)" for fs
    using that
  proof (induction fs)
    case (Cons p fs)
    have "set (List.map_filter (\<lambda>p. map_option (\<lambda>_. fst p) (read_file (snd p))) fs) \<subseteq> fst ` set fs"
      by (force simp: map_filter_def)
    then show ?case using Cons by (auto simp: map_filter_simps split: option.splits)
  qed (simp add: map_filter_simps)
  ultimately have "distinct (map q_id (q_readable q))" using d by (simp add: q_readable_def)
  moreover have "mset (map q_id (q_list q)) = mset (map q_id (q_readable q))" by (simp add: q_list_def)
  ultimately show "distinct (map q_id (q_list q))" by (metis mset_eq_imp_distinct_iff)
qed

lemma safe_queue_keys: "q_lookup q k = Some e \<Longrightarrow> k \<in> fst ` set (qs_files q)"
  by (auto simp: q_lookup_def bind_eq_Some_conv dest: map_of_SomeD intro: rev_image_eqI)

lemma safe_queue_entries:
  assumes "safe_queue cfg q" and "fst ` set (qs_files q) \<inter> M = {}" and "e \<in> set (q_list q)"
  shows "safe_queue_id (q_id e) \<and> q_lookup q (q_id e) = Some e" and "q_id e \<notin> M"
proof -
  have look: "q_lookup q (q_id e) = Some e" using assms(3) safe_queue_listing(2) [OF assms(1)] by blast
  then show "safe_queue_id (q_id e) \<and> q_lookup q (q_id e) = Some e" using safe_queue_lookup(1) [OF assms(1)] by blast
  show "q_id e \<notin> M" using safe_queue_keys [OF look] assms(2) by blast
qed

lemma update_launched_result:
  assumes "safe_queue cfg (st_queue s)" and "fst ` set (qs_files (st_queue s)) \<inter> minted env = {}"
  obtains s' where "update_launched_entries env active s = (Some (), s')"
    and "\<And>k e. q_lookup (st_queue s) k = Some e \<Longrightarrow>
      \<exists>e'. q_lookup (st_queue s') k = Some e' \<and> q_run_id e' = q_run_id e \<and> q_status e' = settled_status env active s e"
proof -
  note l = safe_queue_listing [OF assms(1)]
  have disj: "q_id ` set (q_list (st_queue s)) \<inter> minted env = {}"
    using safe_queue_entries(2) [OF assms] by (auto simp del: set_q_list)
  obtain s' where s': "settle_entries env active (q_list (st_queue s)) s = (Some (), s')"
    and e': "\<forall>e\<in>set (q_list (st_queue s)). \<exists>e'. q_lookup (st_queue s') (q_id e) = Some e' \<and> q_run_id e' = q_run_id e \<and>
        q_status e' = settled_status env active s e"
    using settle_entries_result [OF l(1) disj safe_queue_entries(1) [OF assms], of active] by blast
  have "\<exists>e'. q_lookup (st_queue s') k = Some e' \<and> q_run_id e' = q_run_id e \<and> q_status e' = settled_status env active s e"
    if "q_lookup (st_queue s) k = Some e" for k e
    using l(3) [OF that] bspec [OF e', of e] by blast
  with s' that show ?thesis unfolding update_launched_entries_def by blast
qed

lemma settle_failed_plain:
  assumes "safe_queue_id (q_id e)" and "q_lookup (st_queue s) (q_id e) = Some e" and "q_status e = Launched"
    and "classify_interrupted_by_restart env (run_of e) (te_status env (run_of e)) = None"
    and "\<not> is_retryable_cause (failure_cause_of env s e)"
  shows "\<exists>f s'. settle_failed env e s = (Some (Some f), s') \<and> q_id f = q_id e \<and> q_status f = Failed \<and>
     st_queue s' = q_write (st_queue s) f"
  using assms(4,5) mark_launched_entry(2) [OF assms(1-3)]
  by (auto simp: settle_failed_def settle_simps)

subsection \<open>A concrete launcher\<close>

definition demo_settle_env :: settle_env where
  "demo_settle_env = \<lparr>te_launch = demo_launch_env, te_recovery = demo_recovery_env,
     te_status = (\<lambda>_. [(''status'', PStr ''failed''), (''failure_reason'', PStr ''worker disappeared without a final report'')]),
     te_owner = (\<lambda>r. [(''supervisor_pid'', PInt (if r = ''r1'' then 2 else 1))]),
     te_maintenance = [], te_stop = (\<lambda>_. None)\<rparr>"

definition demo_launched :: "string \<Rightarrow> queue_entry" where
  "demo_launched run = demo_entry\<lparr>q_status := Launched, q_run_id := Some run, q_launched_at := Some 10, q_time_limit := Some 1\<rparr>"

definition settle_state_of :: "queue_entry \<Rightarrow> settle_state" where
  "settle_state_of e = \<lparr>st_pass = pass_start demo_launch_env \<lparr>qs_files = [(''q-1'', QEntry e)], qs_drain = None, qs_audit = []\<rparr> [] False,
     st_reports = [], st_stashes = [], st_stopped = [], st_log = []\<rparr>"

section \<open>Properties\<close>



text \<open>The time limit of a run. An active run is stopped exactly when its entry has a limit (its own or
  the configured one), was launched longer ago than that, and was not stopped for it before; the
  entry stays launched with its run, and is never stopped for the limit again.\<close>

lemma time_limit_enforced:
  assumes "q_status e \<in> set VALID_STATUS"
  shows "\<exists>r s'. enforce_time_limit env e s = (Some r, s') \<and>
     (r \<longleftrightarrow> q_failure_cause e \<noteq> Some TIME_LIMIT_CAUSE \<and>
        (\<exists>limit t. time_limit_minutes (pe_config (le_probe (te_launch env))) e = Some limit \<and> q_launched_at e = Some t \<and>
           t \<noteq> 0 \<and> te_now env - t > of_int limit * 60)) \<and>
     (if r then st_stopped s' = st_stopped s @ [run_of e] \<and>
        (\<exists>e'. q_lookup (st_queue s') (q_id e) = Some e' \<and> q_status e' = q_status e \<and> run_of e' = run_of e \<and>
           (\<forall>env2 s2. enforce_time_limit env2 e' s2 = (Some False, s2)))
      else s' = s)"
  using assms
  by (auto simp: enforce_time_limit_def over_limit_def settle_simps read_file_def run_of_def split: option.splits)

lemma time_limit_enforced_witness:
  "\<exists>s'. enforce_time_limit demo_settle_env (demo_launched ''r1'') (settle_state_of (demo_launched ''r1'')) = (Some True, s') \<and>
     st_stopped s' = [''r1'']"
proof -
  let ?e = "demo_launched ''r1''" and ?s = "settle_state_of (demo_launched ''r1'')"
  have e: "q_status ?e \<in> set VALID_STATUS" "run_of ?e = ''r1''" "st_stopped ?s = []"
    by (simp_all add: VALID_STATUS_def run_of_def demo_launched_def settle_state_of_def)
  have t: "fst (enforce_time_limit demo_settle_env ?e ?s) = Some True" by code_simp
  from time_limit_enforced [OF e(1), of demo_settle_env ?s] e t show ?thesis by (auto split: if_splits)
qed

text \<open>A run stopped for its time limit has no successor. When the entry of such a run is settled as
  failed and the run's worker did not disappear in a restart of the service, no entry but its
  own changes: nothing is queued again, whatever the run's report says.\<close>

lemma time_limited_no_successor:
  assumes "safe_queue_id (q_id e)" and "q_lookup (st_queue s) (q_id e) = Some e" and "ended env active e"
    and "q_failure_cause e = Some TIME_LIMIT_CAUSE" and "\<not> run_done env s (run_of e)"
    and "classify_interrupted_by_restart env (run_of e) (te_status env (run_of e)) = None"
  shows "\<exists>s'. settle_entry env active e s = (Some (), s') \<and>
     (\<exists>e'. q_lookup (st_queue s') (q_id e) = Some e' \<and> q_status e' = Failed) \<and>
     (\<forall>k. k \<noteq> q_id e \<longrightarrow> q_lookup (st_queue s') k = q_lookup (st_queue s) k)"
proof -
  have l: "q_status e = Launched" using assms(3) by (simp add: ended_def)
  have "\<not> is_retryable_cause (failure_cause_of env s e)"
    using assms(4) time_limit_not_retryable by (simp add: failure_cause_of_def Let_def)
  then obtain f s1 where "settle_failed env e s = (Some (Some f), s1)" "q_id f = q_id e" "q_status f = Failed"
    "st_queue s1 = q_write (st_queue s) f"
    using settle_failed_plain [OF assms(1,2) l assms(6)] by blast
  then show ?thesis
    using assms(3,5)
    by (auto simp: settle_entry_def ended_def pbind_def lift_pass_def touch_def q_update_def st_queue_def Let_def
        read_file_def VALID_STATUS_def)
qed

lemma time_limited_no_successor_witness:
  "\<exists>s'. settle_entry demo_settle_env [] ((demo_launched ''r1'')\<lparr>q_failure_cause := Some TIME_LIMIT_CAUSE\<rparr>)
      (settle_state_of ((demo_launched ''r1'')\<lparr>q_failure_cause := Some TIME_LIMIT_CAUSE\<rparr>)) = (Some (), s') \<and>
     q_lookup (st_queue s') ''q-2'' = None"
proof -
  let ?e = "(demo_launched ''r1'')\<lparr>q_failure_cause := Some TIME_LIMIT_CAUSE\<rparr>" and ?env = demo_settle_env
  let ?s = "settle_state_of ?e"
  have q: "st_queue ?s = \<lparr>qs_files = [(''q-1'', QEntry ?e)], qs_drain = None, qs_audit = []\<rparr>"
    by (simp add: settle_state_of_def st_queue_def pass_start_def)
  have e: "q_id ?e = ''q-1''" "q_status ?e = Launched" "q_failure_cause ?e = Some TIME_LIMIT_CAUSE"
    by (simp_all add: demo_launched_def demo_entry_def new_entry_def)
  have look: "q_lookup (st_queue ?s) (q_id ?e) = Some ?e" "q_lookup (st_queue ?s) ''q-2'' = None"
    unfolding q e(1) using e(2) by (simp_all add: q_lookup_def read_file_def VALID_STATUS_def)
  have c: "ended ?env [] ?e" "\<not> run_done ?env ?s (run_of ?e)" "safe_queue_id (q_id ?e)"
    "classify_interrupted_by_restart ?env (run_of ?e) (te_status ?env (run_of ?e)) = None" by code_simp+
  from time_limited_no_successor [OF c(3) look(1) c(1) e(3) c(2) c(4)] look(2) e(1) show ?thesis by auto
qed

text \<open>The same run, lost in a restart of the service after it was stopped, is queued again: the restart
  cause replaces the time limit.\<close>

lemma time_limit_lost_to_restart:
  "case settle_entry demo_settle_env [] ((demo_launched ''r9'')\<lparr>q_failure_cause := Some TIME_LIMIT_CAUSE\<rparr>)
      (settle_state_of ((demo_launched ''r9'')\<lparr>q_failure_cause := Some TIME_LIMIT_CAUSE\<rparr>)) of
     (_, s') \<Rightarrow> (case q_lookup (st_queue s') ''q-2'' of Some suc \<Rightarrow> q_status suc = Pending \<and> q_retry_of suc = Some ''q-1''
                  | None \<Rightarrow> False)"
  by code_simp

end
