(* ===== verification/Contention.thy ===== *)
theory Contention
  imports Harness_Prelude "HOL-Library.List_Lexorder" "HOL-Library.Product_Lexorder"
begin

text \<open>
  Workspace contention among active runs (\<open>contention.py\<close>): every pair of active runs is
  given the strongest tier that applies to their workspace identities; pairs at or above the
  reporting threshold are collected into groups, whose severity is the strongest tier seen.
  The SHA-256 digest that names a group is the argument \<open>digest\<close> of what it is taken of.
\<close>

section \<open>Identities and tiers\<close>

record workspace_identity =
  wi_path :: string
  wi_key :: string
  wi_repo_id :: "string option"
  wi_branch :: "string option"
  wi_git_common_dir :: "string option"

datatype tier = SameRepo | SameRepoSameBranch | SharedGitDir | SameTree

fun tier_order :: "tier \<Rightarrow> nat" where
  "tier_order SameRepo = 0"
| "tier_order SameRepoSameBranch = 1"
| "tier_order SharedGitDir = 2"
| "tier_order SameTree = 3"

lemma tier_order_inject: "tier_order a = tier_order b \<longleftrightarrow> a = b"
  by (cases a; cases b) simp_all

instantiation tier :: linorder
begin

definition less_eq_tier :: "tier \<Rightarrow> tier \<Rightarrow> bool" where
  "a \<le> b \<longleftrightarrow> tier_order a \<le> tier_order b"

definition less_tier :: "tier \<Rightarrow> tier \<Rightarrow> bool" where
  "a < b \<longleftrightarrow> tier_order a < tier_order b"

instance
  by standard (auto simp: less_eq_tier_def less_tier_def tier_order_inject)

end

definition tier_of_name :: "string \<Rightarrow> nat" where
  "tier_of_name s = (if s = ''same_repo_same_branch'' then 1 else if s = ''shared_git_dir'' then 2
     else if s = ''same_tree'' then 3 else 0)"

text \<open>\<open>x and x == y\<close> for an optional string.\<close>

definition same_some :: "string option \<Rightarrow> string option \<Rightarrow> bool" where
  "same_some a b = (case a of None \<Rightarrow> False | Some x \<Rightarrow> x \<noteq> [] \<and> b = Some x)"

definition present :: "string option \<Rightarrow> bool" where
  "present a = (case a of None \<Rightarrow> False | Some x \<Rightarrow> x \<noteq> [])"

definition tier_for :: "workspace_identity \<Rightarrow> workspace_identity \<Rightarrow> tier option" where
  "tier_for l r =
     (if wi_key l \<noteq> [] \<and> wi_key l = wi_key r then Some SameTree
      else if same_some (wi_git_common_dir l) (wi_git_common_dir r) then Some SharedGitDir
      else if same_some (wi_repo_id l) (wi_repo_id r)
        then (if same_some (wi_branch l) (wi_branch r) then Some SameRepoSameBranch else Some SameRepo)
      else None)"

definition group_key :: "string option \<Rightarrow> string option \<Rightarrow> string option \<Rightarrow> string" where
  "group_key repo_id key common_dir =
     (if present common_dir then ''common:'' @ the common_dir
      else if present repo_id then ''repo:'' @ the repo_id
      else if present key then ''path:'' @ the key
      else ''unknown'')"

section \<open>Groups\<close>

type_synonym active_runs = "(string \<times> workspace_identity) list"

record peer =
  pe_run_id :: string
  pe_workspace :: string
  pe_branch :: "string option"

record contention_group =
  cg_id :: string
  cg_severity :: tier
  cg_key :: string
  cg_members :: "peer list"
  cg_truncated :: bool

fun all_pairs :: "'a list \<Rightarrow> ('a \<times> 'a) list" where
  "all_pairs [] = []"
| "all_pairs (x # xs) = map (Pair x) xs @ all_pairs xs"

definition identity_of :: "active_runs \<Rightarrow> string \<Rightarrow> workspace_identity" where
  "identity_of active i = the (map_of active i)"

definition pair_key :: "workspace_identity \<Rightarrow> workspace_identity \<Rightarrow> string" where
  "pair_key l r = group_key
     (if present (wi_repo_id l) then wi_repo_id l else wi_repo_id r) None
     (if present (wi_git_common_dir l) then wi_git_common_dir l else wi_git_common_dir r)"

text \<open>What one pair adds: its group's key, the two runs and their tier.\<close>

definition contribution :: "active_runs \<Rightarrow> nat \<Rightarrow> string \<times> string \<Rightarrow> (string \<times> string \<times> string \<times> tier) option" where
  "contribution active min_index p =
     (let l = identity_of active (fst p); r = identity_of active (snd p)
      in case tier_for l r of
           None \<Rightarrow> None
         | Some t \<Rightarrow> if tier_order t < min_index then None else Some (pair_key l r, fst p, snd p, t))"

type_synonym group_map = "(string \<times> string list \<times> tier) list"

definition set_add :: "'a \<Rightarrow> 'a list \<Rightarrow> 'a list" where
  "set_add x xs = (if x \<in> set xs then xs else xs @ [x])"

definition add_contribution :: "group_map \<Rightarrow> string \<times> string \<times> string \<times> tier \<Rightarrow> group_map" where
  "add_contribution g c = (case c of (k, l, r, t) \<Rightarrow>
     (case map_of g k of
        None \<Rightarrow> aupd k (set_add r [l], t) g
      | Some (ids, t0) \<Rightarrow> aupd k (set_add r (set_add l ids), max t0 t) g))"

definition contributions :: "active_runs \<Rightarrow> nat \<Rightarrow> (string \<times> string \<times> string \<times> tier) list" where
  "contributions active min_index =
     List.map_filter (contribution active min_index) (all_pairs (sort (map fst active)))"

definition raw_groups :: "active_runs \<Rightarrow> nat \<Rightarrow> group_map" where
  "raw_groups active min_index = foldl add_contribution [] (contributions active min_index)"

definition make_group ::
    "(string \<times> tier \<times> peer list \<Rightarrow> string) \<Rightarrow> active_runs \<Rightarrow> nat \<Rightarrow> string \<times> string list \<times> tier \<Rightarrow> contention_group" where
  "make_group digest active max_members e = (case e of (k, ids, t) \<Rightarrow>
     let run_ids = sort ids;
         members = map (\<lambda>i. \<lparr>pe_run_id = i, pe_workspace = wi_path (identity_of active i),
                             pe_branch = wi_branch (identity_of active i)\<rparr>) (take max_members run_ids)
     in \<lparr>cg_id = take 16 (digest (k, t, members)), cg_severity = t, cg_key = k, cg_members = members,
         cg_truncated = (length run_ids > max_members)\<rparr>)"

definition all_groups ::
    "(string \<times> tier \<times> peer list \<Rightarrow> string) \<Rightarrow> active_runs \<Rightarrow> string \<Rightarrow> nat \<Rightarrow> contention_group list" where
  "all_groups digest active min_emit max_members =
     sort_key (\<lambda>g. (- int (tier_order (cg_severity g)), cg_key g))
       (map (make_group digest active max_members) (raw_groups active (tier_of_name min_emit)))"

definition detect_contention ::
    "(string \<times> tier \<times> peer list \<Rightarrow> string) \<Rightarrow> active_runs \<Rightarrow> string \<Rightarrow> nat \<Rightarrow> nat \<Rightarrow> contention_group list" where
  "detect_contention digest active min_emit max_groups max_members =
     take max_groups (all_groups digest active min_emit max_members)"

section \<open>Lemmas\<close>

lemma tier_for_sym: "tier_for l r = tier_for r l"
  by (auto simp: tier_for_def same_some_def split: option.splits)

lemma set_set_add [simp]: "set (set_add x xs) = insert x (set xs)"
  by (auto simp: set_add_def)

lemma distinct_set_add [simp]: "distinct xs \<Longrightarrow> distinct (set_add x xs)"
  by (simp add: set_add_def)

lemma set_all_pairs:
  "sorted xs \<Longrightarrow> distinct xs \<Longrightarrow> (a, b) \<in> set (all_pairs xs) \<longleftrightarrow> a \<in> set xs \<and> b \<in> set xs \<and> a < b"
  by (induction xs) (auto simp: less_le)

text \<open>What the accumulated groups hold, in terms of the contributions made so far.\<close>

definition of_key :: "string \<Rightarrow> (string \<times> string \<times> string \<times> tier) list \<Rightarrow> (string \<times> string \<times> string \<times> tier) list" where
  "of_key k cs = filter (\<lambda>c. fst c = k) cs"

definition group_for :: "string \<Rightarrow> (string \<times> string \<times> string \<times> tier) list \<Rightarrow> string list \<times> tier \<Rightarrow> bool" where
  "group_for k cs g = (of_key k cs \<noteq> [] \<and> distinct (fst g) \<and>
     set (fst g) = (\<Union>(k', l, r, t) \<in> set (of_key k cs). {l, r}) \<and>
     snd g \<in> (\<lambda>(k', l, r, t). t) ` set (of_key k cs) \<and>
     (\<forall>(k', l, r, t) \<in> set (of_key k cs). t \<le> snd g))"

definition groups_ok :: "(string \<times> string \<times> string \<times> tier) list \<Rightarrow> group_map \<Rightarrow> bool" where
  "groups_ok cs g = (distinct (map fst g) \<and>
     (\<forall>k. case map_of g k of None \<Rightarrow> of_key k cs = [] | Some d \<Rightarrow> group_for k cs d))"

lemma of_key_append: "of_key k (cs @ [c]) = of_key k cs @ (if fst c = k then [c] else [])"
  by (simp add: of_key_def)

lemma group_for_add:
  assumes "group_for k cs (ids, t0)"
  shows "group_for k (cs @ [(k, l, r, t)]) (set_add r (set_add l ids), max t0 t)"
proof -
  have "max t0 t \<in> (\<lambda>(k', l, r, t). t) ` set (of_key k (cs @ [(k, l, r, t)]))"
    using assms by (auto simp: group_for_def of_key_append max_def)
  moreover have "\<forall>(k', l, r, t') \<in> set (of_key k (cs @ [(k, l, r, t)])). t' \<le> max t0 t"
    using assms by (auto simp: group_for_def of_key_append le_max_iff_disj)
  ultimately show ?thesis
    using assms by (auto simp: group_for_def of_key_append)
qed

lemma group_for_first:
  assumes "of_key k cs = []"
  shows "group_for k (cs @ [(k, l, r, t)]) (set_add r [l], t)"
  using assms by (auto simp: group_for_def of_key_append set_add_def)

lemma group_for_other: "k' \<noteq> k \<Longrightarrow> group_for k (cs @ [(k', l, r, t)]) d = group_for k cs d"
  by (simp add: group_for_def of_key_append)

lemma groups_ok_add:
  assumes "groups_ok cs g"
  shows "groups_ok (cs @ [c]) (add_contribution g c)"
proof -
  obtain k l r t where c: "c = (k, l, r, t)" by (cases c)
  have old: "case map_of g j of None \<Rightarrow> of_key j cs = [] | Some d \<Rightarrow> group_for j cs d" for j
    using assms by (simp add: groups_ok_def)
  have "case map_of (add_contribution g c) j of
      None \<Rightarrow> of_key j (cs @ [c]) = [] | Some d \<Rightarrow> group_for j (cs @ [c]) d" for j
  proof (cases "j = k")
    case True
    then show ?thesis using old [of k] group_for_add group_for_first
      by (auto simp: c add_contribution_def split: option.splits)
  next
    case False
    then show ?thesis using old [of j]
      by (auto simp: c add_contribution_def group_for_other of_key_append split: option.splits)
  qed
  moreover have "distinct (map fst (add_contribution g c))"
    using assms by (auto simp: groups_ok_def c add_contribution_def split: option.splits)
  ultimately show ?thesis by (simp add: groups_ok_def)
qed

lemma raw_groups_ok: "groups_ok (contributions active n) (raw_groups active n)"
proof -
  have "groups_ok cs (foldl add_contribution [] cs)" for cs
    by (induction cs rule: rev_induct) (simp_all add: groups_ok_add, simp add: groups_ok_def of_key_def)
  then show ?thesis by (simp add: raw_groups_def)
qed

lemma contribution_pair: "contribution active n p = Some (k, l, r, t) \<Longrightarrow> p = (l, r)"
  by (cases p) (auto simp: contribution_def Let_def split: option.splits if_splits)

lemma contributions_iff:
  assumes "distinct (map fst active)"
  shows "(k, l, r, t) \<in> set (contributions active n) \<longleftrightarrow>
     l \<in> set (map fst active) \<and> r \<in> set (map fst active) \<and> l < r \<and>
     tier_for (identity_of active l) (identity_of active r) = Some t \<and> n \<le> tier_order t \<and>
     k = pair_key (identity_of active l) (identity_of active r)"
proof -
  have pairs: "p \<in> set (all_pairs (sort (map fst active))) \<longleftrightarrow>
      fst p \<in> set (map fst active) \<and> snd p \<in> set (map fst active) \<and> fst p < snd p" for p
    using set_all_pairs [of "sort (map fst active)" "fst p" "snd p"] assms by simp
  have "(k, l, r, t) \<in> set (contributions active n) \<longleftrightarrow>
      (\<exists>p\<in>set (all_pairs (sort (map fst active))). contribution active n p = Some (k, l, r, t))"
    by (force simp: contributions_def map_filter_def)
  also have "\<dots> \<longleftrightarrow> (l, r) \<in> set (all_pairs (sort (map fst active))) \<and>
      contribution active n (l, r) = Some (k, l, r, t)"
    using contribution_pair by blast
  finally show ?thesis unfolding pairs
    by (auto simp: contribution_def Let_def split: option.splits if_splits)
qed

lemma raw_group_members:
  assumes "(k, ids, t) \<in> set (raw_groups active n)"
  shows "group_for k (contributions active n) (ids, t)"
proof -
  have "distinct (map fst (raw_groups active n))" using raw_groups_ok by (simp add: groups_ok_def)
  then have "map_of (raw_groups active n) k = Some (ids, t)" using assms by simp
  then show ?thesis using raw_groups_ok [of active n] by (auto simp: groups_ok_def split: option.splits)
qed

lemma set_of_key: "c \<in> set (of_key k cs) \<longleftrightarrow> c \<in> set cs \<and> fst c = k"
  by (auto simp: of_key_def)

lemma group_for_mem:
  assumes "group_for k cs (ids, t)"
  shows "i \<in> set ids \<longleftrightarrow> (\<exists>l r t'. (k, l, r, t') \<in> set cs \<and> (i = l \<or> i = r))"
proof -
  have "set ids = (\<Union>(k', l, r, t) \<in> set (of_key k cs). {l, r})" using assms by (simp add: group_for_def)
  then have "i \<in> set ids \<longleftrightarrow> (\<exists>c \<in> set (of_key k cs). case c of (k', l, r, t) \<Rightarrow> i = l \<or> i = r)"
    by (auto split: prod.splits)
  then show ?thesis unfolding Bex_def set_of_key by (auto split: prod.splits)
qed

lemma group_for_top:
  assumes "group_for k cs (ids, t)"
  shows "\<exists>l r. (k, l, r, t) \<in> set cs"
proof -
  have "t \<in> (\<lambda>(k', l, r, t). t) ` set (of_key k cs)" using assms by (simp add: group_for_def)
  then obtain c where "c \<in> set (of_key k cs)" "t = snd (snd (snd c))" by (auto split: prod.splits)
  then show ?thesis unfolding set_of_key by (cases c) auto
qed

lemma group_for_le:
  assumes "group_for k cs (ids, t)" and "(k, l, r, t') \<in> set cs"
  shows "t' \<le> t"
proof -
  have "\<forall>(k', l, r, t') \<in> set (of_key k cs). t' \<le> t" using assms(1) by (simp add: group_for_def)
  moreover have "(k, l, r, t') \<in> set (of_key k cs)" using assms(2) by (simp add: set_of_key)
  ultimately show ?thesis by (drule_tac bspec) auto
qed

lemma raw_group_exists:
  assumes "(k, l, r, t) \<in> set (contributions active n)"
  shows "\<exists>ids t'. (k, ids, t') \<in> set (raw_groups active n) \<and> l \<in> set ids \<and> r \<in> set ids \<and> t \<le> t'"
proof (cases "map_of (raw_groups active n) k")
  case None
  then have "of_key k (contributions active n) = []"
    using raw_groups_ok [of active n] by (auto simp: groups_ok_def dest: spec [of _ k])
  then show ?thesis using assms set_of_key [of "(k, l, r, t)" k "contributions active n"] by simp
next
  case (Some d)
  obtain ids t' where d: "d = (ids, t')" by (cases d)
  have g: "(k, ids, t') \<in> set (raw_groups active n)" using Some d by (auto dest: map_of_SomeD)
  note gf = raw_group_members [OF g]
  have "l \<in> set ids" "r \<in> set ids" using group_for_mem [OF gf] assms by blast+
  with g group_for_le [OF gf assms] show ?thesis by blast
qed

lemma contribution_ids:
  assumes "distinct (map fst active)" and "(k, ids, t) \<in> set (raw_groups active n)"
  shows "set ids \<subseteq> set (map fst active)" and "length ids \<le> length active"
proof -
  have g: "group_for k (contributions active n) (ids, t)" by (rule raw_group_members [OF assms(2)])
  show sub: "set ids \<subseteq> set (map fst active)"
    using group_for_mem [OF g] contributions_iff [OF assms(1)] by blast
  have "distinct ids" using g by (simp add: group_for_def)
  then have "length ids = card (set ids)" by (simp add: distinct_card)
  also have "\<dots> \<le> card (set (map fst active))" by (rule card_mono [OF _ sub]) simp
  finally show "length ids \<le> length active" using card_length [of "map fst active"] by simp
qed

lemma make_group_sel:
  "cg_severity (make_group d a m (k, ids, t)) = t" "cg_key (make_group d a m (k, ids, t)) = k"
  "map pe_run_id (cg_members (make_group d a m (k, ids, t))) = take m (sort ids)"
  by (simp_all add: make_group_def Let_def comp_def)

section \<open>Properties\<close>

text \<open>No contention is missed. When two active runs have a tier at or above the threshold
  and the limits do not cut the report, some reported group holds both, under their key and
  with at least their severity.\<close>

lemma contention_complete:
  assumes "distinct (map fst active)" and "l \<in> set (map fst active)" and "r \<in> set (map fst active)"
    and "l < r" and "tier_for (identity_of active l) (identity_of active r) = Some t"
    and "tier_of_name min_emit \<le> tier_order t"
    and "length active \<le> max_members" and "length (all_groups digest active min_emit max_members) \<le> max_groups"
  shows "\<exists>g\<in>set (detect_contention digest active min_emit max_groups max_members).
     {l, r} \<subseteq> pe_run_id ` set (cg_members g) \<and> t \<le> cg_severity g \<and>
     cg_key g = pair_key (identity_of active l) (identity_of active r)"
proof -
  let ?n = "tier_of_name min_emit" and ?k = "pair_key (identity_of active l) (identity_of active r)"
  have "(?k, l, r, t) \<in> set (contributions active ?n)"
    using assms(2-6) by (simp add: contributions_iff [OF assms(1)])
  then obtain ids t' where g: "(?k, ids, t') \<in> set (raw_groups active ?n)" "l \<in> set ids" "r \<in> set ids" "t \<le> t'"
    using raw_group_exists by blast
  let ?g = "make_group digest active max_members (?k, ids, t')"
  have "take max_members (sort ids) = sort ids"
    using contribution_ids(2) [OF assms(1) g(1)] assms(7) by simp
  then have "pe_run_id ` set (cg_members ?g) = set ids"
    using make_group_sel(3) [of digest active max_members ?k ids t'] by (metis list.set_map set_sort)
  moreover have "?g \<in> set (detect_contention digest active min_emit max_groups max_members)"
    using g(1) assms(8) by (simp add: detect_contention_def all_groups_def)
  ultimately show ?thesis using g make_group_sel by (metis bot.extremum insert_subset)
qed

definition demo_ident :: "string \<Rightarrow> workspace_identity" where
  "demo_ident p = \<lparr>wi_path = p, wi_key = p, wi_repo_id = None, wi_branch = None, wi_git_common_dir = None\<rparr>"

definition demo_active :: active_runs where
  "demo_active = [(''r1'', demo_ident ''/x''), (''r2'', demo_ident ''/x''),
                  (''r3'', demo_ident ''/y''), (''r4'', demo_ident ''/y'')]"

lemma demo_sorted: "sort [''r1'', ''r2'', ''r3'', ''r4''] = [''r1'', ''r2'', ''r3'', ''r4'']"
  by code_simp

lemmas contention_eval =
  contributions_def demo_active_def contribution_def identity_of_def demo_ident_def tier_for_def
  same_some_def present_def pair_key_def group_key_def map_filter_simps Let_def

lemma demo_raw: "raw_groups demo_active 0 = [(''unknown'', [''r1'', ''r2'', ''r3'', ''r4''], SameTree)]"
  by (simp add: raw_groups_def demo_sorted contention_eval add_contribution_def set_add_def)

lemma contention_complete_witness:
  "\<exists>g\<in>set (detect_contention (\<lambda>_. []) demo_active ''same_repo'' 50 20).
     {''r1'', ''r2''} \<subseteq> pe_run_id ` set (cg_members g) \<and> SameTree \<le> cg_severity g"
proof -
  have "length (all_groups (\<lambda>_. []) demo_active ''same_repo'' 20) \<le> 50"
    by (simp add: all_groups_def tier_of_name_def demo_raw)
  moreover have "tier_for (identity_of demo_active ''r1'') (identity_of demo_active ''r2'') = Some SameTree"
    by (simp add: contention_eval)
  moreover have "''r1'' < (''r2'' :: string)" by code_simp
  ultimately show ?thesis
    using contention_complete [of demo_active "''r1''" "''r2''" SameTree "''same_repo''" 20 "\<lambda>_. []" 50]
    by (auto simp: demo_active_def tier_of_name_def)
qed

text \<open>What is reported is real and ordered. Groups come by descending severity and then by
  key, within the limits; a group's severity is the tier of one of its pairs, at or above the
  threshold and at least that of its other pairs; and every member is one of a contending
  pair of active runs with the group's key.\<close>

lemma contention_sound:
  assumes "distinct (map fst active)"
    and "g \<in> set (detect_contention digest active min_emit max_groups max_members)"
  shows "length (detect_contention digest active min_emit max_groups max_members) \<le> max_groups \<and>
     sorted (map (\<lambda>g. (- int (tier_order (cg_severity g)), cg_key g))
       (detect_contention digest active min_emit max_groups max_members)) \<and>
     length (cg_members g) \<le> max_members \<and> tier_of_name min_emit \<le> tier_order (cg_severity g) \<and>
     (\<exists>l r. tier_for (identity_of active l) (identity_of active r) = Some (cg_severity g) \<and>
        pair_key (identity_of active l) (identity_of active r) = cg_key g) \<and>
     (\<forall>m\<in>set (cg_members g). \<exists>l r t. pe_run_id m \<in> {l, r} \<and> l \<noteq> r \<and>
        l \<in> set (map fst active) \<and> r \<in> set (map fst active) \<and>
        tier_for (identity_of active l) (identity_of active r) = Some t \<and> t \<le> cg_severity g \<and>
        pair_key (identity_of active l) (identity_of active r) = cg_key g)"
proof -
  let ?n = "tier_of_name min_emit"
  obtain k ids t where raw: "(k, ids, t) \<in> set (raw_groups active ?n)"
    and g: "g = make_group digest active max_members (k, ids, t)"
    using assms(2) by (auto simp: detect_contention_def all_groups_def dest!: in_set_takeD)
  note gf = raw_group_members [OF raw] and con = contributions_iff [OF assms(1)]
  have sel: "cg_severity g = t" "cg_key g = k" "map pe_run_id (cg_members g) = take max_members (sort ids)"
    by (simp_all add: g make_group_sel)
  have len: "length (cg_members g) \<le> max_members" using arg_cong [OF sel(3), of length] by simp
  obtain l r where "(k, l, r, t) \<in> set (contributions active ?n)" using group_for_top [OF gf] by blast
  then have top: "tier_for (identity_of active l) (identity_of active r) = Some t" "?n \<le> tier_order t"
    "pair_key (identity_of active l) (identity_of active r) = k" by (simp_all add: con)
  have mem: "\<exists>l r t'. pe_run_id m \<in> {l, r} \<and> l \<noteq> r \<and> l \<in> set (map fst active) \<and> r \<in> set (map fst active) \<and>
      tier_for (identity_of active l) (identity_of active r) = Some t' \<and> t' \<le> t \<and>
      pair_key (identity_of active l) (identity_of active r) = k" if "m \<in> set (cg_members g)" for m
  proof -
    have "pe_run_id m \<in> set (take max_members (sort ids))" using that sel(3) by (metis image_eqI list.set_map)
    then have "pe_run_id m \<in> set ids" by (auto dest: in_set_takeD)
    then obtain l r t' where c: "(k, l, r, t') \<in> set (contributions active ?n)" "pe_run_id m \<in> {l, r}"
      using group_for_mem [OF gf] by blast
    with group_for_le [OF gf c(1)] c(1) [unfolded con] show ?thesis
      by (intro exI [of _ l] exI [of _ r] exI [of _ t']) auto
  qed
  have "length (detect_contention digest active min_emit max_groups max_members) \<le> max_groups"
    by (simp add: detect_contention_def)
  moreover have "sorted (map (\<lambda>g. (- int (tier_order (cg_severity g)), cg_key g))
       (detect_contention digest active min_emit max_groups max_members))"
    unfolding detect_contention_def all_groups_def take_map [symmetric]
    by (intro sorted_wrt_take) (rule sorted_sort_key)
  ultimately show ?thesis unfolding sel using len top mem by blast
qed

lemma contention_sound_witness:
  "\<exists>g\<in>set (detect_contention (\<lambda>_. []) demo_active ''same_repo'' 50 20). length (cg_members g) \<le> 20 \<and>
     (\<exists>l r. tier_for (identity_of demo_active l) (identity_of demo_active r) = Some (cg_severity g))"
proof -
  let ?g = "make_group (\<lambda>_. []) demo_active 20 (''unknown'', [''r1'', ''r2'', ''r3'', ''r4''], SameTree)"
  have g: "?g \<in> set (detect_contention (\<lambda>_. []) demo_active ''same_repo'' 50 20)"
    by (simp add: detect_contention_def all_groups_def tier_of_name_def demo_raw)
  have "distinct (map fst demo_active)" by (simp add: demo_active_def)
  from contention_sound [OF this g] g show ?thesis by blast
qed

text \<open>Outside git, unrelated workspaces share one group. Two runs in one plain directory and
  two in another contend pairwise only, and are reported as a single group of four.\<close>

lemma contention_merges_plain_directories:
  "map (\<lambda>g. (cg_key g, map pe_run_id (cg_members g)))
     (detect_contention digest demo_active ''same_repo'' 50 20) =
     [(''unknown'', [''r1'', ''r2'', ''r3'', ''r4''])] \<and>
   tier_for (demo_ident ''/x'') (demo_ident ''/y'') = None"
  by (simp add: detect_contention_def all_groups_def tier_of_name_def demo_raw make_group_sel demo_sorted
      demo_ident_def tier_for_def same_some_def)

end
