(* ===== verification/Control_Bus.thy ===== *)
theory Control_Bus
  imports Harness_Machine
begin

text \<open>
  The append-only control bus between the API and a run's worker (\<open>supervisor/control_bus.py\<close>):
  commands with increasing revisions and optional idempotency ids, receipts of which the
  first is kept, and the status record, each changed under the run's cross-process lock, so
  that a history of any number of processes is a sequence of these operations. A log is the
  list of JSON objects its reader returns. The length in bytes of a record's line is the
  argument \<open>bytes\<close>; the 16 MiB limit of a whole log is not modelled.
\<close>

section \<open>Python values\<close>

fun num_of :: "pyval \<Rightarrow> rat option" where
  "num_of (PBool b) = Some (if b then 1 else 0)"
| "num_of (PInt i) = Some (of_int i)"
| "num_of (PFloat r) = Some r"
| "num_of _ = None"

text \<open>\<open>v == w\<close> on JSON values: numbers by value, dictionaries regardless of order.\<close>

fun py_eq :: "pyval \<Rightarrow> pyval \<Rightarrow> bool"
  and py_eq_list :: "pyval list \<Rightarrow> pyval list \<Rightarrow> bool"
  and py_eq_dict :: "pydict \<Rightarrow> pydict \<Rightarrow> bool" where
  "py_eq (PDict d) w = (case w of PDict e \<Rightarrow> length d = length e \<and> py_eq_dict d e | _ \<Rightarrow> False)"
| "py_eq (PList xs) w = (case w of PList ys \<Rightarrow> py_eq_list xs ys | _ \<Rightarrow> False)"
| "py_eq (PStr s) w = (w = PStr s)"
| "py_eq PNone w = (w = PNone)"
| "py_eq (PBool b) w = (num_of w = num_of (PBool b))"
| "py_eq (PInt i) w = (num_of w = num_of (PInt i))"
| "py_eq (PFloat r) w = (num_of w = num_of (PFloat r))"
| "py_eq_list [] ys = (ys = [])"
| "py_eq_list (x # xs) ys = (case ys of [] \<Rightarrow> False | y # ys' \<Rightarrow> py_eq x y \<and> py_eq_list xs ys')"
| "py_eq_dict [] e = True"
| "py_eq_dict ((k, v) # d) e = ((case map_of e k of None \<Rightarrow> False | Some w \<Rightarrow> py_eq v w) \<and> py_eq_dict d e)"

text \<open>\<open>int(v)\<close>, \<open>None\<close> where it raises.\<close>

fun py_int :: "pyval \<Rightarrow> int option" where
  "py_int (PInt i) = Some i"
| "py_int (PBool b) = Some (if b then 1 else 0)"
| "py_int (PFloat r) = Some (if r \<ge> 0 then floor r else ceiling r)"
| "py_int (PStr s) = py_int_of_string s"
| "py_int _ = None"

text \<open>\<open>v or {}\<close>.\<close>

definition or_empty :: "pyval \<Rightarrow> pyval" where
  "or_empty v = (if truthy v then v else PDict [])"

section \<open>The bus\<close>

datatype bus_exn =
    BusValueError string
  | CommandConflict string
  | RevisionConflict int int
  | BusTypeError string

record bus =
  cb_run :: string
  cb_commands :: "pydict list"
  cb_receipts :: "pydict list"
  cb_status :: pydict

definition MAX_CONTROL_RECORD_BYTES :: nat where
  "MAX_CONTROL_RECORD_BYTES = 512 * 1024"

definition current_revision :: "bus \<Rightarrow> int" where
  "current_revision b =
     (let revisions = filter (\<lambda>r. r > 0) (List.map_filter (\<lambda>c. py_int (dget c ''revision'')) (cb_commands b))
      in foldr max revisions 0)"

definition append_jsonl :: "(pydict \<Rightarrow> nat) \<Rightarrow> pydict list \<Rightarrow> pydict \<Rightarrow> (bus_exn, pydict list) result" where
  "append_jsonl bytes ls r =
     (if bytes r > MAX_CONTROL_RECORD_BYTES then Inl (BusValueError ''control record is too large'')
      else Inr (ls @ [r]))"

record append_args =
  aa_kind :: string
  aa_payload :: pydict
  aa_created_by :: string
  aa_expected :: pyval
  aa_command_id :: string
  aa_fresh :: string
  aa_now :: time

definition new_command :: "bus \<Rightarrow> append_args \<Rightarrow> string \<Rightarrow> pydict" where
  "new_command b a requested =
     [(''command_id'', PStr (if requested = [] then ''cmd-'' @ aa_fresh a else requested)),
      (''run_id'', PStr (cb_run b)), (''kind'', PStr (aa_kind a)), (''payload'', PDict (aa_payload a)),
      (''created_at'', PFloat (aa_now a)), (''created_by'', PStr (aa_created_by a)),
      (''expected_revision'', aa_expected a)]"

definition same_command :: "pydict \<Rightarrow> pydict \<Rightarrow> bool" where
  "same_command existing command =
     (py_eq (dget existing ''run_id'') (dget command ''run_id'') \<and>
      py_eq (dget existing ''kind'') (dget command ''kind'') \<and>
      py_eq (or_empty (dget existing ''payload'')) (or_empty (dget command ''payload'')))"

fun expected_int :: "pyval \<Rightarrow> (bus_exn, int option) result" where
  "expected_int PNone = Inr None"
| "expected_int (PInt i) = Inr (Some i)"
| "expected_int _ = Inl (BusValueError ''expected_revision must be an integer'')"

text \<open>The result says whether the command was a replay of one already in the log.\<close>

definition bus_append :: "(pydict \<Rightarrow> nat) \<Rightarrow> bus \<Rightarrow> append_args \<Rightarrow> (bus_exn, (pydict \<times> bool) \<times> bus) result" where
  "bus_append bytes b a =
     (let requested = py_strip (aa_command_id a) in
      rbind (raise_if (length requested > 256 \<or> nul \<in> set requested)
        (BusValueError ''command_id must be at most 256 characters and contain no NUL'')) (\<lambda>_.
      rbind (raise_if (length (aa_kind a) > 128 \<or> nul \<in> set (aa_kind a))
        (BusValueError ''command kind is invalid'')) (\<lambda>_.
      rbind (expected_int (aa_expected a)) (\<lambda>expected.
      let command = new_command b a requested in
      case (if requested = [] then None
            else find (\<lambda>c. dget c ''command_id'' = PStr requested) (cb_commands b)) of
        Some existing \<Rightarrow>
          if same_command existing command then Inr ((existing, True), b)
          else Inl (CommandConflict requested)
      | None \<Rightarrow>
          let current = current_revision b in
          rbind (case expected of
                   None \<Rightarrow> Inr ()
                 | Some n \<Rightarrow> raise_if (n \<noteq> current) (RevisionConflict n current)) (\<lambda>_.
          let full = command @ [(''revision'', PInt (current + 1))] in
          rbind (append_jsonl bytes (cb_commands b) full) (\<lambda>ls.
          Inr ((full, False), b\<lparr>cb_commands := ls\<rparr>)))))))"

text \<open>The last receipt of a command.\<close>

definition receipt_for :: "bus \<Rightarrow> pyval \<Rightarrow> pydict option" where
  "receipt_for b cid = find (\<lambda>r. py_eq (dget r ''command_id'') cid) (rev (cb_receipts b))"

definition bus_pending :: "(pyval \<Rightarrow> string) \<Rightarrow> bus \<Rightarrow> pydict list" where
  "bus_pending render b =
     filter (\<lambda>c. py_str render (dget c ''command_id'') \<notin>
       (\<lambda>r. py_str render (dget r ''command_id'')) ` set (cb_receipts b)) (cb_commands b)"

definition new_receipt :: "bus \<Rightarrow> pydict \<Rightarrow> string \<Rightarrow> string \<Rightarrow> pydict \<Rightarrow> time \<Rightarrow> pydict" where
  "new_receipt b command status message result now =
     [(''command_id'', dget command ''command_id''),
      (''run_id'', (case map_of command ''run_id'' of None \<Rightarrow> PStr (cb_run b) | Some v \<Rightarrow> v)),
      (''kind'', dget command ''kind''), (''status'', PStr status), (''message'', PStr message),
      (''result'', PDict result), (''updated_at'', PFloat now)]"

definition bus_receipt ::
    "(pyval \<Rightarrow> string) \<Rightarrow> (pydict \<Rightarrow> nat) \<Rightarrow> bus \<Rightarrow> pydict \<Rightarrow> string \<Rightarrow> string \<Rightarrow> pydict \<Rightarrow> time
     \<Rightarrow> (bus_exn, pydict \<times> bus) result" where
  "bus_receipt render bytes b command status message result now =
     (let r = new_receipt b command status message result now in
      case receipt_for b (PStr (py_str render (dget r ''command_id''))) of
        Some existing \<Rightarrow> Inr (existing, b)
      | None \<Rightarrow>
          if truthy (dget r ''command_id'')
          then rbind (append_jsonl bytes (cb_receipts b) r) (\<lambda>ls. Inr (r, b\<lparr>cb_receipts := ls\<rparr>))
          else Inr (r, b))"

definition write_status :: "bus \<Rightarrow> pydict \<Rightarrow> bus" where
  "write_status b st = b\<lparr>cb_status := st\<rparr>"

definition update_status :: "bus \<Rightarrow> (pydict \<Rightarrow> pyval) \<Rightarrow> (bus_exn, pydict \<times> bus) result" where
  "update_status b f = (case f (cb_status b) of
       PDict d \<Rightarrow> Inr (d, if py_eq (PDict d) (PDict (cb_status b)) then b else b\<lparr>cb_status := d\<rparr>)
     | _ \<Rightarrow> Inl (BusTypeError ''status update must return a dictionary''))"

datatype bus_op =
    BAppend append_args
  | BReceipt pydict string string pydict time
  | BWriteStatus pydict
  | BUpdateStatus "pydict \<Rightarrow> pyval"

fun bus_exec :: "(pyval \<Rightarrow> string) \<Rightarrow> (pydict \<Rightarrow> nat) \<Rightarrow> bus \<Rightarrow> bus_op \<Rightarrow> bus" where
  "bus_exec render bytes b (BAppend a) = kept b (bus_append bytes b a)"
| "bus_exec render bytes b (BReceipt c st m res now) = kept b (bus_receipt render bytes b c st m res now)"
| "bus_exec render bytes b (BWriteStatus st) = write_status b st"
| "bus_exec render bytes b (BUpdateStatus f) = kept b (update_status b f)"

definition empty_bus :: "string \<Rightarrow> bus" where
  "empty_bus run = \<lparr>cb_run = run, cb_commands = [], cb_receipts = [], cb_status = []\<rparr>"

section \<open>Invariant\<close>

definition revisions_of :: "bus \<Rightarrow> pyval list" where
  "revisions_of b = map (\<lambda>c. dget c ''revision'') (cb_commands b)"

definition bus_inv :: "bus \<Rightarrow> bool" where
  "bus_inv b = (revisions_of b = map (\<lambda>i. PInt (int i)) [1..<Suc (length (cb_commands b))])"

lemma map_filter_revisions:
  "List.map_filter (\<lambda>c. py_int (dget c ''revision'')) cs = List.map_filter py_int (map (\<lambda>c. dget c ''revision'') cs)"
  by (induction cs) (simp_all add: map_filter_simps split: option.splits)

lemma map_filter_ints: "List.map_filter py_int (map (\<lambda>i. PInt (int i)) is) = map int is"
  by (induction "is") (simp_all add: map_filter_simps)

lemma filter_all_positive: "filter (\<lambda>r. 0 < r) (map int [1..<n]) = map int [1..<n]"
  by (subst filter_True) auto

lemma foldr_max_upt: "foldr max (map int [1..<Suc n]) 0 = int n"
proof -
  have "foldr max xs 0 = Max (insert 0 (set xs))" for xs :: "int list"
    by (induction xs) (auto simp: insert_commute)
  then have "foldr max (map int [1..<Suc n]) 0 = Max (insert 0 (int ` {1..n}))"
    by (simp add: atLeastLessThanSuc_atLeastAtMost del: upt_Suc)
  also have "\<dots> = int n" by (rule Max_eqI) auto
  finally show ?thesis .
qed

lemma bus_inv_current:
  assumes "bus_inv b"
  shows "current_revision b = int (length (cb_commands b))"
proof -
  have "List.map_filter (\<lambda>c. py_int (dget c ''revision'')) (cb_commands b) = map int [1..<Suc (length (cb_commands b))]"
    using assms unfolding bus_inv_def revisions_of_def map_filter_revisions
    by (simp only: map_filter_ints)
  then show ?thesis by (simp only: current_revision_def Let_def filter_all_positive foldr_max_upt)
qed

lemma new_command_revision:
  "dget (new_command b a r @ [(''revision'', v)]) ''revision'' = v"
  "dget (new_command b a r @ [(''revision'', v)]) ''command_id'' = dget (new_command b a r) ''command_id''"
  by (simp_all add: new_command_def)

lemma bus_append_Inr:
  assumes "bus_append bytes b a = Inr ((c, replay), b')"
  shows "if replay then b' = b
    else b' = b\<lparr>cb_commands := cb_commands b @ [c]\<rparr> \<and> dget c ''revision'' = PInt (current_revision b + 1) \<and>
      (case aa_expected a of PInt n \<Rightarrow> n = current_revision b | _ \<Rightarrow> True)"
  using assms
  by (auto simp: bus_append_def Let_def rbind_eq_Inr append_jsonl_def new_command_revision
      split: option.splits if_splits pyval.splits)

lemma bus_append_kept:
  "kept b (bus_append bytes b a) = b \<or>
   (\<exists>c. kept b (bus_append bytes b a) = b\<lparr>cb_commands := cb_commands b @ [c]\<rparr> \<and>
        dget c ''revision'' = PInt (current_revision b + 1))"
proof (cases "bus_append bytes b a")
  case (Inr x)
  then obtain c replay b' where r: "bus_append bytes b a = Inr ((c, replay), b')" by (cases x) auto
  show ?thesis using bus_append_Inr [OF r] r by (cases replay) auto
qed simp

lemma bus_receipt_kept:
  "kept b (bus_receipt render bytes b c st m res now) = b \<or>
   (kept b (bus_receipt render bytes b c st m res now) =
      b\<lparr>cb_receipts := cb_receipts b @ [new_receipt b c st m res now]\<rparr> \<and>
    receipt_for b (PStr (py_str render (dget c ''command_id''))) = None)"
proof -
  have "dget (new_receipt b c st m res now) ''command_id'' = dget c ''command_id''"
    by (simp add: new_receipt_def)
  then show ?thesis
    by (auto simp: bus_receipt_def Let_def rbind_def append_jsonl_def kept_def
        split: option.splits sum.splits if_splits)
qed

lemma update_status_kept:
  "cb_commands (kept b (update_status b f)) = cb_commands b \<and> cb_receipts (kept b (update_status b f)) = cb_receipts b"
  by (auto simp: update_status_def split: pyval.splits)

lemma bus_inv_append:
  assumes "bus_inv b" and "dget c ''revision'' = PInt (current_revision b + 1)"
  shows "bus_inv (b\<lparr>cb_commands := cb_commands b @ [c]\<rparr>)"
  using assms(1) assms(2) bus_inv_current [OF assms(1)]
  by (simp add: bus_inv_def revisions_of_def)

lemma bus_exec_commands:
  "cb_commands (bus_exec render bytes b x) = cb_commands b \<or>
   (\<exists>c. cb_commands (bus_exec render bytes b x) = cb_commands b @ [c] \<and> dget c ''revision'' = PInt (current_revision b + 1))"
proof (cases x)
  case (BAppend a)
  then show ?thesis using bus_append_kept [of b bytes a] by auto
next
  case (BReceipt c st m res now)
  then show ?thesis using bus_receipt_kept [of b render bytes c st m res now] by auto
qed (auto simp: write_status_def update_status_kept)

lemma bus_exec_inv:
  assumes "bus_inv b"
  shows "bus_inv (bus_exec render bytes b x)"
proof -
  have same: "bus_inv b1 = bus_inv b2" if "cb_commands b1 = cb_commands b2" for b1 b2
    using that by (simp add: bus_inv_def revisions_of_def)
  from bus_exec_commands [of render bytes b x] show ?thesis
  proof (elim disjE exE conjE)
    assume "cb_commands (bus_exec render bytes b x) = cb_commands b"
    with same assms show ?thesis by blast
  next
    fix c assume c: "cb_commands (bus_exec render bytes b x) = cb_commands b @ [c]"
      "dget c ''revision'' = PInt (current_revision b + 1)"
    with bus_inv_append [OF assms c(2)] same show ?thesis by (metis bus.select_convs(2) bus.update_convs(2) bus.surjective)
  qed
qed

text \<open>A receipt, once there, is the receipt of its command for good.\<close>

definition receipt_of :: "string \<Rightarrow> bus \<Rightarrow> pydict option" where
  "receipt_of k b = receipt_for b (PStr k)"

lemma py_eq_PStr: "py_eq v (PStr k) \<longleftrightarrow> v = PStr k"
  by (cases v) auto

lemma receipt_for_append:
  "cb_receipts b' = cb_receipts b @ [r] \<Longrightarrow>
     receipt_of k b' = (if dget r ''command_id'' = PStr k then Some r else receipt_of k b)"
  by (simp add: receipt_of_def receipt_for_def py_eq_PStr)

lemma bus_exec_receipt:
  assumes "receipt_of k b = Some r"
  shows "receipt_of k (bus_exec render bytes b x) = Some r"
proof (cases x)
  case (BAppend a)
  then show ?thesis using bus_append_kept [of b bytes a] assms by (auto simp: receipt_of_def receipt_for_def)
next
  case (BReceipt c st m res now)
  show ?thesis
    using bus_receipt_kept [of b render bytes c st m res now]
  proof (elim disjE conjE)
    assume "kept b (bus_receipt render bytes b c st m res now) = b"
    then show ?thesis using BReceipt assms by simp
  next
    assume k: "kept b (bus_receipt render bytes b c st m res now) =
        b\<lparr>cb_receipts := cb_receipts b @ [new_receipt b c st m res now]\<rparr>"
      and none: "receipt_for b (PStr (py_str render (dget c ''command_id''))) = None"
    have "dget c ''command_id'' \<noteq> PStr k" using none assms by (auto simp: receipt_of_def)
    then show ?thesis using BReceipt assms k
      by (simp add: receipt_for_append [of _ b "new_receipt b c st m res now"] new_receipt_def)
  qed
qed (use assms update_status_kept in \<open>auto simp: write_status_def receipt_of_def receipt_for_def\<close>)

interpretation bus: step_machine "bus_exec render bytes" bus_inv
  for render bytes
  by unfold_locales (rule bus_exec_inv)

interpretation receipts: status_machine "bus_exec render bytes" "\<lambda>_. True" receipt_of "\<lambda>_ _. False" "\<lambda>_ _. False"
  for render bytes
  by unfold_locales (auto intro: bus_exec_receipt)

lemma bus_commands_grow:
  "length (cb_commands b) \<le> length (cb_commands (run_ops (bus_exec render bytes) b ops))"
proof (induction ops arbitrary: b)
  case (Cons x ops)
  have "length (cb_commands b) \<le> length (cb_commands (bus_exec render bytes b x))"
    using bus_exec_commands [of render bytes b x] by auto
  also have "\<dots> \<le> length (cb_commands (run_ops (bus_exec render bytes) (bus_exec render bytes b x) ops))"
    by (rule Cons.IH)
  finally show ?case by simp
qed simp

lemma empty_bus_inv: "bus_inv (empty_bus run)"
  by (simp add: bus_inv_def empty_bus_def revisions_of_def)

section \<open>Properties\<close>

text \<open>C19: revisions. After any sequence of operations on a new bus, the commands in the log carry
  exactly the revisions 1, 2, 3 and so on, none skipped and none used twice, and the current
  revision is their number.\<close>

theorem bus_revisions_exact:
  "let b = run_ops (bus_exec render bytes) (empty_bus run) ops
   in map (\<lambda>c. dget c ''revision'') (cb_commands b) = map (\<lambda>i. PInt (int i)) [1..<Suc (length (cb_commands b))] \<and>
      current_revision b = int (length (cb_commands b))"
proof -
  let ?b = "run_ops (bus_exec render bytes) (empty_bus run) ops"
  have inv: "bus_inv ?b" by (rule bus.run_inv [OF empty_bus_inv])
  show ?thesis unfolding Let_def
    using inv bus_inv_current [OF inv] unfolding bus_inv_def revisions_of_def by blast
qed


definition demo_append :: append_args where
  "demo_append = \<lparr>aa_kind = ''stop'', aa_payload = [], aa_created_by = ''web'', aa_expected = PInt 0,
     aa_command_id = [], aa_fresh = ''1'', aa_now = 5\<rparr>"

definition demo_command :: pydict where
  "demo_command = new_command (empty_bus ''r1'') demo_append [] @ [(''revision'', PInt 1)]"

lemma demo_append_accepted:
  "bus_append (\<lambda>_. 10) (empty_bus ''r1'') demo_append =
     Inr ((demo_command, False), (empty_bus ''r1'')\<lparr>cb_commands := [demo_command]\<rparr>)"
  by (simp add: bus_append_def demo_append_def demo_command_def empty_bus_def new_command_def current_revision_def
      append_jsonl_def MAX_CONTROL_RECORD_BYTES_def py_eval map_filter_simps Let_def)


text \<open>C18: the first receipt is final. Once a command with an id has a receipt, whatever its
  status, the command is never pending again and every later receipt for it, whatever its
  status, returns the first one and changes nothing, under every history of the bus.\<close>

theorem bus_receipt_final:
  assumes "bus_receipt render bytes b c status m res now = Inr (r, b1)"
    and "dget c ''command_id'' = PStr k" and "k \<noteq> []"
  shows "let b2 = run_ops (bus_exec render bytes) b1 ops
     in receipt_for b2 (PStr k) = Some r \<and> c \<notin> set (bus_pending render b2) \<and>
        bus_receipt render bytes b2 c status' m' res' now' = Inr (r, b2)"
proof -
  let ?b2 = "run_ops (bus_exec render bytes) b1 ops"
  have id: "dget (new_receipt b' c st m res now) ''command_id'' = PStr k" for b' st m res now
    using assms(2) by (simp add: new_receipt_def)
  have first: "receipt_of k b1 = Some r"
    using assms(1,3) by (auto simp: bus_receipt_def Let_def id rbind_eq_Inr append_jsonl_def receipt_of_def
        receipt_for_def py_eq_PStr split: option.splits if_splits)
  have keep: "receipt_of k ?b2 = Some r"
    by (rule receipts.stuck_status_run [OF TrueI _ first]) (simp_all add: list_all_iff)
  then have look: "receipt_for ?b2 (PStr k) = Some r" by (simp add: receipt_of_def)
  then have "r \<in> set (cb_receipts ?b2)" "dget r ''command_id'' = PStr k"
    by (auto simp: receipt_for_def py_eq_PStr dest!: find_SomeD)
  then have "c \<notin> set (bus_pending render ?b2)"
    using assms(2) by (force simp: bus_pending_def)
  with look show ?thesis by (simp add: Let_def bus_receipt_def id)
qed

theorem bus_receipt_final_witness:
  "\<exists>r b1. bus_receipt (\<lambda>_. ''x'') (\<lambda>_. 10) ((empty_bus ''r1'')\<lparr>cb_commands := [demo_command]\<rparr>) demo_command ''accepted'' [] [] 6 = Inr (r, b1) \<and>
     bus_receipt (\<lambda>_. ''x'') (\<lambda>_. 10) b1 demo_command ''applied'' [] [] 7 = Inr (r, b1)"
proof -
  let ?b = "(empty_bus ''r1'')\<lparr>cb_commands := [demo_command]\<rparr>"
  let ?r = "new_receipt ?b demo_command ''accepted'' [] [] 6"
  have k: "dget demo_command ''command_id'' = PStr ''cmd-1''"
    by (simp add: demo_command_def new_command_def demo_append_def)
  have r: "bus_receipt (\<lambda>_. ''x'') (\<lambda>_. 10) ?b demo_command ''accepted'' [] [] 6 = Inr (?r, ?b\<lparr>cb_receipts := [?r]\<rparr>)"
    by (simp add: bus_receipt_def Let_def new_receipt_def k receipt_for_def empty_bus_def append_jsonl_def
        MAX_CONTROL_RECORD_BYTES_def)
  show ?thesis
    using r bus_receipt_final [OF r k, of "[]" "''applied''" "[]" "[]" 7] by (auto simp: Let_def)
qed

end
