(* ===== verification/Caller_Auth.thy ===== *)
theory Caller_Auth
  imports Effect_Lease Queue_Store Provider_Reset "HOL-Library.Log_Nat"
begin

text \<open>
  Who may call (\<open>caller_auth.py\<close>, the caller table of \<open>config.py\<close>, and the scoped queue
  routes of \<open>webapi/server.py\<close>). The hash functions, the canonical JSON text of a body, the
  environment and the clock are fields of \<open>auth_env\<close>; the caller table is as the
  configuration loader makes it, so the branches for malformed limits cannot be reached. A
  wait printed in a message is the argument \<open>render\<close> of Python's \<open>repr\<close>.
\<close>

section \<open>The caller table\<close>

definition ANON_CALLER :: string where "ANON_CALLER = ''anon''"
definition RESOLVE_TOOL :: string where "RESOLVE_TOOL = ''harness_resolve_gate''"
definition ANNOTATE_TOOL :: string where "ANNOTATE_TOOL = ''harness_annotate_run_gate''"

record caller_spec =
  cs_secret_env :: string
  cs_tools :: "string list"
  cs_max_entries :: "int option"
  cs_rounds_clamp :: "int option"
  cs_run_control :: bool

type_synonym caller_table = "(string \<times> caller_spec) list"

definition anon_spec :: caller_spec where
  "anon_spec = \<lparr>cs_secret_env = [], cs_tools = [], cs_max_entries = None, cs_rounds_clamp = None, cs_run_control = False\<rparr>"

definition MCP_TOOL_NAMES :: "string list" where
  "MCP_TOOL_NAMES = [''harness_enqueue_task'', ''harness_list_queue'', ''harness_run_status'',
     ''harness_resolve_gate'', ''harness_annotate_run_gate'', ''harness_list_contentions'']"

definition is_name_char :: "char \<Rightarrow> bool" where
  "is_name_char c = (is_lower_alpha c \<or> is_digit c)"

definition caller_name_full :: "string \<Rightarrow> bool" where
  "caller_name_full s = (case s of
       [] \<Rightarrow> False
     | c # cs \<Rightarrow> is_name_char c \<and> length cs \<le> 31 \<and> list_all (\<lambda>d. is_name_char d \<or> d = CHR ''-'') cs)"

definition caller_secret_env :: "string \<Rightarrow> string" where
  "caller_secret_env name =
     ''LH_HARNESS_CALLER_'' @ py_replace_char CHR ''-'' ''_'' (map upper_char name) @ ''_SECRET''"

text \<open>Tools, entries an hour, rounds and run control of the named callers, then of any other.\<close>

definition CALLER_DEFAULTS :: "(string \<times> string list \<times> int option \<times> int option \<times> bool) list" where
  "CALLER_DEFAULTS =
    [(''chat-agent'', [''harness_enqueue_task'', ''harness_list_queue'', ''harness_run_status''], Some 10, Some 50, False),
     (''operator'', sort MCP_TOOL_NAMES, None, None, False),
     (''overseer'', sort MCP_TOOL_NAMES, None, None, True),
     (''hydra'', sort MCP_TOOL_NAMES, None, None, False)]"

definition default_spec :: "string \<Rightarrow> caller_spec" where
  "default_spec name = (case map_of CALLER_DEFAULTS name of
       Some (tools, entries, rounds, control) \<Rightarrow>
         \<lparr>cs_secret_env = caller_secret_env name, cs_tools = tools, cs_max_entries = entries, cs_rounds_clamp = rounds,
          cs_run_control = control\<rparr>
     | None \<Rightarrow> anon_spec\<lparr>cs_secret_env := caller_secret_env name\<rparr>)"

definition CALLER_KEYS :: "string list" where
  "CALLER_KEYS = [''secret_env'', ''tools'', ''max_entries_per_hour'', ''max_rounds_clamp'', ''rest_run_control'']"

text \<open>The overrides of one caller; \<open>Inl\<close> is the text of \<open>ProjectConfigError\<close>.\<close>

definition set_secret_env :: "string \<Rightarrow> pydict \<Rightarrow> caller_spec \<Rightarrow> (string, caller_spec) result" where
  "set_secret_env name ov sp = (case map_of ov ''secret_env'' of
       None \<Rightarrow> Inr sp
     | Some (PStr s) \<Rightarrow> if py_strip s = [] then Inl (''callers.'' @ name @ ''.secret_env must be a non-empty string'')
                       else Inr (sp\<lparr>cs_secret_env := s\<rparr>)
     | Some _ \<Rightarrow> Inl (''callers.'' @ name @ ''.secret_env must be a non-empty string''))"

fun str_items :: "pyval list \<Rightarrow> string list option" where
  "str_items [] = Some []"
| "str_items (PStr s # vs) = map_option (\<lambda>ss. s # ss) (str_items vs)"
| "str_items _ = None"

definition set_tools :: "string \<Rightarrow> pydict \<Rightarrow> caller_spec \<Rightarrow> (string, caller_spec) result" where
  "set_tools name ov sp = (case map_of ov ''tools'' of
       None \<Rightarrow> Inr sp
     | Some v \<Rightarrow>
         (case (case v of PList vs \<Rightarrow> str_items vs | _ \<Rightarrow> None) of
            None \<Rightarrow> Inl (''callers.'' @ name @ ''.tools must be an array of tool names'')
          | Some ts \<Rightarrow>
              let unknown = sort (remdups (filter (\<lambda>t. t \<notin> set MCP_TOOL_NAMES) ts)) in
              if unknown \<noteq> [] then Inl (''callers.'' @ name @ ''.tools: unknown tool(s): '' @ py_join '', '' unknown)
              else Inr (sp\<lparr>cs_tools := sort (remdups ts)\<rparr>)))"

definition set_max_entries :: "string \<Rightarrow> pydict \<Rightarrow> caller_spec \<Rightarrow> (string, caller_spec) result" where
  "set_max_entries name ov sp = (case map_of ov ''max_entries_per_hour'' of
       None \<Rightarrow> Inr sp
     | Some v \<Rightarrow> (case v of
           PInt n \<Rightarrow> if n < 0 then Inl (''callers.'' @ name @ ''.max_entries_per_hour must be a non-negative integer'')
                    else Inr (sp\<lparr>cs_max_entries := Some n\<rparr>)
         | _ \<Rightarrow> Inl (''callers.'' @ name @ ''.max_entries_per_hour must be a non-negative integer'')))"

definition set_rounds_clamp :: "string \<Rightarrow> pydict \<Rightarrow> caller_spec \<Rightarrow> (string, caller_spec) result" where
  "set_rounds_clamp name ov sp = (case map_of ov ''max_rounds_clamp'' of
       None \<Rightarrow> Inr sp
     | Some v \<Rightarrow> (case v of
           PInt n \<Rightarrow> if n < 1 then Inl (''callers.'' @ name @ ''.max_rounds_clamp must be an integer of at least 1'')
                    else Inr (sp\<lparr>cs_rounds_clamp := Some n\<rparr>)
         | _ \<Rightarrow> Inl (''callers.'' @ name @ ''.max_rounds_clamp must be an integer of at least 1'')))"

definition set_run_control :: "string \<Rightarrow> pydict \<Rightarrow> caller_spec \<Rightarrow> (string, caller_spec) result" where
  "set_run_control name ov sp = (case map_of ov ''rest_run_control'' of
       None \<Rightarrow> Inr sp
     | Some v \<Rightarrow> (case v of
           PBool b \<Rightarrow> Inr (sp\<lparr>cs_run_control := b\<rparr>)
         | _ \<Rightarrow> Inl (''callers.'' @ name @ ''.rest_run_control must be true or false'')))"

definition caller_entry :: "(pyval \<Rightarrow> string) \<Rightarrow> pydict \<Rightarrow> string \<Rightarrow> (string, string \<times> caller_spec) result" where
  "caller_entry render callers name =
     (if name = ANON_CALLER
      then Inl (''[callers.'' @ name @ ''] is reserved: the auth path always synthesizes '' @ [CHR 0x27] @ ''anon'' @
                [CHR 0x27] @ '' with an empty allowlist'')
      else if \<not> dollar_match caller_name_full name
      then Inl (''caller name '' @ render (PStr name) @ '' must match '' @ render (PStr ''^[a-z0-9][a-z0-9-]{0,31}$''))
      else case (case map_of callers name of None \<Rightarrow> PDict [] | Some v \<Rightarrow> v) of
             PDict ov \<Rightarrow>
               (let unknown = sort (remdups (filter (\<lambda>k. k \<notin> set CALLER_KEYS) (map fst ov))) in
                if unknown \<noteq> [] then Inl (''unknown [callers.'' @ name @ ''] key(s): '' @ py_join '', '' unknown)
                else rbind (set_secret_env name ov (default_spec name)) (\<lambda>s1.
                     rbind (set_tools name ov s1) (\<lambda>s2.
                     rbind (set_max_entries name ov s2) (\<lambda>s3.
                     rbind (set_rounds_clamp name ov s3) (\<lambda>s4.
                     rbind (set_run_control name ov s4) (\<lambda>s5. Inr (name, s5)))))))
           | _ \<Rightarrow> Inl (''[callers.'' @ name @ ''] must be a TOML table''))"

fun caller_entries :: "(pyval \<Rightarrow> string) \<Rightarrow> pydict \<Rightarrow> string list \<Rightarrow> (string, caller_table) result" where
  "caller_entries render callers [] = Inr []"
| "caller_entries render callers (n # ns) =
     rbind (caller_entry render callers n) (\<lambda>e. rbind (caller_entries render callers ns) (\<lambda>es. Inr (e # es)))"

definition flatten_callers_table :: "(pyval \<Rightarrow> string) \<Rightarrow> string \<Rightarrow> pyval \<Rightarrow> (string, caller_table) result" where
  "flatten_callers_table render source callers = (case callers of
       PDict d \<Rightarrow> caller_entries render d (sort (remdups (map fst CALLER_DEFAULTS @ map fst d)))
     | _ \<Rightarrow> Inl (''[callers] in '' @ source @ '' must be a TOML table''))"

text \<open>\<open>caller_configs_or_defaults\<close>; \<open>defaults\<close> is what \<open>load_caller_configs\<close> returns.\<close>

definition caller_configs_or_defaults :: "caller_table \<Rightarrow> caller_table option \<Rightarrow> caller_table" where
  "caller_configs_or_defaults defaults configs =
     aupd ANON_CALLER anon_spec (case configs of Some (c # cs) \<Rightarrow> c # cs | _ \<Rightarrow> defaults)"

section \<open>Timestamps\<close>

text \<open>
  \<open>float(text)\<close>: the value, or infinity and not-a-number (\<open>FSpecial\<close>); \<open>None\<close> is
  \<open>ValueError\<close>. Digits may be separated by single underscores. Exponents beyond 400 overflow
  or vanish for the at most 20 characters that are parsed here.
\<close>

datatype pyfloat = FVal rat | FSpecial

definition FLOAT_LIMIT :: rat where "FLOAT_LIMIT = 2 ^ 1024 - 2 ^ 970"

text \<open>The nearest binary64 number, ties to even.\<close>

definition float_round :: "rat \<Rightarrow> rat" where
  "float_round r =
     (if r = 0 then 0
      else if \<bar>r\<bar> \<ge> 1
      then let e = bitlen \<lfloor>\<bar>r\<bar>\<rfloor> - 53 in
           if e \<ge> 0 then of_int (round_half_even (r / 2 ^ nat e)) * 2 ^ nat e
           else of_int (round_half_even (r * 2 ^ nat (- e))) / 2 ^ nat (- e)
      else let e = min 1074 (1127 - bitlen \<lfloor>\<bar>r\<bar> * 2 ^ 1074\<rfloor>) in
           of_int (round_half_even (r * 2 ^ nat e)) / 2 ^ nat e)"

fun take_digits :: "string \<Rightarrow> string \<times> string" where
  "take_digits [] = ([], [])"
| "take_digits (c # cs) =
     (if is_digit c
      then (case (case cs of u # d # r \<Rightarrow> if u = CHR ''_'' \<and> is_digit d then take_digits (d # r) else take_digits cs
                  | _ \<Rightarrow> take_digits cs) of (ds, r) \<Rightarrow> (c # ds, r))
      else ([], c # cs))"

definition digits_value :: "string \<Rightarrow> int" where
  "digits_value s = foldl (\<lambda>a c. a * 10 + digit_val c) 0 s"

fun split_sign :: "string \<Rightarrow> bool \<times> string" where
  "split_sign (c # cs) = (if c = CHR ''-'' then (True, cs) else if c = CHR ''+'' then (False, cs) else (False, c # cs))"
| "split_sign [] = (False, [])"

definition exponent_of :: "string \<Rightarrow> int option" where
  "exponent_of r = (case r of
       [] \<Rightarrow> Some 0
     | c # cs \<Rightarrow>
         if lower_char c \<noteq> CHR ''e'' then None
         else (case split_sign cs of (neg, ds) \<Rightarrow>
           (case take_digits ds of (es, rest) \<Rightarrow>
              if es = [] \<or> rest \<noteq> [] then None else Some (if neg then - digits_value es else digits_value es))))"

definition scaled :: "int \<Rightarrow> int \<Rightarrow> pyfloat" where
  "scaled m e = (if m = 0 then FVal 0
     else if e > 400 then FSpecial
     else if e < -400 then FVal 0
     else let v = (if e \<ge> 0 then of_int m * 10 ^ nat e else of_int m / 10 ^ nat (- e))
          in if \<bar>v\<bar> \<ge> FLOAT_LIMIT then FSpecial else FVal (float_round v))"

definition py_float_of_string :: "string \<Rightarrow> pyfloat option" where
  "py_float_of_string s =
     (case split_sign (py_strip s) of (neg, body) \<Rightarrow>
        if map lower_char body \<in> set [''inf'', ''infinity'', ''nan''] then Some FSpecial
        else (case take_digits body of (ip, r) \<Rightarrow>
          (case (case r of c # cs \<Rightarrow> if c = CHR ''.'' then take_digits cs else ([], r) | [] \<Rightarrow> ([], [])) of (fp, r2) \<Rightarrow>
             if ip = [] \<and> fp = [] then None
             else map_option (\<lambda>e. scaled ((if neg then -1 else 1) * digits_value (ip @ fp)) (e - int (length fp)))
                    (exponent_of r2))))"

datatype auth_exn = AuthOverflowError | AuthTypeError

definition whole_text :: "rat \<Rightarrow> string option" where
  "whole_text r = (if r = of_int \<lfloor>r\<rfloor> then Some (show_int \<lfloor>r\<rfloor>) else None)"

text \<open>\<open>float(n)\<close> of an integer beyond the range of floats raises.\<close>

definition canonical_timestamp :: "pyval \<Rightarrow> (auth_exn, string option) result" where
  "canonical_timestamp v = (case v of
       PStr s \<Rightarrow>
         (let text = py_strip s in
          if text = [] \<or> length text > 20 then Inr None
          else case py_float_of_string text of
                 Some (FVal r) \<Rightarrow> Inr (whole_text r)
               | _ \<Rightarrow> Inr None)
     | PInt i \<Rightarrow> if \<bar>of_int i\<bar> \<ge> FLOAT_LIMIT then Inl AuthOverflowError else Inr (whole_text (float_round (of_int i)))
     | PFloat r \<Rightarrow> Inr (whole_text r)
     | _ \<Rightarrow> Inr None)"

definition SIGNATURE_SKEW_SECONDS :: rat where "SIGNATURE_SKEW_SECONDS = 300"

text \<open>The text is always a canonical one, so it is an integer.\<close>

definition fresh :: "time \<Rightarrow> string option \<Rightarrow> string option" where
  "fresh now ts_text = (case ts_text of
       None \<Rightarrow> None
     | Some t \<Rightarrow>
         (case py_float_of_string t of
            Some (FVal v) \<Rightarrow> if v \<le> 0 \<or> \<bar>now - v\<bar> > SIGNATURE_SKEW_SECONDS then None else Some t
          | _ \<Rightarrow> None))"

section \<open>Signatures\<close>

record auth_env =
  ae_hmac :: "string \<Rightarrow> string \<Rightarrow> string"
  ae_sha256 :: "string \<Rightarrow> string"
  ae_dumps :: "pydict \<Rightarrow> string"
  ae_captured :: "string \<Rightarrow> string option"
  ae_environ :: "string \<Rightarrow> string option"
  ae_render :: "pyval \<Rightarrow> string"
  ae_now :: time

definition capture_secret :: "auth_env \<Rightarrow> string \<Rightarrow> string \<Rightarrow> auth_env" where
  "capture_secret env name v = (if v = [] then env else env\<lparr>ae_captured := (ae_captured env)(name := Some v)\<rparr>)"

definition nonempty :: "string option \<Rightarrow> string option" where
  "nonempty v = (case v of Some (c # cs) \<Rightarrow> Some (c # cs) | _ \<Rightarrow> None)"

definition captured_secret :: "auth_env \<Rightarrow> string \<Rightarrow> string option" where
  "captured_secret env name = (case nonempty (ae_captured env name) of
       Some s \<Rightarrow> Some s | None \<Rightarrow> nonempty (ae_environ env name))"

definition secret_for :: "auth_env \<Rightarrow> caller_spec option \<Rightarrow> string option" where
  "secret_for env spec = (case spec of
       None \<Rightarrow> None
     | Some sp \<Rightarrow> let n = py_strip (cs_secret_env sp) in if n = [] then None else captured_secret env n)"

definition signature_message :: "string \<Rightarrow> string \<Rightarrow> string" where
  "signature_message caller ts = caller @ '':'' @ ts"

definition compute_signature :: "auth_env \<Rightarrow> string \<Rightarrow> string \<Rightarrow> string \<Rightarrow> string" where
  "compute_signature env caller ts secret = ae_hmac env secret (signature_message caller ts)"

text \<open>\<open>hmac.compare_digest\<close> raises on text that is not ASCII.\<close>

definition compare_digest :: "string \<Rightarrow> string \<Rightarrow> (auth_exn, bool) result" where
  "compare_digest a b = (if list_all is_ascii a \<and> list_all is_ascii b then Inr (a = b) else Inl AuthTypeError)"

definition signature_matches ::
    "auth_env \<Rightarrow> string \<Rightarrow> string \<Rightarrow> string \<Rightarrow> string option \<Rightarrow> (auth_exn, bool) result" where
  "signature_matches env caller ts supplied secret = (case secret of
       Some (c # cs) \<Rightarrow>
         if supplied = [] then Inr False
         else compare_digest (compute_signature env caller ts (c # cs)) (py_lower (py_strip supplied))
     | _ \<Rightarrow> Inr False)"

definition verified_caller ::
    "auth_env \<Rightarrow> pyval \<Rightarrow> pyval \<Rightarrow> pyval \<Rightarrow> caller_table \<Rightarrow> (auth_exn, string) result" where
  "verified_caller env caller ts signature specs = (case caller of
       PStr raw \<Rightarrow>
         (let c = py_strip raw in
          if raw = [] then Inr ANON_CALLER
          else if c = ANON_CALLER \<or> \<not> dollar_match caller_name_full c then Inr ANON_CALLER
          else rbind (canonical_timestamp ts) (\<lambda>canon.
            case (fresh (ae_now env) canon, signature) of
              (Some t, PStr sig) \<Rightarrow>
                if sig = [] then Inr ANON_CALLER
                else (case map_of specs c of
                        None \<Rightarrow> Inr ANON_CALLER
                      | Some spec \<Rightarrow>
                          rbind (signature_matches env c t sig (secret_for env (Some spec))) (\<lambda>ok.
                          Inr (if ok then c else ANON_CALLER)))
            | _ \<Rightarrow> Inr ANON_CALLER))
     | _ \<Rightarrow> Inr ANON_CALLER)"

text \<open>The three identity headers, and the fields of an MCP call.\<close>

definition resolve_rest_caller :: "auth_env \<Rightarrow> (string \<Rightarrow> string option) \<Rightarrow> caller_table \<Rightarrow> (auth_exn, string) result" where
  "resolve_rest_caller env headers specs = verified_caller env (header_val (headers ''x-harness-caller''))
     (header_val (headers ''x-harness-timestamp'')) (header_val (headers ''x-harness-signature'')) specs"

definition resolve_mcp_caller :: "auth_env \<Rightarrow> pyval \<Rightarrow> caller_table \<Rightarrow> (auth_exn, string) result" where
  "resolve_mcp_caller env arguments specs = (case arguments of
       PDict d \<Rightarrow> verified_caller env (dget d ''caller'') (dget d ''caller_ts'') (dget d ''caller_sig'') specs
     | _ \<Rightarrow> Inr ANON_CALLER)"

definition strip_caller_arguments :: "pydict \<Rightarrow> pydict" where
  "strip_caller_arguments d = filter (\<lambda>kv. fst kv \<notin> set [''caller'', ''caller_ts'', ''caller_sig'']) d"

section \<open>Request-bound signatures of the ask tools\<close>

definition ASK_SIG_FIELDS :: "string list" where
  "ASK_SIG_FIELDS = [''caller'', ''caller_ts'', ''caller_nonce'', ''caller_sig'']"

definition ASK_MAX_PAST_SECONDS :: rat where "ASK_MAX_PAST_SECONDS = 300"
definition ASK_MAX_FUTURE_SECONDS :: rat where "ASK_MAX_FUTURE_SECONDS = 30"

definition nonce_full :: "string \<Rightarrow> bool" where
  "nonce_full s = (16 \<le> length s \<and> length s \<le> 64 \<and>
     list_all (\<lambda>c. is_lower_alpha c \<or> is_upper_alpha c \<or> is_digit c \<or> c = CHR ''_'' \<or> c = CHR ''-'') s)"

definition strip_ask_signature :: "pydict \<Rightarrow> pydict" where
  "strip_ask_signature d = filter (\<lambda>kv. fst kv \<notin> set ASK_SIG_FIELDS) d"

definition canonical_body :: "auth_env \<Rightarrow> pydict \<Rightarrow> string" where
  "canonical_body env arguments = ae_dumps env (strip_ask_signature arguments)"

definition ask_message :: "string \<Rightarrow> string \<Rightarrow> string \<Rightarrow> string \<Rightarrow> string \<Rightarrow> string" where
  "ask_message tool caller ts nonce digest = tool @ ''|'' @ caller @ ''|'' @ ts @ ''|'' @ nonce @ ''|'' @ digest"

definition ask_signature :: "auth_env \<Rightarrow> string \<Rightarrow> string \<Rightarrow> string \<Rightarrow> string \<Rightarrow> pydict \<Rightarrow> string \<Rightarrow> string" where
  "ask_signature env tool caller ts nonce arguments secret =
     ae_hmac env secret (ask_message tool caller ts nonce (ae_sha256 env (canonical_body env arguments)))"

text \<open>\<open>ask_caller_specs\<close>: a caller that only has a grant uses the conventional variable.\<close>

fun add_granted :: "caller_table \<Rightarrow> string list \<Rightarrow> caller_table" where
  "add_granted specs [] = specs"
| "add_granted specs (n # ns) =
     add_granted (if n \<in> fst ` set specs then specs
                  else specs @ [(n, anon_spec\<lparr>cs_secret_env := caller_secret_env n\<rparr>)]) ns"

definition ask_caller_specs :: "caller_table \<Rightarrow> (string \<times> string list) list \<Rightarrow> caller_table" where
  "ask_caller_specs configs grants = aupd ANON_CALLER anon_spec (add_granted configs (map fst grants))"

record nonce_cache =
  nc_seen :: "((string \<times> string) \<times> time) list"
  nc_max :: nat

definition nonce_use :: "nonce_cache \<Rightarrow> string \<Rightarrow> string \<Rightarrow> time \<Rightarrow> bool \<times> nonce_cache" where
  "nonce_use nc caller nonce now =
     (let full = (length (nc_seen nc) \<ge> nc_max nc);
          seen = (if full then filter (\<lambda>e. snd e > now) (nc_seen nc) else nc_seen nc);
          nc1 = nc\<lparr>nc_seen := seen\<rparr> in
      if full \<and> length seen \<ge> nc_max nc then (False, nc1)
      else case map_of seen (caller, nonce) of
             Some ex \<Rightarrow> if ex > now then (False, nc1)
                        else (True, nc1\<lparr>nc_seen := aupd (caller, nonce) (now + ASK_MAX_PAST_SECONDS + ASK_MAX_FUTURE_SECONDS) seen\<rparr>)
           | None \<Rightarrow> (True, nc1\<lparr>nc_seen := aupd (caller, nonce) (now + ASK_MAX_PAST_SECONDS + ASK_MAX_FUTURE_SECONDS) seen\<rparr>))"

text \<open>The checks of the identity fields, in their order: the reason of the first that fails.\<close>

record ask_identity =
  ai_caller :: string
  ai_ts :: string
  ai_nonce :: string
  ai_sig :: string

definition in_window :: "time \<Rightarrow> string \<Rightarrow> bool" where
  "in_window now ts = (case py_int_of_string ts of
       None \<Rightarrow> False
     | Some stamp \<Rightarrow> now - of_int stamp \<le> ASK_MAX_PAST_SECONDS \<and> - ASK_MAX_FUTURE_SECONDS \<le> now - of_int stamp)"

definition text_field :: "(string \<Rightarrow> bool) \<Rightarrow> string \<Rightarrow> pyval \<Rightarrow> (string, string) result" where
  "text_field ok reason v = (case v of PStr t \<Rightarrow> if ok t then Inr t else Inl reason | _ \<Rightarrow> Inl reason)"

definition ask_identity_of :: "pydict \<Rightarrow> string option \<Rightarrow> time \<Rightarrow> (string, ask_identity) result" where
  "ask_identity_of arguments ts now =
     rbind (text_field (\<lambda>c. caller_name_full c \<and> c \<noteq> ANON_CALLER) ''missing or malformed caller'' (dget arguments ''caller'')) (\<lambda>caller.
     rbind (case ts of None \<Rightarrow> Inl ''missing or malformed caller_ts'' | Some t \<Rightarrow> Inr t) (\<lambda>t.
     rbind (text_field nonce_full ''missing or malformed caller_nonce'' (dget arguments ''caller_nonce'')) (\<lambda>nonce.
     rbind (text_field (\<lambda>g. g \<noteq> [] \<and> length g \<le> 128) ''missing caller_sig'' (dget arguments ''caller_sig'')) (\<lambda>sig.
     rbind (raise_if (\<not> in_window now t) ''caller_ts outside the accepted window'') (\<lambda>_.
     Inr \<lparr>ai_caller = caller, ai_ts = t, ai_nonce = nonce, ai_sig = sig\<rparr>)))))"

text \<open>
  \<open>verify_ask_request\<close>: the caller with an empty reason, or \<open>anon\<close> with one, and the
  cache of used nonces.
\<close>

definition verify_ask_request ::
    "auth_env \<Rightarrow> string \<Rightarrow> pydict \<Rightarrow> caller_table \<Rightarrow> nonce_cache \<Rightarrow> time \<Rightarrow> (auth_exn, (string \<times> string) \<times> nonce_cache) result" where
  "verify_ask_request env tool arguments specs nc now =
     rbind (canonical_timestamp (dget arguments ''caller_ts'')) (\<lambda>ts.
     case ask_identity_of arguments ts now of
       Inl reason \<Rightarrow> Inr ((ANON_CALLER, reason), nc)
     | Inr i \<Rightarrow>
         (case secret_for env (map_of specs (ai_caller i)) of
            None \<Rightarrow> Inr ((ANON_CALLER, ''unknown caller''), nc)
          | Some secret \<Rightarrow>
              rbind (compare_digest (ask_signature env tool (ai_caller i) (ai_ts i) (ai_nonce i) arguments secret)
                       (py_lower (py_strip (ai_sig i)))) (\<lambda>ok.
              if \<not> ok then Inr ((ANON_CALLER, ''bad signature''), nc)
              else (case nonce_use nc (ai_caller i) (ai_nonce i) now of
                (used, nc') \<Rightarrow> Inr (if used then (ai_caller i, []) else (ANON_CALLER, ''nonce already used''), nc')))))"

section \<open>What a caller may do\<close>

definition ask_scope_allowed :: "string \<Rightarrow> string \<Rightarrow> (string \<times> string list) list \<Rightarrow> bool" where
  "ask_scope_allowed caller scope grants =
     (caller \<noteq> ANON_CALLER \<and> (case map_of grants caller of None \<Rightarrow> False | Some ss \<Rightarrow> scope \<in> set ss))"

definition tool_allowed :: "string \<Rightarrow> string \<Rightarrow> caller_table \<Rightarrow> bool" where
  "tool_allowed caller tool specs =
     (caller \<noteq> ANON_CALLER \<and> (case map_of specs caller of None \<Rightarrow> False | Some sp \<Rightarrow> tool \<in> set (cs_tools sp)))"

definition run_control_allowed :: "string \<Rightarrow> caller_table \<Rightarrow> bool" where
  "run_control_allowed caller specs =
     (caller \<noteq> ANON_CALLER \<and> (case map_of specs caller of None \<Rightarrow> False | Some sp \<Rightarrow> cs_run_control sp))"

definition ENQUEUE_WINDOW_SECONDS :: rat where "ENQUEUE_WINDOW_SECONDS = 3600"

definition recent_entries :: "queue_store \<Rightarrow> string \<Rightarrow> time \<Rightarrow> queue_entry list" where
  "recent_entries q caller now =
     filter (\<lambda>e. q_requested_by e = caller \<and> q_created_at e \<ge> now - ENQUEUE_WINDOW_SECONDS) (q_list q)"

definition hourly_entry_count :: "queue_store \<Rightarrow> string \<Rightarrow> time \<Rightarrow> int" where
  "hourly_entry_count q caller now = int (length (recent_entries q caller now))"

text \<open>The refusal: seconds to wait and the message.\<close>

definition enqueue_rate_violation ::
    "(pyval \<Rightarrow> string) \<Rightarrow> caller_spec option \<Rightarrow> queue_store \<Rightarrow> string \<Rightarrow> time \<Rightarrow> (int \<times> string) option" where
  "enqueue_rate_violation render spec q caller now = (case spec of
       None \<Rightarrow> None
     | Some sp \<Rightarrow>
         if caller = ANON_CALLER then None
         else (case cs_max_entries sp of
           None \<Rightarrow> None
         | Some limit \<Rightarrow>
             if limit < 0 then None
             else if hourly_entry_count q caller now < limit then None
             else let wait = (case recent_entries q caller now of
                        [] \<Rightarrow> 3600
                      | r # rs \<Rightarrow> max 1 \<lceil>Min (set (map q_created_at (r # rs))) + ENQUEUE_WINDOW_SECONDS - now\<rceil>)
                  in Some (wait, ''caller '' @ render (PStr caller) @ '' reached max_entries_per_hour ('' @ show_int limit @
                       ''); retry after '' @ show_int wait @ ''s'')))"

definition rounds_clamp_violation :: "caller_spec option \<Rightarrow> pyval \<Rightarrow> string option" where
  "rounds_clamp_violation spec max_rounds = (case Option.bind spec cs_rounds_clamp of
       None \<Rightarrow> None
     | Some clamp \<Rightarrow>
         if clamp < 1 then None
         else (case (if max_rounds = PNone then PInt DEFAULT_MAX_ROUNDS else max_rounds) of
           PInt n \<Rightarrow> if n \<le> clamp then None
              else Some (''max_rounds '' @ show_int n @ '' exceeds the caller'' @ [CHR 0x27] @ ''s max_rounds_clamp of '' @
                     show_int clamp @ ''; the request is refused, not truncated'')
         | _ \<Rightarrow> None))"

definition may_delete_entry :: "string \<Rightarrow> caller_spec option \<Rightarrow> queue_entry \<Rightarrow> bool" where
  "may_delete_entry caller spec e =
     (if caller = ANON_CALLER then False
      else (case spec of
              Some sp \<Rightarrow> RESOLVE_TOOL \<in> set (cs_tools sp) \<or> ANNOTATE_TOOL \<in> set (cs_tools sp)
            | None \<Rightarrow> False) \<or> q_requested_by e = caller)"

section \<open>The scoped routes\<close>

text \<open>An HTTP refusal with its status, a refusal of the effect lease, or an exception nothing handles.\<close>

datatype http_exn = HTTPError int string | HTTPLease wire_exn | HTTPUnhandled auth_exn | HTTPStore store_exn

record http_request =
  hr_headers :: "string \<Rightarrow> string option"
  hr_wire :: wire_request
  hr_host :: "string option"

record audit_event =
  ar_caller :: string
  ar_tool :: string
  ar_run :: "string option"

record web_env =
  we_auth :: auth_env
  we_specs :: "caller_table option"
  we_lease :: lease_env
  we_request :: request_env
  we_uuid :: string
  we_hex :: string
  we_models :: "pyval option"
  we_audit :: audit_store

record web_state =
  ws_queue :: queue_store
  ws_gate :: "lease_gate option"
  ws_refusals :: "audit_event list"

definition audit_refusal :: "string \<Rightarrow> string \<Rightarrow> string option \<Rightarrow> web_state \<Rightarrow> web_state" where
  "audit_refusal caller tool run s =
     (if tool \<in> set [RESOLVE_TOOL, ANNOTATE_TOOL]
      then s\<lparr>ws_refusals := ws_refusals s @ [\<lparr>ar_caller = caller, ar_tool = tool, ar_run = run\<rparr>]\<rparr> else s)"

text \<open>\<open>_scoped_caller\<close>: \<open>None\<close> when scoping is off.\<close>

definition scoped_caller ::
    "web_env \<Rightarrow> http_request \<Rightarrow> string \<Rightarrow> string option \<Rightarrow> web_state \<Rightarrow> (http_exn, string option) result \<times> web_state" where
  "scoped_caller env req tool run s = (case we_specs env of
       None \<Rightarrow> (Inr None, s)
     | Some specs \<Rightarrow>
         (case resolve_rest_caller (we_auth env) (hr_headers req) specs of
            Inl x \<Rightarrow> (Inl (HTTPUnhandled x), s)
          | Inr caller \<Rightarrow>
              if caller = ANON_CALLER
              then (Inl (HTTPError 401 ''invalid or missing caller identity''), audit_refusal caller tool run s)
              else if \<not> tool_allowed caller tool specs
              then (Inl (HTTPError 403 (''caller '' @ [CHR 0x27] @ caller @ [CHR 0x27] @ '' is not allowed to use '' @
                      [CHR 0x27] @ tool @ [CHR 0x27])), audit_refusal caller tool run s)
              else (case check_effect (we_lease env) (ws_gate s) (we_uuid env) (hr_wire req) (Some caller) None (ae_now (we_auth env)) of
                      Inl x \<Rightarrow> (Inl (HTTPLease x), s)
                    | Inr (_, g) \<Rightarrow> (Inr (Some caller), s\<lparr>ws_gate := g\<rparr>))))"

definition run_control_caller ::
    "web_env \<Rightarrow> http_request \<Rightarrow> web_state \<Rightarrow> (http_exn, string option) result \<times> web_state" where
  "run_control_caller env req s = (case we_specs env of
       None \<Rightarrow> (Inr None, s)
     | Some specs \<Rightarrow>
         (case resolve_rest_caller (we_auth env) (hr_headers req) specs of
            Inl x \<Rightarrow> (Inl (HTTPUnhandled x), s)
          | Inr caller \<Rightarrow>
              if caller = ANON_CALLER then (Inl (HTTPError 401 ''invalid or missing caller identity''), s)
              else if \<not> run_control_allowed caller specs
              then (Inl (HTTPError 403 (''caller '' @ [CHR 0x27] @ caller @ [CHR 0x27] @ '' is not allowed to control runs'')), s)
              else (case check_effect (we_lease env) (ws_gate s) (we_uuid env) (hr_wire req) (Some caller) None (ae_now (we_auth env)) of
                      Inl x \<Rightarrow> (Inl (HTTPLease x), s)
                    | Inr (_, g) \<Rightarrow> (Inr (Some caller), s\<lparr>ws_gate := g\<rparr>))))"

text \<open>How the queue routes answer what the store raises.\<close>

definition store_refusal :: "store_exn \<Rightarrow> http_exn" where
  "store_refusal x = (case x of
       DuplicateQueueEntry e \<Rightarrow> HTTPError 409 ''duplicate_queue_entry''
     | QueueExn (QUnknownField fs) \<Rightarrow> HTTPError 400 (''unknown field(s): '' @ py_join '', '' fs)
     | QueueExn (QValueError m) \<Rightarrow> HTTPError 422 m
     | QueueExn (QServiceUnavailable m) \<Rightarrow> HTTPError 503 m)"

definition create_queue_entry ::
    "web_env \<Rightarrow> http_request \<Rightarrow> pydict \<Rightarrow> web_state \<Rightarrow> (http_exn, queue_entry) result \<times> web_state" where
  "create_queue_entry env req body s =
     (case scoped_caller env req ''harness_enqueue_task'' None s of
        (Inl x, s1) \<Rightarrow> (Inl x, s1)
      | (Inr who, s1) \<Rightarrow>
          let now = ae_now (we_auth env);
              go = (\<lambda>b. case q_create (we_request env) (ws_queue s1) b (hr_host req) who (we_models env) (we_audit env) (we_hex env) now of
                      Inl x \<Rightarrow> (Inl (store_refusal x), s1)
                    | Inr (e, q) \<Rightarrow> (Inr e, s1\<lparr>ws_queue := q\<rparr>))
          in case who of
               None \<Rightarrow> go body
             | Some caller \<Rightarrow>
                 let spec = Option.bind (we_specs env) (\<lambda>t. map_of t caller) in
                 (case enqueue_rate_violation (ae_render (we_auth env)) spec (ws_queue s1) caller now of
                    Some (wait, m) \<Rightarrow> (Inl (HTTPError 429 m), s1)
                  | None \<Rightarrow>
                      (case rounds_clamp_violation spec (dget body ''max_rounds'') of
                         Some m \<Rightarrow> (Inl (HTTPError 422 m), s1)
                       | None \<Rightarrow> go (aupd ''requested_by'' (PStr caller) body))))"

definition delete_queue_entry ::
    "web_env \<Rightarrow> http_request \<Rightarrow> string \<Rightarrow> web_state \<Rightarrow> (http_exn, unit) result \<times> web_state" where
  "delete_queue_entry env req qid s =
     (case scoped_caller env req ''harness_list_queue'' None s of
        (Inl x, s1) \<Rightarrow> (Inl x, s1)
      | (Inr who, s1) \<Rightarrow>
          (case q_get (ws_queue s1) qid of
             Inl x \<Rightarrow> (Inl (HTTPStore x), s1)
           | Inr None \<Rightarrow> (Inl (HTTPError 404 ''queue entry not found''), s1)
           | Inr (Some e) \<Rightarrow>
               if q_status e \<noteq> Pending
               then (Inl (HTTPError 409 (''cannot delete entry with status '' @ status_name (q_status e))), s1)
               else if (case who of None \<Rightarrow> False
                        | Some caller \<Rightarrow> \<not> may_delete_entry caller (Option.bind (we_specs env) (\<lambda>t. map_of t caller)) e)
               then (Inl (HTTPError 403 (''caller '' @ [CHR 0x27] @ the who @ [CHR 0x27] @ '' may not delete entry '' @ [CHR 0x27] @
                      qid @ [CHR 0x27] @ '' created by '' @ [CHR 0x27] @ q_requested_by e @ [CHR 0x27])), s1)
               else (case q_delete (ws_queue s1) qid of
                       Inl x \<Rightarrow> (Inl (HTTPStore x), s1)
                     | Inr (None, q) \<Rightarrow> (Inl (HTTPError 404 ''queue entry not found''), s1\<lparr>ws_queue := q\<rparr>)
                     | Inr (Some _, q) \<Rightarrow> (Inr (), s1\<lparr>ws_queue := q\<rparr>))))"

section \<open>Lemmas\<close>

lemma py_strip_last: "py_strip s \<noteq> [] \<Longrightarrow> \<not> is_space (last (py_strip s))"
  unfolding py_strip_def py_rstrip_def
  by (metis hd_dropWhile last_rev rev_is_Nil_conv dropWhile_eq_Nil_conv)

lemma chomp_strip [simp]: "chomp (py_strip s) = py_strip s"
  using py_strip_last [of s] by (auto simp: chomp_def newline_def is_space_def)

lemma caller_name_strip [simp]: "dollar_match caller_name_full (py_strip s) = caller_name_full (py_strip s)"
  by (simp add: dollar_match_def)

lemma compare_digest_Inr [simp]:
  "compare_digest a b = Inr r \<longleftrightarrow> list_all is_ascii a \<and> list_all is_ascii b \<and> r = (a = b)"
  "compare_digest a b = Inl x \<longleftrightarrow> \<not> (list_all is_ascii a \<and> list_all is_ascii b) \<and> x = AuthTypeError"
  by (auto simp: compare_digest_def)

lemma captured_secret_nonempty: "captured_secret env n = Some v \<Longrightarrow> v \<noteq> []"
  by (auto simp: captured_secret_def nonempty_def split: option.splits list.splits)

lemma secret_for_nonempty: "secret_for env sp = Some v \<Longrightarrow> v \<noteq> []"
  by (auto simp: secret_for_def Let_def dest: captured_secret_nonempty split: option.splits if_splits)

lemma signature_matches_True:
  "signature_matches env c t g secret = Inr True \<longleftrightarrow>
     (\<exists>v. secret = Some v \<and> v \<noteq> [] \<and> g \<noteq> [] \<and> py_lower (py_strip g) = compute_signature env c t v \<and>
        list_all is_ascii (py_lower (py_strip g)))"
  by (auto simp: signature_matches_def split: option.splits list.splits)

lemma fresh_Some: "fresh now x = Some t \<longleftrightarrow> x = Some t \<and>
    (\<exists>v. py_float_of_string t = Some (FVal v) \<and> 0 < v \<and> \<bar>now - v\<bar> \<le> 300)"
  by (auto simp: fresh_def SIGNATURE_SKEW_SECONDS_def not_le not_less split: option.splits pyfloat.splits if_splits)

lemma verified_caller_eq:
  "verified_caller env caller ts sig specs = Inr c \<and> c \<noteq> ANON_CALLER \<longleftrightarrow>
     (\<exists>raw t g spec secret. caller = PStr raw \<and> py_strip raw = c \<and> c \<noteq> ANON_CALLER \<and> caller_name_full c \<and>
        canonical_timestamp ts = Inr (Some t) \<and> fresh (ae_now env) (Some t) = Some t \<and>
        sig = PStr g \<and> g \<noteq> [] \<and> map_of specs c = Some spec \<and> secret_for env (Some spec) = Some secret \<and>
        py_lower (py_strip g) = compute_signature env c t secret \<and> list_all is_ascii (py_lower (py_strip g)))"
  (is "?l \<longleftrightarrow> ?r")
proof
  assume ?l
  then obtain raw where raw: "caller = PStr raw" "raw \<noteq> []" "py_strip raw \<noteq> ANON_CALLER" "caller_name_full (py_strip raw)"
    by (auto simp: verified_caller_def Let_def split: pyval.splits if_splits)
  with \<open>?l\<close> obtain canon where canon: "canonical_timestamp ts = Inr canon"
    by (auto simp: verified_caller_def Let_def rbind_eq_Inr)
  with \<open>?l\<close> raw obtain t g where tg: "fresh (ae_now env) canon = Some t" "sig = PStr g" "g \<noteq> []"
    by (auto simp: verified_caller_def Let_def split: option.splits pyval.splits if_splits)
  with \<open>?l\<close> raw canon obtain spec where spec: "map_of specs (py_strip raw) = Some spec"
    by (auto simp: verified_caller_def Let_def split: option.splits)
  with \<open>?l\<close> raw canon tg obtain ok where
    "signature_matches env (py_strip raw) t g (secret_for env (Some spec)) = Inr ok" "c = (if ok then py_strip raw else ANON_CALLER)"
    by (auto simp: verified_caller_def Let_def rbind_eq_Inr)
  with \<open>?l\<close> have "signature_matches env (py_strip raw) t g (secret_for env (Some spec)) = Inr True" "c = py_strip raw"
    by (auto split: if_splits)
  moreover have "canon = Some t" using tg(1) by (simp add: fresh_Some)
  ultimately show ?r using raw canon tg spec by (auto simp: signature_matches_True)
next
  assume ?r
  then obtain raw t g spec secret where r: "caller = PStr raw" "py_strip raw = c" "c \<noteq> ANON_CALLER" "caller_name_full c"
    "canonical_timestamp ts = Inr (Some t)" "fresh (ae_now env) (Some t) = Some t" "sig = PStr g" "g \<noteq> []"
    "map_of specs c = Some spec" "secret_for env (Some spec) = Some secret"
    "py_lower (py_strip g) = compute_signature env c t secret" "list_all is_ascii (py_lower (py_strip g))" by blast
  have "raw \<noteq> []" using r(2,4) by (auto simp: caller_name_full_def py_strip_def py_lstrip_def py_rstrip_def)
  moreover have "dollar_match caller_name_full c" using caller_name_strip [of raw] r(2,4) by simp
  moreover have "signature_matches env c t g (Some secret) = Inr True"
    using r secret_for_nonempty [OF r(10)] by (auto simp: signature_matches_True)
  ultimately show ?l using r by (simp add: verified_caller_def)
qed

lemma verified_caller_raises:
  "verified_caller env caller ts sig specs = Inl x \<longleftrightarrow>
     (\<exists>raw. caller = PStr raw \<and> py_strip raw \<noteq> ANON_CALLER \<and> caller_name_full (py_strip raw) \<and>
        (canonical_timestamp ts = Inl x \<or>
         (\<exists>canon t g spec secret. canonical_timestamp ts = Inr canon \<and> fresh (ae_now env) canon = Some t \<and>
            sig = PStr g \<and> g \<noteq> [] \<and> map_of specs (py_strip raw) = Some spec \<and> secret_for env (Some spec) = Some secret \<and>
            compare_digest (compute_signature env (py_strip raw) t secret) (py_lower (py_strip g)) = Inl x)))"
  (is "_ \<longleftrightarrow> ?r")
proof -
  have sm: "signature_matches env c t g sec = Inl x \<longleftrightarrow>
      (\<exists>v. sec = Some v \<and> v \<noteq> [] \<and> g \<noteq> [] \<and> compare_digest (compute_signature env c t v) (py_lower (py_strip g)) = Inl x)" for c t g sec
    by (auto simp: signature_matches_def split: option.splits list.splits if_splits)
  have ne: "caller_name_full (py_strip raw) \<Longrightarrow> raw \<noteq> []" for raw
    by (auto simp: caller_name_full_def py_strip_def py_lstrip_def py_rstrip_def)
  show ?thesis
  proof (cases "\<exists>raw. caller = PStr raw \<and> py_strip raw \<noteq> ANON_CALLER \<and> caller_name_full (py_strip raw)")
    case False
    then show ?thesis by (auto simp: verified_caller_def Let_def split: pyval.splits if_splits)
  next
    case True
    then obtain raw where raw: "caller = PStr raw" "py_strip raw \<noteq> ANON_CALLER" "caller_name_full (py_strip raw)" by blast
    show ?thesis
    proof (cases "\<exists>canon t g spec. canonical_timestamp ts = Inr canon \<and> fresh (ae_now env) canon = Some t \<and>
        sig = PStr g \<and> g \<noteq> [] \<and> map_of specs (py_strip raw) = Some spec")
      case True
      then obtain canon t g spec where c: "canonical_timestamp ts = Inr canon" "fresh (ae_now env) canon = Some t"
        "sig = PStr g" "g \<noteq> []" "map_of specs (py_strip raw) = Some spec" by blast
      then have "verified_caller env caller ts sig specs = Inl x \<longleftrightarrow>
          signature_matches env (py_strip raw) t g (secret_for env (Some spec)) = Inl x"
        using raw ne [OF raw(3)] by (simp add: verified_caller_def rbind_eq_Inl Let_def)
      then show ?thesis
        using raw c secret_for_nonempty [of env "Some spec"] by (auto simp: sm simp del: compare_digest_Inr)
    next
      case False
      then have "verified_caller env caller ts sig specs = Inl x \<longleftrightarrow> canonical_timestamp ts = Inl x"
        using raw ne [OF raw(3)]
        by (cases "canonical_timestamp ts") (auto simp: verified_caller_def Let_def split: option.splits pyval.splits)
      then show ?thesis using raw False by auto
    qed
  qed
qed

lemma canonical_timestamp_Inl: "canonical_timestamp v = Inl x \<longleftrightarrow> x = AuthOverflowError \<and> (\<exists>i. v = PInt i \<and> FLOAT_LIMIT \<le> \<bar>of_int i\<bar>)"
  by (auto simp: canonical_timestamp_def Let_def split: pyval.splits option.splits pyfloat.splits if_splits)

text \<open>Integers of up to 53 bits are floats.\<close>

lemma round_half_even_int [simp]: "round_half_even (of_int i) = i"
  by (simp add: round_half_even_def)

lemma float_round_int: "\<bar>i\<bar> < 2 ^ 53 \<Longrightarrow> float_round (of_int i) = of_int i"
proof (cases "i = 0")
  case False
  assume i: "\<bar>i\<bar> < 2 ^ 53"
  define e where "e = bitlen \<bar>i\<bar> - 53"
  have "bitlen \<bar>i\<bar> \<le> 53" using bitlen_le_iff_power [of "\<bar>i\<bar>" 53] i by simp
  then have e: "e \<le> 0" by (simp add: e_def)
  have one: "\<bar>of_int i :: rat\<bar> \<ge> 1" using False by (metis abs_ge_zero int_one_le_iff_zero_less of_int_1_le_iff of_int_abs zero_less_abs_iff)
  have fl: "\<lfloor>\<bar>of_int i :: rat\<bar>\<rfloor> = \<bar>i\<bar>" by (metis floor_of_int of_int_abs)
  have "(of_int i :: rat) * 2 ^ k = of_int (i * 2 ^ k)" for k by simp
  then show ?thesis
    using False one e unfolding float_round_def fl e_def [symmetric] Let_def
    by (cases "e = 0") (simp_all only: round_half_even_int if_False if_True simp_thms of_int_eq_0_iff, simp_all)
qed (simp add: float_round_def)

text \<open>A caller a route let through.\<close>

lemma scoped_caller_Inr:
  assumes "scoped_caller env req tool run s = (Inr (Some c), s')"
  shows "\<exists>specs sp. we_specs env = Some specs \<and> map_of specs c = Some sp \<and> tool \<in> set (cs_tools sp) \<and>
     resolve_rest_caller (we_auth env) (hr_headers req) specs = Inr c \<and> c \<noteq> ANON_CALLER \<and> ws_queue s' = ws_queue s"
  using assms
  by (auto simp: scoped_caller_def tool_allowed_def audit_refusal_def split: option.splits sum.splits if_splits)

lemma caller_name_strip_self: "caller_name_full c \<Longrightarrow> py_strip c = c"
proof -
  assume c: "caller_name_full c"
  have sp: "\<not> is_space d" if "is_name_char d \<or> d = CHR ''-''" for d
    using that by (auto simp: is_name_char_def is_lower_alpha_def is_digit_def is_space_def Let_def)
  have "\<not> is_space d" if "d \<in> set c" for d
    using c that sp by (cases c) (auto simp: caller_name_full_def list_all_iff)
  then have "dropWhile is_space c = c" "dropWhile is_space (rev c) = rev c"
    by (metis dropWhile_eq_self_iff hd_in_set, metis dropWhile_eq_self_iff hd_in_set set_rev)
  then show ?thesis by (simp add: py_strip_def py_lstrip_def py_rstrip_def)
qed

lemma resolved_strip: "resolve_rest_caller env h specs = Inr c \<Longrightarrow> c \<noteq> ANON_CALLER \<Longrightarrow> py_strip c = c"
  using verified_caller_eq [of env _ _ _ specs c] unfolding resolve_rest_caller_def by (metis caller_name_strip_self)

subsection \<open>The nonce cache\<close>

lemma map_of_filter_kept:
  "distinct (map fst xs) \<Longrightarrow> map_of xs k = Some v \<Longrightarrow> P (k, v) \<Longrightarrow> map_of (filter P xs) k = Some v"
  by (induction xs) (auto simp: rev_image_eqI split: if_splits)

lemma nonce_use_keeps:
  assumes "distinct (map fst (nc_seen nc))" and "map_of (nc_seen nc) k = Some ex" and "now < ex"
    and "nonce_use nc c n now = (ok, nc')"
  shows "map_of (nc_seen nc') k = Some ex" and "ok \<longrightarrow> (c, n) \<noteq> k"
  using assms(2-4) map_of_filter_kept [OF assms(1,2), of "\<lambda>e. snd e > now"]
  by (auto simp: nonce_use_def Let_def split: if_splits option.splits)

lemma nonce_use_distinct:
  assumes "distinct (map fst (nc_seen nc))" and "nonce_use nc c n now = (ok, nc')"
  shows "distinct (map fst (nc_seen nc'))"
proof -
  have "distinct (map fst (filter P (nc_seen nc)))" for P
    using assms(1) by (rule distinct_map_filter)
  then show ?thesis
    using assms by (auto simp: nonce_use_def Let_def simp del: distinct_map split: if_splits option.splits)
qed

lemma nonce_cache_bounded:
  assumes "length (nc_seen nc) \<le> nc_max nc" and "nonce_use nc c n now = (ok, nc')"
  shows "length (nc_seen nc') \<le> nc_max nc' \<and> nc_max nc' = nc_max nc"
proof -
  have "length (filter P (nc_seen nc)) \<le> length (nc_seen nc)" for P by simp
  moreover have "length (aupd k v xs) \<le> nc_max nc" if "length xs < nc_max nc" for k v and xs :: "((string \<times> string) \<times> time) list"
    using length_aupd [of k v xs] that by simp
  ultimately show ?thesis
    using assms by (auto simp: nonce_use_def Let_def not_le split: if_splits option.splits intro: order_trans)
qed

lemma nonce_use_fresh:
  "nonce_use nc c n now = (True, nc') \<Longrightarrow> map_of (nc_seen nc') (c, n) = Some (now + 330)"
  by (auto simp: nonce_use_def Let_def ASK_MAX_PAST_SECONDS_def ASK_MAX_FUTURE_SECONDS_def split: if_splits option.splits)

text \<open>An accepted request, taken apart.\<close>

lemma verify_ask_accepted:
  assumes "verify_ask_request env tool args specs nc now = Inr ((c, []), nc')"
  obtains i ts secret where "canonical_timestamp (dget args ''caller_ts'') = Inr ts" and "ask_identity_of args ts now = Inr i"
    and "ai_caller i = c" and "secret_for env (map_of specs c) = Some secret"
    and "py_lower (py_strip (ai_sig i)) = ask_signature env tool c (ai_ts i) (ai_nonce i) args secret"
    and "nonce_use nc c (ai_nonce i) now = (True, nc')"
proof -
  have ne: "ask_identity_of args ts now \<noteq> Inl []" for ts
    by (auto simp: ask_identity_of_def rbind_eq_Inl text_field_def split: pyval.splits if_splits option.splits)
  obtain ts where ts: "canonical_timestamp (dget args ''caller_ts'') = Inr ts"
    using assms by (auto simp: verify_ask_request_def rbind_eq_Inr)
  then obtain i where i: "ask_identity_of args ts now = Inr i"
    using assms ne [of ts] by (auto simp: verify_ask_request_def split: sum.splits)
  then obtain secret where secret: "secret_for env (map_of specs (ai_caller i)) = Some secret"
    using assms ts by (auto simp: verify_ask_request_def split: option.splits)
  then obtain ok where ok: "compare_digest (ask_signature env tool (ai_caller i) (ai_ts i) (ai_nonce i) args secret)
      (py_lower (py_strip (ai_sig i))) = Inr ok" "ok"
    using assms ts i by (auto simp: verify_ask_request_def rbind_eq_Inr split: if_splits)
  obtain used nc2 where use: "nonce_use nc (ai_caller i) (ai_nonce i) now = (used, nc2)" by fastforce
  have "verify_ask_request env tool args specs nc now =
      Inr (if used then (ai_caller i, []) else (ANON_CALLER, ''nonce already used''), nc2)"
    unfolding verify_ask_request_def ts rbind_Inr i secret ok(1) sum.case option.case use prod.case using ok(2) by simp
  then have "used" "c = ai_caller i" "nc2 = nc'" using assms by (auto split: if_splits)
  then show ?thesis using that ts i secret ok use by auto
qed

subsection \<open>Sequences of ask requests\<close>

record ask_call =
  ac_env :: auth_env
  ac_tool :: string
  ac_args :: pydict
  ac_specs :: caller_table
  ac_now :: time

definition ask_step :: "nonce_cache \<Rightarrow> ask_call \<Rightarrow> nonce_cache" where
  "ask_step nc a = (case verify_ask_request (ac_env a) (ac_tool a) (ac_args a) (ac_specs a) nc (ac_now a) of
       Inl _ \<Rightarrow> nc | Inr (_, nc') \<Rightarrow> nc')"

lemma ask_step_cases:
  "ask_step nc a = nc \<or> (\<exists>c n ok. nonce_use nc c n (ac_now a) = (ok, ask_step nc a))"
proof (cases "canonical_timestamp (dget (ac_args a) ''caller_ts'')")
  case (Inr ts)
  show ?thesis
  proof (cases "ask_identity_of (ac_args a) ts (ac_now a)")
    case I: (Inr i)
    show ?thesis
    proof (cases "secret_for (ac_env a) (map_of (ac_specs a) (ai_caller i))")
      case (Some secret)
      obtain used nc2 where use: "nonce_use nc (ai_caller i) (ai_nonce i) (ac_now a) = (used, nc2)" by fastforce
      have "ask_step nc a = nc \<or> ask_step nc a = nc2"
        using Some use
        by (cases "compare_digest (ask_signature (ac_env a) (ac_tool a) (ai_caller i) (ai_ts i) (ai_nonce i) (ac_args a) secret)
              (py_lower (py_strip (ai_sig i)))")
           (simp_all add: ask_step_def verify_ask_request_def Inr I del: compare_digest_Inr)
      then show ?thesis using use by metis
    qed (simp add: ask_step_def verify_ask_request_def Inr I)
  qed (simp add: ask_step_def verify_ask_request_def Inr)
qed (simp add: ask_step_def verify_ask_request_def)

definition remembered :: "string \<times> string \<Rightarrow> time \<Rightarrow> nonce_cache \<Rightarrow> bool" where
  "remembered k ex nc = (distinct (map fst (nc_seen nc)) \<and> map_of (nc_seen nc) k = Some ex)"

lemma ask_step_remembered: "remembered k ex nc \<Longrightarrow> ac_now a < ex \<Longrightarrow> remembered k ex (ask_step nc a)"
  using ask_step_cases [of nc a] nonce_use_keeps(1) [of nc k ex "ac_now a"] nonce_use_distinct [of nc]
  unfolding remembered_def by metis

lemma ask_run_remembered:
  "remembered k ex nc \<Longrightarrow> list_all (\<lambda>a. ac_now a < ex) as \<Longrightarrow> remembered k ex (run_ops ask_step nc as)"
  by (induction as arbitrary: nc) (auto simp: ask_step_remembered)

lemma ask_identity_fields:
  assumes "ask_identity_of args ts now = Inr i"
  shows "dget args ''caller'' = PStr (ai_caller i)" and "dget args ''caller_nonce'' = PStr (ai_nonce i)"
    and "ts = Some (ai_ts i)" and "in_window now (ai_ts i)" and "caller_name_full (ai_caller i)" and "nonce_full (ai_nonce i)"
    and "ai_caller i \<noteq> ANON_CALLER"
  using assms
  by (auto simp: ask_identity_of_def rbind_eq_Inr text_field_def split: pyval.splits if_splits option.splits)

lemma split_bar: "a @ ''|'' @ x = b @ ''|'' @ y \<Longrightarrow> CHR ''|'' \<notin> set a \<Longrightarrow> CHR ''|'' \<notin> set b \<Longrightarrow> a = b \<and> x = y"
proof (induction a arbitrary: b)
  case Nil
  then show ?case by (cases b) auto
next
  case (Cons c a)
  then show ?case by (cases b) auto
qed

lemma name_no_bar: "caller_name_full c \<Longrightarrow> CHR ''|'' \<notin> set c" "nonce_full n \<Longrightarrow> CHR ''|'' \<notin> set n"
  by (auto simp: caller_name_full_def nonce_full_def list_all_iff is_name_char_def is_lower_alpha_def is_upper_alpha_def
      is_digit_def split: list.splits)

lemma digit_not_bar: "k < 10 \<Longrightarrow> CHR ''|'' \<noteq> char_of (48 + k :: nat)"
proof
  assume "k < 10" and "CHR ''|'' = char_of (48 + k)"
  then have "(of_char CHR ''|'' :: nat) = (48 + k) mod 256" by (metis of_char_of)
  then show False using \<open>k < 10\<close> by simp
qed

lemma show_nat_no_bar: "CHR ''|'' \<notin> set (show_nat n)"
proof (induction n rule: show_nat.induct)
  case (1 n)
  then show ?case using digit_not_bar [of n] digit_not_bar [of "n mod 10"] by (subst show_nat.simps) simp
qed

lemma canonical_no_bar: "canonical_timestamp v = Inr (Some t) \<Longrightarrow> CHR ''|'' \<notin> set t"
  using show_nat_no_bar
  by (auto simp: canonical_timestamp_def whole_text_def show_int_def Let_def
      split: pyval.splits if_splits option.splits pyfloat.splits)

subsection \<open>The loaded caller table\<close>

text \<open>What a loaded caller entry is: a valid name that is not the reserved one, a secret's variable,
  known tools without repetition, and limits in range.\<close>

definition typed_caller :: "string \<Rightarrow> caller_spec \<Rightarrow> bool" where
  "typed_caller name sp =
     (name \<noteq> ANON_CALLER \<and> dollar_match caller_name_full name \<and> py_strip (cs_secret_env sp) \<noteq> [] \<and>
      sorted (cs_tools sp) \<and> distinct (cs_tools sp) \<and> set (cs_tools sp) \<subseteq> set MCP_TOOL_NAMES \<and>
      (case cs_max_entries sp of None \<Rightarrow> True | Some n \<Rightarrow> 0 \<le> n) \<and>
      (case cs_rounds_clamp sp of None \<Rightarrow> True | Some n \<Rightarrow> 1 \<le> n))"

lemma py_strip_Cons: "\<not> is_space c \<Longrightarrow> py_strip (c # s) \<noteq> []"
  by (auto simp: py_strip_def py_lstrip_def py_rstrip_def)

lemma default_spec_typed:
  "name \<noteq> ANON_CALLER \<Longrightarrow> dollar_match caller_name_full name \<Longrightarrow> typed_caller name (default_spec name)"
proof -
  assume n: "name \<noteq> ANON_CALLER" "dollar_match caller_name_full name"
  have s: "py_strip (caller_secret_env name) \<noteq> []"
    unfolding caller_secret_env_def by (simp add: py_strip_Cons is_space_def)
  have o: "sorted (sort MCP_TOOL_NAMES) \<and> distinct (sort MCP_TOOL_NAMES) \<and> set (sort MCP_TOOL_NAMES) = set MCP_TOOL_NAMES"
    by (simp del: sort_key_simps) (simp add: MCP_TOOL_NAMES_def)
  have c: "sorted [''harness_enqueue_task'', ''harness_list_queue'', ''harness_run_status'']" by code_simp
  show ?thesis
    using n s o c by (auto simp: default_spec_def typed_caller_def CALLER_DEFAULTS_def anon_spec_def MCP_TOOL_NAMES_def)
qed

lemma set_tools_known:
  assumes "set_tools name ov sp = Inr sp'"
  shows "sp' = sp \<or> (\<exists>ts. sp' = sp\<lparr>cs_tools := sort (remdups ts)\<rparr> \<and> set ts \<subseteq> set MCP_TOOL_NAMES)"
proof (cases "map_of ov ''tools''")
  case (Some v)
  obtain ts where ts: "(case v of PList vs \<Rightarrow> str_items vs | _ \<Rightarrow> None) = Some ts"
    using assms Some by (cases "case v of PList vs \<Rightarrow> str_items vs | _ \<Rightarrow> None") (auto simp: set_tools_def)
  let ?u = "sort (remdups (filter (\<lambda>t. t \<notin> set MCP_TOOL_NAMES) ts))"
  have u: "?u = []" using assms Some ts by (auto simp: set_tools_def Let_def split: if_splits)
  then have "set ?u = {}" by (metis list.set(1))
  moreover have "sp' = sp\<lparr>cs_tools := sort (remdups ts)\<rparr>" using assms Some ts u by (simp add: set_tools_def Let_def)
  ultimately show ?thesis by auto
qed (use assms in \<open>simp add: set_tools_def\<close>)

lemma setters_typed:
  assumes "typed_caller name sp"
  shows "set_secret_env name ov sp = Inr sp' \<Longrightarrow> typed_caller name sp'"
    and "set_tools name ov sp = Inr sp' \<Longrightarrow> typed_caller name sp'"
    and "set_max_entries name ov sp = Inr sp' \<Longrightarrow> typed_caller name sp'"
    and "set_rounds_clamp name ov sp = Inr sp' \<Longrightarrow> typed_caller name sp'"
    and "set_run_control name ov sp = Inr sp' \<Longrightarrow> typed_caller name sp'"
proof -
  show "set_secret_env name ov sp = Inr sp' \<Longrightarrow> typed_caller name sp'"
    using assms by (auto simp: typed_caller_def set_secret_env_def split: option.splits pyval.splits if_splits)
  show "set_tools name ov sp = Inr sp' \<Longrightarrow> typed_caller name sp'"
    using assms set_tools_known [of name ov sp sp'] by (auto simp: typed_caller_def)
  show "set_max_entries name ov sp = Inr sp' \<Longrightarrow> typed_caller name sp'"
    using assms by (auto simp: typed_caller_def set_max_entries_def split: option.splits pyval.splits if_splits)
  show "set_rounds_clamp name ov sp = Inr sp' \<Longrightarrow> typed_caller name sp'"
    using assms by (auto simp: typed_caller_def set_rounds_clamp_def split: option.splits pyval.splits if_splits)
  show "set_run_control name ov sp = Inr sp' \<Longrightarrow> typed_caller name sp'"
    using assms by (auto simp: typed_caller_def set_run_control_def split: option.splits pyval.splits if_splits)
qed

lemma caller_entry_typed:
  assumes "caller_entry render d n = Inr e"
  shows "fst e = n \<and> typed_caller n (snd e)"
proof -
  have n: "n \<noteq> ANON_CALLER" "dollar_match caller_name_full n" using assms by (auto simp: caller_entry_def split: if_splits)
  obtain ov where ov: "(case map_of d n of None \<Rightarrow> PDict [] | Some v \<Rightarrow> v) = PDict ov"
    using assms n by (cases "case map_of d n of None \<Rightarrow> PDict [] | Some v \<Rightarrow> v") (simp_all add: caller_entry_def)
  obtain s1 s2 s3 s4 s5 where "set_secret_env n ov (default_spec n) = Inr s1" "set_tools n ov s1 = Inr s2"
    "set_max_entries n ov s2 = Inr s3" "set_rounds_clamp n ov s3 = Inr s4" "set_run_control n ov s4 = Inr s5" "e = (n, s5)"
    using assms n unfolding caller_entry_def ov by (auto simp: Let_def rbind_eq_Inr split: if_splits)
  then show ?thesis using default_spec_typed [OF n] by (metis setters_typed fst_conv snd_conv)
qed

lemma caller_entries_typed:
  "caller_entries render d ns = Inr t \<Longrightarrow> map fst t = ns \<and> list_all (\<lambda>e. typed_caller (fst e) (snd e)) t"
proof (induction ns arbitrary: t)
  case (Cons n ns)
  then show ?case using caller_entry_typed [of render d n] by (auto simp: rbind_eq_Inr)
qed simp

subsection \<open>The queue routes\<close>

lemma dget_aupd [simp]: "dget (aupd k v d) k' = (if k = k' then v else dget d k')"
  by (induction d) auto

lemma normalize_requested_by:
  assumes "normalize_request env body = Inr p" and "dget body ''requested_by'' = PStr c"
  shows "qp_requested_by p = py_strip c"
proof -
  have "validate_requested_by (PStr c) = Inr (qp_requested_by p)"
    using assms(1) unfolding normalize_request_def Let_def rbind_eq_Inr split_beta
    by clarsimp (auto simp: assms(2) split: option.splits if_splits)
  then show ?thesis by (auto simp: Let_def split: if_splits)
qed

lemma length_filter_q_list:
  "length (filter P (q_list s)) = length (filter P (q_readable s))"
proof -
  have "mset (q_list s) = mset (q_readable s)" by (simp add: q_list_def)
  then show ?thesis by (metis mset_filter size_mset)
qed

lemma q_readable_write_count:
  "qs_files s' = aupd k (QEntry e) (qs_files s) \<Longrightarrow>
     length (filter P (q_readable s')) \<le> Suc (length (filter P (q_readable s)))"
proof -
  have "length (filter P (List.map_filter (\<lambda>p. read_file (snd p)) (aupd k (QEntry e) fs)))
      \<le> Suc (length (filter P (List.map_filter (\<lambda>p. read_file (snd p)) fs)))" for fs
    by (induction fs) (auto simp: List.map_filter_simps split: option.splits)
  then show "qs_files s' = aupd k (QEntry e) (qs_files s) \<Longrightarrow> ?thesis" by (simp add: q_readable_def)
qed

lemma hourly_count_write:
  "qs_files s' = aupd k (QEntry e) (qs_files s) \<Longrightarrow> hourly_entry_count s' c now \<le> hourly_entry_count s c now + 1"
  using q_readable_write_count [of s' k e s "\<lambda>e. q_requested_by e = c \<and> now - ENQUEUE_WINDOW_SECONDS \<le> q_created_at e"]
  by (simp add: hourly_entry_count_def recent_entries_def length_filter_q_list)

lemma clamp_respected:
  assumes "rounds_clamp_violation (Some sp) v = None" and "cs_rounds_clamp sp = Some k" and "1 \<le> k"
    and "validate_max_rounds v = Inr n"
  shows "n \<le> k"
  using assms by (cases v) (auto simp: rounds_clamp_violation_def split: if_splits)

lemma rate_respected:
  "enqueue_rate_violation r (Some sp) q c now = None \<Longrightarrow> cs_max_entries sp = Some n \<Longrightarrow> 0 \<le> n \<Longrightarrow> c \<noteq> ANON_CALLER \<Longrightarrow>
     hourly_entry_count q c now < n"
  by (auto simp: enqueue_rate_violation_def Let_def split: if_splits)

subsection \<open>A concrete caller\<close>

definition demo_auth :: auth_env where
  "demo_auth = \<lparr>ae_hmac = (\<lambda>_ _. ''0a1b''), ae_sha256 = (\<lambda>_. ''00''), ae_dumps = (\<lambda>_. ''{}''),
     ae_captured = (\<lambda>n. if n = ''LH_HARNESS_CALLER_CHAT_AGENT_SECRET'' then Some ''s3'' else None),
     ae_environ = (\<lambda>_. None), ae_render = (\<lambda>_. []), ae_now = 1000\<rparr>"

definition demo_callers :: caller_table where
  "demo_callers = [(''chat-agent'', \<lparr>cs_secret_env = ''LH_HARNESS_CALLER_CHAT_AGENT_SECRET'',
     cs_tools = [''harness_enqueue_task'', ''harness_list_queue''], cs_max_entries = Some 1, cs_rounds_clamp = Some 3,
     cs_run_control = False\<rparr>)]"

definition demo_http :: http_request where
  "demo_http = \<lparr>hr_headers = map_of [(''x-harness-caller'', ''chat-agent''), (''x-harness-timestamp'', '' 990 ''),
       (''x-harness-signature'', ''0A1B'')],
     hr_wire = \<lparr>wr_family = None, wr_epoch = None, wr_action = None\<rparr>, hr_host = None\<rparr>"

definition demo_web :: web_env where
  "demo_web = \<lparr>we_auth = demo_auth, we_specs = Some demo_callers,
     we_lease = \<lparr>env_enabled = None, env_bearer_holder = None, env_bearer_family = None\<rparr>, we_request = demo_request_env,
     we_uuid = [], we_hex = ''2'', we_models = None, we_audit = AuditStore\<rparr>"

definition demo_web_state :: web_state where
  "demo_web_state = \<lparr>ws_queue = empty_queue, ws_gate = None, ws_refusals = []\<rparr>"

lemma demo_caller_name: "caller_name_full ''chat-agent''" "py_strip ''chat-agent'' = ''chat-agent''"
  by code_simp+

lemma demo_stamp: "canonical_timestamp (PStr '' 990 '') = Inr (Some ''990'')" "py_float_of_string ''990'' = Some (FVal 990)"
proof -
  have "py_strip '' 990 '' = ''990''" "py_strip ''990'' = ''990''" "show_int 990 = ''990''" by code_simp+
  moreover have "take_digits ''990'' = (''990'', [])" "digits_value ''990'' = 990" "split_sign ''990'' = (False, ''990'')"
    "map lower_char ''990'' \<notin> set [''inf'', ''infinity'', ''nan'']" by code_simp+
  moreover have "scaled 990 0 = FVal 990"
    using float_round_int [of 990] by (simp add: scaled_def FLOAT_LIMIT_def)
  ultimately show "py_float_of_string ''990'' = Some (FVal 990)"
    by (simp add: py_float_of_string_def exponent_of_def)
  with \<open>py_strip '' 990 '' = ''990''\<close> \<open>show_int 990 = ''990''\<close> show "canonical_timestamp (PStr '' 990 '') = Inr (Some ''990'')"
    by (simp add: canonical_timestamp_def whole_text_def)
qed

lemma demo_resolved: "resolve_rest_caller demo_auth (hr_headers demo_http) demo_callers = Inr ''chat-agent''"
proof -
  have "py_lower (py_strip ''0A1B'') = ''0a1b''" "list_all is_ascii ''0a1b''"
    "py_strip ''LH_HARNESS_CALLER_CHAT_AGENT_SECRET'' = ''LH_HARNESS_CALLER_CHAT_AGENT_SECRET''" by code_simp+
  then have "verified_caller demo_auth (PStr ''chat-agent'') (PStr '' 990 '') (PStr ''0A1B'') demo_callers = Inr ''chat-agent'' \<and>
      ''chat-agent'' \<noteq> ANON_CALLER"
    unfolding verified_caller_eq using demo_caller_name demo_stamp
    by (auto simp: ANON_CALLER_def fresh_Some demo_auth_def demo_callers_def secret_for_def captured_secret_def nonempty_def
        compute_signature_def)
  then show ?thesis by (simp add: resolve_rest_caller_def demo_http_def header_val_def)
qed

lemma demo_scoped:
  "tool \<in> set [''harness_enqueue_task'', ''harness_list_queue''] \<Longrightarrow>
     scoped_caller demo_web demo_http tool None s = (Inr (Some ''chat-agent''), s)"
proof -
  assume t: "tool \<in> set [''harness_enqueue_task'', ''harness_list_queue'']"
  have "\<not> lease_is_enabled (we_lease demo_web)" by code_simp
  then show ?thesis
    using t demo_resolved
    by (auto simp: scoped_caller_def demo_web_def ANON_CALLER_def tool_allowed_def demo_callers_def check_effect_def)
qed

definition demo_ask :: pydict where
  "demo_ask = [(''caller'', PStr ''chat-agent''), (''caller_ts'', PStr ''1030''), (''caller_nonce'', PStr ''0123456789abcdef''),
     (''caller_sig'', PStr ''0a1b'')]"

definition demo_nonces :: "time \<Rightarrow> nonce_cache" where
  "demo_nonces t = \<lparr>nc_seen = [((''chat-agent'', ''0123456789abcdef''), t)], nc_max = 20000\<rparr>"

lemma demo_ask_stamp: "canonical_timestamp (PStr ''1030'') = Inr (Some ''1030'')"
proof -
  have "py_strip ''1030'' = ''1030''" "show_int 1030 = ''1030''" by code_simp+
  moreover have "take_digits ''1030'' = (''1030'', [])" "digits_value ''1030'' = 1030" "split_sign ''1030'' = (False, ''1030'')"
    "map lower_char ''1030'' \<notin> set [''inf'', ''infinity'', ''nan'']" by code_simp+
  moreover have "scaled 1030 0 = FVal 1030"
    using float_round_int [of 1030] by (simp add: scaled_def FLOAT_LIMIT_def)
  ultimately show ?thesis by (simp add: canonical_timestamp_def whole_text_def py_float_of_string_def exponent_of_def)
qed

lemma demo_ask_verified:
  assumes "t \<in> {1000, 1330}"
  shows "verify_ask_request demo_auth tool demo_ask demo_callers nc t =
     (case nonce_use nc ''chat-agent'' ''0123456789abcdef'' t of
        (used, nc') \<Rightarrow> Inr (if used then (''chat-agent'', []) else (ANON_CALLER, ''nonce already used''), nc'))"
proof -
  have n: "nonce_full ''0123456789abcdef''" "py_lower (py_strip ''0a1b'') = ''0a1b''" "list_all is_ascii ''0a1b''"
    "py_int_of_string ''1030'' = Some 1030"
    "py_strip ''LH_HARNESS_CALLER_CHAT_AGENT_SECRET'' = ''LH_HARNESS_CALLER_CHAT_AGENT_SECRET''" by code_simp+
  have i: "ask_identity_of demo_ask (Some ''1030'') t =
      Inr \<lparr>ai_caller = ''chat-agent'', ai_ts = ''1030'', ai_nonce = ''0123456789abcdef'', ai_sig = ''0a1b''\<rparr>"
    using assms n demo_caller_name
    by (auto simp: ask_identity_of_def demo_ask_def text_field_def in_window_def ANON_CALLER_def ASK_MAX_PAST_SECONDS_def
        ASK_MAX_FUTURE_SECONDS_def)
  have d: "dget demo_ask ''caller_ts'' = PStr ''1030''" by (simp add: demo_ask_def)
  have s: "secret_for demo_auth (map_of demo_callers ''chat-agent'') = Some ''s3''"
    using n by (simp add: secret_for_def demo_callers_def demo_auth_def captured_secret_def nonempty_def)
  have c: "compare_digest (ask_signature demo_auth tool ''chat-agent'' ''1030'' ''0123456789abcdef'' demo_ask ''s3'') ''0a1b'' = Inr True"
    using n by (simp add: ask_signature_def demo_auth_def)
  show ?thesis unfolding verify_ask_request_def d demo_ask_stamp using n(2) i s c by (simp del: compare_digest_Inr cong: if_cong prod.case_cong)
qed

lemma demo_own_request:
  "normalize_request demo_request_env (aupd ''requested_by'' (PStr ''chat-agent'') demo_body) =
     Inr (demo_params\<lparr>qp_requested_by := ''chat-agent''\<rparr>)"
  by (simp add: demo_request_env_def demo_body_def demo_params_def request_eval py_eval demo_lower demo_caller_name)

lemma demo_route_creates: "\<exists>e s'. create_queue_entry demo_web demo_http demo_body demo_web_state = (Inr e, s')"
proof -
  have "rounds_clamp_violation (Some (the (map_of demo_callers ''chat-agent''))) (dget demo_body ''max_rounds'') = None"
    by (simp add: rounds_clamp_violation_def demo_callers_def demo_body_def)
  moreover have "enqueue_rate_violation r (Some (the (map_of demo_callers ''chat-agent''))) empty_queue ''chat-agent'' t = None" for r t
    by (simp add: enqueue_rate_violation_def demo_callers_def hourly_entry_count_def recent_entries_def q_list_def q_readable_def
        empty_queue_def map_filter_def)
  moreover have "\<exists>e q. q_create demo_request_env empty_queue (aupd ''requested_by'' (PStr ''chat-agent'') demo_body) None
      (Some ''chat-agent'') None AuditStore ''2'' 1000 = Inr (e, q)"
    by (simp add: q_create_def demo_own_request demo_params_def empty_queue_def find_non_terminal_by_dedup_def q_list_def
        q_readable_def map_filter_def Let_def)
  ultimately show ?thesis
    using demo_scoped [of "''harness_enqueue_task''" demo_web_state]
    by (auto simp: create_queue_entry_def demo_web_def demo_web_state_def demo_auth_def demo_http_def demo_callers_def)
qed

definition demo_own_store :: queue_store where
  "demo_own_store = demo_store\<lparr>qs_files := [(''q-1'', QEntry (demo_entry\<lparr>q_requested_by := ''chat-agent''\<rparr>))]\<rparr>"

lemma demo_route_deletes:
  "\<exists>s'. delete_queue_entry demo_web demo_http ''q-1'' (demo_web_state\<lparr>ws_queue := demo_own_store\<rparr>) = (Inr (), s')"
proof -
  have "q_get demo_own_store ''q-1'' = Inr (Some (demo_entry\<lparr>q_requested_by := ''chat-agent''\<rparr>))"
    by (simp add: demo_own_store_def queue_eval demo_entry_def new_entry_def py_eval)
  then show ?thesis
    using demo_scoped [of "''harness_list_queue''" "demo_web_state\<lparr>ws_queue := demo_own_store\<rparr>"]
    by (simp add: delete_queue_entry_def q_delete_def may_delete_entry_def ANON_CALLER_def demo_entry_def new_entry_def)
qed

section \<open>Properties\<close>



text \<open>The identity check raises on hostile input. It ends in an exception, not in a refusal, exactly
  for a well-formed name with an integer time stamp beyond the range of floats, or for a known
  caller's name and a fresh stamp with a signature outside ASCII (given a hash whose
  digests are ASCII).\<close>

lemma identity_check_raises_iff:
  assumes "\<And>k m. list_all is_ascii (ae_hmac env k m)"
  shows "(\<exists>x. verified_caller env caller ts sig specs = Inl x) \<longleftrightarrow>
     (\<exists>raw. caller = PStr raw \<and> py_strip raw \<noteq> ANON_CALLER \<and> caller_name_full (py_strip raw) \<and>
        ((\<exists>i. ts = PInt i \<and> FLOAT_LIMIT \<le> \<bar>of_int i\<bar>) \<or>
         (\<exists>t g spec secret. canonical_timestamp ts = Inr (Some t) \<and> fresh (ae_now env) (Some t) = Some t \<and>
            sig = PStr g \<and> map_of specs (py_strip raw) = Some spec \<and> secret_for env (Some spec) = Some secret \<and>
            \<not> list_all is_ascii (py_lower (py_strip g)))))"
proof -
  have g: "\<not> list_all is_ascii (py_lower (py_strip g)) \<Longrightarrow> g \<noteq> []" for g
    by (auto simp: py_strip_def py_lstrip_def py_rstrip_def py_lower_def)
  have a: "list_all is_ascii (compute_signature env c t k)" for c t k using assms by (simp add: compute_signature_def)
  show ?thesis
    unfolding verified_caller_raises canonical_timestamp_Inl using g by (auto simp: a fresh_Some)
qed

lemma identity_check_raises_iff_witness:
  "\<exists>x. verified_caller demo_auth (PStr ''chat-agent'') (PInt (2 ^ 1024)) PNone demo_callers = Inl x"
proof -
  have "list_all is_ascii ''0a1b''" by code_simp
  then have a: "list_all is_ascii (ae_hmac demo_auth k m)" for k m by (simp add: demo_auth_def)
  have "FLOAT_LIMIT \<le> \<bar>of_int (2 ^ 1024)\<bar>" by (simp add: FLOAT_LIMIT_def)
  then show ?thesis
    using demo_caller_name by (subst identity_check_raises_iff [of demo_auth, OF a]) (auto simp: ANON_CALLER_def)
qed

text \<open>C35: what loading the caller table guarantees. A table that loads has each name once, in order,
  the four built-in callers among them and the reserved one not; every caller has a
  variable for its secret, only known tools, a limit of entries that is not negative and a
  clamp of at least one round.\<close>

theorem caller_table_typed:
  assumes "flatten_callers_table render source v = Inr t"
  shows "sorted (map fst t) \<and> distinct (map fst t) \<and>
     {''chat-agent'', ''operator'', ''overseer'', ''hydra''} \<subseteq> set (map fst t) \<and> list_all (\<lambda>e. typed_caller (fst e) (snd e)) t"
proof -
  obtain d where "caller_entries render d (sort (remdups (map fst CALLER_DEFAULTS @ map fst d))) = Inr t"
    using assms by (auto simp: flatten_callers_table_def split: pyval.splits)
  from caller_entries_typed [OF this] show ?thesis
    by (auto simp del: remdups.simps simp: CALLER_DEFAULTS_def)
qed

theorem caller_table_typed_witness:
  "\<exists>t. flatten_callers_table (\<lambda>_. []) ''harness.toml''
       (PDict [(''ci'', PDict [(''tools'', PList [PStr ''harness_run_status'']), (''max_rounds_clamp'', PInt 5)])]) = Inr t \<and>
     sorted (map fst t) \<and> list_all (\<lambda>e. typed_caller (fst e) (snd e)) t \<and> ''ci'' \<in> set (map fst t)"
proof -
  let ?v = "PDict [(''ci'', PDict [(''tools'', PList [PStr ''harness_run_status'']), (''max_rounds_clamp'', PInt 5)])]"
  have "\<not> isl (flatten_callers_table (\<lambda>_. []) ''harness.toml'' ?v)" by code_simp
  then obtain t where t: "flatten_callers_table (\<lambda>_. []) ''harness.toml'' ?v = Inr t" by (auto simp: isl_def) (metis sum.exhaust)
  moreover have "''ci'' \<in> set (map fst t)"
    using t caller_entries_typed by (auto simp: flatten_callers_table_def dest!: caller_entries_typed)
  ultimately show ?thesis using caller_table_typed [OF t] by blast
qed

text \<open>C32: a nonce works once in its window. After an ask request was accepted, no request of the same
  caller with the same nonce is accepted for 330 seconds, whatever requests come in between
  (on a clock that does not run back); the very same arguments can be accepted again at most
  at the last instant, exactly 330 seconds later.\<close>

theorem ask_no_replay:
  assumes "verify_ask_request env tool args specs nc t1 = Inr ((c, []), nc1)"
    and "distinct (map fst (nc_seen nc))" and "list_all (\<lambda>a. ac_now a \<le> t2) mid"
    and "verify_ask_request env2 tool2 args2 specs2 (run_ops ask_step nc1 mid) t2 = Inr ((c, []), nc2)"
    and "dget args2 ''caller_nonce'' = dget args ''caller_nonce''"
  shows "t1 + 330 \<le> t2 \<and> (args2 = args \<longrightarrow> t2 = t1 + 330)"
proof -
  obtain i ts where i: "canonical_timestamp (dget args ''caller_ts'') = Inr ts" "ask_identity_of args ts t1 = Inr i"
    "ai_caller i = c" "nonce_use nc c (ai_nonce i) t1 = (True, nc1)"
    using verify_ask_accepted [OF assms(1)] by metis
  obtain j ts2 where j: "canonical_timestamp (dget args2 ''caller_ts'') = Inr ts2" "ask_identity_of args2 ts2 t2 = Inr j"
    "ai_caller j = c" "nonce_use (run_ops ask_step nc1 mid) c (ai_nonce j) t2 = (True, nc2)"
    using verify_ask_accepted [OF assms(4)] by metis
  note f = ask_identity_fields [OF i(2)] and g = ask_identity_fields [OF j(2)]
  have n: "ai_nonce j = ai_nonce i" using f(2) g(2) assms(5) by simp
  have late: "t1 + 330 \<le> t2"
  proof (rule ccontr)
    assume t: "\<not> ?thesis"
    have "remembered (c, ai_nonce i) (t1 + 330) nc1"
      using nonce_use_distinct [OF assms(2) i(4)] nonce_use_fresh [OF i(4)] by (simp add: remembered_def)
    moreover have "list_all (\<lambda>a. ac_now a < t1 + 330) mid" using assms(3) t by (auto simp: list_all_iff)
    ultimately have "remembered (c, ai_nonce i) (t1 + 330) (run_ops ask_step nc1 mid)" by (rule ask_run_remembered)
    then show False
      using t nonce_use_keeps(2) [OF _ _ _ j(4), of "(c, ai_nonce i)" "t1 + 330"] n by (simp add: remembered_def)
  qed
  moreover have "t2 \<le> t1 + 330" if "args2 = args"
  proof -
    have "ai_ts j = ai_ts i" using f(3) g(3) i(1) j(1) that by simp
    then show ?thesis using f(4) g(4)
      by (auto simp: in_window_def ASK_MAX_PAST_SECONDS_def ASK_MAX_FUTURE_SECONDS_def split: option.splits)
  qed
  ultimately show ?thesis by auto
qed

theorem ask_no_replay_witness:
  "verify_ask_request demo_auth ''raise_open_ask'' demo_ask demo_callers \<lparr>nc_seen = [], nc_max = 20000\<rparr> 1000 =
       Inr ((''chat-agent'', []), demo_nonces 1330) \<and>
   verify_ask_request demo_auth ''raise_open_ask'' demo_ask demo_callers (run_ops ask_step (demo_nonces 1330) []) 1330 =
       Inr ((''chat-agent'', []), demo_nonces 1660) \<and>
   (1000 + 330 \<le> (1330 :: time) \<and> (1330 :: time) = 1000 + 330)"
proof -
  have a: "verify_ask_request demo_auth ''raise_open_ask'' demo_ask demo_callers \<lparr>nc_seen = [], nc_max = 20000\<rparr> 1000 =
       Inr ((''chat-agent'', []), demo_nonces 1330)"
    by (subst demo_ask_verified) (simp_all add: nonce_use_def demo_nonces_def ASK_MAX_PAST_SECONDS_def ASK_MAX_FUTURE_SECONDS_def)
  moreover have b: "verify_ask_request demo_auth ''raise_open_ask'' demo_ask demo_callers (run_ops ask_step (demo_nonces 1330) []) 1330 =
       Inr ((''chat-agent'', []), demo_nonces 1660)"
    by (subst demo_ask_verified) (simp_all add: nonce_use_def demo_nonces_def ASK_MAX_PAST_SECONDS_def ASK_MAX_FUTURE_SECONDS_def)
  ultimately show ?thesis using ask_no_replay [OF a _ _ b] by simp
qed

text \<open>C33: what the enqueue route lets in. With scoping on, an accepted request comes from a verified
  caller that may enqueue, and either adopts a live entry with its dedup key and leaves the
  queue as it was, or adds one entry that is stamped with that caller, keeps its clamp of
  rounds and leaves the caller within its entries an hour.\<close>

theorem create_route_within_ceilings:
  assumes "we_specs env = Some specs" and "create_queue_entry env req body s = (Inr e, s')"
  shows "\<exists>c sp. resolve_rest_caller (we_auth env) (hr_headers req) specs = Inr c \<and> c \<noteq> ANON_CALLER \<and>
     map_of specs c = Some sp \<and> ''harness_enqueue_task'' \<in> set (cs_tools sp) \<and>
     (ws_queue s' = ws_queue s \<and> e \<in> set (q_list (ws_queue s)) \<and> q_status e \<in> set NON_TERMINAL_STATUS \<and> q_dedup_key e \<noteq> None \<or>
      q_requested_by e = c \<and> q_created_at e = ae_now (we_auth env) \<and>
      qs_files (ws_queue s') = aupd (q_id e) (QEntry e) (qs_files (ws_queue s)) \<and>
      (\<forall>k. cs_rounds_clamp sp = Some k \<and> 1 \<le> k \<longrightarrow> q_max_rounds e \<le> k) \<and>
      (\<forall>n. cs_max_entries sp = Some n \<and> 0 \<le> n \<longrightarrow> hourly_entry_count (ws_queue s') c (ae_now (we_auth env)) \<le> n))"
proof -
  let ?now = "ae_now (we_auth env)"
  obtain c s1 where sc: "scoped_caller env req ''harness_enqueue_task'' None s = (Inr (Some c), s1)"
    using assms by (auto simp: create_queue_entry_def scoped_caller_def split: prod.splits sum.splits if_splits)
  obtain sp where sp: "map_of specs c = Some sp" "''harness_enqueue_task'' \<in> set (cs_tools sp)"
    "resolve_rest_caller (we_auth env) (hr_headers req) specs = Inr c" "c \<noteq> ANON_CALLER" "ws_queue s1 = ws_queue s"
    using scoped_caller_Inr [OF sc] assms(1) by auto
  have v: "enqueue_rate_violation (ae_render (we_auth env)) (Some sp) (ws_queue s) c ?now = None"
    "rounds_clamp_violation (Some sp) (dget body ''max_rounds'') = None"
    using assms sc sp by (auto simp: create_queue_entry_def Let_def split: option.splits)
  obtain q where q: "q_create (we_request env) (ws_queue s) (aupd ''requested_by'' (PStr c) body) (hr_host req) (Some c)
      (we_models env) (we_audit env) (we_hex env) ?now = Inr (e, q)" "ws_queue s' = q"
    using assms sc sp v by (auto simp: create_queue_entry_def Let_def split: sum.splits)
  obtain p where p: "normalize_request (we_request env) (aupd ''requested_by'' (PStr c) body) = Inr p"
    and cs: "q = ws_queue s \<and> Option.bind (qp_dedup_key p) (find_non_terminal_by_dedup (ws_queue s)) = Some e \<or>
      e = new_entry p (map_option (\<lambda>b. stamp_requester b (hr_host req) (Some c)) (qp_requester p)) (''q-'' @ we_hex env) ?now \<and>
      qs_files q = aupd (q_id e) (QEntry e) (qs_files (ws_queue s))"
    using q_create_Inr [OF q(1)] by blast
  from cs show ?thesis
  proof
    assume "q = ws_queue s \<and> Option.bind (qp_dedup_key p) (find_non_terminal_by_dedup (ws_queue s)) = Some e"
    then have "ws_queue s' = ws_queue s \<and> e \<in> set (q_list (ws_queue s)) \<and> q_status e \<in> set NON_TERMINAL_STATUS \<and> q_dedup_key e \<noteq> None"
      using q(2) by (auto simp: bind_eq_Some_conv find_non_terminal_by_dedup_def dest!: find_SomeD)
    then show ?thesis using sp by blast
  next
    assume n: "e = new_entry p (map_option (\<lambda>b. stamp_requester b (hr_host req) (Some c)) (qp_requester p)) (''q-'' @ we_hex env) ?now \<and>
      qs_files q = aupd (q_id e) (QEntry e) (qs_files (ws_queue s))"
    have "py_strip c = c" using sp(3,4) resolved_strip by blast
    then have "q_requested_by e = c" "q_created_at e = ?now" "q_max_rounds e = qp_max_rounds p"
      using n normalize_requested_by [OF p] by (simp_all add: new_entry_def)
    moreover have "validate_max_rounds (dget body ''max_rounds'') = Inr (qp_max_rounds p)"
      using normalize_request_Inr(4) [OF p] by simp
    moreover have "hourly_entry_count q c ?now \<le> hourly_entry_count (ws_queue s) c ?now + 1"
      using n hourly_count_write by blast
    ultimately show ?thesis
      using sp n q(2) clamp_respected [OF v(2)] rate_respected [OF v(1)] by (intro exI [of _ c] exI [of _ sp]) fastforce
  qed
qed

theorem create_route_within_ceilings_witness:
  "\<exists>e s'. create_queue_entry demo_web demo_http demo_body demo_web_state = (Inr e, s') \<and> q_requested_by e = ''chat-agent'' \<and>
     hourly_entry_count (ws_queue s') ''chat-agent'' 1000 \<le> 1"
proof -
  obtain e s' where c: "create_queue_entry demo_web demo_http demo_body demo_web_state = (Inr e, s')"
    using demo_route_creates by blast
  have w: "we_specs demo_web = Some demo_callers" by (simp add: demo_web_def)
  have "e \<notin> set (q_list (ws_queue demo_web_state))"
    by (simp add: demo_web_state_def empty_queue_def q_readable_def map_filter_def)
  then show ?thesis
    using create_route_within_ceilings [OF w c] c demo_resolved
    by (auto simp: demo_web_def demo_callers_def demo_auth_def)
qed



end
