(* ===== verification/Approvals.thy ===== *)
theory Approvals
  imports Control_Bus Run_Lifecycle Queue_Request
begin

text \<open>
  The human checkpoints of a run (\<open>DashboardState\<close> of \<open>dashboard/state.py\<close>): approvals that the
  worker raises and waits for, decisions and instructions that operators put on the control
  bus, and the append-only log \<open>approvals.jsonl\<close> through which the processes see each other's
  approvals. A process keeps its own copies in memory (\<open>dv_mem\<close>, in the order of creation); the
  log and the bus are shared. The log is the list of JSON objects its reader returns; the
  reader's size limits are not modelled, a log that cannot be written is (\<open>de_writable\<close>). Fleet
  reporting is taken as switched off. \<open>float(text)\<close> is the argument \<open>de_float\<close>.
\<close>

section \<open>Approvals\<close>

definition normalise_extra_rounds :: "pyval \<Rightarrow> int" where
  "normalise_extra_rounds v = (case (case v of PStr t \<Rightarrow> py_int_of_string t | PInt i \<Rightarrow> Some i | _ \<Rightarrow> None) of
       None \<Rightarrow> 0
     | Some i \<Rightarrow> if i \<le> 0 then 0 else min i MAX_ROUNDS)"

record approval_option =
  ao_value :: string
  ao_label :: string
  ao_style :: string

definition GATE_OWNERS :: "string list" where
  "GATE_OWNERS = [''overseer'', ''paxton'', ''requester'', ''any'']"

definition clean_gate_owner :: "(pyval \<Rightarrow> string) \<Rightarrow> pyval \<Rightarrow> string" where
  "clean_gate_owner render v =
     (let text = py_lower (py_strip (str_or_empty render v)) in if text \<in> set GATE_OWNERS then text else ''overseer'')"

definition OWNER_NOTE_MAX_CHARS :: nat where "OWNER_NOTE_MAX_CHARS = 4000"

definition clean_owner_note :: "(pyval \<Rightarrow> string) \<Rightarrow> pyval \<Rightarrow> string" where
  "clean_owner_note render v =
     (if v = PNone then [] else filter (\<lambda>c. c \<noteq> nul) (take OWNER_NOTE_MAX_CHARS (py_str render v)))"

record approval =
  ap_id :: string
  ap_title :: string
  ap_message :: string
  ap_options :: "approval_option list"
  ap_answers :: "string list"
  ap_allow_input :: bool
  ap_input_label :: string
  ap_allow_extra :: bool
  ap_context :: pydict
  ap_status :: string
  ap_action :: string
  ap_reason :: string
  ap_user_input :: string
  ap_extra :: int
  ap_created_at :: time
  ap_resolved_at :: "time option"
  ap_owner :: string
  ap_owner_note :: string
  ap_owner_set_by :: string
  ap_owner_set_at :: "time option"

datatype dash_exn = DashBus bus_exn | DashTypeError string | DashValueError string | DashAttributeError string

record dash_env =
  de_render :: "pyval \<Rightarrow> string"
  de_bytes :: "pydict \<Rightarrow> nat"
  de_float :: "string \<Rightarrow> rat option"
  de_writable :: bool

text \<open>\<open>int(self.context.get("round_index", 0))\<close>.\<close>

definition approval_round :: "approval \<Rightarrow> (dash_exn, int) result" where
  "approval_round a = (case map_of (ap_context a) ''round_index'' of
       None \<Rightarrow> Inr 0
     | Some v \<Rightarrow> (case py_int v of None \<Rightarrow> Inl (DashTypeError ''round_index'') | Some i \<Rightarrow> Inr i))"

definition option_to_dict :: "approval_option \<Rightarrow> pydict" where
  "option_to_dict x = [(''value'', PStr (ao_value x)), (''label'', PStr (ao_label x)), (''style'', PStr (ao_style x))]"

fun time_val :: "time option \<Rightarrow> pyval" where
  "time_val None = PNone"
| "time_val (Some t) = PFloat t"

definition approval_to_dict :: "approval \<Rightarrow> (dash_exn, pydict) result" where
  "approval_to_dict a = rbind (approval_round a) (\<lambda>i. Inr
     [(''approval_id'', PStr (ap_id a)), (''title'', PStr (ap_title a)), (''message'', PStr (ap_message a)),
      (''options'', PList (map (PDict \<circ> option_to_dict) (ap_options a))), (''answers'', PList (map PStr (ap_answers a))),
      (''allow_input'', PBool (ap_allow_input a)), (''input_label'', PStr (ap_input_label a)),
      (''allow_extra_rounds'', PBool (ap_allow_extra a)), (''context'', PDict (ap_context a)), (''round_index'', PInt i),
      (''status'', PStr (ap_status a)), (''action'', PStr (ap_action a)), (''reason'', PStr (ap_reason a)),
      (''user_input'', PStr (ap_user_input a)), (''extra_rounds'', PInt (ap_extra a)), (''created_at'', PFloat (ap_created_at a)),
      (''resolved_at'', time_val (ap_resolved_at a)), (''owner'', PStr (ap_owner a)), (''owner_note'', PStr (ap_owner_note a)),
      (''owner_set_by'', PStr (ap_owner_set_by a)), (''owner_set_at'', time_val (ap_owner_set_at a))])"

section \<open>Reading a record\<close>

definition dget_or :: "pydict \<Rightarrow> string \<Rightarrow> pyval \<Rightarrow> pyval" where
  "dget_or d k v = (case map_of d k of None \<Rightarrow> v | Some w \<Rightarrow> w)"

lemma dget_or_simps [simp]: "dget_or [] k x = x" "dget_or ((k', v) # d) k x = (if k = k' then v else dget_or d k x)"
  by (simp_all add: dget_or_def)

text \<open>\<open>for item in v\<close>.\<close>

fun iter_of :: "pyval \<Rightarrow> (dash_exn, pyval list) result" where
  "iter_of (PList vs) = Inr vs"
| "iter_of (PStr s) = Inr (map (\<lambda>c. PStr [c]) s)"
| "iter_of (PDict d) = Inr (map (PStr \<circ> fst) d)"
| "iter_of _ = Inl (DashTypeError ''not iterable'')"

fun float_of :: "dash_env \<Rightarrow> pyval \<Rightarrow> (dash_exn, rat) result" where
  "float_of env (PInt i) = Inr (of_int i)"
| "float_of env (PFloat r) = Inr r"
| "float_of env (PBool b) = Inr (if b then 1 else 0)"
| "float_of env (PStr s) = (case de_float env s of None \<Rightarrow> Inl (DashValueError s) | Some r \<Rightarrow> Inr r)"
| "float_of env _ = Inl (DashTypeError ''float'')"

definition time_of :: "dash_env \<Rightarrow> pyval \<Rightarrow> (dash_exn, time option) result" where
  "time_of env v = (if truthy v then rbind (float_of env v) (\<lambda>t. Inr (Some t)) else Inr None)"

definition option_from :: "dash_env \<Rightarrow> pyval \<Rightarrow> approval_option option" where
  "option_from env v = (case v of
       PDict d \<Rightarrow> (let f = (\<lambda>k. py_str (de_render env) (dget_or d k (PStr [])))
                  in Some \<lparr>ao_value = f ''value'', ao_label = f ''label'', ao_style = f ''style''\<rparr>)
     | _ \<Rightarrow> None)"

definition approval_from_record :: "dash_env \<Rightarrow> time \<Rightarrow> pydict \<Rightarrow> (dash_exn, approval option) result" where
  "approval_from_record env now d =
     (let text = (\<lambda>k v. py_str (de_render env) (dget_or d k (PStr v))) in
      case dget d ''approval_id'' of
        PStr (c # cs) \<Rightarrow>
          rbind (iter_of (dget_or d ''options'' (PList []))) (\<lambda>options.
          rbind (iter_of (dget_or d ''answers'' (PList []))) (\<lambda>answers.
          rbind (float_of env (dget_or d ''created_at'' (PFloat now))) (\<lambda>created.
          rbind (time_of env (dget d ''resolved_at'')) (\<lambda>resolved.
          rbind (time_of env (dget d ''owner_set_at'')) (\<lambda>set_at.
          Inr (Some \<lparr>ap_id = c # cs, ap_title = text ''title'' [], ap_message = text ''message'' [],
             ap_options = List.map_filter (option_from env) options, ap_answers = map (py_str (de_render env)) answers,
             ap_allow_input = truthy (dget_or d ''allow_input'' (PBool True)), ap_input_label = text ''input_label'' [],
             ap_allow_extra = truthy (dget_or d ''allow_extra_rounds'' (PBool False)),
             ap_context = (case dget d ''context'' of PDict e \<Rightarrow> e | _ \<Rightarrow> []),
             ap_status = text ''status'' ''pending'', ap_action = text ''action'' [], ap_reason = text ''reason'' [],
             ap_user_input = text ''user_input'' [], ap_extra = normalise_extra_rounds (dget d ''extra_rounds''),
             ap_created_at = created, ap_resolved_at = resolved,
             ap_owner = clean_gate_owner (de_render env) (dget d ''owner''),
             ap_owner_note = clean_owner_note (de_render env) (dget d ''owner_note''),
             ap_owner_set_by = str_or_empty (de_render env) (dget_or d ''owner_set_by'' (PStr [])),
             ap_owner_set_at = set_at\<rparr>))))))
      | _ \<Rightarrow> Inr None)"

section \<open>A process and what it shares\<close>

record dash_view =
  dv_control :: bool
  dv_mem :: "(string \<times> approval) list"
  dv_log :: "pydict list"
  dv_bus :: bus

type_synonym 'a dash_result = "(dash_exn, dash_view, 'a) stateful"

definition persist_approval :: "dash_env \<Rightarrow> pydict \<Rightarrow> dash_view \<Rightarrow> dash_view" where
  "persist_approval env r s = (if de_writable env then s\<lparr>dv_log := dv_log s @ [r]\<rparr> else s)"

definition set_approval :: "approval \<Rightarrow> dash_view \<Rightarrow> dash_view" where
  "set_approval a s = s\<lparr>dv_mem := aupd (ap_id a) a (dv_mem s)\<rparr>"

text \<open>\<open>snapshot = approval.to_dict()\<close> and \<open>_persist_approval(snapshot)\<close>.\<close>

definition save_approval :: "dash_env \<Rightarrow> approval \<Rightarrow> dash_view \<Rightarrow> pydict dash_result" where
  "save_approval env a s =
     sbind (slift (approval_to_dict a) s) (\<lambda>r s. Inr (r, persist_approval env r s))"

definition on_bus :: "(bus_exn, 'a \<times> bus) result \<Rightarrow> dash_view \<Rightarrow> 'a dash_result" where
  "on_bus r s = (case r of Inl x \<Rightarrow> Inl (DashBus x, s) | Inr (a, b) \<Rightarrow> Inr (a, s\<lparr>dv_bus := b\<rparr>))"

record approval_request =
  rq_title :: string
  rq_message :: string
  rq_options :: "approval_option list"
  rq_answers :: "string list"
  rq_allow_input :: bool
  rq_input_label :: string
  rq_allow_extra :: bool
  rq_context :: pydict

definition new_approval :: "approval_request \<Rightarrow> string \<Rightarrow> time \<Rightarrow> approval" where
  "new_approval q i now =
     \<lparr>ap_id = i, ap_title = rq_title q, ap_message = rq_message q, ap_options = rq_options q, ap_answers = rq_answers q,
      ap_allow_input = rq_allow_input q, ap_input_label = rq_input_label q, ap_allow_extra = rq_allow_extra q,
      ap_context = rq_context q, ap_status = ''pending'', ap_action = [], ap_reason = [], ap_user_input = [], ap_extra = 0,
      ap_created_at = now, ap_resolved_at = None, ap_owner = ''overseer'', ap_owner_note = [], ap_owner_set_by = [],
      ap_owner_set_at = None\<rparr>"

definition create_approval :: "dash_env \<Rightarrow> approval_request \<Rightarrow> string \<Rightarrow> time \<Rightarrow> dash_view \<Rightarrow> approval dash_result" where
  "create_approval env q i now s =
     (let a = new_approval q i now in
      sbind (save_approval env a (set_approval a s)) (\<lambda>_ s. Inr (a, s)))"

definition last_record :: "string \<Rightarrow> pydict list \<Rightarrow> pydict option" where
  "last_record i rs = find (\<lambda>r. dget r ''approval_id'' = PStr i) (rev rs)"

definition refresh_approval :: "dash_env \<Rightarrow> string \<Rightarrow> time \<Rightarrow> dash_view \<Rightarrow> unit dash_result" where
  "refresh_approval env i now s = (case last_record i (dv_log s) of
       None \<Rightarrow> Inr ((), s)
     | Some r \<Rightarrow> sbind (slift (approval_from_record env now r) s) (\<lambda>a s.
         case a of None \<Rightarrow> Inr ((), s) | Some a \<Rightarrow> Inr ((), s\<lparr>dv_mem := aupd i a (dv_mem s)\<rparr>)))"

section \<open>Decisions\<close>

definition allowed_actions :: "approval \<Rightarrow> string list" where
  "allowed_actions a =
     (let vs = filter (\<lambda>v. v \<noteq> []) (map (py_strip \<circ> ao_value) (ap_options a))
      in if vs = [] then [''continue'', ''stop''] else vs)"

definition response_valid :: "approval \<Rightarrow> string \<Rightarrow> string \<Rightarrow> int \<Rightarrow> bool" where
  "response_valid a action input extra =
     (action \<in> set (allowed_actions a) \<and> (ap_allow_input a \<or> input = []) \<and> (ap_allow_extra a \<or> extra = 0))"

definition decision_payload :: "string \<Rightarrow> string \<Rightarrow> string \<Rightarrow> string \<Rightarrow> int \<Rightarrow> pydict" where
  "decision_payload i action reason input extra =
     [(''approval_id'', PStr i), (''action'', PStr action), (''reason'', PStr reason), (''user_input'', PStr input)] @
     (if extra \<noteq> 0 then [(''extra_rounds'', PInt extra)] else [])"

definition resolve_command_id :: "string \<Rightarrow> string" where
  "resolve_command_id i = ''approval:'' @ i @ '':resolve''"

definition is_resolve :: "pydict \<Rightarrow> bool" where
  "is_resolve c = (dget c ''kind'' = PStr ''resolve_approval'')"

text \<open>\<open>command.get("payload") if isinstance(..., dict) else {}\<close>.\<close>

definition payload_of :: "pydict \<Rightarrow> pydict" where
  "payload_of c = (case dget c ''payload'' of PDict d \<Rightarrow> d | _ \<Rightarrow> [])"

text \<open>The search for an earlier decision, newest first; a payload that is neither empty nor a dictionary raises.\<close>

fun find_decision :: "dash_env \<Rightarrow> string \<Rightarrow> pydict list \<Rightarrow> (dash_exn, pydict option) result" where
  "find_decision env i [] = Inr None"
| "find_decision env i (c # cs) =
     (if \<not> is_resolve c then find_decision env i cs
      else case or_empty (dget c ''payload'') of
        PDict d \<Rightarrow> if py_str (de_render env) (dget d ''approval_id'') = i then Inr (Some c) else find_decision env i cs
      | _ \<Rightarrow> Inl (DashAttributeError ''get''))"

definition same_decision :: "dash_env \<Rightarrow> pydict \<Rightarrow> pydict \<Rightarrow> string \<Rightarrow> bool" where
  "same_decision env recorded payload key =
     (let recorded_key = str_or_empty (de_render env) (dget recorded ''idempotency_key'') in
      \<not> (key \<noteq> [] \<and> recorded_key \<noteq> [] \<and> key \<noteq> recorded_key) \<and>
      list_all (\<lambda>(k, v). py_str (de_render env) (dget_or recorded k (PStr [])) = py_str (de_render env) v) payload)"

record decision_args =
  da_action :: string
  da_reason :: string
  da_input :: string
  da_extra :: pyval
  da_key :: string
  da_expected :: pyval

definition resolve_approval ::
    "dash_env \<Rightarrow> string \<Rightarrow> decision_args \<Rightarrow> string \<Rightarrow> time \<Rightarrow> dash_view \<Rightarrow> bool dash_result" where
  "resolve_approval env i d fresh now s =
     (if \<not> dv_control s then Inr (False, s)
      else sbind (refresh_approval env i now s) (\<lambda>_ s.
      let action = py_strip (da_action d); reason = py_strip (da_reason d); input = py_strip (da_input d);
          extra = normalise_extra_rounds (da_extra d);
          payload = decision_payload i action reason input extra
      in case map_of (dv_mem s) i of
           None \<Rightarrow> Inr (False, s)
         | Some a \<Rightarrow>
             if ap_status a = ''resolved'' \<or> \<not> response_valid a action input extra then Inr (False, s)
             else sbind (slift (find_decision env i (rev (cb_commands (dv_bus s)))) s) (\<lambda>found s.
               case found of
                 Some c \<Rightarrow> Inr (same_decision env (payload_of c) payload (da_key d), s)
               | None \<Rightarrow>
                   sbind (on_bus (bus_append (de_bytes env) (dv_bus s)
                       \<lparr>aa_kind = ''resolve_approval'', aa_payload = payload @ [(''idempotency_key'', PStr (da_key d))],
                        aa_created_by = ''operator'', aa_expected = da_expected d, aa_command_id = resolve_command_id i,
                        aa_fresh = fresh, aa_now = now\<rparr>) s) (\<lambda>(c, _) s.
                   Inr (same_decision env (payload_of c) payload (da_key d), s)))))"

definition mark_operator_stop :: "dash_env \<Rightarrow> time \<Rightarrow> pydict \<Rightarrow> pyval" where
  "mark_operator_stop env now d =
     (let lifecycle = canonical_lifecycle_status (de_render env) (dget d ''status'') [];
          since = (if truthy (dget d ''operator_stop_requested_at'') then dget d ''operator_stop_requested_at'' else PFloat now);
          updated = aupd ''operator_stop_requested_at'' since (aupd ''requested_action'' (PStr ''cancel'') d)
      in PDict (if lifecycle \<in> set TERMINAL_STATUSES then d
                else if lifecycle \<in> set ACTIVE_STATUSES then aupd ''status'' (PStr ''stopping'') updated
                else updated))"

definition decided :: "approval \<Rightarrow> string \<Rightarrow> string \<Rightarrow> string \<Rightarrow> int \<Rightarrow> time \<Rightarrow> approval" where
  "decided a action reason input extra now =
     a\<lparr>ap_action := action, ap_reason := reason, ap_user_input := input, ap_extra := extra, ap_status := ''resolved'',
       ap_resolved_at := Some now\<rparr>"

definition command_text :: "dash_env \<Rightarrow> pydict \<Rightarrow> string \<Rightarrow> string" where
  "command_text env p k = py_strip (py_str (de_render env) (dget_or p k (PStr [])))"

text \<open>One pending command of \<open>_apply_pending_resolutions\<close>.\<close>

definition apply_resolution :: "dash_env \<Rightarrow> time \<Rightarrow> pydict \<Rightarrow> dash_view \<Rightarrow> unit dash_result" where
  "apply_resolution env now c s =
     (if \<not> is_resolve c then Inr ((), s)
      else let p = payload_of c; i = py_str (de_render env) (dget_or p ''approval_id'' (PStr [])) in
      sbind (refresh_approval env i now s) (\<lambda>_ s.
      case map_of (dv_mem s) i of
        None \<Rightarrow> Inr ((), s)
      | Some a \<Rightarrow>
          if ap_status a = ''resolved'' then Inr ((), s)
          else let action = command_text env p ''action''; input = command_text env p ''user_input'';
                   extra = normalise_extra_rounds (dget p ''extra_rounds'') in
            if \<not> response_valid a action input extra
            then sbind (on_bus (bus_receipt (de_render env) (de_bytes env) (dv_bus s) c ''rejected'' ''invalid approval response'' [] now) s)
                   (\<lambda>_ s. Inr ((), s))
            else let a' = decided a action (command_text env p ''reason'') input extra now in
              sbind (save_approval env a' (s\<lparr>dv_mem := aupd i a' (dv_mem s)\<rparr>)) (\<lambda>_ s.
              sbind (if action = ''stop'' then sbind (on_bus (update_status (dv_bus s) (mark_operator_stop env now)) s) (\<lambda>_ s. Inr ((), s))
                     else Inr ((), s)) (\<lambda>_ s.
              sbind (on_bus (bus_receipt (de_render env) (de_bytes env) (dv_bus s) c ''applied'' [] [(''approval_id'', PStr i)] now) s)
                (\<lambda>_ s. Inr ((), s))))))"

fun apply_resolutions :: "dash_env \<Rightarrow> time \<Rightarrow> pydict list \<Rightarrow> dash_view \<Rightarrow> unit dash_result" where
  "apply_resolutions env now [] s = Inr ((), s)"
| "apply_resolutions env now (c # cs) s = sbind (apply_resolution env now c s) (\<lambda>_ s. apply_resolutions env now cs s)"

definition get_approval :: "dash_env \<Rightarrow> string \<Rightarrow> time \<Rightarrow> dash_view \<Rightarrow> approval option dash_result" where
  "get_approval env i now s =
     sbind (refresh_approval env i now s) (\<lambda>_ s.
     sbind (apply_resolutions env now (bus_pending (de_render env) (dv_bus s)) s) (\<lambda>_ s.
     Inr (map_of (dv_mem s) i, s)))"

definition update_approval_context :: "dash_env \<Rightarrow> string \<Rightarrow> pydict \<Rightarrow> dash_view \<Rightarrow> bool dash_result" where
  "update_approval_context env i updates s = (case map_of (dv_mem s) i of
       None \<Rightarrow> Inr (False, s)
     | Some a \<Rightarrow>
         let a' = a\<lparr>ap_context := foldl (\<lambda>d (k, v). aupd k v d) (ap_context a) updates\<rparr>
         in sbind (save_approval env a' (s\<lparr>dv_mem := aupd i a' (dv_mem s)\<rparr>)) (\<lambda>_ s. Inr (True, s)))"

definition annotated :: "dash_env \<Rightarrow> pyval \<Rightarrow> pyval \<Rightarrow> pyval \<Rightarrow> time \<Rightarrow> approval \<Rightarrow> approval" where
  "annotated env owner note actor now a =
     a\<lparr>ap_owner := if owner = PNone then ap_owner a else clean_gate_owner (de_render env) owner,
       ap_owner_note := if note = PNone then ap_owner_note a else clean_owner_note (de_render env) note,
       ap_owner_set_by := if actor = PNone then [] else take OWNER_NOTE_MAX_CHARS (py_strip (py_str (de_render env) actor)),
       ap_owner_set_at := Some now\<rparr>"

text \<open>\<open>annotate_gate\<close>: its reading half, and the half that writes what it read.\<close>

definition annotate_write :: "dash_env \<Rightarrow> string \<Rightarrow> pyval \<Rightarrow> pyval \<Rightarrow> pyval \<Rightarrow> time \<Rightarrow> dash_view \<Rightarrow> pydict option dash_result" where
  "annotate_write env i owner note actor now s = (case map_of (dv_mem s) i of
       None \<Rightarrow> Inr (None, s)
     | Some a \<Rightarrow> let a' = annotated env owner note actor now a in
         sbind (save_approval env a' (s\<lparr>dv_mem := aupd i a' (dv_mem s)\<rparr>)) (\<lambda>r s. Inr (Some r, s)))"

definition annotate_gate :: "dash_env \<Rightarrow> string \<Rightarrow> pyval \<Rightarrow> pyval \<Rightarrow> pyval \<Rightarrow> time \<Rightarrow> dash_view \<Rightarrow> pydict option dash_result" where
  "annotate_gate env i owner note actor now s =
     (if i = [] then Inr (None, s)
      else sbind (refresh_approval env i now s) (\<lambda>_ s. annotate_write env i owner note actor now s))"

section \<open>What the dashboard shows\<close>

fun last_by_id :: "(string \<times> pydict) list \<Rightarrow> pydict list \<Rightarrow> (string \<times> pydict) list" where
  "last_by_id m [] = m"
| "last_by_id m (r # rs) = (case dget r ''approval_id'' of PStr i \<Rightarrow> last_by_id (aupd i r m) rs | _ \<Rightarrow> last_by_id m rs)"

definition record_time :: "dash_env \<Rightarrow> pydict \<Rightarrow> (dash_exn, rat) result" where
  "record_time env r =
     (if truthy (dget r ''resolved_at'') then float_of env (dget r ''resolved_at'')
      else if truthy (dget r ''created_at'') then float_of env (dget r ''created_at'') else Inr 0)"

definition approval_record_newer :: "dash_env \<Rightarrow> pydict \<Rightarrow> pydict \<Rightarrow> (dash_exn, bool) result" where
  "approval_record_newer env candidate existing =
     rbind (record_time env candidate) (\<lambda>t. rbind (record_time env existing) (\<lambda>u.
     Inr (if t \<noteq> u then t > u
          else py_str (de_render env) (dget candidate ''status'') = ''resolved'' \<and>
               py_str (de_render env) (dget existing ''status'') \<noteq> ''resolved'')))"

fun merge_memory :: "dash_env \<Rightarrow> (string \<times> approval) list \<Rightarrow> (string \<times> pydict) list \<Rightarrow> (dash_exn, (string \<times> pydict) list) result" where
  "merge_memory env [] m = Inr m"
| "merge_memory env ((i, a) # as) m =
     rbind (approval_to_dict a) (\<lambda>r.
     rbind (case map_of m i of None \<Rightarrow> Inr True | Some e \<Rightarrow> approval_record_newer env r e) (\<lambda>newer.
     merge_memory env as (if newer then aupd i r m else m)))"

fun pending_resolves :: "dash_env \<Rightarrow> (string \<times> pydict) list \<Rightarrow> pydict list \<Rightarrow> (string \<times> pydict) list" where
  "pending_resolves env m [] = m"
| "pending_resolves env m (c # cs) =
     (let i = py_str (de_render env) (dget_or (payload_of c) ''approval_id'' (PStr []))
      in pending_resolves env (if is_resolve c \<and> i \<noteq> [] then aupd i c m else m) cs)"

definition record_actions :: "dash_env \<Rightarrow> pydict \<Rightarrow> (dash_exn, string list) result" where
  "record_actions env r =
     rbind (iter_of (dget_or r ''options'' (PList []))) (\<lambda>os.
     let value = (\<lambda>v. py_strip (case v of PDict d \<Rightarrow> py_str (de_render env) (dget_or d ''value'' (PStr [])) | _ \<Rightarrow> py_str (de_render env) v));
         vs = filter (\<lambda>v. v \<noteq> []) (map value os)
     in Inr (if vs = [] then [''continue'', ''stop''] else vs))"

definition overlay_record :: "dash_env \<Rightarrow> time \<Rightarrow> (string \<times> pydict) list \<Rightarrow> string \<times> pydict \<Rightarrow> (dash_exn, string \<times> pydict) result" where
  "overlay_record env now cs ir = (case ir of (i, r) \<Rightarrow>
     if py_str (de_render env) (dget r ''status'') \<noteq> ''pending'' then Inr (i, r)
     else case map_of cs i of
       None \<Rightarrow> Inr (i, r)
     | Some c \<Rightarrow>
         let p = payload_of c; action = command_text env p ''action''; input = command_text env p ''user_input'';
             extra = normalise_extra_rounds (dget p ''extra_rounds'') in
         rbind (record_actions env r) (\<lambda>allowed.
         if action \<notin> set allowed \<or> (\<not> truthy (dget_or r ''allow_input'' (PBool True)) \<and> input \<noteq> []) \<or>
            (\<not> truthy (dget_or r ''allow_extra_rounds'' (PBool False)) \<and> extra \<noteq> 0)
         then Inr (i, r)
         else rbind (if truthy (dget c ''created_at'') then float_of env (dget c ''created_at'') else Inr now) (\<lambda>t.
         Inr (i, aupd ''resolved_at'' (PFloat t) (aupd ''extra_rounds'' (PInt extra) (aupd ''user_input'' (PStr input)
           (aupd ''reason'' (PStr (command_text env p ''reason'')) (aupd ''action'' (PStr action) (aupd ''status'' (PStr ''resolved'') r)))))))))"

fun overlay_all :: "dash_env \<Rightarrow> time \<Rightarrow> (string \<times> pydict) list \<Rightarrow> (string \<times> pydict) list \<Rightarrow> (dash_exn, (string \<times> pydict) list) result" where
  "overlay_all env now cs [] = Inr []"
| "overlay_all env now cs (ir # irs) =
     rbind (overlay_record env now cs ir) (\<lambda>x. rbind (overlay_all env now cs irs) (\<lambda>xs. Inr (x # xs)))"

text \<open>The creation time is taken to be a number, as every writer of the log has it.\<close>

definition created_key :: "pydict \<Rightarrow> rat" where
  "created_key r = (case num_of (dget r ''created_at'') of Some t \<Rightarrow> t | None \<Rightarrow> 0)"

definition list_approvals :: "dash_env \<Rightarrow> time \<Rightarrow> dash_view \<Rightarrow> (dash_exn, pydict list) result" where
  "list_approvals env now s =
     rbind (merge_memory env (dv_mem s) (last_by_id [] (dv_log s))) (\<lambda>m.
     rbind (overlay_all env now (pending_resolves env [] (bus_pending (de_render env) (dv_bus s))) m) (\<lambda>m.
     Inr (sort_key created_key (map snd m))))"

definition has_pending_approval :: "dash_env \<Rightarrow> time \<Rightarrow> dash_view \<Rightarrow> (dash_exn, bool) result" where
  "has_pending_approval env now s =
     rbind (list_approvals env now s) (\<lambda>rs. Inr (list_ex (\<lambda>r. dget r ''status'' = PStr ''pending'') rs))"

section \<open>Instructions\<close>

definition is_inject :: "pydict \<Rightarrow> bool" where
  "is_inject c = (dget c ''kind'' = PStr ''inject_instruction'')"

definition add_injection :: "dash_env \<Rightarrow> string \<Rightarrow> string \<Rightarrow> pyval \<Rightarrow> string \<Rightarrow> time \<Rightarrow> dash_view \<Rightarrow> bool dash_result" where
  "add_injection env text key expected fresh now s =
     (let t = py_strip text in
      if \<not> dv_control s \<or> t = [] then Inr (False, s)
      else sbind (on_bus (bus_append (de_bytes env) (dv_bus s)
             \<lparr>aa_kind = ''inject_instruction'', aa_payload = [(''instructions'', PStr t)], aa_created_by = ''operator'',
              aa_expected = expected, aa_command_id = key, aa_fresh = fresh, aa_now = now\<rparr>) s) (\<lambda>_ s. Inr (True, s)))"

definition instruction_text :: "dash_env \<Rightarrow> pydict \<Rightarrow> string" where
  "instruction_text env c = command_text env (payload_of c) ''instructions''"

fun drain_commands :: "dash_env \<Rightarrow> time \<Rightarrow> pydict list \<Rightarrow> dash_view \<Rightarrow> string list dash_result" where
  "drain_commands env now [] s = Inr ([], s)"
| "drain_commands env now (c # cs) s =
     (if \<not> is_inject c then drain_commands env now cs s
      else let t = instruction_text env c in
        sbind (on_bus (bus_receipt (de_render env) (de_bytes env) (dv_bus s) c ''applied'' [] [(''instructions'', PStr t)] now) s) (\<lambda>_ s.
        sbind (drain_commands env now cs s) (\<lambda>ts s. Inr (if t = [] then ts else t # ts, s))))"

definition drain_injections :: "dash_env \<Rightarrow> time \<Rightarrow> dash_view \<Rightarrow> string list dash_result" where
  "drain_injections env now s = drain_commands env now (bus_pending (de_render env) (dv_bus s)) s"

text \<open>The messages of the timeline; a falsy creation time reads as zero, one that is no number too.\<close>

definition operator_message :: "dash_env \<Rightarrow> bus \<Rightarrow> pydict \<Rightarrow> pydict option" where
  "operator_message env b c =
     (let t = py_strip (str_or_empty (de_render env) (dget (payload_of c) ''instructions''));
          k = py_strip (str_or_empty (de_render env) (dget c ''command_id''));
          r = find (\<lambda>r. truthy (dget r ''command_id'') \<and> py_str (de_render env) (dget r ''command_id'') = k) (rev (cb_receipts b));
          status = (case r of None \<Rightarrow> [] | Some r \<Rightarrow> str_or_empty (de_render env) (dget r ''status''))
      in if \<not> is_inject c \<or> t = [] \<or> k = [] then None
         else Some [(''id'', PStr k), (''text'', PStr (take 50000 t)),
                (''created_at'', PFloat (case float_of env (dget c ''created_at'') of Inr x \<Rightarrow> x | Inl _ \<Rightarrow> 0)),
                (''status'', PStr (if status = [] then ''queued'' else status))])"

definition list_operator_messages :: "dash_env \<Rightarrow> int \<Rightarrow> dash_view \<Rightarrow> pydict list" where
  "list_operator_messages env limit s =
     (let n = nat (max 1 (min limit 500)); ms = List.map_filter (operator_message env (dv_bus s)) (cb_commands (dv_bus s))
      in drop (length ms - n) ms)"

definition list_injections :: "dash_env \<Rightarrow> dash_view \<Rightarrow> (dash_exn, string list) result" where
  "list_injections env s =
     foldr (\<lambda>c r. rbind r (\<lambda>ts. case or_empty (dget c ''payload'') of
         PDict d \<Rightarrow> Inr (py_str (de_render env) (dget_or d ''instructions'' (PStr [])) # ts)
       | _ \<Rightarrow> Inl (DashAttributeError ''get'')))
       (filter is_inject (bus_pending (de_render env) (dv_bus s))) (Inr [])"

end
