(* ===== verification/Gate_Board.thy ===== *)
theory Gate_Board
  imports Approvals
begin

text \<open>
  The checkpoints of a run as its processes share them, and the board they implement: a gate is
  open, then one decision is accepted, then that decision is applied. The states of
  \<open>Approvals\<close> are related to the board by the abstraction \<open>board\<close>; every operation of every process
  is a sequence of steps of the board. An operation counts as one step of a history: the log and the bus
  are each changed under a lock or by one append. What a reader and a writer of
  \<open>annotate_gate\<close> do when another process comes between them is shown at the end.
\<close>

section \<open>The board\<close>

type_synonym decision = "string \<times> string \<times> string \<times> int"

datatype gate = Open | Accepted decision | Closed decision

inductive board_step :: "(string \<Rightarrow> gate option) \<Rightarrow> (string \<Rightarrow> gate option) \<Rightarrow> bool" where
  raise_gate: "b i = None \<Longrightarrow> board_step b (b(i \<mapsto> Open))"
| accept_decision: "b i = Some Open \<Longrightarrow> board_step b (b(i \<mapsto> Accepted d))"
| apply_decision: "b i = Some (Accepted d) \<Longrightarrow> board_step b (b(i \<mapsto> Closed d))"

text \<open>Where a gate can get to.\<close>

fun gate_edge :: "gate \<Rightarrow> gate \<Rightarrow> bool" where
  "gate_edge Open g = (g \<noteq> Open)"
| "gate_edge (Accepted d) g = (g = Closed d)"
| "gate_edge (Closed d) g = False"

lemma board_steps_edge:
  assumes "board_step\<^sup>*\<^sup>* b b'" and "b i = Some g"
  shows "\<exists>g'. b' i = Some g' \<and> (g = g' \<or> gate_edge g g')"
  using assms
proof (induction rule: rtranclp_induct)
  case (step b1 b2)
  then obtain g1 where g1: "b1 i = Some g1" "g = g1 \<or> gate_edge g g1" by blast
  from step.hyps(2) g1 show ?case
    by cases (auto split: if_splits elim: gate_edge.elims)
qed simp

section \<open>Records the writers make\<close>

definition text_in :: "pydict \<Rightarrow> string \<Rightarrow> string" where
  "text_in d k = (case dget d k of PStr t \<Rightarrow> t | _ \<Rightarrow> [])"

definition decision_in :: "pydict \<Rightarrow> decision" where
  "decision_in d = (text_in d ''action'', text_in d ''reason'', text_in d ''user_input'', normalise_extra_rounds (dget d ''extra_rounds''))"

definition has_round :: "approval \<Rightarrow> bool" where
  "has_round a = (case approval_round a of Inr _ \<Rightarrow> True | Inl _ \<Rightarrow> False)"

lemma has_round_iff: "has_round a \<longleftrightarrow> (\<exists>i. approval_round a = Inr i)"
  by (simp add: has_round_def split: sum.splits)

definition approval_ok :: "approval \<Rightarrow> bool" where
  "approval_ok a = (ap_id a \<noteq> [] \<and> has_round a \<and> 0 \<le> ap_extra a \<and> ap_extra a \<le> MAX_ROUNDS \<and>
     ap_owner a \<in> set GATE_OWNERS \<and> length (ap_owner_note a) \<le> OWNER_NOTE_MAX_CHARS \<and> nul \<notin> set (ap_owner_note a) \<and>
     ap_resolved_at a \<noteq> Some 0 \<and> ap_owner_set_at a \<noteq> Some 0)"

definition dict_of :: "approval \<Rightarrow> pydict" where
  "dict_of a = (case approval_to_dict a of Inr r \<Rightarrow> r | Inl _ \<Rightarrow> [])"

lemma approval_to_dict_ok: "approval_ok a \<Longrightarrow> approval_to_dict a = Inr (dict_of a)"
  by (auto simp: approval_ok_def has_round_iff dict_of_def approval_to_dict_def)

lemma dict_of_fields:
  assumes "approval_ok a"
  shows "dget (dict_of a) ''approval_id'' = PStr (ap_id a)" "dget (dict_of a) ''status'' = PStr (ap_status a)"
    "decision_in (dict_of a) = (ap_action a, ap_reason a, ap_user_input a, ap_extra a)"
proof -
  obtain i where "approval_round a = Inr i" using assms by (auto simp: approval_ok_def has_round_iff)
  then show "dget (dict_of a) ''approval_id'' = PStr (ap_id a)" "dget (dict_of a) ''status'' = PStr (ap_status a)"
    "decision_in (dict_of a) = (ap_action a, ap_reason a, ap_user_input a, ap_extra a)"
    using assms by (simp_all add: dict_of_def approval_to_dict_def decision_in_def text_in_def normalise_extra_rounds_def approval_ok_def)
qed

lemma time_of_val: "t \<noteq> Some 0 \<Longrightarrow> time_of env (time_val t) = Inr t"
  by (cases t) (simp_all add: time_of_def)

lemma option_from_dict: "option_from env (PDict (option_to_dict x)) = Some x"
  by (simp add: option_from_def option_to_dict_def dget_or_def)

lemma options_read_back: "List.map_filter (option_from env) (map (PDict \<circ> option_to_dict) xs) = xs"
  by (induction xs) (simp_all add: map_filter_simps option_from_dict)

lemma owner_read_back: "x \<in> set GATE_OWNERS \<Longrightarrow> clean_gate_owner render (PStr x) = x"
proof -
  have "list_all (\<lambda>x. py_lower (py_strip x) = x) GATE_OWNERS" by code_simp
  then show "x \<in> set GATE_OWNERS \<Longrightarrow> clean_gate_owner render (PStr x) = x"
    by (auto simp: clean_gate_owner_def list_all_iff)
qed

lemma note_read_back: "length t \<le> OWNER_NOTE_MAX_CHARS \<Longrightarrow> nul \<notin> set t \<Longrightarrow> clean_owner_note render (PStr t) = t"
  by (simp add: clean_owner_note_def filter_id_conv) blast

lemma approval_read_back:
  assumes "approval_ok a"
  shows "approval_from_record env now (dict_of a) = Inr (Some a)"
proof -
  obtain i where i: "approval_round a = Inr i" using assms by (auto simp: approval_ok_def has_round_iff)
  obtain c cs where c: "ap_id a = c # cs" using assms by (cases "ap_id a") (auto simp: approval_ok_def)
  have t: "time_of env (time_val (ap_resolved_at a)) = Inr (ap_resolved_at a)" "time_of env (time_val (ap_owner_set_at a)) = Inr (ap_owner_set_at a)"
    using assms time_of_val by (auto simp: approval_ok_def)
  have e: "normalise_extra_rounds (PInt (ap_extra a)) = ap_extra a" using assms by (simp add: normalise_extra_rounds_def approval_ok_def)
  have ow: "clean_gate_owner (de_render env) (PStr (ap_owner a)) = ap_owner a" "clean_owner_note (de_render env) (PStr (ap_owner_note a)) = ap_owner_note a"
    using assms owner_read_back note_read_back by (simp_all add: approval_ok_def)
  show ?thesis
    using i c t e ow by (simp add: dict_of_def approval_to_dict_def approval_from_record_def dget_or_def options_read_back [unfolded comp_def] comp_def)
qed

section \<open>The processes\<close>

record dash_sys =
  ds_control :: "nat \<Rightarrow> bool"
  ds_mem :: "nat \<Rightarrow> (string \<times> approval) list"
  ds_log :: "pydict list"
  ds_bus :: bus

definition view_of :: "nat \<Rightarrow> dash_sys \<Rightarrow> dash_view" where
  "view_of p s = \<lparr>dv_control = ds_control s p, dv_mem = ds_mem s p, dv_log = ds_log s, dv_bus = ds_bus s\<rparr>"

definition put_view :: "nat \<Rightarrow> dash_view \<Rightarrow> dash_sys \<Rightarrow> dash_sys" where
  "put_view p v s = s\<lparr>ds_mem := (ds_mem s)(p := dv_mem v), ds_log := dv_log v, ds_bus := dv_bus v\<rparr>"

datatype dash_op =
    DCreate nat approval_request string time
  | DResolve nat string decision_args string time
  | DGet nat string time
  | DAnnotate nat string pyval pyval pyval time
  | DInject nat string string pyval string time
  | DDrain nat time
  | DOther bus_op

text \<open>
  What callers guarantee: the clock is past zero, an approval's id is new (twelve hex digits of a
  UUID) and its round a number, and the rest of the supervisor leaves the decisions on the bus alone.
\<close>

definition other_op :: "bus \<Rightarrow> bus_op \<Rightarrow> bool" where
  "other_op b x = (case x of
       BAppend a \<Rightarrow> aa_kind a \<noteq> ''resolve_approval''
     | BReceipt c st m res now \<Rightarrow> c \<in> set (cb_commands b) \<and> \<not> is_resolve c
     | _ \<Rightarrow> True)"

definition request_ok :: "dash_sys \<Rightarrow> approval_request \<Rightarrow> string \<Rightarrow> bool" where
  "request_ok s q i = (i \<noteq> [] \<and> last_record i (ds_log s) = None \<and> has_round (new_approval q i 1))"

fun dash_exec :: "dash_env \<Rightarrow> dash_sys \<Rightarrow> dash_op \<Rightarrow> dash_sys" where
  "dash_exec env s (DCreate p q i now) =
     (if request_ok s q i then put_view p (left_in (create_approval env q i now (view_of p s))) s else s)"
| "dash_exec env s (DResolve p i d fresh now) = put_view p (left_in (resolve_approval env i d fresh now (view_of p s))) s"
| "dash_exec env s (DGet p i now) = (if now > 0 then put_view p (left_in (get_approval env i now (view_of p s))) s else s)"
| "dash_exec env s (DAnnotate p i owner note actor now) =
     (if now > 0 then put_view p (left_in (annotate_gate env i owner note actor now (view_of p s))) s else s)"
| "dash_exec env s (DInject p text key expected fresh now) =
     put_view p (left_in (add_injection env text key expected fresh now (view_of p s))) s"
| "dash_exec env s (DDrain p now) = put_view p (left_in (drain_injections env now (view_of p s))) s"
| "dash_exec env s (DOther x) =
     (if other_op (ds_bus s) x then s\<lparr>ds_bus := bus_exec (de_render env) (de_bytes env) (ds_bus s) x\<rparr> else s)"

section \<open>The abstraction\<close>

definition resolves :: "string \<Rightarrow> pydict \<Rightarrow> bool" where
  "resolves i c = (is_resolve c \<and> dget (payload_of c) ''approval_id'' = PStr i)"

definition gate_of :: "pydict list \<Rightarrow> bus \<Rightarrow> string \<Rightarrow> gate option" where
  "gate_of lg b i = (case last_record i lg of
       None \<Rightarrow> None
     | Some r \<Rightarrow> Some (if dget r ''status'' = PStr ''resolved'' then Closed (decision_in r)
         else case find (resolves i) (cb_commands b) of
                None \<Rightarrow> Open
              | Some c \<Rightarrow> Accepted (decision_in (payload_of c))))"

definition board :: "dash_sys \<Rightarrow> string \<Rightarrow> gate option" where
  "board s = gate_of (ds_log s) (ds_bus s)"

section \<open>Invariant\<close>

definition current :: "approval list \<Rightarrow> string \<Rightarrow> approval option" where
  "current as i = find (\<lambda>a. ap_id a = i) (rev as)"

text \<open>A decision as \<open>resolve_approval\<close> puts it on the bus.\<close>

definition decision_command :: "approval list \<Rightarrow> pydict \<Rightarrow> bool" where
  "decision_command as c = (\<exists>i action reason input extra key a.
     dget c ''payload'' = PDict (decision_payload i action reason input extra @ [(''idempotency_key'', PStr key)]) \<and>
     dget c ''command_id'' = PStr (resolve_command_id i) \<and> current as i = Some a \<and> response_valid a action input extra \<and>
     py_strip action = action \<and> py_strip reason = reason \<and> py_strip input = input \<and> 0 \<le> extra \<and> extra \<le> MAX_ROUNDS)"

definition closed_in :: "approval list \<Rightarrow> string \<Rightarrow> bool" where
  "closed_in as i = (\<exists>a. current as i = Some a \<and> ap_status a = ''resolved'')"

definition bus_ok :: "approval list \<Rightarrow> bus \<Rightarrow> bool" where
  "bus_ok as b = (
     (\<forall>c\<in>set (cb_commands b). \<exists>k. dget c ''command_id'' = PStr k \<and> k \<noteq> []) \<and>
     (\<forall>c\<in>set (cb_commands b). is_resolve c \<longrightarrow> decision_command as c) \<and>
     (\<forall>c\<in>set (cb_commands b). \<forall>c'\<in>set (cb_commands b). is_resolve c \<longrightarrow> dget c' ''command_id'' = dget c ''command_id'' \<longrightarrow> c' = c) \<and>
     (\<forall>r\<in>set (cb_receipts b). \<exists>c\<in>set (cb_commands b). dget r ''command_id'' = dget c ''command_id'' \<and>
        (\<forall>i. resolves i c \<longrightarrow> closed_in as i)))"

definition log_ok :: "approval list \<Rightarrow> pydict list \<Rightarrow> bool" where
  "log_ok as lg = (lg = map dict_of as \<and> list_all approval_ok as)"

definition dash_ok :: "approval list \<Rightarrow> pydict list \<Rightarrow> bus \<Rightarrow> bool" where
  "dash_ok as lg b = (log_ok as lg \<and> bus_ok as b)"

definition mem_ok :: "approval list \<Rightarrow> (string \<times> approval) list \<Rightarrow> bool" where
  "mem_ok as m = (\<forall>i. map_of m i \<noteq> None \<longrightarrow> current as i \<noteq> None)"

definition view_ok :: "approval list \<Rightarrow> dash_view \<Rightarrow> bool" where
  "view_ok as v = (dash_ok as (dv_log v) (dv_bus v) \<and> mem_ok as (dv_mem v))"

definition dash_inv :: "dash_sys \<Rightarrow> bool" where
  "dash_inv s = (\<exists>as. dash_ok as (ds_log s) (ds_bus s) \<and> (\<forall>p. mem_ok as (ds_mem s p)))"

section \<open>Lemmas\<close>

lemma current_append: "current (as @ [a]) i = (if ap_id a = i then Some a else current as i)"
  by (simp add: current_def)

lemma find_map: "find P (map f xs) = map_option f (find (P \<circ> f) xs)"
  by (induction xs) auto

lemma last_record_dict:
  assumes "log_ok as lg"
  shows "last_record i lg = map_option dict_of (current as i)"
proof -
  have "find (\<lambda>r. dget r ''approval_id'' = PStr i) (map dict_of xs) = map_option dict_of (find (\<lambda>a. ap_id a = i) xs)"
    if "list_all approval_ok xs" for xs
    using that by (induction xs) (simp_all add: dict_of_fields)
  from this [of "rev as"] show ?thesis using assms by (simp add: log_ok_def last_record_def current_def rev_map list_all_rev)
qed

lemma current_SomeD: "current as i = Some a \<Longrightarrow> a \<in> set as \<and> ap_id a = i"
  by (auto simp: current_def dest!: find_SomeD)

lemma current_ok: "log_ok as lg \<Longrightarrow> current as i = Some a \<Longrightarrow> approval_ok a \<and> ap_id a = i"
  by (auto simp: log_ok_def list_all_iff dest!: current_SomeD)

lemma gate_of_ok:
  assumes "log_ok as lg"
  shows "gate_of lg b i = (case current as i of None \<Rightarrow> None
     | Some a \<Rightarrow> Some (if ap_status a = ''resolved'' then Closed (ap_action a, ap_reason a, ap_user_input a, ap_extra a)
         else case find (resolves i) (cb_commands b) of None \<Rightarrow> Open | Some c \<Rightarrow> Accepted (decision_in (payload_of c))))"
  using assms current_ok [OF assms, of i]
  by (auto simp: gate_of_def last_record_dict dict_of_fields split: option.splits)

definition seen :: "string \<Rightarrow> approval list \<Rightarrow> dash_view \<Rightarrow> dash_view" where
  "seen i as v = (case current as i of None \<Rightarrow> v | Some a \<Rightarrow> v\<lparr>dv_mem := aupd i a (dv_mem v)\<rparr>)"

lemma refresh_ok:
  assumes "view_ok as v"
  shows "refresh_approval env i now v = Inr ((), seen i as v)"
proof -
  have l: "log_ok as (dv_log v)" using assms by (simp add: view_ok_def dash_ok_def)
  show ?thesis
    using last_record_dict [OF l, of i] current_ok [OF l, of i]
    by (auto simp: refresh_approval_def seen_def approval_read_back split: option.splits)
qed

lemma seen_ok: "view_ok as v \<Longrightarrow> view_ok as (seen i as v)"
  by (auto simp: view_ok_def seen_def mem_ok_def split: option.splits)

lemma seen_shared [simp]: "dv_log (seen i as v) = dv_log v" "dv_bus (seen i as v) = dv_bus v" "dv_control (seen i as v) = dv_control v"
  by (simp_all add: seen_def split: option.splits)

lemma seen_mem: "view_ok as v \<Longrightarrow> map_of (dv_mem (seen i as v)) i = current as i"
  by (auto simp: seen_def view_ok_def mem_ok_def split: option.splits)

lemma mem_ok_aupd: "mem_ok as m \<Longrightarrow> current as i \<noteq> None \<Longrightarrow> mem_ok as (aupd i a m)"
  by (auto simp: mem_ok_def)

lemma current_mono: "current as i \<noteq> None \<Longrightarrow> current (as @ new) i \<noteq> None"
  by (auto simp: current_def find_None)

lemma mem_ok_mono: "mem_ok as m \<Longrightarrow> mem_ok (as @ new) m"
  using current_mono by (auto simp: mem_ok_def)

lemma find_snoc: "find P (xs @ [x]) = (case find P xs of Some y \<Rightarrow> Some y | None \<Rightarrow> if P x then Some x else None)"
  by (induction xs) auto

lemma find_rev_unique:
  assumes "\<And>x y. x \<in> set xs \<Longrightarrow> y \<in> set xs \<Longrightarrow> P x \<Longrightarrow> P y \<Longrightarrow> x = y"
  shows "find P (rev xs) = find P xs"
proof (cases "find P xs")
  case None
  then have "\<forall>x\<in>set (rev xs). \<not> P x" by (simp add: find_None)
  then show ?thesis using None by (simp only: find_None [symmetric])
next
  case (Some x)
  then have "find P (rev xs) \<noteq> None" using find_SomeD [OF Some] by (auto simp: find_None)
  then obtain y where "find P (rev xs) = Some y" by blast
  then show ?thesis using Some assms find_SomeD by fastforce
qed

subsection \<open>Decisions on the bus\<close>

lemma resolve_command_id_inj: "resolve_command_id i = resolve_command_id j \<longleftrightarrow> i = j"
  by (simp add: resolve_command_id_def)

lemma resolve_command_id_Nil [simp]: "resolve_command_id i \<noteq> []"
  by (simp add: resolve_command_id_def)

lemma resolve_command_id_strip: "py_strip (resolve_command_id i) = resolve_command_id i"
proof -
  have h: "\<not> is_space CHR ''a''" "\<not> is_space CHR ''e''" by code_simp+
  have "hd (resolve_command_id i) = CHR ''a''" "last (resolve_command_id i) = CHR ''e''"
    by (simp_all add: resolve_command_id_def)
  then show ?thesis using h by (intro py_strip_id) simp
qed

lemma normalise_extra_bounds: "0 \<le> normalise_extra_rounds v \<and> normalise_extra_rounds v \<le> MAX_ROUNDS"
  by (auto simp: normalise_extra_rounds_def MAX_ROUNDS_def split: option.splits)

lemma normalise_extra_id: "0 \<le> x \<Longrightarrow> x \<le> MAX_ROUNDS \<Longrightarrow> normalise_extra_rounds (PInt x) = x"
  by (simp add: normalise_extra_rounds_def)

lemma decision_payload_fields:
  fixes i action reason input key :: string and extra :: int
  assumes "0 \<le> extra" "extra \<le> MAX_ROUNDS"
  defines "p \<equiv> decision_payload i action reason input extra @ [(''idempotency_key'', PStr key)]"
  shows "dget p ''approval_id'' = PStr i" "decision_in p = (action, reason, input, extra)"
    "dget p ''action'' = PStr action" "dget p ''reason'' = PStr reason" "dget p ''user_input'' = PStr input"
    "normalise_extra_rounds (dget p ''extra_rounds'') = extra"
  using assms(1,2) by (simp_all add: p_def decision_payload_def decision_in_def text_in_def normalise_extra_id)
    (simp_all add: normalise_extra_rounds_def)

text \<open>What a decision on the bus reads as.\<close>

lemma decision_commandD:
  assumes "decision_command as c" and "is_resolve c"
  obtains i action reason input extra a where
    "resolves i c" "dget c ''command_id'' = PStr (resolve_command_id i)" "current as i = Some a"
    "response_valid a action input extra" "decision_in (payload_of c) = (action, reason, input, extra)"
    "command_text env (payload_of c) ''action'' = action" "command_text env (payload_of c) ''reason'' = reason"
    "command_text env (payload_of c) ''user_input'' = input" "normalise_extra_rounds (dget (payload_of c) ''extra_rounds'') = extra"
    "py_str (de_render env) (dget_or (payload_of c) ''approval_id'' (PStr [])) = i" "0 \<le> extra" "extra \<le> MAX_ROUNDS"
    "or_empty (dget c ''payload'') = PDict (payload_of c)"
proof -
  from assms(1) obtain i action reason input extra key a where d:
    "dget c ''payload'' = PDict (decision_payload i action reason input extra @ [(''idempotency_key'', PStr key)])"
    "dget c ''command_id'' = PStr (resolve_command_id i)" "current as i = Some a" "response_valid a action input extra"
    "py_strip action = action" "py_strip reason = reason" "py_strip input = input" "0 \<le> extra" "extra \<le> MAX_ROUNDS"
    by (auto simp: decision_command_def)
  let ?p = "decision_payload i action reason input extra @ [(''idempotency_key'', PStr key)]"
  have p: "payload_of c = ?p" using d(1) by (simp add: payload_of_def)
  have f: "dget ?p ''approval_id'' = PStr i" "decision_in ?p = (action, reason, input, extra)"
    "dget ?p ''action'' = PStr action" "dget ?p ''reason'' = PStr reason" "dget ?p ''user_input'' = PStr input"
    "normalise_extra_rounds (dget ?p ''extra_rounds'') = extra"
    using decision_payload_fields [OF d(8,9), of i action reason input key] by simp_all
  have g: "dget_or ?p ''approval_id'' x = PStr i" "dget_or ?p ''action'' x = PStr action" "dget_or ?p ''reason'' x = PStr reason"
    "dget_or ?p ''user_input'' x = PStr input" "?p \<noteq> []" for x
    by (simp_all add: decision_payload_def)
  show ?thesis
    by (rule that [of i a action input extra reason])
       (use d f p assms(2) in \<open>simp_all add: g resolves_def command_text_def or_empty_def\<close>)
qed

lemma bus_okD:
  assumes "bus_ok as b" and "c \<in> set (cb_commands b)"
  shows "\<exists>k. dget c ''command_id'' = PStr k \<and> k \<noteq> []" "is_resolve c \<Longrightarrow> decision_command as c"
    "c' \<in> set (cb_commands b) \<Longrightarrow> is_resolve c \<Longrightarrow> dget c' ''command_id'' = dget c ''command_id'' \<Longrightarrow> c' = c"
  using assms by (auto simp: bus_ok_def)

lemma resolves_id:
  assumes "bus_ok as b" "c \<in> set (cb_commands b)" "resolves i c"
  shows "dget c ''command_id'' = PStr (resolve_command_id i)"
proof -
  have r: "is_resolve c" using assms(3) by (simp add: resolves_def)
  obtain j where "resolves j c" "dget c ''command_id'' = PStr (resolve_command_id j)"
    by (rule decision_commandD [OF bus_okD(2) [OF assms(1,2) r] r])
  then show ?thesis using assms(3) by (simp add: resolves_def)
qed

lemma resolves_unique:
  assumes "bus_ok as b" "c \<in> set (cb_commands b)" "c' \<in> set (cb_commands b)" "resolves i c" "resolves i c'"
  shows "c = c'"
proof -
  have "is_resolve c" using assms(4) by (simp add: resolves_def)
  moreover have "dget c' ''command_id'' = dget c ''command_id''"
    using resolves_id [OF assms(1,2,4)] resolves_id [OF assms(1,3,5)] by simp
  ultimately show ?thesis using bus_okD(3) [OF assms(1,2,3)] by simp
qed

lemma resolves_found:
  assumes "bus_ok as b" "c \<in> set (cb_commands b)" "resolves i c"
  shows "find (resolves i) (cb_commands b) = Some c"
proof -
  have "find (resolves i) (cb_commands b) \<noteq> None" using assms(2,3) by (auto simp: find_None)
  then obtain c' where f: "find (resolves i) (cb_commands b) = Some c'" by blast
  then have "c' \<in> set (cb_commands b)" "resolves i c'" using find_SomeD by fast+
  then show ?thesis using f resolves_unique [OF assms(1,2) _ assms(3)] by simp
qed

lemma find_decision_ok:
  assumes "bus_ok as b"
  shows "find_decision env i (rev (cb_commands b)) = Inr (find (resolves i) (cb_commands b))"
proof -
  have "find_decision env i cs = Inr (find (resolves i) cs)" if "set cs \<subseteq> set (cb_commands b)" for cs
    using that
  proof (induction cs)
    case (Cons c cs)
    show ?case
    proof (cases "is_resolve c")
      case True
      then have dc: "decision_command as c" using bus_okD(2) [OF assms] Cons.prems by simp
      obtain j where "resolves j c" "or_empty (dget c ''payload'') = PDict (payload_of c)" by (rule decision_commandD [OF dc True])
      then show ?thesis using Cons True by (auto simp: resolves_def)
    qed (use Cons in \<open>simp add: resolves_def\<close>)
  qed simp
  then have "find_decision env i (rev (cb_commands b)) = Inr (find (resolves i) (rev (cb_commands b)))" by simp
  then show ?thesis by (subst (asm) find_rev_unique) (auto dest: resolves_unique [OF assms])
qed

subsection \<open>One append to the log or the bus\<close>

definition evolves :: "dash_view \<Rightarrow> dash_view \<Rightarrow> bool" where
  "evolves v v' = (\<forall>as. view_ok as v \<longrightarrow> (\<exists>new. view_ok (as @ new) v' \<and>
     board_step\<^sup>*\<^sup>* (gate_of (dv_log v) (dv_bus v)) (gate_of (dv_log v') (dv_bus v'))))"

lemma evolves_refl: "evolves v v"
  unfolding evolves_def by (metis append_Nil2 rtranclp.rtrancl_refl)

lemma evolves_trans: "evolves v1 v2 \<Longrightarrow> evolves v2 v3 \<Longrightarrow> evolves v1 v3"
  unfolding evolves_def by (metis append_assoc rtranclp_trans)

lemma evolvesI:
  assumes "\<And>as. view_ok as v \<Longrightarrow> \<exists>new. view_ok (as @ new) v' \<and>
     board_step\<^sup>*\<^sup>* (gate_of (dv_log v) (dv_bus v)) (gate_of (dv_log v') (dv_bus v'))"
  shows "evolves v v'"
  using assms by (simp add: evolves_def)

lemma evolves_seen: "view_ok as v \<Longrightarrow> evolves (seen i as v) v' \<Longrightarrow> view_ok as v \<Longrightarrow>
    \<exists>new. view_ok (as @ new) v' \<and> board_step\<^sup>*\<^sup>* (gate_of (dv_log v) (dv_bus v)) (gate_of (dv_log v') (dv_bus v'))"
  using seen_ok [of as v i] by (auto simp: evolves_def)

text \<open>A new record of a gate keeps its question and never reopens it.\<close>

definition continues :: "approval list \<Rightarrow> approval \<Rightarrow> bool" where
  "continues as a' = (case current as (ap_id a') of
       None \<Rightarrow> True
     | Some a \<Rightarrow> ap_options a' = ap_options a \<and> ap_allow_input a' = ap_allow_input a \<and> ap_allow_extra a' = ap_allow_extra a \<and>
         (ap_status a = ''resolved'' \<longrightarrow> ap_status a' = ''resolved''))"

lemma response_valid_cong:
  "ap_options a' = ap_options a \<Longrightarrow> ap_allow_input a' = ap_allow_input a \<Longrightarrow> ap_allow_extra a' = ap_allow_extra a \<Longrightarrow>
     response_valid a' = response_valid a"
  by (simp add: response_valid_def allowed_actions_def fun_eq_iff)

lemma decision_command_append:
  assumes "decision_command as c" and "continues as a'"
  shows "decision_command (as @ [a']) c"
proof -
  from assms(1) obtain i action reason input extra key a where d:
    "dget c ''payload'' = PDict (decision_payload i action reason input extra @ [(''idempotency_key'', PStr key)])"
    "dget c ''command_id'' = PStr (resolve_command_id i)" "current as i = Some a" "response_valid a action input extra"
    "py_strip action = action" "py_strip reason = reason" "py_strip input = input" "0 \<le> extra" "extra \<le> MAX_ROUNDS"
    by (auto simp: decision_command_def)
  obtain b where b: "current (as @ [a']) i = Some b" "response_valid b action input extra"
    using d(3,4) assms(2) response_valid_cong [of a' a] by (cases "ap_id a' = i") (auto simp: current_append continues_def)
  show ?thesis unfolding decision_command_def using d(1,2,5-9) b by blast
qed

lemma closed_in_append: "closed_in as i \<Longrightarrow> continues as a' \<Longrightarrow> closed_in (as @ [a']) i"
  by (auto simp: closed_in_def current_append continues_def)

lemma dash_ok_append:
  assumes "dash_ok as lg b" and "approval_ok a'" and "continues as a'"
  shows "dash_ok (as @ [a']) (lg @ [dict_of a']) b"
  using assms decision_command_append [OF _ assms(3)] closed_in_append [OF _ assms(3)]
  unfolding dash_ok_def log_ok_def bus_ok_def by fastforce

lemma view_ok_append:
  assumes "view_ok as v" and "approval_ok a'" and "continues as a'"
  shows "view_ok (as @ [a']) (v\<lparr>dv_log := dv_log v @ [dict_of a']\<rparr>)"
  using assms dash_ok_append mem_ok_mono by (simp add: view_ok_def)

lemma save_ok:
  "de_writable env \<Longrightarrow> approval_ok a \<Longrightarrow> save_approval env a v = Inr (dict_of a, v\<lparr>dv_log := dv_log v @ [dict_of a]\<rparr>)"
  by (simp add: save_approval_def approval_to_dict_ok persist_approval_def)

text \<open>A receipt for a command whose gate, if it has one, is closed.\<close>

lemma bus_ok_receipt:
  assumes "bus_ok as b" and "c \<in> set (cb_commands b)" and "\<And>i. resolves i c \<Longrightarrow> closed_in as i"
  shows "bus_ok as (kept b (bus_receipt render bytes b c st m res now))"
  using bus_receipt_kept [of b render bytes c st m res now]
proof (elim disjE conjE)
  assume k: "kept b (bus_receipt render bytes b c st m res now) = b\<lparr>cb_receipts := cb_receipts b @ [new_receipt b c st m res now]\<rparr>"
  have "dget (new_receipt b c st m res now) ''command_id'' = dget c ''command_id''" by (simp add: new_receipt_def)
  then show ?thesis unfolding k using assms by (auto simp: bus_ok_def)
qed (use assms in simp)

lemma kept_receipt_commands: "cb_commands (kept b (bus_receipt render bytes b c st m res now)) = cb_commands b"
  using bus_receipt_kept [of b render bytes c st m res now] by auto

lemma bus_ok_status: "cb_commands b' = cb_commands b \<Longrightarrow> cb_receipts b' = cb_receipts b \<Longrightarrow> bus_ok as b' = bus_ok as b"
  by (simp add: bus_ok_def)

lemma gate_of_commands: "cb_commands b' = cb_commands b \<Longrightarrow> gate_of lg b' = gate_of lg b"
  by (rule ext) (simp add: gate_of_def split: option.split)

lemma left_on_bus: "left_in (on_bus r v) = v\<lparr>dv_bus := kept (dv_bus v) r\<rparr>"
  by (auto simp: on_bus_def split: sum.splits)

lemma evolves_bus:
  assumes "\<And>as. view_ok as v \<Longrightarrow> bus_ok as b'" and "\<And>as. view_ok as v \<Longrightarrow> board_step\<^sup>*\<^sup>* (gate_of (dv_log v) (dv_bus v)) (gate_of (dv_log v) b')"
  shows "evolves v (v\<lparr>dv_bus := b'\<rparr>)"
proof (rule evolvesI)
  fix as assume "view_ok as v"
  then show "\<exists>new. view_ok (as @ new) (v\<lparr>dv_bus := b'\<rparr>) \<and>
      board_step\<^sup>*\<^sup>* (gate_of (dv_log v) (dv_bus v)) (gate_of (dv_log (v\<lparr>dv_bus := b'\<rparr>)) (dv_bus (v\<lparr>dv_bus := b'\<rparr>)))"
    using assms by (intro exI [where x = "[]"]) (simp add: view_ok_def dash_ok_def)
qed

lemma evolves_receipt:
  assumes "c \<in> set (cb_commands (dv_bus v))" and "\<And>as i. view_ok as v \<Longrightarrow> resolves i c \<Longrightarrow> closed_in as i"
  shows "evolves v (left_in (on_bus (bus_receipt render bytes (dv_bus v) c st m res now) v))"
  unfolding left_on_bus
proof (rule evolves_bus)
  fix as assume v: "view_ok as v"
  let ?b = "kept (dv_bus v) (bus_receipt render bytes (dv_bus v) c st m res now)"
  show "bus_ok as ?b" using v assms by (intro bus_ok_receipt) (auto simp: view_ok_def dash_ok_def)
  have "gate_of (dv_log v) ?b = gate_of (dv_log v) (dv_bus v)" by (intro gate_of_commands kept_receipt_commands)
  then show "board_step\<^sup>*\<^sup>* (gate_of (dv_log v) (dv_bus v)) (gate_of (dv_log v) ?b)" by simp
qed

lemma bus_append_new:
  assumes "bus_append bytes b a = Inr ((c, replay), b')"
  shows "if replay then b' = b \<and> c \<in> set (cb_commands b) \<and> dget c ''command_id'' = PStr (py_strip (aa_command_id a)) \<and> py_eq (dget c ''kind'') (PStr (aa_kind a))
    else b' = b\<lparr>cb_commands := cb_commands b @ [c]\<rparr> \<and>
      c = new_command b a (py_strip (aa_command_id a)) @ [(''revision'', PInt (current_revision b + 1))] \<and>
      (py_strip (aa_command_id a) \<noteq> [] \<longrightarrow> (\<forall>c'\<in>set (cb_commands b). dget c' ''command_id'' \<noteq> PStr (py_strip (aa_command_id a))))"
proof -
  let ?k = "py_strip (aa_command_id a)"
  define found where "found = (if ?k = [] then None else find (\<lambda>c. dget c ''command_id'' = PStr ?k) (cb_commands b))"
  show ?thesis
  proof (cases found)
    case None
    then have "?k \<noteq> [] \<longrightarrow> (\<forall>c'\<in>set (cb_commands b). dget c' ''command_id'' \<noteq> PStr ?k)"
      by (auto simp: found_def find_None split: if_splits)
    then show ?thesis
      using assms None by (auto simp: bus_append_def found_def [symmetric] Let_def rbind_eq_Inr append_jsonl_def split: if_splits)
  next
    case (Some x)
    then have "x \<in> set (cb_commands b) \<and> dget x ''command_id'' = PStr ?k" by (auto simp: found_def dest: find_SomeD split: if_splits)
    then show ?thesis
      using assms Some by (auto simp: bus_append_def found_def [symmetric] Let_def rbind_eq_Inr same_command_def new_command_def split: if_splits)
  qed
qed

lemma new_command_fields:
  "dget (new_command b a k @ [(''revision'', v)]) ''command_id'' = PStr (if k = [] then ''cmd-'' @ aa_fresh a else k)"
  "dget (new_command b a k @ [(''revision'', v)]) ''kind'' = PStr (aa_kind a)"
  "dget (new_command b a k @ [(''revision'', v)]) ''payload'' = PDict (aa_payload a)"
  by (simp_all add: new_command_def)

lemma bus_ok_command:
  assumes "bus_ok as b" and "dget c ''command_id'' = PStr k" and "k \<noteq> []"
    and "\<And>c'. c' \<in> set (cb_commands b) \<Longrightarrow> is_resolve c' \<Longrightarrow> dget c' ''command_id'' \<noteq> PStr k"
    and "is_resolve c \<Longrightarrow> decision_command as c" and "\<And>c'. is_resolve c \<Longrightarrow> c' \<in> set (cb_commands b) \<Longrightarrow> dget c' ''command_id'' \<noteq> PStr k"
  shows "bus_ok as (b\<lparr>cb_commands := cb_commands b @ [c]\<rparr>)"
  using assms unfolding bus_ok_def by auto

lemma evolves_append:
  assumes "aa_kind a \<noteq> ''resolve_approval''"
  shows "evolves v (left_in (on_bus (bus_append bytes (dv_bus v) a) v))"
proof (cases "bus_append bytes (dv_bus v) a")
  case (Inr x)
  then obtain c replay b' where x: "bus_append bytes (dv_bus v) a = Inr ((c, replay), b')" by (cases x) auto
  show ?thesis
  proof (cases replay)
    case False
    let ?k = "py_strip (aa_command_id a)"
    have n: "b' = (dv_bus v)\<lparr>cb_commands := cb_commands (dv_bus v) @ [c]\<rparr>"
      "c = new_command (dv_bus v) a ?k @ [(''revision'', PInt (current_revision (dv_bus v) + 1))]"
      "?k \<noteq> [] \<Longrightarrow> c' \<in> set (cb_commands (dv_bus v)) \<Longrightarrow> dget c' ''command_id'' \<noteq> PStr ?k" for c'
      using bus_append_new [OF x] False by auto
    have c: "\<not> is_resolve c" "dget c ''command_id'' = PStr (if ?k = [] then ''cmd-'' @ aa_fresh a else ?k)"
      using assms by (simp_all add: n(2) is_resolve_def new_command_fields)
    have "bus_ok as b'" if "view_ok as v" for as
      unfolding n(1)
    proof (rule bus_ok_command [OF _ c(2)])
      show b: "bus_ok as (dv_bus v)" using that by (simp add: view_ok_def dash_ok_def)
      fix c' assume c': "c' \<in> set (cb_commands (dv_bus v))" "is_resolve c'"
      obtain i where "dget c' ''command_id'' = PStr (resolve_command_id i)"
        by (rule decision_commandD [OF bus_okD(2) [OF b c'] c'(2)])
      then show "dget c' ''command_id'' \<noteq> PStr (if ?k = [] then ''cmd-'' @ aa_fresh a else ?k)"
        using n(3) [OF _ c'(1)] by (auto simp: resolve_command_id_def)
    qed (use c(1) in auto)
    moreover have "gate_of (dv_log v) b' = gate_of (dv_log v) (dv_bus v)"
      using c(1) by (auto simp: n(1) gate_of_def fun_eq_iff find_snoc resolves_def split: option.splits)
    ultimately show ?thesis using x by (simp add: on_bus_def evolves_bus)
  qed (use bus_append_new [OF x] x evolves_refl in \<open>simp add: on_bus_def\<close>)
qed (simp add: on_bus_def evolves_refl)

lemma board_update:
  assumes "log_ok as lg" and "approval_ok a'"
  shows "gate_of (lg @ [dict_of a']) b = (gate_of lg b)(ap_id a' \<mapsto>
     (if ap_status a' = ''resolved'' then Closed (ap_action a', ap_reason a', ap_user_input a', ap_extra a')
      else case find (resolves (ap_id a')) (cb_commands b) of None \<Rightarrow> Open | Some c \<Rightarrow> Accepted (decision_in (payload_of c))))"
proof -
  have "log_ok (as @ [a']) (lg @ [dict_of a'])" using assms by (simp add: log_ok_def)
  then show ?thesis
    using gate_of_ok [OF assms(1)] by (auto simp: gate_of_ok current_append fun_eq_iff)
qed

subsection \<open>The operations\<close>

lemma evolves_create:
  assumes "de_writable env" and "approval_ok (new_approval q i now)" and "last_record i (dv_log v) = None"
  shows "evolves v (left_in (create_approval env q i now v))"
proof (rule evolvesI)
  fix as assume v: "view_ok as v"
  let ?a = "new_approval q i now" and ?v = "set_approval (new_approval q i now) v"
  have a: "ap_id ?a = i" "ap_status ?a = ''pending''" by (simp_all add: new_approval_def)
  have l: "log_ok as (dv_log v)" "bus_ok as (dv_bus v)" using v by (auto simp: view_ok_def dash_ok_def)
  have none: "current as i = None" using assms(3) last_record_dict [OF l(1), of i] by simp
  have r: "left_in (create_approval env q i now v) = ?v\<lparr>dv_log := dv_log v @ [dict_of ?a]\<rparr>"
    using assms(1,2) by (simp add: create_approval_def save_ok set_approval_def Let_def)
  have "dash_ok (as @ [?a]) (dv_log v @ [dict_of ?a]) (dv_bus v)"
    using v assms(2) none a by (intro dash_ok_append) (auto simp: view_ok_def continues_def)
  moreover have "mem_ok (as @ [?a]) (dv_mem ?v)"
    using v a by (auto simp: set_approval_def view_ok_def mem_ok_def current_append)
  ultimately have "view_ok (as @ [?a]) (?v\<lparr>dv_log := dv_log v @ [dict_of ?a]\<rparr>)" by (simp add: view_ok_def set_approval_def)
  moreover have "find (resolves i) (cb_commands (dv_bus v)) = None"
  proof (rule ccontr)
    assume "find (resolves i) (cb_commands (dv_bus v)) \<noteq> None"
    then obtain c where c: "c \<in> set (cb_commands (dv_bus v))" "resolves i c" by (auto dest: find_SomeD)
    then have r: "is_resolve c" by (simp add: resolves_def)
    obtain j b where "resolves j c" "current as j = Some b" by (rule decision_commandD [OF bus_okD(2) [OF l(2) c(1) r] r])
    then show False using c(2) none by (simp add: resolves_def)
  qed
  then have "board_step (gate_of (dv_log v) (dv_bus v)) (gate_of (dv_log v @ [dict_of ?a]) (dv_bus v))"
    using raise_gate [of "gate_of (dv_log v) (dv_bus v)" i] none
    by (simp add: board_update [OF l(1) assms(2)] a gate_of_ok [OF l(1)])
  ultimately show "\<exists>new. view_ok (as @ new) (left_in (create_approval env q i now v)) \<and>
      board_step\<^sup>*\<^sup>* (gate_of (dv_log v) (dv_bus v)) (gate_of (dv_log (left_in (create_approval env q i now v))) (dv_bus (left_in (create_approval env q i now v))))"
    unfolding r by (intro exI [where x = "[?a]"]) (simp add: set_approval_def)
qed

lemma annotated_ok:
  assumes "approval_ok a" and "now > 0"
  shows "approval_ok (annotated env owner note actor now a)"
proof -
  have "clean_gate_owner (de_render env) owner \<in> set GATE_OWNERS" by (simp add: clean_gate_owner_def Let_def GATE_OWNERS_def)
  moreover have "length (clean_owner_note (de_render env) note) \<le> OWNER_NOTE_MAX_CHARS"
    unfolding clean_owner_note_def using length_filter_le [of _ "take OWNER_NOTE_MAX_CHARS (py_str (de_render env) note)"] by (auto intro: order_trans)
  moreover have "nul \<notin> set (clean_owner_note (de_render env) note)" by (auto simp: clean_owner_note_def)
  moreover have "approval_round (annotated env owner note actor now a) = approval_round a" by (simp add: approval_round_def annotated_def)
  ultimately show ?thesis using assms by (auto simp: approval_ok_def annotated_def has_round_def)
qed

lemma annotated_fields:
  "ap_id (annotated env owner note actor now a) = ap_id a" "ap_status (annotated env owner note actor now a) = ap_status a"
  "ap_options (annotated env owner note actor now a) = ap_options a" "ap_allow_input (annotated env owner note actor now a) = ap_allow_input a"
  "ap_allow_extra (annotated env owner note actor now a) = ap_allow_extra a" "ap_action (annotated env owner note actor now a) = ap_action a"
  "ap_reason (annotated env owner note actor now a) = ap_reason a" "ap_user_input (annotated env owner note actor now a) = ap_user_input a"
  "ap_extra (annotated env owner note actor now a) = ap_extra a"
  by (simp_all add: annotated_def)

lemma evolves_annotate:
  assumes "de_writable env" and "now > 0"
  shows "evolves v (left_in (annotate_gate env i owner note actor now v))"
proof (rule evolvesI)
  fix as assume v: "view_ok as v"
  let ?r = "left_in (annotate_gate env i owner note actor now v)"
  have l: "log_ok as (dv_log v)" using v by (simp add: view_ok_def dash_ok_def)
  show "\<exists>new. view_ok (as @ new) ?r \<and> board_step\<^sup>*\<^sup>* (gate_of (dv_log v) (dv_bus v)) (gate_of (dv_log ?r) (dv_bus ?r))"
  proof (cases "current as i")
    case None
    then have "?r = v" using seen_mem [OF v, of i]
      by (auto simp: annotate_gate_def refresh_ok [OF v] annotate_write_def seen_def)
    then show ?thesis using v by (intro exI [where x = "[]"]) simp
  next
    case (Some a)
    let ?a = "annotated env owner note actor now a"
    have a: "approval_ok a" "ap_id a = i" using current_ok [OF l Some] by auto
    have ok: "approval_ok ?a" using annotated_ok [OF a(1) assms(2)] by simp
    have i: "i \<noteq> []" using a by (auto simp: approval_ok_def)
    have r: "?r = (seen i as v)\<lparr>dv_mem := aupd i ?a (dv_mem (seen i as v)), dv_log := dv_log v @ [dict_of ?a]\<rparr>"
      using seen_mem [OF v, of i] Some i
      by (simp add: annotate_gate_def refresh_ok [OF v] annotate_write_def save_ok [OF assms(1) ok] Let_def)
    have c: "continues as ?a" using Some a by (simp add: continues_def annotated_fields)
    have "dash_ok (as @ [?a]) (dv_log v @ [dict_of ?a]) (dv_bus v)" using v ok c by (intro dash_ok_append) (auto simp: view_ok_def)
    moreover have "mem_ok (as @ [?a]) (dv_mem ?r)"
      using seen_ok [OF v, of i] a by (auto simp: r view_ok_def mem_ok_def current_append annotated_fields)
    moreover have "gate_of (dv_log v @ [dict_of ?a]) (dv_bus v) = gate_of (dv_log v) (dv_bus v)"
      using Some a by (auto simp: board_update [OF l ok] gate_of_ok [OF l] annotated_fields fun_eq_iff)
    ultimately show ?thesis by (intro exI [where x = "[?a]"]) (simp add: r view_ok_def)
  qed
qed

definition decision_args_of :: "string \<Rightarrow> decision_args \<Rightarrow> string \<Rightarrow> time \<Rightarrow> append_args" where
  "decision_args_of i d fresh now =
     \<lparr>aa_kind = ''resolve_approval'',
      aa_payload = decision_payload i (py_strip (da_action d)) (py_strip (da_reason d)) (py_strip (da_input d))
        (normalise_extra_rounds (da_extra d)) @ [(''idempotency_key'', PStr (da_key d))],
      aa_created_by = ''operator'', aa_expected = da_expected d, aa_command_id = resolve_command_id i, aa_fresh = fresh, aa_now = now\<rparr>"

definition decided_by :: "decision_args \<Rightarrow> decision" where
  "decided_by d = (py_strip (da_action d), py_strip (da_reason d), py_strip (da_input d), normalise_extra_rounds (da_extra d))"

definition valid_for :: "approval \<Rightarrow> decision_args \<Rightarrow> bool" where
  "valid_for a d = response_valid a (py_strip (da_action d)) (py_strip (da_input d)) (normalise_extra_rounds (da_extra d))"

text \<open>A first decision on an open gate is put on the bus and accepted.\<close>

lemma decision_appended:
  assumes "log_ok as lg" and "bus_ok as b" and "current as i = Some a" and "ap_status a \<noteq> ''resolved''" and "valid_for a d"
    and "find (resolves i) (cb_commands b) = None" and "bus_append bytes b (decision_args_of i d fresh now) = Inr ((c, False), b')"
  shows "bus_ok as b'" and "gate_of lg b' = (gate_of lg b)(i \<mapsto> Accepted (decided_by d))" and "gate_of lg b i = Some Open"
    and "payload_of c = aa_payload (decision_args_of i d fresh now)"
proof -
  have n: "b' = b\<lparr>cb_commands := cb_commands b @ [c]\<rparr>"
    "c = new_command b (decision_args_of i d fresh now) (resolve_command_id i) @ [(''revision'', PInt (current_revision b + 1))]"
    "\<And>c'. c' \<in> set (cb_commands b) \<Longrightarrow> dget c' ''command_id'' \<noteq> PStr (resolve_command_id i)"
    using bus_append_new [OF assms(7)] by (auto simp: decision_args_of_def resolve_command_id_strip)
  have c: "dget c ''command_id'' = PStr (resolve_command_id i)" "is_resolve c" "dget c ''payload'' = PDict (aa_payload (decision_args_of i d fresh now))"
    by (simp_all add: n(2) new_command_fields is_resolve_def decision_args_of_def)
  then show p: "payload_of c = aa_payload (decision_args_of i d fresh now)" by (simp add: payload_of_def)
  have "decision_command as c"
    unfolding decision_command_def using c(1,3) assms(3,5) normalise_extra_bounds [of "da_extra d"]
    by (fastforce simp: decision_args_of_def valid_for_def)
  then show "bus_ok as b'" unfolding n(1) using n(3) by (intro bus_ok_command [OF assms(2) c(1)]) auto
  have rs: "resolves j c \<longleftrightarrow> j = i" for j using c(2) p by (auto simp: resolves_def decision_args_of_def decision_payload_def)
  have "decision_in (payload_of c) = decided_by d"
    using decision_payload_fields(2) [of "normalise_extra_rounds (da_extra d)"] normalise_extra_bounds
    by (simp add: p decision_args_of_def decided_by_def)
  then show "gate_of lg b' = (gate_of lg b)(i \<mapsto> Accepted (decided_by d))"
    using assms(3,4,6) rs by (auto simp: gate_of_ok [OF assms(1)] n(1) find_snoc fun_eq_iff split: option.splits)
  show "gate_of lg b i = Some Open" using assms(3,4,6) by (simp add: gate_of_ok [OF assms(1)])
qed

text \<open>What \<open>resolve_approval\<close> does, with the invariant.\<close>

lemma resolve_eval:
  assumes "view_ok as v"
  shows "resolve_approval env i d fresh now v =
     (if \<not> dv_control v then Inr (False, v)
      else case current as i of
        None \<Rightarrow> Inr (False, seen i as v)
      | Some a \<Rightarrow>
          if ap_status a = ''resolved'' \<or> \<not> valid_for a d then Inr (False, seen i as v)
          else let p = butlast (aa_payload (decision_args_of i d fresh now)) in
            case find (resolves i) (cb_commands (dv_bus v)) of
              Some c \<Rightarrow> Inr (same_decision env (payload_of c) p (da_key d), seen i as v)
            | None \<Rightarrow> (case bus_append (de_bytes env) (dv_bus v) (decision_args_of i d fresh now) of
                Inl x \<Rightarrow> Inl (DashBus x, seen i as v)
              | Inr ((c, _), b') \<Rightarrow> Inr (same_decision env (payload_of c) p (da_key d), (seen i as v)\<lparr>dv_bus := b'\<rparr>)))"
  using seen_mem [OF assms, of i] assms
  by (simp add: resolve_approval_def refresh_ok [OF assms] find_decision_ok [of as] view_ok_def dash_ok_def valid_for_def
      decision_args_of_def on_bus_def Let_def split: option.split sum.split)

lemma evolves_resolve:
  "evolves v (left_in (resolve_approval env i d fresh now v))"
proof (rule evolvesI)
  fix as assume v: "view_ok as v"
  let ?r = "left_in (resolve_approval env i d fresh now v)" and ?v = "seen i as v"
  have l: "log_ok as (dv_log v)" and b: "bus_ok as (dv_bus v)" using v by (auto simp: view_ok_def dash_ok_def)
  show "\<exists>new. view_ok (as @ new) ?r \<and> board_step\<^sup>*\<^sup>* (gate_of (dv_log v) (dv_bus v)) (gate_of (dv_log ?r) (dv_bus ?r))"
  proof (cases "?r \<in> {v, ?v}")
    case True
    then show ?thesis using v seen_ok [OF v, of i] by (intro exI [where x = "[]"]) auto
  next
    case False
    obtain a c b' where a: "current as i = Some a" "ap_status a \<noteq> ''resolved''" "valid_for a d" "find (resolves i) (cb_commands (dv_bus v)) = None"
      "bus_append (de_bytes env) (dv_bus v) (decision_args_of i d fresh now) = Inr ((c, False), b')" and r: "?r = ?v\<lparr>dv_bus := b'\<rparr>"
      using False bus_append_new [of "de_bytes env" "dv_bus v" "decision_args_of i d fresh now"]
      unfolding resolve_eval [OF v] by (auto simp: Let_def split: if_splits option.splits sum.splits)
    note n = decision_appended [OF l b a]
    have "view_ok as ?r" using seen_ok [OF v, of i] n(1) by (simp add: r view_ok_def dash_ok_def)
    moreover have "board_step (gate_of (dv_log v) (dv_bus v)) (gate_of (dv_log v) b')"
      unfolding n(2) by (rule accept_decision [where b = "gate_of (dv_log v) (dv_bus v)", OF n(3)])
    ultimately show ?thesis by (intro exI [where x = "[]"]) (simp add: r)
  qed
qed

subsection \<open>Applying a decision\<close>

lemma decided_ok:
  assumes "approval_ok a" and "now > 0" and "0 \<le> extra" and "extra \<le> MAX_ROUNDS"
  shows "approval_ok (decided a action reason input extra now)"
  using assms by (auto simp: approval_ok_def decided_def has_round_def approval_round_def)

lemma decided_fields:
  "ap_id (decided a action reason input extra now) = ap_id a" "ap_status (decided a action reason input extra now) = ''resolved''"
  "ap_options (decided a action reason input extra now) = ap_options a" "ap_allow_input (decided a action reason input extra now) = ap_allow_input a"
  "ap_allow_extra (decided a action reason input extra now) = ap_allow_extra a"
  "ap_action (decided a action reason input extra now) = action" "ap_reason (decided a action reason input extra now) = reason"
  "ap_user_input (decided a action reason input extra now) = input" "ap_extra (decided a action reason input extra now) = extra"
  by (simp_all add: decided_def)

text \<open>The state after the record is written and a stop is marked.\<close>

definition stop_marked :: "dash_env \<Rightarrow> time \<Rightarrow> string \<Rightarrow> dash_view \<Rightarrow> dash_view" where
  "stop_marked env now action v =
     (if action = ''stop'' then v\<lparr>dv_bus := kept (dv_bus v) (update_status (dv_bus v) (mark_operator_stop env now))\<rparr> else v)"

lemma stop_marked_shared:
  "dv_log (stop_marked env now action v) = dv_log v" "dv_mem (stop_marked env now action v) = dv_mem v"
  "cb_commands (dv_bus (stop_marked env now action v)) = cb_commands (dv_bus v)" "cb_receipts (dv_bus (stop_marked env now action v)) = cb_receipts (dv_bus v)"
  using update_status_kept [of "dv_bus v" "mark_operator_stop env now"] by (simp_all add: stop_marked_def)

lemma mark_stop_runs:
  "(if action = ''stop'' then sbind (on_bus (update_status (dv_bus v) (mark_operator_stop env now)) v) (\<lambda>_ s. Inr ((), s)) else Inr ((), v)) =
     (Inr ((), stop_marked env now action v) :: unit dash_result)"
  by (simp add: stop_marked_def update_status_def mark_operator_stop_def Let_def on_bus_def)

definition applied_view :: "dash_env \<Rightarrow> time \<Rightarrow> approval list \<Rightarrow> approval \<Rightarrow> dash_view \<Rightarrow> dash_view" where
  "applied_view env now as a' v = stop_marked env now (ap_action a')
     ((seen (ap_id a') as v)\<lparr>dv_mem := aupd (ap_id a') a' (dv_mem (seen (ap_id a') as v)), dv_log := dv_log v @ [dict_of a']\<rparr>)"

lemma apply_eval:
  assumes "view_ok as v" and "c \<in> set (cb_commands (dv_bus v))" and "is_resolve c" and "de_writable env" and "now > 0"
  obtains i a where "resolves i c" "current as i = Some a" "ap_status a = ''resolved''" "apply_resolution env now c v = Inr ((), seen i as v)"
  | i a a' where "resolves i c" "current as i = Some a" "ap_status a \<noteq> ''resolved''" "approval_ok a'" "ap_id a' = i" "continues as a'"
      "ap_status a' = ''resolved''" "decision_in (payload_of c) = (ap_action a', ap_reason a', ap_user_input a', ap_extra a')"
      "apply_resolution env now c v = sbind (on_bus (bus_receipt (de_render env) (de_bytes env) (dv_bus (applied_view env now as a' v)) c ''applied'' []
          [(''approval_id'', PStr i)] now) (applied_view env now as a' v)) (\<lambda>_ s. Inr ((), s))"
proof -
  have b: "bus_ok as (dv_bus v)" and l: "log_ok as (dv_log v)" using assms(1) by (auto simp: view_ok_def dash_ok_def)
  obtain i action reason input extra a where d: "resolves i c" "current as i = Some a" "response_valid a action input extra"
    "decision_in (payload_of c) = (action, reason, input, extra)" "command_text env (payload_of c) ''action'' = action"
    "command_text env (payload_of c) ''reason'' = reason" "command_text env (payload_of c) ''user_input'' = input"
    "normalise_extra_rounds (dget (payload_of c) ''extra_rounds'') = extra"
    "py_str (de_render env) (dget_or (payload_of c) ''approval_id'' (PStr [])) = i" "0 \<le> extra" "extra \<le> MAX_ROUNDS"
    by (rule decision_commandD [OF bus_okD(2) [OF b assms(2,3)] assms(3), of env])
  have ok: "approval_ok a" "ap_id a = i" using current_ok [OF l d(2)] by auto
  show ?thesis
  proof (cases "ap_status a = ''resolved''")
    case True
    then have "apply_resolution env now c v = Inr ((), seen i as v)"
      using d seen_mem [OF assms(1), of i] assms(3) by (simp add: apply_resolution_def refresh_ok [OF assms(1)] Let_def)
    then show ?thesis using that(1) d True by blast
  next
    case False
    let ?a = "decided a action reason input extra now"
    have a: "approval_ok ?a" using decided_ok [OF ok(1) assms(5) d(10,11)] .
    have "apply_resolution env now c v = sbind (on_bus (bus_receipt (de_render env) (de_bytes env) (dv_bus (applied_view env now as ?a v)) c ''applied'' []
          [(''approval_id'', PStr i)] now) (applied_view env now as ?a v)) (\<lambda>_ s. Inr ((), s))"
      using d(3,5-9) seen_mem [OF assms(1), of i] assms(3) False d(2) ok(2)
      by (simp add: apply_resolution_def refresh_ok [OF assms(1)] save_ok [OF assms(4) a] mark_stop_runs applied_view_def decided_fields Let_def)
    moreover have "continues as ?a" using d(2) ok(2) by (simp add: continues_def decided_fields)
    ultimately show ?thesis using that(2) [of i a ?a] d(1,2,4) False a ok(2) by (simp add: decided_fields)
  qed
qed

lemma applied_view_ok:
  assumes "view_ok as v" and "current as (ap_id a') = Some a" and "approval_ok a'" and "continues as a'" and "ap_status a' = ''resolved''"
  shows "view_ok (as @ [a']) (applied_view env now as a' v)" and "dv_log (applied_view env now as a' v) = dv_log v @ [dict_of a']"
    and "cb_commands (dv_bus (applied_view env now as a' v)) = cb_commands (dv_bus v)"
    and "dv_mem (applied_view env now as a' v) = aupd (ap_id a') a' (dv_mem (seen (ap_id a') as v))"
proof -
  let ?w = "applied_view env now as a' v"
  show f: "dv_log ?w = dv_log v @ [dict_of a']" "cb_commands (dv_bus ?w) = cb_commands (dv_bus v)"
    "dv_mem ?w = aupd (ap_id a') a' (dv_mem (seen (ap_id a') as v))"
    by (simp_all add: applied_view_def stop_marked_shared)
  have "cb_receipts (dv_bus ?w) = cb_receipts (dv_bus v)" by (simp add: applied_view_def stop_marked_shared)
  then have "bus_ok (as @ [a']) (dv_bus ?w) = bus_ok (as @ [a']) (dv_bus v)" using f(2) by (rule bus_ok_status [rotated])
  moreover have "dash_ok (as @ [a']) (dv_log v @ [dict_of a']) (dv_bus v)"
    using assms by (intro dash_ok_append) (auto simp: view_ok_def)
  moreover have "mem_ok (as @ [a']) (dv_mem ?w)"
    using seen_ok [OF assms(1), of "ap_id a'"] by (auto simp: f view_ok_def mem_ok_def current_append)
  ultimately show "view_ok (as @ [a']) ?w" by (simp add: view_ok_def dash_ok_def f)
qed

lemma applied_receipted:
  fixes env :: dash_env and now t :: time and st m :: string and res :: pydict
  assumes "view_ok as v" and "c \<in> set (cb_commands (dv_bus v))" and "current as (ap_id a') = Some a" and "approval_ok a'" and "continues as a'"
    and "ap_status a' = ''resolved''" and "resolves (ap_id a') c"
  defines "w \<equiv> applied_view env now as a' v"
  defines "b' \<equiv> kept (dv_bus w) (bus_receipt (de_render env) (de_bytes env) (dv_bus w) c st m res t)"
  shows "view_ok (as @ [a']) (w\<lparr>dv_bus := b'\<rparr>)" "cb_commands b' = cb_commands (dv_bus v)"
proof -
  have w: "view_ok (as @ [a']) w" "cb_commands (dv_bus w) = cb_commands (dv_bus v)"
    unfolding w_def using applied_view_ok [OF assms(1,3-6)] by auto
  have "closed_in (as @ [a']) j" if "resolves j c" for j
    using that assms(6,7) by (simp add: closed_in_def current_append resolves_def)
  then have "bus_ok (as @ [a']) b'" unfolding b'_def using w assms(2) by (intro bus_ok_receipt) (auto simp: view_ok_def dash_ok_def)
  then show "view_ok (as @ [a']) (w\<lparr>dv_bus := b'\<rparr>)" using w by (simp add: view_ok_def dash_ok_def)
  show "cb_commands b' = cb_commands (dv_bus v)" unfolding b'_def using w(2) by (simp add: kept_receipt_commands)
qed

lemma applied_board:
  assumes "view_ok as v" and "c \<in> set (cb_commands (dv_bus v))" and "resolves (ap_id a') c" and "current as (ap_id a') = Some a"
    and "ap_status a \<noteq> ''resolved''" and "approval_ok a'" and "ap_status a' = ''resolved''"
    and "decision_in (payload_of c) = (ap_action a', ap_reason a', ap_user_input a', ap_extra a')"
  shows "board_step (gate_of (dv_log v) (dv_bus v)) (gate_of (dv_log v @ [dict_of a']) (dv_bus v))"
proof -
  have l: "log_ok as (dv_log v)" "bus_ok as (dv_bus v)" using assms(1) by (auto simp: view_ok_def dash_ok_def)
  have "find (resolves (ap_id a')) (cb_commands (dv_bus v)) = Some c" by (rule resolves_found [OF l(2) assms(2,3)])
  then have g: "gate_of (dv_log v) (dv_bus v) (ap_id a') = Some (Accepted (decision_in (payload_of c)))"
    using assms(4,5) by (simp add: gate_of_ok [OF l(1)])
  show ?thesis
    using apply_decision [where b = "gate_of (dv_log v) (dv_bus v)", OF g] assms(7,8) by (simp add: board_update [OF l(1) assms(6)])
qed

lemma apply_leads:
  assumes "view_ok as v" and "c \<in> set (cb_commands (dv_bus v))" and "de_writable env" and "now > 0"
  shows "\<exists>new. view_ok (as @ new) (left_in (apply_resolution env now c v)) \<and>
     board_step\<^sup>*\<^sup>* (gate_of (dv_log v) (dv_bus v)) (gate_of (dv_log (left_in (apply_resolution env now c v))) (dv_bus (left_in (apply_resolution env now c v)))) \<and>
     cb_commands (dv_bus (left_in (apply_resolution env now c v))) = cb_commands (dv_bus v)"
proof (cases "is_resolve c")
  case False
  then show ?thesis using assms(1) by (intro exI [where x = "[]"]) (simp add: apply_resolution_def)
next
  case True
  show ?thesis
  proof (rule apply_eval [OF assms(1,2) True assms(3,4)])
    fix i a assume "apply_resolution env now c v = Inr ((), seen i as v)"
    then show ?thesis using seen_ok [OF assms(1), of i] by (intro exI [where x = "[]"]) simp
  next
    fix i a a' assume a: "resolves i c" "current as i = Some a" "ap_status a \<noteq> ''resolved''" "approval_ok a'" "ap_id a' = i" "continues as a'"
      "ap_status a' = ''resolved''" "decision_in (payload_of c) = (ap_action a', ap_reason a', ap_user_input a', ap_extra a')"
      and r: "apply_resolution env now c v = sbind (on_bus (bus_receipt (de_render env) (de_bytes env) (dv_bus (applied_view env now as a' v)) c ''applied'' []
          [(''approval_id'', PStr i)] now) (applied_view env now as a' v)) (\<lambda>_ s. Inr ((), s))"
    let ?w = "applied_view env now as a' v"
    let ?b = "kept (dv_bus ?w) (bus_receipt (de_render env) (de_bytes env) (dv_bus ?w) c ''applied'' [] [(''approval_id'', PStr i)] now)"
    have w: "view_ok (as @ [a']) (?w\<lparr>dv_bus := ?b\<rparr>)" "cb_commands ?b = cb_commands (dv_bus v)" "dv_log ?w = dv_log v @ [dict_of a']"
      using applied_receipted [OF assms(1,2), of a' a] applied_view_ok(2) [OF assms(1), of a' a env now] a by auto
    have l: "left_in (apply_resolution env now c v) = ?w\<lparr>dv_bus := ?b\<rparr>"
      unfolding r by (auto simp: on_bus_def split: sum.splits)
    have "board_step (gate_of (dv_log v) (dv_bus v)) (gate_of (dv_log v @ [dict_of a']) ?b)"
      using applied_board [OF assms(1,2), of a' a] a gate_of_commands [OF w(2)] by simp
    then show ?thesis unfolding l using w by (intro exI [where x = "[a']"]) simp
  qed
qed

lemma apply_all_leads:
  assumes "view_ok as v" and "set cs \<subseteq> set (cb_commands (dv_bus v))" and "de_writable env" and "now > 0"
  shows "\<exists>new. view_ok (as @ new) (left_in (apply_resolutions env now cs v)) \<and>
     board_step\<^sup>*\<^sup>* (gate_of (dv_log v) (dv_bus v)) (gate_of (dv_log (left_in (apply_resolutions env now cs v))) (dv_bus (left_in (apply_resolutions env now cs v))))"
  using assms(1,2)
proof (induction cs arbitrary: as v)
  case Nil
  then show ?case by (intro exI [where x = "[]"]) simp
next
  case (Cons c cs)
  obtain new where n: "view_ok (as @ new) (left_in (apply_resolution env now c v))"
    "board_step\<^sup>*\<^sup>* (gate_of (dv_log v) (dv_bus v)) (gate_of (dv_log (left_in (apply_resolution env now c v))) (dv_bus (left_in (apply_resolution env now c v))))"
    "cb_commands (dv_bus (left_in (apply_resolution env now c v))) = cb_commands (dv_bus v)"
    using apply_leads [OF Cons.prems(1) _ assms(3,4), of c] Cons.prems(2) by auto
  show ?case
  proof (cases "apply_resolution env now c v")
    case (Inl x)
    then show ?thesis using n by (cases x) auto
  next
    case (Inr x)
    then obtain v1 where r: "apply_resolution env now c v = Inr ((), v1)" by (cases x) auto
    then have v1: "view_ok (as @ new) v1" "set cs \<subseteq> set (cb_commands (dv_bus v1))" using n Cons.prems(2) by auto
    obtain new2 where "view_ok ((as @ new) @ new2) (left_in (apply_resolutions env now cs v1))"
      "board_step\<^sup>*\<^sup>* (gate_of (dv_log v1) (dv_bus v1)) (gate_of (dv_log (left_in (apply_resolutions env now cs v1))) (dv_bus (left_in (apply_resolutions env now cs v1))))"
      using Cons.IH [OF v1] by blast
    then show ?thesis using n(2) r by (intro exI [where x = "new @ new2"]) (auto intro: rtranclp_trans)
  qed
qed

lemma pending_commands: "set (bus_pending render b) \<subseteq> set (cb_commands b)"
  by (auto simp: bus_pending_def)

lemma evolves_get:
  assumes "de_writable env" and "now > 0"
  shows "evolves v (left_in (get_approval env i now v))"
proof (rule evolvesI)
  fix as assume v: "view_ok as v"
  let ?p = "bus_pending (de_render env) (dv_bus v)"
  have "left_in (get_approval env i now v) = left_in (apply_resolutions env now ?p (seen i as v))"
    by (cases "apply_resolutions env now ?p (seen i as v)") (auto simp: get_approval_def refresh_ok [OF v])
  then show "\<exists>new. view_ok (as @ new) (left_in (get_approval env i now v)) \<and>
      board_step\<^sup>*\<^sup>* (gate_of (dv_log v) (dv_bus v)) (gate_of (dv_log (left_in (get_approval env i now v))) (dv_bus (left_in (get_approval env i now v))))"
    using apply_all_leads [OF seen_ok [OF v] _ assms, of ?p i] pending_commands [of "de_render env" "dv_bus v"] by simp
qed

lemma evolves_inject: "evolves v (left_in (add_injection env text key expected fresh now v))"
proof -
  let ?a = "\<lparr>aa_kind = ''inject_instruction'', aa_payload = [(''instructions'', PStr (py_strip text))], aa_created_by = ''operator'',
      aa_expected = expected, aa_command_id = key, aa_fresh = fresh, aa_now = now\<rparr>"
  have "left_in (sbind (on_bus r v) (\<lambda>_ s. Inr (True, s))) = left_in (on_bus r v)" for r :: "(bus_exn, (pydict \<times> bool) \<times> bus) result"
    by (auto simp: on_bus_def split: sum.splits)
  then show ?thesis using evolves_append [of ?a v "de_bytes env"] evolves_refl [of v] by (simp add: add_injection_def Let_def)
qed

lemma evolves_drain: "set cs \<subseteq> set (cb_commands (dv_bus v)) \<Longrightarrow> evolves v (left_in (drain_commands env now cs v))"
proof (induction cs arbitrary: v)
  case (Cons c cs)
  let ?r = "on_bus (bus_receipt (de_render env) (de_bytes env) (dv_bus v) c ''applied'' [] [(''instructions'', PStr (instruction_text env c))] now) v"
  show ?case
  proof (cases "is_inject c")
    case True
    then have e: "evolves v (left_in ?r)"
      using Cons.prems by (intro evolves_receipt) (auto simp: resolves_def is_resolve_def is_inject_def)
    show ?thesis
    proof (cases ?r)
      case (Inl x)
      then show ?thesis using e True by (cases x) (simp add: Let_def)
    next
      case (Inr x)
      then obtain y v1 where r: "?r = Inr (y, v1)" by (cases x) auto
      then have v1: "v1 = v\<lparr>dv_bus := kept (dv_bus v) (bus_receipt (de_render env) (de_bytes env) (dv_bus v) c ''applied'' [] [(''instructions'', PStr (instruction_text env c))] now)\<rparr>"
        using left_on_bus by (metis left_in_simps(2))
      have "evolves v1 (left_in (drain_commands env now cs v1))"
        using Cons.prems by (intro Cons.IH) (simp add: v1 kept_receipt_commands)
      moreover have "left_in (drain_commands env now (c # cs) v) = left_in (drain_commands env now cs v1)"
        using r True by (cases "drain_commands env now cs v1") (auto simp: Let_def)
      ultimately show ?thesis using e r evolves_trans by simp
    qed
  qed (use Cons in simp)
qed (simp add: evolves_refl)

lemma evolves_other:
  assumes "other_op (dv_bus v) x"
  shows "evolves v (v\<lparr>dv_bus := bus_exec (de_render env) (de_bytes env) (dv_bus v) x\<rparr>)"
proof (cases x)
  case (BAppend a)
  then show ?thesis using assms evolves_append [of a v "de_bytes env"] by (simp add: other_op_def left_on_bus)
next
  case (BReceipt c st m res now)
  then have "evolves v (left_in (on_bus (bus_receipt (de_render env) (de_bytes env) (dv_bus v) c st m res now) v))"
    using assms by (intro evolves_receipt) (auto simp: other_op_def resolves_def)
  then show ?thesis using BReceipt by (simp add: left_on_bus)
next
  case (BWriteStatus d)
  have "bus_ok as (write_status (dv_bus v) d) = bus_ok as (dv_bus v)" for as by (rule bus_ok_status) (simp_all add: write_status_def)
  moreover have "gate_of lg (write_status (dv_bus v) d) = gate_of lg (dv_bus v)" for lg by (rule gate_of_commands) (simp add: write_status_def)
  ultimately show ?thesis using BWriteStatus by (intro evolves_bus) (simp_all add: view_ok_def dash_ok_def)
next
  case (BUpdateStatus f)
  let ?b = "kept (dv_bus v) (update_status (dv_bus v) f)"
  have "bus_ok as ?b = bus_ok as (dv_bus v)" for as using update_status_kept [of "dv_bus v" f] by (intro bus_ok_status) auto
  moreover have "gate_of lg ?b = gate_of lg (dv_bus v)" for lg using update_status_kept [of "dv_bus v" f] by (intro gate_of_commands) auto
  ultimately show ?thesis using BUpdateStatus by (intro evolves_bus) (simp_all add: view_ok_def dash_ok_def)
qed

subsection \<open>The system\<close>

text \<open>What an operation of one process means for all of them.\<close>

lemma put_view_step:
  assumes "dash_inv s" and "evolves (view_of p s) v"
  shows "dash_inv (put_view p v s) \<and> board_step\<^sup>*\<^sup>* (board s) (board (put_view p v s))"
proof -
  obtain as where as: "dash_ok as (ds_log s) (ds_bus s)" "\<And>q. mem_ok as (ds_mem s q)" using assms(1) by (auto simp: dash_inv_def)
  then have "view_ok as (view_of p s)" by (simp add: view_ok_def view_of_def)
  then obtain new where n: "view_ok (as @ new) v" "board_step\<^sup>*\<^sup>* (gate_of (ds_log s) (ds_bus s)) (gate_of (dv_log v) (dv_bus v))"
    using assms(2) by (auto simp: evolves_def view_of_def)
  have "dash_inv (put_view p v s)"
    unfolding dash_inv_def using n(1) mem_ok_mono [OF as(2), where new = new]
    by (intro exI [where x = "as @ new"]) (simp add: put_view_def view_ok_def)
  then show ?thesis using n(2) by (simp add: board_def put_view_def)
qed

lemma request_okD: "request_ok s q i \<Longrightarrow> approval_ok (new_approval q i now)"
  by (auto simp: request_ok_def approval_ok_def new_approval_def has_round_def approval_round_def GATE_OWNERS_def MAX_ROUNDS_def)

lemma dash_exec_step:
  assumes "dash_inv s" and "de_writable env"
  shows "dash_inv (dash_exec env s x) \<and> board_step\<^sup>*\<^sup>* (board s) (board (dash_exec env s x))"
proof (cases x)
  case (DCreate p q i now)
  show ?thesis
  proof (cases "request_ok s q i")
    case True
    then have "evolves (view_of p s) (left_in (create_approval env q i now (view_of p s)))"
      using assms(2) by (intro evolves_create request_okD) (auto simp: request_ok_def view_of_def)
    then show ?thesis using put_view_step [OF assms(1)] DCreate True by simp
  qed (use DCreate assms in simp)
next
  case (DResolve p i d fresh now)
  then show ?thesis using put_view_step [OF assms(1) evolves_resolve] by simp
next
  case (DGet p i now)
  then show ?thesis using put_view_step [OF assms(1) evolves_get [OF assms(2)]] assms(1) by simp
next
  case (DAnnotate p i owner t actor now)
  then show ?thesis using put_view_step [OF assms(1) evolves_annotate [OF assms(2)]] assms(1) by simp
next
  case (DInject p t key expected fresh now)
  then show ?thesis using put_view_step [OF assms(1) evolves_inject] by simp
next
  case (DDrain p now)
  have "evolves (view_of p s) (left_in (drain_injections env now (view_of p s)))"
    unfolding drain_injections_def by (intro evolves_drain pending_commands)
  then show ?thesis using put_view_step [OF assms(1)] DDrain by simp
next
  case (DOther y)
  show ?thesis
  proof (cases "other_op (ds_bus s) y")
    case True
    then have "evolves (view_of 0 s) ((view_of 0 s)\<lparr>dv_bus := bus_exec (de_render env) (de_bytes env) (dv_bus (view_of 0 s)) y\<rparr>)"
      by (intro evolves_other) (simp add: view_of_def)
    moreover have "put_view 0 ((view_of 0 s)\<lparr>dv_bus := bus_exec (de_render env) (de_bytes env) (dv_bus (view_of 0 s)) y\<rparr>) s = dash_exec env s x"
      using DOther True by (simp add: put_view_def view_of_def)
    ultimately show ?thesis using put_view_step [OF assms(1)] by metis
  qed (use DOther assms in simp)
qed

definition fresh_sys :: "string \<Rightarrow> (nat \<Rightarrow> bool) \<Rightarrow> dash_sys" where
  "fresh_sys run control = \<lparr>ds_control = control, ds_mem = (\<lambda>_. []), ds_log = [], ds_bus = empty_bus run\<rparr>"

lemma fresh_sys_inv: "dash_inv (fresh_sys run control)"
  by (auto simp: dash_inv_def fresh_sys_def dash_ok_def log_ok_def bus_ok_def empty_bus_def mem_ok_def intro!: exI [where x = "[]"])

interpretation gates: status_machine "dash_exec env" "\<lambda>s. de_writable env \<and> dash_inv s" "\<lambda>i s. board s i" "\<lambda>_ _. False" gate_edge
  for env
proof
  show "de_writable env \<and> dash_inv s \<Longrightarrow> de_writable env \<and> dash_inv (dash_exec env s x)" for s x
    using dash_exec_step by blast
  show "\<exists>b. board (dash_exec env s x) k = Some b \<and> (a = b \<or> gate_edge a b)"
    if "de_writable env \<and> dash_inv s" and "board s k = Some a" for s x k a
    using that dash_exec_step board_steps_edge [of "board s" _ k a] by blast
qed

subsection \<open>An accepted decision gets through\<close>

lemma show_nat_value: "foldl (\<lambda>a c. a * 10 + (of_char c - 48)) 0 (show_nat n) = n"
proof (induction n rule: less_induct)
  case (less n)
  show ?case
  proof (cases "n < 10")
    case True
    then show ?thesis by (subst show_nat.simps) (simp add: of_char_of)
  next
    case False
    then have "foldl (\<lambda>a c. a * 10 + (of_char c - 48)) 0 (show_nat (n div 10)) = n div 10" by (intro less.IH) simp
    then show ?thesis using False by (subst show_nat.simps) (simp add: of_char_of)
  qed
qed

lemma show_int_inj: "0 < x \<Longrightarrow> 0 \<le> y \<Longrightarrow> show_int y = show_int x \<Longrightarrow> y = x"
  using show_nat_value [of "nat x"] show_nat_value [of "nat y"] by (simp add: show_int_def)

text \<open>The receipt of an applied decision fits into a record of the bus.\<close>

definition small_receipts :: "dash_env \<Rightarrow> bool" where
  "small_receipts env = (\<forall>b c i now. de_bytes env (new_receipt b c ''applied'' [] [(''approval_id'', PStr i)] now) \<le> MAX_CONTROL_RECORD_BYTES)"

lemma receipt_written:
  assumes "small_receipts env"
  shows "bus_receipt render (de_bytes env) b c ''applied'' [] [(''approval_id'', PStr i)] now \<in> range Inr"
  using assms
  by (auto simp: bus_receipt_def small_receipts_def append_jsonl_def rbind_def Let_def not_less split: option.splits sum.splits)

definition synced :: "string \<Rightarrow> approval list \<Rightarrow> dash_view \<Rightarrow> bool" where
  "synced i as v = (map_of (dv_mem v) i = current as i)"

lemma seen_synced: "view_ok as v \<Longrightarrow> j = i \<or> synced i as v \<Longrightarrow> synced i as (seen j as v)"
  using seen_mem [of as v i] by (auto simp: synced_def seen_def split: option.splits)

lemma apply_decides:
  assumes "view_ok as v" and "c \<in> set (cb_commands (dv_bus v))" and "de_writable env" and "now > 0" and "small_receipts env" and "synced i as v"
  shows "\<exists>new v'. apply_resolution env now c v = Inr ((), v') \<and> view_ok (as @ new) v' \<and> synced i (as @ new) v' \<and>
     cb_commands (dv_bus v') = cb_commands (dv_bus v) \<and> (closed_in as i \<or> resolves i c \<longrightarrow> closed_in (as @ new) i)"
proof (cases "is_resolve c")
  case False
  then show ?thesis using assms by (intro exI [where x = "[]"]) (simp add: apply_resolution_def resolves_def)
next
  case True
  show ?thesis
  proof (rule apply_eval [OF assms(1,2) True assms(3,4)])
    fix j a assume a: "resolves j c" "current as j = Some a" "ap_status a = ''resolved''" "apply_resolution env now c v = Inr ((), seen j as v)"
    have "closed_in as i" if "resolves i c" using that a by (simp add: closed_in_def resolves_def)
    then show ?thesis using a(4) seen_ok [OF assms(1), of j] seen_synced [OF assms(1)] assms(6)
      by (intro exI [where x = "[]"] exI [where x = "seen j as v"]) auto
  next
    fix j a a' assume a: "resolves j c" "current as j = Some a" "ap_status a \<noteq> ''resolved''" "approval_ok a'" "ap_id a' = j" "continues as a'"
      "ap_status a' = ''resolved''"
      and r: "apply_resolution env now c v = sbind (on_bus (bus_receipt (de_render env) (de_bytes env) (dv_bus (applied_view env now as a' v)) c ''applied'' []
          [(''approval_id'', PStr j)] now) (applied_view env now as a' v)) (\<lambda>_ s. Inr ((), s))"
    let ?w = "applied_view env now as a' v"
    obtain x b' where b: "bus_receipt (de_render env) (de_bytes env) (dv_bus ?w) c ''applied'' [] [(''approval_id'', PStr j)] now = Inr (x, b')"
      using receipt_written [OF assms(5), of "de_render env" "dv_bus ?w" c j now] by auto
    then have e: "apply_resolution env now c v = Inr ((), ?w\<lparr>dv_bus := b'\<rparr>)" unfolding r by (simp add: on_bus_def)
    have w: "dv_mem ?w = aupd j a' (dv_mem (seen j as v))" using applied_view_ok(4) [OF assms(1), of a' a env now] a by simp
    have "view_ok (as @ [a']) (?w\<lparr>dv_bus := b'\<rparr>)" "cb_commands b' = cb_commands (dv_bus v)"
      using applied_receipted [OF assms(1,2), of a' a env now "''applied''" "[]" "[(''approval_id'', PStr j)]" now] a b by auto
    moreover have "synced i (as @ [a']) (?w\<lparr>dv_bus := b'\<rparr>)"
      using seen_synced [OF assms(1), of j i] assms(6) a(5) by (auto simp: synced_def w current_append)
    moreover have "closed_in (as @ [a']) i" if "closed_in as i \<or> resolves i c"
      using that closed_in_append [OF _ a(6)] a(1,5,7) by (auto simp: closed_in_def current_append resolves_def)
    ultimately show ?thesis using e by (intro exI [where x = "[a']"] exI [where x = "?w\<lparr>dv_bus := b'\<rparr>"]) simp
  qed
qed

lemma apply_all_decides:
  assumes "view_ok as v" and "set cs \<subseteq> set (cb_commands (dv_bus v))" and "de_writable env" and "now > 0" and "small_receipts env" and "synced i as v"
  shows "\<exists>new v'. apply_resolutions env now cs v = Inr ((), v') \<and> view_ok (as @ new) v' \<and> synced i (as @ new) v' \<and>
     (closed_in as i \<or> (\<exists>c\<in>set cs. resolves i c) \<longrightarrow> closed_in (as @ new) i)"
  using assms(1,2,6)
proof (induction cs arbitrary: as v)
  case Nil
  then show ?case by (intro exI [where x = "[]"] exI [where x = v]) simp
next
  case (Cons c cs)
  obtain new v' where n: "apply_resolution env now c v = Inr ((), v')" "view_ok (as @ new) v'" "synced i (as @ new) v'"
    "cb_commands (dv_bus v') = cb_commands (dv_bus v)" "closed_in as i \<or> resolves i c \<longrightarrow> closed_in (as @ new) i"
    using apply_decides [OF Cons.prems(1) _ assms(3-5) Cons.prems(3), of c] Cons.prems(2) by auto
  obtain new2 v2 where "apply_resolutions env now cs v' = Inr ((), v2)" "view_ok ((as @ new) @ new2) v2" "synced i ((as @ new) @ new2) v2"
    "closed_in (as @ new) i \<or> (\<exists>c\<in>set cs. resolves i c) \<longrightarrow> closed_in ((as @ new) @ new2) i"
    using Cons.IH [OF n(2) _ n(3)] n(4) Cons.prems(2) by auto
  then show ?case using n(1,5) by (intro exI [where x = "new @ new2"] exI [where x = v2]) auto
qed

text \<open>A poll of the worker never raises and returns the gate as the log has it afterwards.\<close>

lemma get_runs:
  assumes "view_ok as v" and "de_writable env" and "now > 0" and "small_receipts env"
  shows "\<exists>new v'. get_approval env i now v = Inr (current (as @ new) i, v') \<and> view_ok (as @ new) v' \<and>
     (closed_in as i \<or> (\<exists>c\<in>set (bus_pending (de_render env) (dv_bus v)). resolves i c) \<longrightarrow> closed_in (as @ new) i)"
proof -
  obtain new v' where "apply_resolutions env now (bus_pending (de_render env) (dv_bus v)) (seen i as v) = Inr ((), v')" "view_ok (as @ new) v'"
    "synced i (as @ new) v'" "closed_in as i \<or> (\<exists>c\<in>set (bus_pending (de_render env) (dv_bus v)). resolves i c) \<longrightarrow> closed_in (as @ new) i"
    using apply_all_decides [OF seen_ok [OF assms(1)] _ assms(2-4) seen_synced [OF assms(1)], of "bus_pending (de_render env) (dv_bus v)" i i]
      pending_commands [of "de_render env" "dv_bus v"] by auto
  then show ?thesis
    by (intro exI [where x = new] exI [where x = v']) (simp add: get_approval_def refresh_ok [OF assms(1)] synced_def)
qed

text \<open>An accepted decision, first or repeated, is the one on the bus; only its extra rounds may be left out.\<close>

definition matches :: "decision \<Rightarrow> decision_args \<Rightarrow> bool" where
  "matches x d = (case x of (action, reason, input, extra) \<Rightarrow>
     action = py_strip (da_action d) \<and> reason = py_strip (da_reason d) \<and> input = py_strip (da_input d) \<and>
     (normalise_extra_rounds (da_extra d) \<noteq> 0 \<longrightarrow> extra = normalise_extra_rounds (da_extra d)))"

lemma same_decision_matches:
  assumes "decision_command as c" and "is_resolve c" and "resolves i c"
    and "same_decision env (payload_of c) (butlast (aa_payload (decision_args_of i d fresh now))) key"
  shows "matches (decision_in (payload_of c)) d"
proof -
  from assms(1) obtain j action reason input extra k a where p:
    "dget c ''payload'' = PDict (decision_payload j action reason input extra @ [(''idempotency_key'', PStr k)])" "0 \<le> extra" "extra \<le> MAX_ROUNDS"
    by (auto simp: decision_command_def)
  have "decision_in (payload_of c) = (action, reason, input, extra)"
    using decision_payload_fields(2) [OF p(2,3)] p(1) by (simp add: payload_of_def)
  moreover have "py_strip (da_action d) = action" "py_strip (da_reason d) = reason" "py_strip (da_input d) = input"
    using assms(4) p(1) by (auto simp: same_decision_def decision_args_of_def decision_payload_def payload_of_def butlast_append Let_def split: if_splits)
  moreover have "extra = normalise_extra_rounds (da_extra d)" if "normalise_extra_rounds (da_extra d) \<noteq> 0"
  proof -
    have "py_str (de_render env) (dget_or (payload_of c) ''extra_rounds'' (PStr [])) = show_int (normalise_extra_rounds (da_extra d))"
      using assms(4) that by (auto simp: same_decision_def decision_args_of_def decision_payload_def butlast_append Let_def)
    moreover have "payload_of c = decision_payload j action reason input extra @ [(''idempotency_key'', PStr k)]" using p(1) by (simp add: payload_of_def)
    moreover have "[] \<noteq> show_int x" for x by (simp add: show_int_def) (metis show_nat_not_Nil)
    ultimately have "show_int extra = show_int (normalise_extra_rounds (da_extra d))"
      by (cases "extra = 0") (auto simp: decision_payload_def)
    moreover have "0 < normalise_extra_rounds (da_extra d)" using that normalise_extra_bounds [of "da_extra d"] by simp
    ultimately show ?thesis using show_int_inj p(2) by blast
  qed
  ultimately show ?thesis by (simp add: matches_def)
qed

lemma accepted_on_board:
  assumes "view_ok as v" and "resolve_approval env i d fresh now v = Inr (True, v')"
  shows "\<exists>x. gate_of (dv_log v') (dv_bus v') i = Some (Accepted x) \<and> matches x d"
proof -
  have l: "log_ok as (dv_log v)" and b: "bus_ok as (dv_bus v)" using assms(1) by (auto simp: view_ok_def dash_ok_def)
  let ?A = "decision_args_of i d fresh now"
  from assms(2) obtain a where a: "current as i = Some a" "ap_status a \<noteq> ''resolved''" "valid_for a d"
    unfolding resolve_eval [OF assms(1)] by (auto simp: Let_def split: if_splits option.splits)
  show ?thesis
  proof (cases "find (resolves i) (cb_commands (dv_bus v))")
    case (Some c)
    then have c: "c \<in> set (cb_commands (dv_bus v))" "resolves i c" using find_SomeD by fast+
    then have r: "is_resolve c" by (simp add: resolves_def)
    have e: "same_decision env (payload_of c) (butlast (aa_payload ?A)) (da_key d)" "v' = seen i as v"
      using assms(2) a Some unfolding resolve_eval [OF assms(1)] by (auto simp: Let_def split: if_splits)
    then show ?thesis
      using same_decision_matches [OF bus_okD(2) [OF b c(1) r] r c(2) e(1)] a Some by (simp add: gate_of_ok [OF l])
  next
    case None
    then obtain c replay b' where ap: "bus_append (de_bytes env) (dv_bus v) ?A = Inr ((c, replay), b')" and v': "v' = (seen i as v)\<lparr>dv_bus := b'\<rparr>"
      using assms(2) a unfolding resolve_eval [OF assms(1)] by (auto simp: Let_def split: if_splits sum.splits)
    have "\<not> replay"
    proof
      assume replay
      then have c: "c \<in> set (cb_commands (dv_bus v))" "dget c ''command_id'' = PStr (resolve_command_id i)" "is_resolve c"
        using bus_append_new [OF ap] by (auto simp: decision_args_of_def resolve_command_id_strip py_eq_PStr is_resolve_def)
      obtain j where "resolves j c" "dget c ''command_id'' = PStr (resolve_command_id j)" by (rule decision_commandD [OF bus_okD(2) [OF b c(1,3)] c(3)])
      then show False using None c by (auto simp: resolve_command_id_inj find_None)
    qed
    then have "gate_of (dv_log v) b' i = Some (Accepted (decided_by d))" using decision_appended(2) [OF l b a None] ap by simp
    then show ?thesis by (simp add: v' matches_def decided_by_def)
  qed
qed

lemma get_decides:
  assumes "view_ok as v" and "de_writable env" and "now > 0" and "small_receipts env"
    and "gate_of (dv_log v) (dv_bus v) i \<in> {Some (Accepted x), Some (Closed x)}"
  shows "\<exists>a v'. get_approval env i now v = Inr (Some a, v') \<and> ap_status a = ''resolved'' \<and> (ap_action a, ap_reason a, ap_user_input a, ap_extra a) = x"
proof -
  let ?p = "bus_pending (de_render env) (dv_bus v)"
  have l: "log_ok as (dv_log v)" and b: "bus_ok as (dv_bus v)" using assms(1) by (auto simp: view_ok_def dash_ok_def)
  have "closed_in as i \<or> (\<exists>c\<in>set ?p. resolves i c)"
  proof (cases "closed_in as i")
    case False
    then obtain c where "find (resolves i) (cb_commands (dv_bus v)) = Some c"
      using assms(5) by (auto simp: gate_of_ok [OF l] closed_in_def split: option.splits if_splits)
    then have c: "c \<in> set (cb_commands (dv_bus v))" "resolves i c" using find_SomeD by fast+
    obtain k where k: "dget c ''command_id'' = PStr k" using bus_okD(1) [OF b c(1)] by blast
    have "py_str (de_render env) (dget r ''command_id'') \<noteq> k" if r: "r \<in> set (cb_receipts (dv_bus v))" for r
    proof
      assume "py_str (de_render env) (dget r ''command_id'') = k"
      moreover obtain c' where c': "c' \<in> set (cb_commands (dv_bus v))" "dget r ''command_id'' = dget c' ''command_id''" "\<forall>j. resolves j c' \<longrightarrow> closed_in as j"
        using b r by (auto simp: bus_ok_def)
      ultimately have "dget c' ''command_id'' = dget c ''command_id''" using bus_okD(1) [OF b c'(1)] k by auto
      then have "c' = c" using bus_okD(3) [OF b c(1) c'(1)] c(2) by (simp add: resolves_def)
      then show False using c'(3) c(2) False by blast
    qed
    then show ?thesis using c k by (force simp: bus_pending_def)
  qed simp
  then obtain new v' where n: "get_approval env i now v = Inr (current (as @ new) i, v')" "view_ok (as @ new) v'" "closed_in (as @ new) i"
    using get_runs [OF assms(1-4), of i] by blast
  then obtain a where a: "current (as @ new) i = Some a" "ap_status a = ''resolved''" and g: "get_approval env i now v = Inr (Some a, v')"
    by (auto simp: closed_in_def)
  have "gate_of (dv_log v') (dv_bus v') i = Some (Closed (ap_action a, ap_reason a, ap_user_input a, ap_extra a))"
    using n(2) a gate_of_ok [of "as @ new" "dv_log v'"] by (simp add: view_ok_def dash_ok_def)
  moreover obtain g' where "gate_of (dv_log v') (dv_bus v') i = Some g'" "g' \<in> {Accepted x, Closed x}"
    using evolves_get [OF assms(2,3), of v i] assms(1,5) g board_steps_edge [of "gate_of (dv_log v) (dv_bus v)" "gate_of (dv_log v') (dv_bus v')" i]
    unfolding evolves_def by fastforce
  ultimately show ?thesis using g a(2) by auto
qed

section \<open>Examples\<close>

definition demo_dash_env :: dash_env where
  "demo_dash_env = \<lparr>de_render = (\<lambda>_. ''x''), de_bytes = (\<lambda>_. 10), de_float = (\<lambda>_. None), de_writable = True\<rparr>"

definition demo_gate :: approval_request where
  "demo_gate = \<lparr>rq_title = ''Continue?'', rq_message = [], rq_options = [\<lparr>ao_value = ''continue'', ao_label = [], ao_style = []\<rparr>,
     \<lparr>ao_value = ''stop'', ao_label = [], ao_style = []\<rparr>], rq_answers = [], rq_allow_input = True, rq_input_label = [], rq_allow_extra = True,
     rq_context = [(''round_index'', PInt 3)]\<rparr>"

definition demo_decision :: "int \<Rightarrow> decision_args" where
  "demo_decision extra = \<lparr>da_action = ''continue'', da_reason = [], da_input = ''go on'', da_extra = PInt extra, da_key = [], da_expected = PNone\<rparr>"

definition demo_sys :: dash_sys where
  "demo_sys = run_ops (dash_exec demo_dash_env) (fresh_sys ''r1'' (\<lambda>_. True)) [DCreate 0 demo_gate ''g1'' 5]"

lemma demo_env_ok: "de_writable demo_dash_env" "small_receipts demo_dash_env"
  by (simp_all add: demo_dash_env_def small_receipts_def MAX_CONTROL_RECORD_BYTES_def)

lemma demo_sys_value:
  "demo_sys = \<lparr>ds_control = (\<lambda>_. True), ds_mem = (\<lambda>_. [])(0 := [(''g1'', new_approval demo_gate ''g1'' 5)]),
     ds_log = [dict_of (new_approval demo_gate ''g1'' 5)], ds_bus = empty_bus ''r1''\<rparr>"
proof -
  have r: "request_ok (fresh_sys ''r1'' (\<lambda>_. True)) demo_gate ''g1''"
    by (simp add: request_ok_def fresh_sys_def last_record_def has_round_def approval_round_def new_approval_def demo_gate_def)
  have i: "ap_id (new_approval demo_gate ''g1'' 5) = ''g1''" by (simp add: new_approval_def)
  show ?thesis
    using save_ok [OF demo_env_ok(1) request_okD [OF r]] r i
    by (simp add: demo_sys_def create_approval_def set_approval_def put_view_def view_of_def fresh_sys_def Let_def)
qed

lemma demo_view_ok: "view_ok [new_approval demo_gate ''g1'' 5] (view_of p demo_sys)"
proof -
  have "approval_ok (new_approval demo_gate ''g1'' 5)"
    by (simp add: approval_ok_def new_approval_def has_round_def approval_round_def demo_gate_def GATE_OWNERS_def MAX_ROUNDS_def)
  then show ?thesis
    by (auto simp: view_ok_def view_of_def demo_sys_value dash_ok_def log_ok_def bus_ok_def empty_bus_def mem_ok_def current_def new_approval_def split: if_splits)
qed

lemma demo_accepts:
  assumes "view_ok as v" and "current as ''g1'' = Some a" and "ap_status a \<noteq> ''resolved''" and "dv_control v"
    and "dv_bus v = empty_bus r" and "valid_for a (demo_decision e)"
  shows "\<exists>v'. resolve_approval demo_dash_env ''g1'' (demo_decision e) ''f'' 6 v = Inr (True, v')"
proof -
  let ?A = "decision_args_of ''g1'' (demo_decision e) ''f'' 6"
  have d: "py_strip ''continue'' = ''continue''" "py_strip [] = []" "py_strip ''go on'' = ''go on''"
    "py_strip ''approval:g1:resolve'' = ''approval:g1:resolve''" by code_simp+
  obtain c b' where b: "bus_append (de_bytes demo_dash_env) (empty_bus r) ?A = Inr ((c, False), b')"
    using d(4) by (auto simp: bus_append_def decision_args_of_def resolve_command_id_def demo_decision_def empty_bus_def demo_dash_env_def append_jsonl_def
        MAX_CONTROL_RECORD_BYTES_def nul_def Let_def)
  have "payload_of c = aa_payload ?A"
    using bus_append_new [OF b] by (simp add: payload_of_def new_command_fields)
  then have "same_decision demo_dash_env (payload_of c) (butlast (aa_payload ?A)) []"
    using d by (simp add: same_decision_def decision_args_of_def demo_decision_def decision_payload_def Let_def)
  then show ?thesis
    unfolding resolve_eval [OF assms(1)] using assms b by (auto simp: Let_def demo_decision_def empty_bus_def)
qed

lemma demo_accepted: "\<exists>v. resolve_approval demo_dash_env ''g1'' (demo_decision 4) ''f'' 6 (view_of 1 demo_sys) = Inr (True, v)"
proof (rule demo_accepts [OF demo_view_ok])
  let ?a = "new_approval demo_gate ''g1'' 5"
  show "current [?a] ''g1'' = Some ?a" "ap_status ?a \<noteq> ''resolved''" "dv_control (view_of 1 demo_sys)" "dv_bus (view_of 1 demo_sys) = empty_bus ''r1''"
    by (simp_all add: current_def new_approval_def view_of_def demo_sys_value)
  have "py_strip ''continue'' = ''continue''" "py_strip ''stop'' = ''stop''" by code_simp+
  then show "valid_for ?a (demo_decision 4)"
    by (simp add: valid_for_def demo_decision_def response_valid_def allowed_actions_def new_approval_def demo_gate_def)
qed

section \<open>Properties\<close>

text \<open>C10: the checkpoints refine the board. A run starts with no gate, and every operation of every process, in every
  reachable state, is a sequence of steps of the board: a gate is raised, a decision is accepted for an
  open gate, an accepted decision is applied.\<close>

theorem gate_board_refinement:
  assumes "de_writable env"
  shows "board (fresh_sys run control) = Map.empty \<and>
     (let s = run_ops (dash_exec env) (fresh_sys run control) ops in board_step\<^sup>*\<^sup>* (board s) (board (dash_exec env s x)))"
proof -
  have "board (fresh_sys run control) = Map.empty" by (simp add: board_def fresh_sys_def gate_of_def last_record_def fun_eq_iff)
  moreover have "dash_inv (run_ops (dash_exec env) (fresh_sys run control) ops)"
    using gates.run_inv [of env "fresh_sys run control" ops] fresh_sys_inv assms by blast
  ultimately show ?thesis using dash_exec_step [OF _ assms] by (simp add: Let_def)
qed

theorem gate_board_refinement_witness:
  "board_step\<^sup>*\<^sup>* (board demo_sys) (board (dash_exec demo_dash_env demo_sys (DGet 0 ''g1'' 7)))"
  using gate_board_refinement [OF demo_env_ok(1), of "''r1''" "\<lambda>_. True" "[DCreate 0 demo_gate ''g1'' 5]" "DGet 0 ''g1'' 7"]
  by (simp add: demo_sys_def Let_def)

text \<open>C12: one decision per gate. Once a decision is accepted, the gate never shows another one: after every
  history of operations of any processes it has that decision, accepted or applied, and once
  applied it stays applied.\<close>

theorem gate_decision_final:
  assumes "de_writable env" and "s = run_ops (dash_exec env) (fresh_sys run control) ops" and "board s i = Some g" and "g \<in> {Accepted x, Closed x}"
  shows "board (run_ops (dash_exec env) s later) i = Some (Closed x) \<or> (g = Accepted x \<and> board (run_ops (dash_exec env) s later) i = Some (Accepted x))"
proof -
  have inv: "de_writable env \<and> dash_inv s"
    using gates.run_inv [of env "fresh_sys run control" ops] fresh_sys_inv assms(1,2) by blast
  have "board (run_ops (dash_exec env) s later) i = Some (Closed x)" if "g = Closed x"
    by (rule gates.stuck_status_run [OF inv]) (use assms(3) that in \<open>simp_all add: list_all_iff\<close>)
  moreover have "\<exists>b. board (run_ops (dash_exec env) s later) i = Some b \<and> gate_edge\<^sup>*\<^sup>* g b"
    by (rule gates.status_run [OF inv]) (use assms(3) in \<open>simp_all add: list_all_iff\<close>)
  moreover have "b = Accepted x \<or> b = Closed x" if "gate_edge\<^sup>*\<^sup>* (Accepted x) b" for b
    using that by (induction rule: rtranclp_induct) auto
  ultimately show ?thesis using assms(4) by auto
qed

theorem gate_decision_final_witness:
  "\<exists>x. board (dash_exec demo_dash_env demo_sys (DResolve 1 ''g1'' (demo_decision 4) ''f'' 6)) ''g1'' = Some (Accepted x) \<and>
     board (run_ops (dash_exec demo_dash_env) (dash_exec demo_dash_env demo_sys (DResolve 1 ''g1'' (demo_decision 4) ''f'' 6))
       [DResolve 2 ''g1'' (demo_decision 9) ''h'' 7]) ''g1'' \<in> {Some (Closed x), Some (Accepted x)}"
proof -
  let ?s = "dash_exec demo_dash_env demo_sys (DResolve 1 ''g1'' (demo_decision 4) ''f'' 6)"
  obtain v where "resolve_approval demo_dash_env ''g1'' (demo_decision 4) ''f'' 6 (view_of 1 demo_sys) = Inr (True, v)" using demo_accepted by blast
  then obtain x where b: "board ?s ''g1'' = Some (Accepted x)"
    using accepted_on_board [OF demo_view_ok, of demo_dash_env "''g1''" "demo_decision 4" "''f''" 6 1 v] by (auto simp: board_def put_view_def)
  have s: "?s = run_ops (dash_exec demo_dash_env) (fresh_sys ''r1'' (\<lambda>_. True)) [DCreate 0 demo_gate ''g1'' 5, DResolve 1 ''g1'' (demo_decision 4) ''f'' 6]"
    by (simp only: demo_sys_def run_ops_Cons run_ops_Nil)
  show ?thesis
    using gate_decision_final [OF demo_env_ok(1) s b, of x "[DResolve 2 ''g1'' (demo_decision 9) ''h'' 7]"] b by blast
qed

text \<open>An accepted decision gets through. When a call to resolve a gate returns true, then after every history of
  operations the waiting worker's next poll returns the gate as resolved with the action, the
  reason and the input of that call, and with its extra rounds if it named any.\<close>

lemma accepted_decision_applied:
  assumes "de_writable env" and "small_receipts env" and "s = run_ops (dash_exec env) (fresh_sys run control) ops"
    and "resolve_approval env i d fresh t (view_of p s) = Inr (True, v)" and "now > 0"
  shows "\<exists>a v'. get_approval env i now (view_of q (run_ops (dash_exec env) (put_view p v s) later)) = Inr (Some a, v') \<and>
     ap_status a = ''resolved'' \<and> ap_action a = py_strip (da_action d) \<and> ap_reason a = py_strip (da_reason d) \<and>
     ap_user_input a = py_strip (da_input d) \<and> (normalise_extra_rounds (da_extra d) \<noteq> 0 \<longrightarrow> ap_extra a = normalise_extra_rounds (da_extra d))"
proof -
  have inv: "dash_inv s" using gates.run_inv [of env "fresh_sys run control" ops] fresh_sys_inv assms(1,3) by blast
  then obtain as where "view_ok as (view_of p s)" by (auto simp: dash_inv_def view_ok_def view_of_def)
  then obtain x where x: "gate_of (dv_log v) (dv_bus v) i = Some (Accepted x)" "matches x d"
    using accepted_on_board [OF _ assms(4)] by blast
  let ?s = "put_view p v s"
  have step: "?s = dash_exec env s (DResolve p i d fresh t)" using assms(4) by simp
  have b: "board ?s i = Some (Accepted x)" using x(1) by (simp add: board_def put_view_def)
  have inv2: "de_writable env \<and> dash_inv ?s" using dash_exec_step [OF inv assms(1)] assms(1) unfolding step by blast
  let ?s2 = "run_ops (dash_exec env) ?s later"
  have "\<exists>g. board ?s2 i = Some g \<and> gate_edge\<^sup>*\<^sup>* (Accepted x) g"
    by (rule gates.status_run [OF inv2]) (use b in \<open>simp_all add: list_all_iff\<close>)
  moreover have "g = Accepted x \<or> g = Closed x" if "gate_edge\<^sup>*\<^sup>* (Accepted x) g" for g
    using that by (induction rule: rtranclp_induct) auto
  ultimately have g: "gate_of (ds_log ?s2) (ds_bus ?s2) i \<in> {Some (Accepted x), Some (Closed x)}" by (auto simp: board_def)
  have "dash_inv ?s2" using gates.run_inv [of env ?s later] inv2 by blast
  then obtain as2 where "view_ok as2 (view_of q ?s2)" by (auto simp: dash_inv_def view_ok_def view_of_def)
  then obtain a v' where "get_approval env i now (view_of q ?s2) = Inr (Some a, v')" "ap_status a = ''resolved''"
    "(ap_action a, ap_reason a, ap_user_input a, ap_extra a) = x"
    using get_decides [OF _ assms(1,5,2), of as2 "view_of q ?s2" i x] g by (auto simp: view_of_def)
  then show ?thesis using x(2) by (auto simp: matches_def)
qed

lemma accepted_decision_applied_witness:
  "\<exists>v a v'. resolve_approval demo_dash_env ''g1'' (demo_decision 4) ''f'' 6 (view_of 1 demo_sys) = Inr (True, v) \<and>
     get_approval demo_dash_env ''g1'' 7 (view_of 0 (put_view 1 v demo_sys)) = Inr (Some a, v') \<and> ap_status a = ''resolved'' \<and> ap_extra a = 4"
proof -
  obtain v where v: "resolve_approval demo_dash_env ''g1'' (demo_decision 4) ''f'' 6 (view_of 1 demo_sys) = Inr (True, v)" using demo_accepted by blast
  have "normalise_extra_rounds (da_extra (demo_decision 4)) = 4" by (simp add: demo_decision_def normalise_extra_rounds_def MAX_ROUNDS_def)
  then show ?thesis
    using accepted_decision_applied [OF demo_env_ok demo_sys_def v, of 7 0 "[]"] v by auto
qed

text \<open>C37: a saved approval reads back. Whatever an approval the writers can make holds, reading its record gives it
  back exactly.\<close>

theorem approval_roundtrip:
  assumes "approval_ok a" and "approval_to_dict a = Inr r"
  shows "approval_from_record env now r = Inr (Some a)"
  using assms approval_read_back [OF assms(1)] approval_to_dict_ok [OF assms(1)] by simp

theorem approval_roundtrip_witness:
  "\<exists>r. approval_to_dict (new_approval demo_gate ''g1'' 5) = Inr r \<and>
     approval_from_record demo_dash_env 9 r = Inr (Some (new_approval demo_gate ''g1'' 5))"
proof -
  have "approval_ok (new_approval demo_gate ''g1'' 5)"
    by (simp add: approval_ok_def new_approval_def has_round_def approval_round_def demo_gate_def GATE_OWNERS_def MAX_ROUNDS_def)
  then show ?thesis using approval_roundtrip approval_to_dict_ok by blast
qed

section \<open>What the board does not promise\<close>

text \<open>
  A command id that an operator chooses for an instruction, which needs no right to decide gates,
  may be the id the decision of a gate would get: then no decision of that gate is accepted any more.
\<close>

lemma injection_blocks_gate:
  assumes "view_ok as v" and "c \<in> set (cb_commands (dv_bus v))" and "dget c ''command_id'' = PStr (resolve_command_id i)" and "\<not> is_resolve c"
  shows "resolve_approval env i d fresh now v \<noteq> Inr (True, v')"
proof
  assume "resolve_approval env i d fresh now v = Inr (True, v')"
  then obtain x where x: "gate_of (dv_log v') (dv_bus v') i = Some (Accepted x)" using accepted_on_board [OF assms(1)] by blast
  have e: "evolves v (left_in (resolve_approval env i d fresh now v))" by (rule evolves_resolve)
  have l: "log_ok as (dv_log v)" and b: "bus_ok as (dv_bus v)" using assms(1) by (auto simp: view_ok_def dash_ok_def)
  have uniq: "\<not> resolves i c'" if "c' \<in> set (cb_commands (dv_bus v))" for c'
    using bus_okD(3) [OF b that assms(2)] resolves_id [OF b that] assms(3,4) by (auto simp: resolves_def)
  then have none: "find (resolves i) (cb_commands (dv_bus v)) = None" by (simp add: find_None)
  obtain a c2 replay b' where ap: "bus_append (de_bytes env) (dv_bus v) (decision_args_of i d fresh now) = Inr ((c2, replay), b')"
    using \<open>resolve_approval env i d fresh now v = Inr (True, v')\<close> none unfolding resolve_eval [OF assms(1)]
    by (auto simp: Let_def split: if_splits option.splits sum.splits)
  then have "replay" using bus_append_new [OF ap] assms(2,3) by (auto simp: decision_args_of_def resolve_command_id_strip split: if_splits)
  then have "c2 \<in> set (cb_commands (dv_bus v))" "is_resolve c2" "dget c2 ''command_id'' = PStr (resolve_command_id i)"
    using bus_append_new [OF ap] by (auto simp: decision_args_of_def resolve_command_id_strip py_eq_PStr is_resolve_def)
  then show False using bus_okD(3) [OF b, of c2 c] assms(2-4) by auto
qed

text \<open>A retry without extra rounds counts as the same decision as one that names some.\<close>

lemma retry_without_extra:
  "same_decision env (decision_payload i ''continue'' [] [] 5 @ [(''idempotency_key'', PStr [])]) (decision_payload i ''continue'' [] [] 0) key"
  by (simp add: same_decision_def decision_payload_def)

text \<open>
  When the worker applies a decision between the reading and the writing half of an annotation, the
  annotation puts the gate back: it shows as undecided while its command has been used up.
\<close>

lemma stale_annotation_reopens:
  assumes "log_ok as (dv_log v)" and "gate_of (dv_log v) (dv_bus v) i = Some (Closed x)"
    and "map_of (dv_mem v) i = Some a" and "approval_ok a" and "ap_id a = i" and "ap_status a = ''pending''" and "de_writable env" and "now > 0"
  shows "gate_of (dv_log (left_in (annotate_write env i owner note actor now v))) (dv_bus (left_in (annotate_write env i owner note actor now v))) i
     \<in> {Some Open, Some (Accepted (decision_in (payload_of (the (find (resolves i) (cb_commands (dv_bus v)))))))}"
proof -
  let ?a = "annotated env owner note actor now a"
  have ok: "approval_ok ?a" using annotated_ok [OF assms(4,8)] .
  have "left_in (annotate_write env i owner note actor now v) = v\<lparr>dv_mem := aupd i ?a (dv_mem v), dv_log := dv_log v @ [dict_of ?a]\<rparr>"
    using assms(3) by (simp add: annotate_write_def save_ok [OF assms(7) ok] Let_def)
  then show ?thesis using assms(5,6) by (auto simp: board_update [OF assms(1) ok] annotated_fields split: option.splits)
qed

end
