(* ===== verification/Role_Text.thy ===== *)
theory Role_Text
  imports Provider_Reset
begin

text \<open>
  What the loop reads out of the manager's text (\<open>role_prompts.py\<close>): the route, the task state,
  the task contract, the reports a subtask refers to, and the question for the operator.
  Texts are Latin-1, so the Chinese spellings and the wide punctuation of the patterns cannot
  occur in them and are left out.
\<close>

section \<open>Lines and searches\<close>

definition is_break :: "char \<Rightarrow> bool" where
  "is_break c = (let n = (of_char c :: nat) in (10 \<le> n \<and> n \<le> 13) \<or> (28 \<le> n \<and> n \<le> 30) \<or> n = 133)"

text \<open>\<open>str.splitlines()\<close>; a carriage return with a line feed is one break.\<close>

fun lines_aux :: "string \<Rightarrow> string \<Rightarrow> string list" where
  "lines_aux [] acc = (if acc = [] then [] else [rev acc])"
| "lines_aux (c # cs) acc =
     (if is_break c
      then rev acc # (case cs of
             d # r \<Rightarrow> if c = CHR 0x0D \<and> d = newline then lines_aux r [] else lines_aux (d # r) []
           | [] \<Rightarrow> [])
      else lines_aux cs (c # acc))"

definition splitlines :: "string \<Rightarrow> string list" where
  "splitlines s = lines_aux s []"

text \<open>\<open>text.replace(old, new)\<close> for a non-empty \<open>old\<close>; the counter skips the rest of an occurrence.\<close>

fun replace_from :: "string \<Rightarrow> string \<Rightarrow> nat \<Rightarrow> string \<Rightarrow> string" where
  "replace_from old new n [] = []"
| "replace_from old new (Suc n) (c # cs) = replace_from old new n cs"
| "replace_from old new 0 (c # cs) =
     (if take (length old) (c # cs) = old then new @ replace_from old new (length old - 1) cs
      else c # replace_from old new 0 cs)"

definition py_replace :: "string \<Rightarrow> string \<Rightarrow> string \<Rightarrow> string" where
  "py_replace old new s = replace_from old new 0 s"

text \<open>
  \<open>search\<close> with a pattern that starts with \<open>^\<close> in multi-line mode: \<open>bol\<close> says that the
  position is the start of a line. The result holds the captures, the text from the start of
  the match and the text after it.
\<close>

type_synonym found = "captures \<times> string \<times> string"

fun line_search :: "rx \<Rightarrow> bool \<Rightarrow> string \<Rightarrow> found option" where
  "line_search p bol [] = (case (if bol then p [] else []) of (c, r) # _ \<Rightarrow> Some (c, [], r) | [] \<Rightarrow> None)"
| "line_search p bol (x # xs) = (case (if bol then p (x # xs) else []) of
       (c, r) # _ \<Rightarrow> Some (c, x # xs, r)
     | [] \<Rightarrow> line_search p (x = newline) xs)"

lemma line_search_start: "line_search p b s = Some (c, m, r) \<Longrightarrow> \<exists>u. s = u @ m \<and> (c, r) \<in> set (p m)"
proof (induction p b s rule: line_search.induct)
  case (2 p bol x xs)
  show ?case
  proof (cases "if bol then p (x # xs) else []")
    case Nil
    then have "line_search p (x = newline) xs = Some (c, m, r)" using 2 by simp
    then obtain u where "xs = u @ m" "(c, r) \<in> set (p m)" using 2 Nil by blast
    then show ?thesis by (intro exI [of _ "x # u"]) simp
  next
    case (Cons a as)
    then have "c = fst a" "m = x # xs" "r = snd a" "bol" using 2 by (cases a; auto split: if_splits)+
    then show ?thesis using Cons by (intro exI [of _ "[]"]) simp
  qed
qed (auto split: list.splits if_splits)

text \<open>\<open>finditer\<close> with such a pattern; a match that takes no text ends the search, which no pattern here has.\<close>

function line_finditer :: "rx \<Rightarrow> bool \<Rightarrow> string \<Rightarrow> found list" where
  "line_finditer p bol s = (case line_search p bol s of
       None \<Rightarrow> []
     | Some (c, m, r) \<Rightarrow>
         (c, m, r) # (if length r < length m
            then line_finditer p (m \<noteq> [] \<and> last (take (length m - length r) m) = newline) r else []))"
  by pat_completeness auto
termination
proof (relation "measure (\<lambda>(p, b, s). length s)", goal_cases)
  case (2 p bol s a c ca m r)
  then show ?case using line_search_start [of p bol s c m r] by auto
qed simp

declare line_finditer.simps [simp del]

text \<open>\<open>text.rfind(w, 0, limit)\<close> for a non-empty \<open>w\<close>.\<close>

definition rfind :: "string \<Rightarrow> string \<Rightarrow> nat \<Rightarrow> nat option" where
  "rfind w s limit =
     (case filter (\<lambda>i. take (length w) (drop i s) = w \<and> i + length w \<le> limit) (rev [0..<length s]) of
        [] \<Rightarrow> None | i # _ \<Rightarrow> Some i)"

text \<open>Words separated by white space.\<close>

fun rx_words :: "string list \<Rightarrow> rx" where
  "rx_words [] = (\<lambda>s. [([], s)])"
| "rx_words [w] = rx_lit w"
| "rx_words (w # ws) = rx_all [rx_lit w, rx_plus (rx_one is_space), rx_words ws]"

definition rx_colon :: rx where "rx_colon = rx_char CHR '':''"

text \<open>\<open>^\s*(?:\*\*)?\s*\<close>, the start of a heading.\<close>

definition rx_heading :: "rx list \<Rightarrow> rx" where
  "rx_heading ps = rx_all (rx_spaces # rx_opt (rx_lit ''**'') # rx_spaces # ps)"

fun rx_alts :: "rx list \<Rightarrow> rx" where
  "rx_alts [] s = []"
| "rx_alts (p # ps) s = p s @ rx_alts ps s"

section \<open>The route\<close>

datatype next_step = NextGui | NextCli | NextDone | NextBlocked | NextInvalid | NextAsk

definition step_name :: "next_step \<Rightarrow> string" where
  "step_name n = (case n of NextGui \<Rightarrow> ''gui'' | NextCli \<Rightarrow> ''cli'' | NextDone \<Rightarrow> ''done''
     | NextBlocked \<Rightarrow> ''blocked'' | NextInvalid \<Rightarrow> ''invalid'' | NextAsk \<Rightarrow> ''ask'')"

text \<open>The text before the first \<open>--\<close>, \<open>//\<close>, \<open>#\<close> or \<open>(\<close>.\<close>

fun cut_comment :: "string \<Rightarrow> string" where
  "cut_comment [] = []"
| "cut_comment (c # cs) =
     (if c = CHR ''#'' \<or> c = CHR ''('' \<or> ((c = CHR ''-'' \<or> c = CHR ''/'') \<and> cs \<noteq> [] \<and> hd cs = c) then []
      else c # cut_comment cs)"

definition normalized_route :: "string \<Rightarrow> string" where
  "normalized_route line =
     (let n = py_lower (filter (\<lambda>c. c \<noteq> CHR '' '') (py_strip (filter (\<lambda>c. c \<notin> set ''*`>'') line)))
      in cut_comment (py_replace ''nextstep:'' ''next:'' n))"

definition line_route :: "string \<Rightarrow> next_step option" where
  "line_route line =
     (let n = normalized_route line in
      if n = ''next:gui'' then Some NextGui
      else if n = ''next:cli'' then Some NextCli
      else if n = ''next:ask'' then Some NextAsk
      else if n = ''next:done'' \<or> n = ''next:complete'' then Some NextDone
      else if n = ''next:blocked'' then Some NextBlocked
      else None)"

fun first_route :: "string list \<Rightarrow> next_step" where
  "first_route [] = NextInvalid"
| "first_route (l # ls) = (case line_route l of Some n \<Rightarrow> n | None \<Rightarrow> first_route ls)"

definition parse_role_manager_next_step :: "string \<Rightarrow> next_step" where
  "parse_role_manager_next_step text = first_route (splitlines text)"

section \<open>The plan and its blocks\<close>

definition rx_next :: rx where
  "rx_next = rx_all [rx_lit ''next'', rx_spaces, rx_colon, rx_spaces,
     rx_any [''gui'', ''cli'', ''ask'', ''done'', ''complete'', ''blocked'']]"

definition MANAGER_ROUTE_LINE :: rx where "MANAGER_ROUTE_LINE = rx_heading [rx_next]"

definition extract_role_manager_plan_text :: "string \<Rightarrow> string" where
  "extract_role_manager_plan_text text =
     (let raw = py_strip text in
      case rev (line_finditer MANAGER_ROUTE_LINE True raw) of
        [] \<Rightarrow> raw
      | (_, m, _) # _ \<Rightarrow>
          let route_start = length raw - length m;
              starts = List.map_filter (\<lambda>w. rfind w (py_lower raw) route_start) [''current task state'', ''task contract'']
          in if starts = [] then py_strip m else py_strip (drop (min_list starts) raw))"

definition TASK_STATE_HEADER :: rx where
  "TASK_STATE_HEADER = rx_heading [rx_words [''current'', ''task'', ''state''], rx_spaces, rx_colon]"

definition TASK_STATE_BOUNDARY :: rx where
  "TASK_STATE_BOUNDARY =
     rx_heading [rx_alts [rx_words [''task'', ''contract''], rx_words [''dependency'', ''assessment''], rx_next]]"

definition TASK_CONTRACT_HEADER :: rx where
  "TASK_CONTRACT_HEADER = rx_heading [rx_words [''task'', ''contract''], rx_spaces, rx_colon]"

definition TASK_CONTRACT_BOUNDARY :: rx where
  "TASK_CONTRACT_BOUNDARY = rx_heading [rx_alts [rx_words [''dependency'', ''assessment''], rx_next]]"

text \<open>The two extractions differ in their patterns only; the search for the end starts after the colon of the heading.\<close>

definition extract_block :: "rx \<Rightarrow> rx \<Rightarrow> string \<Rightarrow> string \<Rightarrow> string" where
  "extract_block header boundary text fallback =
     (let raw = py_strip text in
      case line_search header True raw of
        None \<Rightarrow> py_strip fallback
      | Some (_, m, r) \<Rightarrow>
          let block = (case line_search boundary False r of
                 None \<Rightarrow> m | Some (_, b, _) \<Rightarrow> take (length m - length b) m);
              state = py_strip block
          in if state = [] then py_strip fallback else state)"

definition extract_role_task_state :: "string \<Rightarrow> string \<Rightarrow> string" where
  "extract_role_task_state = extract_block TASK_STATE_HEADER TASK_STATE_BOUNDARY"

definition extract_role_task_contract :: "string \<Rightarrow> string \<Rightarrow> string" where
  "extract_role_task_contract = extract_block TASK_CONTRACT_HEADER TASK_CONTRACT_BOUNDARY"

section \<open>References to earlier reports\<close>

definition RELATED_SECTION_HEADER :: rx where
  "RELATED_SECTION_HEADER = rx_heading [rx_lit ''related'', rx_plus (rx_one is_space),
     rx_alts [rx_words [''audit'', ''reports''], rx_words [''audited'', ''state'']], rx_spaces, rx_colon, rx_spaces]"

definition RELATED_SECTION_END :: rx where
  "RELATED_SECTION_END = rx_heading
     [rx_alts [rx_lit ''boundaries'', rx_lit ''task'', rx_words [''acceptance'', ''criteria''], rx_lit ''next''], rx_spaces, rx_colon]"

text \<open>The lazy body of the section: up to the first line that starts another, or the end of the text.\<close>

function related_sections :: "bool \<Rightarrow> string \<Rightarrow> string list" where
  "related_sections bol s = (case line_search RELATED_SECTION_HEADER bol s of
       None \<Rightarrow> []
     | Some (_, m, r) \<Rightarrow>
         let at_start = (last (take (length m - length r) m) = newline) in
         (case line_search RELATED_SECTION_END at_start r of
            None \<Rightarrow> [r]
          | Some (_, b, _) \<Rightarrow>
              let body = take (length r - length b) r in
              body # (if length b < length s
                      then related_sections (if body = [] then at_start else last body = newline) b else [])))"
  by pat_completeness auto
termination
  by (relation "measure (\<lambda>(b, s). length s)") auto

declare related_sections.simps [simp del]

text \<open>\<open>\bround_(\d+)\b\<close>; \<open>prev\<close> says that the character before is a word character.\<close>

definition round_ref_at :: "string \<Rightarrow> (string \<times> string) option" where
  "round_ref_at s =
     (if py_lower (take 6 s) = ''round_''
      then let ds = takeWhile is_digit (drop 6 s); r = dropWhile is_digit (drop 6 s)
           in if ds = [] \<or> (r \<noteq> [] \<and> is_word (hd r)) then None else Some (ds, r)
      else None)"

function round_refs :: "bool \<Rightarrow> string \<Rightarrow> string list" where
  "round_refs prev s = (case s of
       [] \<Rightarrow> []
     | c # cs \<Rightarrow>
         (case (if prev then None else round_ref_at s) of
            None \<Rightarrow> round_refs (is_word c) cs
          | Some (ds, r) \<Rightarrow> if length r < length s then ds # round_refs True r else []))"
  by pat_completeness auto
termination
  by (relation "measure (\<lambda>(b, s). length s)") auto

declare round_refs.simps [simp del]

text \<open>\<open>f"{n:03d}"\<close>.\<close>

definition pad3 :: "int \<Rightarrow> string" where
  "pad3 n = (let t = show_int n in replicate (3 - length t) CHR ''0'' @ t)"

fun fresh_numbers :: "int list \<Rightarrow> int list \<Rightarrow> int list" where
  "fresh_numbers seen [] = []"
| "fresh_numbers seen (n # ns) =
     (if n \<le> 0 \<or> n \<in> set seen then fresh_numbers seen ns else n # fresh_numbers (n # seen) ns)"

definition extract_related_report_refs :: "string \<Rightarrow> string list" where
  "extract_related_report_refs raw =
     (let sections = related_sections True raw;
          search_text = (if sections = [] then raw else py_join [newline] sections)
      in map (\<lambda>n. ''round_'' @ pad3 n) (fresh_numbers [] (map digits_val (round_refs False search_text))))"

section \<open>The question for the operator\<close>

definition py_strip_chars :: "string \<Rightarrow> string \<Rightarrow> string" where
  "py_strip_chars cs s = rev (dropWhile (\<lambda>c. c \<in> set cs) (rev (dropWhile (\<lambda>c. c \<in> set cs) s)))"

definition is_question :: "string \<Rightarrow> bool" where
  "is_question line = (rx_all [rx_lit ''question'', rx_spaces, rx_colon] (py_strip_chars ''*'' (py_strip line)) \<noteq> [])"

definition QUESTION_END :: rx where
  "QUESTION_END = rx_heading [rx_alts [rx_lit ''choices'', rx_words [''current'', ''task'', ''state''], rx_words [''task'', ''contract''],
       rx_words [''dependency'', ''assessment''], rx_lit ''next'', rx_lit ''task'', rx_words [''acceptance'', ''criteria''],
       rx_words [''related'', ''audit'', ''reports''], rx_words [''related'', ''audited'', ''state''], rx_lit ''boundaries''],
     rx_spaces, rx_colon]"

fun question_rest :: "string list \<Rightarrow> string list" where
  "question_rest [] = []"
| "question_rest (l # ls) = (if QUESTION_END l \<noteq> [] then [] else py_rstrip l # question_rest ls)"

fun question_lines :: "string list \<Rightarrow> string list" where
  "question_lines [] = []"
| "question_lines (l # ls) =
     (if is_question l
      then let rest = py_strip (tl (dropWhile (\<lambda>c. c \<noteq> CHR '':'') l))
           in (if rest = [] then [] else [rest]) @ question_rest ls
      else question_lines ls)"

definition extract_role_manager_question :: "string \<Rightarrow> string" where
  "extract_role_manager_question plan = py_strip (py_join [newline] (question_lines (splitlines plan)))"

text \<open>The pieces between the separators.\<close>

fun split_at_chars :: "string \<Rightarrow> string \<Rightarrow> string \<Rightarrow> string list" where
  "split_at_chars seps [] acc = [rev acc]"
| "split_at_chars seps (c # cs) acc =
     (if c \<in> set seps then rev acc # split_at_chars seps cs [] else split_at_chars seps cs (c # acc))"

text \<open>\<open>(.+)$\<close> stops at a line feed, which a line of \<open>splitlines\<close> does not hold.\<close>

definition line_choices :: "string \<Rightarrow> string list" where
  "line_choices line =
     (case rx_all [rx_spaces, rx_lit ''choices'', rx_spaces, rx_colon, rx_spaces] (py_strip_chars ''*'' (py_strip line)) of
        [] \<Rightarrow> []
      | (_, r) # _ \<Rightarrow> filter (\<lambda>p. p \<noteq> []) (map py_strip (split_at_chars ''|,/'' r [])))"

fun first_choices :: "string list \<Rightarrow> string list" where
  "first_choices [] = []"
| "first_choices (l # ls) = (if line_choices l = [] then first_choices ls else take 6 (line_choices l))"

definition yes_no :: rx where
  "yes_no = rx_seq (rx_alts [rx_all [rx_lit ''yes'', rx_spaces, rx_lit ''/'', rx_spaces, rx_lit ''no''], rx_lit ''whether''])
     (rx_not_before is_word)"

fun has_yes_no :: "bool \<Rightarrow> string \<Rightarrow> bool" where
  "has_yes_no prev [] = False"
| "has_yes_no prev (c # cs) = (\<not> prev \<and> yes_no (c # cs) \<noteq> [] \<or> has_yes_no (is_word c) cs)"

definition extract_role_manager_answer_choices :: "string \<Rightarrow> string list" where
  "extract_role_manager_answer_choices plan =
     (let cs = first_choices (splitlines plan) in
      if cs \<noteq> [] then cs
      else if has_yes_no False (extract_role_manager_question plan) then [''Yes'', ''No''] else [])"

end
