(* ===== verification/Manager_Loop.thy ===== *)
theory Manager_Loop
  imports Audit_Report Queue_Request
begin

text \<open>
  The manager's rounds (\<open>manager.py\<close>): the manager plans, an executor works, an auditor judges,
  and the gate at the end of a round stops, goes on or asks the operator.

  What the agents answer, what the operator decides and when, and the classification of agent
  failures (\<open>provider_errors.py\<close>, which reports kind and message; the abort reason is made of
  the kind) are fields of \<open>loop_env\<close>. An answer may depend on the whole state of the loop, so that the
  texts of the prompts need not be written down. Prompts and reports are in English. The state
  holds the recorded rounds, the gate's fields and the event log (name, round and the
  injected instructions); remote copies, screenshots and progress lines, which never raise, are
  left out. A raised exception carries the state it leaves behind.
\<close>

section \<open>State\<close>

record managed_round =
  mr_index :: int
  mr_next :: next_step
  mr_plan :: string
  mr_executor_output :: string
  mr_auditor_report :: string
  mr_feedback :: string
  mr_task_state :: string
  mr_contract :: string
  mr_refs :: "string list"
  mr_manager_status :: pydict
  mr_executor_status :: pydict
  mr_auditor_status :: pydict

definition round_of :: "int \<Rightarrow> next_step \<Rightarrow> string \<Rightarrow> string \<Rightarrow> string \<Rightarrow> string list \<Rightarrow> managed_round" where
  "round_of i n plan state contract refs =
     \<lparr>mr_index = i, mr_next = n, mr_plan = plan, mr_executor_output = [], mr_auditor_report = [], mr_feedback = [],
      mr_task_state = state, mr_contract = contract, mr_refs = refs, mr_manager_status = [], mr_executor_status = [],
      mr_auditor_status = []\<rparr>"

record gate_context =
  gc_budget :: int
  gc_completed :: bool
  gc_abort :: string
  gc_carryover :: string
  gc_operator :: "string list"
  gc_response_round :: int
  gc_response :: string
  gc_failure :: string

record loop_event =
  le_name :: string
  le_round :: int
  le_text :: string

record loop_state =
  ls_index :: int
  ls_rounds :: "managed_round list"
  ls_ledger :: "managed_round list"
  ls_plan :: string
  ls_task_state :: string
  ls_contract :: string
  ls_gate :: gate_context
  ls_events :: "loop_event list"

text \<open>An agent returns an episode, is cancelled after some time, or raises.\<close>

datatype agent_reply = Replied episode | ReplyCancelled int | ReplyRaised string

datatype loop_exn = LoopCancelled | LoopCrashed string

record hook_context =
  hc_outcome :: string
  hc_reached_max :: bool
  hc_round :: int
  hc_question :: string
  hc_answers :: "string list"

datatype hook_reply = Decided pyval | HookRaised loop_exn

record loop_env =
  lw_audit :: audit_env
  lw_manager :: "loop_state \<Rightarrow> agent_reply"
  lw_executor :: "next_step \<Rightarrow> loop_state \<Rightarrow> agent_reply"
  lw_auditor :: "next_step \<Rightarrow> loop_state \<Rightarrow> agent_reply"
  lw_repair :: "loop_state \<Rightarrow> agent_reply"
  lw_response :: "string \<Rightarrow> loop_state \<Rightarrow> agent_reply"
  lw_classify :: "episode \<Rightarrow> (string \<times> string) option"
  lw_hook :: "(hook_context \<Rightarrow> loop_state \<Rightarrow> hook_reply) option"
  lw_pending :: "(loop_state \<Rightarrow> string list) option"
  lw_max_episodes :: int
  lw_disable_gui :: "string option"

type_synonym 'a step_result = "(loop_exn, loop_state, 'a) stateful"

definition on_gate :: "(gate_context \<Rightarrow> gate_context) \<Rightarrow> loop_state \<Rightarrow> loop_state" where
  "on_gate f s = s\<lparr>ls_gate := f (ls_gate s)\<rparr>"

definition append_event :: "string \<Rightarrow> string \<Rightarrow> loop_state \<Rightarrow> loop_state" where
  "append_event name text s = s\<lparr>ls_events := ls_events s @ [\<lparr>le_name = name, le_round = ls_index s, le_text = text\<rparr>]\<rparr>"

definition abort_with :: "string \<Rightarrow> loop_state \<Rightarrow> loop_state" where
  "abort_with reason = on_gate (\<lambda>g. g\<lparr>gc_abort := reason\<rparr>)"

text \<open>\<open>rounds.append(record)\<close> and \<open>_record_round\<close>, which appends to the ledger and logs.\<close>

definition record_round :: "managed_round \<Rightarrow> loop_state \<Rightarrow> loop_state" where
  "record_round r s = append_event ''managed_round_recorded'' [] (s\<lparr>ls_rounds := ls_rounds s @ [r], ls_ledger := ls_ledger s @ [r]\<rparr>)"

section \<open>Episodes\<close>

definition run_role_episode :: "agent_reply \<Rightarrow> loop_state \<Rightarrow> episode step_result" where
  "run_role_episode reply s = (case reply of
       Replied r \<Rightarrow> Inr (r, s)
     | ReplyCancelled ms \<Rightarrow> Inr (\<lparr>ep_status = ''cancelled'', ep_actions_log = [], ep_error = Some ''Execution cancelled by operator'',
         ep_duration = ms, ep_metadata = [(''cancelled'', PBool True)]\<rparr>, s)
     | ReplyRaised x \<Rightarrow> Inl (LoopCrashed x, s))"

definition episode_status :: "episode \<Rightarrow> pydict" where
  "episode_status r = (let m = ep_metadata r in
     [(''status'', PStr (ep_status r)), (''error'', case ep_error r of None \<Rightarrow> PNone | Some e \<Rightarrow> PStr e), (''duration_ms'', PInt (ep_duration r)),
      (''agent_done'', dget m ''agent_done''), (''exit_code'', dget m ''exit_code''), (''runtime_signals'', dget m ''runtime_signals''),
      (''stats'', dget m ''episode_stats'')])"

definition failed_episode_status :: "episode \<Rightarrow> string \<Rightarrow> pydict" where
  "failed_episode_status r msg =
     aupd ''error'' (PStr msg) (aupd ''status'' (PStr (if ep_status r = ''timeout'' then ''timeout'' else ''error'')) (episode_status r))"

definition should_repair_auditor_format :: "episode \<Rightarrow> string \<Rightarrow> bool" where
  "should_repair_auditor_format r text =
     (ep_status r = ''done'' \<and> episode_hard_signals r = [] \<and> \<not> has_valid_control_header text)"

definition should_accept_auditor_format_repair :: "audit_env \<Rightarrow> episode \<Rightarrow> string \<Rightarrow> bool" where
  "should_accept_auditor_format_repair env r text =
     (ep_status r = ''done'' \<and> episode_hard_signals r = [] \<and> \<not> workspace_mutation_detected env r \<and> has_valid_control_header text)"

definition unformatted_auditor_report_text :: "string \<Rightarrow> string" where
  "unformatted_auditor_report_text raw =
     (let body = compact_auditor_report_text COMPACT_REPORT_CHARS (py_strip raw);
          marker = ''[Unformatted auditor report: the format-repair pass timed out, so the auditor'' @ [CHR 0x27] @
            ''s raw output is preserved as-is without a normalized control header.]''
      in if body = [] then marker else marker @ [newline, newline] @ body)"

text \<open>The report text of an episode is never blank, so that the fallbacks of \<open>_auditor_report_text\<close> are not reached.\<close>

definition auditor_report_text :: "loop_env \<Rightarrow> episode \<Rightarrow> loop_state \<Rightarrow> string step_result" where
  "auditor_report_text w r s = (case audit_report_from_episode_result (lw_audit w) r of
       None \<Rightarrow> Inl (LoopCrashed ''invalid workspace mutation record'', s)
     | Some a \<Rightarrow> Inr (py_strip (ar_text a), s))"

definition corrected_result :: "episode \<Rightarrow> episode \<Rightarrow> string \<Rightarrow> episode" where
  "corrected_result primary repair text =
     primary\<lparr>ep_actions_log := text, ep_duration := ep_duration primary + ep_duration repair\<rparr>"

definition auditor_report_with_format_repair ::
    "loop_env \<Rightarrow> episode \<Rightarrow> loop_state \<Rightarrow> (string \<times> pydict) step_result" where
  "auditor_report_with_format_repair w primary s =
     (let status = episode_status primary; raw = auditor_report_text_from_episode_result (lw_audit w) primary in
      if \<not> should_repair_auditor_format primary raw
      then sbind (auditor_report_text w primary s) (\<lambda>t s. Inr ((t, status), s))
      else let s1 = append_event ''auditor_format_repair_start'' [] s in
        sbind (run_role_episode (lw_repair w s1) s1) (\<lambda>repair s2.
        let text = auditor_report_text_from_episode_result (lw_audit w) repair;
            valid = should_accept_auditor_format_repair (lw_audit w) repair text;
            status' = aupd ''format_repair_status'' (PDict (episode_status repair)) (aupd ''format_repair_accepted'' (PBool valid)
                        (aupd ''format_repair_attempted'' (PBool True) status));
            s3 = append_event ''auditor_format_repair_done'' [] s2
        in if valid then sbind (auditor_report_text w (corrected_result primary repair text) s3) (\<lambda>t s. Inr ((t, status'), s))
           else if ep_status repair = ''timeout'' \<and> ep_status primary = ''done''
           then Inr ((unformatted_auditor_report_text raw, status'), s3)
           else sbind (auditor_report_text w repair s3) (\<lambda>t s. Inr ((t, status'), s))))"

section \<open>The final reply\<close>

text \<open>\<open>True\<close> when the operator cancelled while the reply was written; any other failure leaves no reply.\<close>

definition write_final_response :: "loop_env \<Rightarrow> string \<Rightarrow> loop_state \<Rightarrow> bool \<times> loop_state" where
  "write_final_response w ending s =
     (if gc_response (ls_gate s) \<noteq> [] \<or> ls_rounds s = [] \<or> ending = ''user_cancelled'' \<or> gc_response_round (ls_gate s) = ls_index s
      then (False, s)
      else let s1 = append_event ''final_response_start'' [] (on_gate (\<lambda>g. g\<lparr>gc_response_round := ls_index s\<rparr>) s) in
        case run_role_episode (lw_response w ending s1) s1 of
          Inl (_, s2) \<Rightarrow> (False, append_event ''final_response_done'' [] s2)
        | Inr (r, s2) \<Rightarrow>
            let response = (if ep_status r = ''done'' then py_strip (visible_output (lw_audit w) r) else []) in
            (ep_status r = ''cancelled'', append_event ''final_response_done'' []
               (if response = [] then s2 else on_gate (\<lambda>g. g\<lparr>gc_response := response\<rparr>) s2)))"

definition mark_cancelled :: "loop_state \<Rightarrow> loop_state" where
  "mark_cancelled = on_gate (\<lambda>g. g\<lparr>gc_abort := ''user_cancelled'', gc_completed := False\<rparr>)"

definition discard_final_response :: "loop_state \<Rightarrow> loop_state" where
  "discard_final_response s =
     (if gc_response (ls_gate s) = [] then s
      else append_event ''final_response_discarded'' [] (on_gate (\<lambda>g. g\<lparr>gc_response := []\<rparr>) s))"

section \<open>The gate\<close>

definition extra_rounds :: "pyval \<Rightarrow> int" where
  "extra_rounds v = (case (case v of PStr t \<Rightarrow> py_int_of_string t | PInt i \<Rightarrow> Some i | _ \<Rightarrow> None) of
       None \<Rightarrow> 0
     | Some i \<Rightarrow> if i \<le> 0 then 0 else min i MAX_ROUNDS)"

definition reached_max :: "loop_state \<Rightarrow> bool" where
  "reached_max s = (\<not> gc_completed (ls_gate s) \<and> ls_index s \<ge> gc_budget (ls_gate s))"

definition gate_ending :: "string \<Rightarrow> loop_state \<Rightarrow> string option" where
  "gate_ending outcome s =
     (if gc_completed (ls_gate s) then Some []
      else if outcome = ''blocked'' then Some ''manager_blocked''
      else if reached_max s then Some ''max_rounds_exhausted'' else None)"

text \<open>Without a hook the run ends where it would have asked.\<close>

definition unattended_gate :: "loop_env \<Rightarrow> string \<Rightarrow> bool \<Rightarrow> loop_state \<Rightarrow> bool \<times> loop_state" where
  "unattended_gate w outcome rm s =
     (if gc_completed (ls_gate s) then (True, s)
      else if outcome = ''blocked'' then (True, abort_with ''manager_blocked'' s)
      else if outcome = ''ask''
      then (case write_final_response w ''needs_human_input'' (abort_with ''needs_human_input'' s) of
              (cancelled, s1) \<Rightarrow> (True, if cancelled then mark_cancelled s1 else s1))
      else if rm then (True, abort_with ''max_rounds_exhausted'' s)
      else (False, s))"

definition carry_instructions :: "string \<Rightarrow> loop_state \<Rightarrow> loop_state" where
  "carry_instructions text s =
     (if text = [] then s else on_gate (\<lambda>g. g\<lparr>gc_carryover := text, gc_operator := gc_operator g @ [text]\<rparr>) s)"

definition stop_gate :: "loop_env \<Rightarrow> string \<Rightarrow> bool \<Rightarrow> loop_state \<Rightarrow> loop_state" where
  "stop_gate w outcome rm s =
     (let s1 = (if rm then abort_with ''max_rounds_exhausted'' s
                else if outcome = ''blocked'' then abort_with ''manager_blocked'' s
                else if outcome = ''ask'' then abort_with ''human_abort'' s
                else if \<not> gc_completed (ls_gate s) then abort_with ''human_abort'' s else s)
      in case write_final_response w (gc_abort (ls_gate s1)) s1 of (cancelled, s2) \<Rightarrow> if cancelled then mark_cancelled s2 else s2)"

definition granted_budget :: "loop_env \<Rightarrow> int \<Rightarrow> pyval \<Rightarrow> int" where
  "granted_budget w i v =
     (let extra = (if extra_rounds v \<noteq> 0 then extra_rounds v else max 1 (lw_max_episodes w))
      in max (i + 1) (min (i + extra) MAX_ROUNDS))"

definition continue_gate :: "loop_env \<Rightarrow> string \<Rightarrow> bool \<Rightarrow> pyval \<Rightarrow> loop_state \<Rightarrow> loop_state" where
  "continue_gate w outcome rm extra s =
     (let s1 = discard_final_response s;
          s2 = (if outcome = ''completed'' then on_gate (\<lambda>g. g\<lparr>gc_completed := False\<rparr>) s1 else s1)
      in if rm \<or> outcome \<in> set [''completed'', ''blocked'']
         then append_event ''human_continue_after_finish'' [] (on_gate (\<lambda>g. g\<lparr>gc_budget := granted_budget w (ls_index s) extra\<rparr>) s2)
         else s2)"

definition decision_of :: "pyval \<Rightarrow> pydict" where
  "decision_of v = (case v of PDict d \<Rightarrow> d | _ \<Rightarrow> [])"

definition attended_gate ::
    "loop_env \<Rightarrow> (hook_context \<Rightarrow> loop_state \<Rightarrow> hook_reply) \<Rightarrow> string \<Rightarrow> bool \<Rightarrow> string \<Rightarrow> string list \<Rightarrow> loop_state \<Rightarrow> bool step_result" where
  "attended_gate w hook outcome rm question answers s =
     (case hook \<lparr>hc_outcome = outcome, hc_reached_max = rm, hc_round = ls_index s, hc_question = question, hc_answers = answers\<rparr> s of
        HookRaised x \<Rightarrow> Inl (x, s)
      | Decided v \<Rightarrow>
          let d = decision_of v; render = ue_render (lw_audit w);
              s1 = carry_instructions (py_strip (str_or_empty render (dget d ''instructions''))) s;
              action = (if truthy (dget d ''action'') then py_str render (dget d ''action'') else ''continue'')
          in Inr (if action = ''stop'' then (True, stop_gate w outcome rm s1)
                  else (False, continue_gate w outcome rm (dget d ''extra_rounds'') s1)))"

definition human_gate :: "loop_env \<Rightarrow> string \<Rightarrow> string \<Rightarrow> string list \<Rightarrow> loop_state \<Rightarrow> bool step_result" where
  "human_gate w outcome question answers s =
     (let rm = reached_max s;
          (cancelled, s1) = (case gate_ending outcome s of None \<Rightarrow> (False, s) | Some ending \<Rightarrow> write_final_response w ending s)
      in if cancelled then Inr (True, mark_cancelled s1)
         else case lw_hook w of
                None \<Rightarrow> Inr (unattended_gate w outcome rm s1)
              | Some hook \<Rightarrow> attended_gate w hook outcome rm question answers s1)"

section \<open>One round\<close>

definition invalid_completion_feedback :: string where
  "invalid_completion_feedback = py_join [newline]
     [''Status: incomplete'', ''Integrity: suspect'', ''Contract audit: unknown'',
      ''Audit facts: the manager requested completion, but the latest auditor report did not confirm every original requirement as complete with clean integrity and an aligned contract.'',
      ''Gap: schedule an auditable GUI/CLI subtask or obtain an explicit auditor confirmation.'',
      ''Next step: manage again; do not emit `Next: done` without complete/clean/aligned evidence.'']"

definition invalid_plan_feedback :: string where
  "invalid_plan_feedback = py_join [newline]
     [''Status: incomplete'', ''Integrity: suspect'', ''Contract audit: unknown'',
      ''Audit facts: the manager output did not contain a valid route, so no GUI or CLI executor can be assigned.'',
      ''Gap: emit one dominant GUI/CLI subtask or an explicit ask/done/blocked route.'',
      ''Next step: manage again using exactly `Next: gui`, `Next: cli`, `Next: ask`, `Next: done`, or `Next: blocked`.'']"

definition effective_next_step :: "string option \<Rightarrow> next_step \<Rightarrow> next_step" where
  "effective_next_step disable n = (if n = NextGui \<and> (case disable of Some v \<Rightarrow> py_strip v = ''1'' | None \<Rightarrow> False) then NextCli else n)"

definition synthetic_round :: "managed_round \<Rightarrow> bool" where
  "synthetic_round r = (truthy (dget (mr_auditor_status r) ''invalid_completion'') \<or> truthy (dget (mr_auditor_status r) ''invalid_plan''))"

text \<open>The latest round whose report counts.\<close>

definition latest_audited :: "managed_round list \<Rightarrow> managed_round option" where
  "latest_audited rs = find (\<lambda>r. \<not> synthetic_round r \<and> py_strip (mr_auditor_report r) \<noteq> []) (rev rs)"

definition latest_auditor_is_clean_complete :: "audit_env \<Rightarrow> managed_round list \<Rightarrow> bool" where
  "latest_auditor_is_clean_complete env rs = (case latest_audited rs of
       None \<Rightarrow> False
     | Some r \<Rightarrow> let a = parse_audit_report env (mr_auditor_report r)
                in ar_status a = ''complete'' \<and> ar_integrity a = ''clean'' \<and> ar_contract a = ''aligned'')"

definition latest_auditor_report_text :: "managed_round list \<Rightarrow> string" where
  "latest_auditor_report_text rs = (case latest_audited rs of None \<Rightarrow> [] | Some r \<Rightarrow> py_strip (mr_auditor_report r))"

text \<open>\<open>break\<close> is \<open>True\<close>.\<close>

definition cancel_round :: "loop_state \<Rightarrow> bool step_result" where
  "cancel_round s = Inr (True, append_event ''role_harness_cancelled'' [] (abort_with ''user_cancelled'' s))"

text \<open>What follows a recorded failure of an agent: a timeout goes to the gate, anything else ends the run.\<close>

definition after_failure :: "loop_env \<Rightarrow> string \<Rightarrow> string \<Rightarrow> loop_state \<Rightarrow> bool step_result" where
  "after_failure w kind msg s =
     (let s1 = append_event ''agent_runtime_failed'' [] s in
      if kind = ''timeout'' then human_gate w ''progress'' [] [] s1
      else Inr (True, on_gate (\<lambda>g. g\<lparr>gc_abort := ''provider_'' @ kind, gc_failure := msg\<rparr>) s1))"

definition executor_text :: "loop_env \<Rightarrow> episode \<Rightarrow> string" where
  "executor_text w r = (let t = py_strip (visible_output (lw_audit w) r) in
     if t = [] then ''(executor agent produced no readable natural-language output)'' else t)"

definition audit_phase ::
    "loop_env \<Rightarrow> next_step \<Rightarrow> managed_round \<Rightarrow> episode \<Rightarrow> episode \<Rightarrow> loop_state \<Rightarrow> bool step_result" where
  "audit_phase w n base manager executor s =
     (let done_round = base\<lparr>mr_executor_output := executor_text w executor, mr_executor_status := episode_status executor\<rparr>;
          s1 = append_event ''auditor_role_start'' [] s in
      sbind (run_role_episode (lw_auditor w n s1) s1) (\<lambda>auditor s2.
      if ep_status auditor = ''cancelled''
      then cancel_round (record_round (done_round\<lparr>mr_auditor_status := episode_status auditor\<rparr>) s2)
      else case lw_classify w auditor of
        Some (kind, msg) \<Rightarrow> after_failure w kind msg (record_round (done_round\<lparr>mr_feedback := msg,
            mr_manager_status := episode_status manager, mr_auditor_status := failed_episode_status auditor msg\<rparr>) s2)
      | None \<Rightarrow>
          sbind (auditor_report_with_format_repair w auditor s2) (\<lambda>(report, status) s3.
          if (case dget status ''format_repair_status'' of PDict d \<Rightarrow> dget d ''status'' = PStr ''cancelled'' | _ \<Rightarrow> False)
          then cancel_round (record_round (done_round\<lparr>mr_auditor_status := status\<rparr>) s3)
          else human_gate w ''progress'' [] [] (append_event ''auditor_role_done'' []
                 (record_round (done_round\<lparr>mr_auditor_report := report, mr_auditor_status := status\<rparr>) s3)))))"

definition work_phase :: "loop_env \<Rightarrow> next_step \<Rightarrow> managed_round \<Rightarrow> episode \<Rightarrow> loop_state \<Rightarrow> bool step_result" where
  "work_phase w n base manager s =
     (let s1 = append_event ''executor_role_start'' [] s in
      sbind (run_role_episode (lw_executor w n s1) s1) (\<lambda>executor s2.
      let out = executor_text w executor in
      if ep_status executor = ''cancelled''
      then cancel_round (record_round (base\<lparr>mr_executor_output := out, mr_executor_status := episode_status executor\<rparr>) s2)
      else case lw_classify w executor of
        Some (kind, msg) \<Rightarrow> after_failure w kind msg (record_round (base\<lparr>mr_executor_output := if kind = ''timeout'' then out else [],
            mr_feedback := msg, mr_manager_status := episode_status manager, mr_executor_status := failed_episode_status executor msg\<rparr>) s2)
      | None \<Rightarrow> audit_phase w n base manager executor (append_event ''executor_role_done'' [] s2)))"

definition dispatch_step :: "loop_env \<Rightarrow> next_step \<Rightarrow> string \<Rightarrow> string list \<Rightarrow> episode \<Rightarrow> loop_state \<Rightarrow> bool step_result" where
  "dispatch_step w n plan refs manager s =
     (let base = (\<lambda>n. round_of (ls_index s) n plan (ls_task_state s) (ls_contract s) refs) in
      case n of
        NextDone \<Rightarrow>
          if latest_auditor_is_clean_complete (lw_audit w) (ls_rounds s)
          then human_gate w ''completed'' [] [] (record_round (base NextDone) (on_gate (\<lambda>g. g\<lparr>gc_completed := True\<rparr>) s))
          else human_gate w ''progress'' [] [] (record_round ((base NextInvalid)\<lparr>mr_feedback := invalid_completion_feedback,
                 mr_auditor_status := [(''invalid_completion'', PBool True)]\<rparr>) s)
      | NextBlocked \<Rightarrow> human_gate w ''blocked'' [] [] (record_round (base NextBlocked) s)
      | NextAsk \<Rightarrow> human_gate w ''ask'' (extract_role_manager_question plan) (extract_role_manager_answer_choices plan)
                    (record_round (base NextAsk) s)
      | NextInvalid \<Rightarrow> human_gate w ''progress'' [] [] (record_round ((base NextInvalid)\<lparr>mr_feedback := invalid_plan_feedback,
                 mr_auditor_status := [(''invalid_plan'', PBool True)]\<rparr>) s)
      | _ \<Rightarrow> work_phase w n (base n) manager s)"

text \<open>Queued messages are claimed and the carried instructions put into this round's prompt.\<close>

definition claim_pending :: "loop_env \<Rightarrow> loop_state \<Rightarrow> loop_state" where
  "claim_pending w s =
     (let queued = (case lw_pending w of None \<Rightarrow> [] | Some f \<Rightarrow> filter (\<lambda>t. t \<noteq> []) (map py_strip (f s))) in
      if queued = [] then s
      else on_gate (\<lambda>g. g\<lparr>gc_carryover := py_join [newline] (filter (\<lambda>p. p \<noteq> []) (gc_carryover g # queued)),
                          gc_operator := gc_operator g @ queued\<rparr>) s)"

text \<open>The state the manager's prompt is built from.\<close>

definition prompt_state :: "loop_env \<Rightarrow> loop_state \<Rightarrow> loop_state" where
  "prompt_state w s = claim_pending w (s\<lparr>ls_index := ls_index s + 1\<rparr>)"

definition inject_instructions :: "loop_state \<Rightarrow> loop_state" where
  "inject_instructions s =
     (let text = gc_carryover (ls_gate s) in
      if text = [] then s else on_gate (\<lambda>g. g\<lparr>gc_carryover := []\<rparr>) (append_event ''human_instructions_injected'' text s))"

definition no_plan_text :: string where
  "no_plan_text = ''Next: blocked'' @ [newline, newline] @ ''Reason:'' @ [newline] @ ''The manager produced no readable natural-language output.''"

definition failed_plan_text :: "bool \<Rightarrow> string \<Rightarrow> string" where
  "failed_plan_text recoverable msg =
     (if recoverable then ''Next: invalid'' else ''Next: blocked'') @ [newline, newline] @ ''Reason:'' @ [newline] @ msg"

definition manager_failed :: "loop_env \<Rightarrow> episode \<Rightarrow> string \<Rightarrow> string \<Rightarrow> loop_state \<Rightarrow> bool step_result" where
  "manager_failed w r kind msg s =
     (let recoverable = (kind = ''timeout'');
          rec = (round_of (ls_index s) (if recoverable then NextInvalid else NextBlocked) (failed_plan_text recoverable msg)
                   (ls_task_state s) (ls_contract s) [])
                \<lparr>mr_feedback := msg, mr_manager_status := failed_episode_status r msg,
                 mr_auditor_status := if recoverable then [(''invalid_plan'', PBool True)] else []\<rparr>
      in after_failure w kind msg (record_round rec s))"

definition manager_planned :: "loop_env \<Rightarrow> episode \<Rightarrow> loop_state \<Rightarrow> bool step_result" where
  "manager_planned w r s =
     (let t = py_strip (extract_role_manager_plan_text (visible_output (lw_audit w) r));
          plan = (if t = [] then no_plan_text else t);
          n = effective_next_step (lw_disable_gui w) (parse_role_manager_next_step plan);
          s1 = s\<lparr>ls_task_state := extract_role_task_state plan (ls_task_state s),
                 ls_contract := extract_role_task_contract plan (ls_contract s), ls_plan := plan\<rparr>
      in dispatch_step w n plan (extract_related_report_refs plan) r (append_event ''manager_round_done'' [] s1))"

definition manager_round :: "loop_env \<Rightarrow> loop_state \<Rightarrow> bool step_result" where
  "manager_round w s =
     (let s1 = prompt_state w s;
          s2 = append_event ''manager_round_start'' [] (inject_instructions s1)
      in sbind (run_role_episode (lw_manager w s1) s2) (\<lambda>r s3.
         if ep_status r = ''cancelled'' then cancel_round s3
         else case lw_classify w r of
           Some (kind, msg) \<Rightarrow> manager_failed w r kind msg s3
         | None \<Rightarrow> manager_planned w r s3))"

section \<open>The loop and its report\<close>

partial_function (option) manager_loop :: "loop_env \<Rightarrow> loop_state \<Rightarrow> ((loop_exn \<times> loop_state) + loop_state) option" where
  "manager_loop w s =
     (if ls_index s < gc_budget (ls_gate s)
      then (case manager_round w s of
              Inl x \<Rightarrow> Some (Inl x)
            | Inr (stop, s') \<Rightarrow> if stop then Some (Inr s') else manager_loop w s')
      else Some (Inr s))"

record final_report =
  fr_status :: string
  fr_completed :: bool
  fr_rounds_run :: nat
  fr_max_rounds :: int
  fr_abort :: string
  fr_failure :: string
  fr_plan :: string
  fr_task_state :: string
  fr_contract :: string
  fr_latest :: string
  fr_response :: string
  fr_rounds :: "managed_round list"

definition final_status :: "gate_context \<Rightarrow> string" where
  "final_status g =
     (if gc_completed g then ''complete''
      else if gc_abort g = ''user_cancelled'' then ''cancelled''
      else if starts_with ''provider_'' (gc_abort g) then ''failed''
      else if gc_abort g = ''manager_blocked'' then ''blocked'' else ''incomplete'')"

definition final_report_of :: "loop_state \<Rightarrow> final_report" where
  "final_report_of s = (let g = ls_gate s in
     \<lparr>fr_status = final_status g, fr_completed = gc_completed g, fr_rounds_run = length (ls_rounds s), fr_max_rounds = max 1 (gc_budget g),
      fr_abort = gc_abort g, fr_failure = gc_failure g, fr_plan = ls_plan s, fr_task_state = ls_task_state s, fr_contract = ls_contract s,
      fr_latest = latest_auditor_report_text (ls_rounds s), fr_response = gc_response g, fr_rounds = ls_rounds s\<rparr>)"

text \<open>\<open>_write_terminal_failure\<close>; \<open>existing\<close> is the report on disk, if there is a readable one.\<close>

definition REPORT_STATUSES :: "string list" where
  "REPORT_STATUSES = [''complete'', ''completed'', ''cancelled'', ''failed'', ''blocked'', ''incomplete'']"

definition write_terminal_failure :: "final_report option \<Rightarrow> loop_exn \<Rightarrow> loop_state \<Rightarrow> final_report" where
  "write_terminal_failure existing x s = (case (case existing of
       Some r \<Rightarrow> if fr_status r \<in> set REPORT_STATUSES then Some r else None | None \<Rightarrow> None) of
     Some r \<Rightarrow> r
   | None \<Rightarrow>
       let g = ls_gate s;
           (status, abort, reason) = (case x of
              LoopCancelled \<Rightarrow> (''cancelled'', ''worker_cancelled'', ''worker task was cancelled'')
            | LoopCrashed e \<Rightarrow> (''failed'', ''worker_exception'', ''management loop crashed: '' @ e))
       in \<lparr>fr_status = status, fr_completed = gc_completed g, fr_rounds_run = length (ls_rounds s), fr_max_rounds = gc_budget g,
           fr_abort = abort, fr_failure = reason,
           fr_plan = (if ls_rounds s = [] then [] else mr_plan (last (ls_rounds s))),
           fr_task_state = (if ls_rounds s = [] then [] else mr_task_state (last (ls_rounds s))),
           fr_contract = (if ls_rounds s = [] then [] else mr_contract (last (ls_rounds s))),
           fr_latest = latest_auditor_report_text (ls_rounds s), fr_response = gc_response g, fr_rounds = ls_rounds s\<rparr>)"

definition fresh_gate :: "int \<Rightarrow> gate_context" where
  "fresh_gate budget = \<lparr>gc_budget = budget, gc_completed = False, gc_abort = [], gc_carryover = [], gc_operator = [],
     gc_response_round = 0, gc_response = [], gc_failure = []\<rparr>"

text \<open>The state before the first round; \<open>resumed\<close> is what a resumed worker reads from the ledger.\<close>

definition start_state :: "loop_env \<Rightarrow> managed_round list \<Rightarrow> managed_round list option \<Rightarrow> loop_state" where
  "start_state w ledger resumed =
     (let restored = (case resumed of None \<Rightarrow> [] | Some rs \<Rightarrow> rs);
          i = (if restored = [] then 0 else mr_index (last restored));
          s = \<lparr>ls_index = i, ls_rounds = restored, ls_ledger = ledger,
               ls_plan = (if restored = [] then [] else mr_plan (last restored)),
               ls_task_state = (if restored = [] then [] else mr_task_state (last restored)),
               ls_contract = (if restored = [] then [] else mr_contract (last restored)),
               ls_gate = fresh_gate (i + max 1 (lw_max_episodes w)), ls_events = []\<rparr>
      in (if resumed = None then append_event ''role_harness_start'' [] s
          else append_event ''role_harness_resumed'' [] (append_event ''role_harness_start'' [] s)))"

text \<open>A worker from start to report; \<open>None\<close> is a run that the operator keeps going for ever.\<close>

definition manager_run :: "loop_env \<Rightarrow> managed_round list \<Rightarrow> managed_round list option \<Rightarrow> final_report option \<Rightarrow> final_report option" where
  "manager_run w ledger resumed existing =
     map_option (\<lambda>r. case r of Inl (x, s) \<Rightarrow> write_terminal_failure existing x s | Inr s \<Rightarrow> final_report_of s)
       (manager_loop w (start_state w ledger resumed))"

section \<open>Resuming from the ledger\<close>

definition round_as_dict :: "managed_round \<Rightarrow> pydict" where
  "round_as_dict r =
     [(''round_index'', PInt (mr_index r)), (''next_step'', PStr (step_name (mr_next r))), (''plan_text'', PStr (mr_plan r)),
      (''executor_output'', PStr (mr_executor_output r)), (''auditor_report'', PStr (mr_auditor_report r)),
      (''harness_feedback'', PStr (mr_feedback r)), (''task_state'', PStr (mr_task_state r)), (''task_contract'', PStr (mr_contract r)),
      (''related_report_refs'', PList (map PStr (mr_refs r))), (''manager_status'', PDict (mr_manager_status r)),
      (''executor_status'', PDict (mr_executor_status r)), (''auditor_status'', PDict (mr_auditor_status r))]"

definition step_named :: "string \<Rightarrow> next_step" where
  "step_named n = (if n = ''gui'' then NextGui else if n = ''cli'' then NextCli else if n = ''done'' then NextDone
     else if n = ''blocked'' then NextBlocked else if n = ''ask'' then NextAsk else NextInvalid)"

definition text_of :: "pydict \<Rightarrow> string \<Rightarrow> string" where
  "text_of d k = (case dget d k of PStr t \<Rightarrow> t | _ \<Rightarrow> [])"

definition status_of :: "pydict \<Rightarrow> string \<Rightarrow> pydict" where
  "status_of d k = (case dget d k of PDict e \<Rightarrow> e | _ \<Rightarrow> [])"

text \<open>\<open>None\<close> is \<open>TypeError\<close>: a list or dictionary cannot be looked up in the set of routes.\<close>

definition managed_round_from_dict :: "int \<Rightarrow> pydict \<Rightarrow> managed_round option" where
  "managed_round_from_dict i d =
     (case (case dget d ''next_step'' of PStr n \<Rightarrow> Some (step_named n) | PList _ \<Rightarrow> None | PDict _ \<Rightarrow> None | _ \<Rightarrow> Some NextInvalid) of
        None \<Rightarrow> None
      | Some n \<Rightarrow> Some \<lparr>mr_index = i, mr_next = n, mr_plan = text_of d ''plan_text'', mr_executor_output = text_of d ''executor_output'',
           mr_auditor_report = text_of d ''auditor_report'', mr_feedback = text_of d ''harness_feedback'',
           mr_task_state = text_of d ''task_state'', mr_contract = text_of d ''task_contract'',
           mr_refs = (case dget d ''related_report_refs'' of
              PList vs \<Rightarrow> List.map_filter (\<lambda>v. case v of PStr t \<Rightarrow> Some t | _ \<Rightarrow> None) vs | _ \<Rightarrow> []),
           mr_manager_status = status_of d ''manager_status'', mr_executor_status = status_of d ''executor_status'',
           mr_auditor_status = status_of d ''auditor_status''\<rparr>)"

text \<open>The lines of the ledger as \<open>json.loads\<close> gives them; \<open>None\<close> is a blank or malformed line.\<close>

definition ledger_line :: "pyval option \<Rightarrow> managed_round option" where
  "ledger_line v = (case v of
       Some (PDict d) \<Rightarrow> (case dget d ''round_index'' of
           PInt i \<Rightarrow> if 1 \<le> i \<and> i \<le> MAX_ROUNDS then managed_round_from_dict i d else None
         | _ \<Rightarrow> None)
     | _ \<Rightarrow> None)"

fun latest_by_index :: "(int \<times> managed_round) list \<Rightarrow> managed_round list \<Rightarrow> (int \<times> managed_round) list" where
  "latest_by_index m [] = m"
| "latest_by_index m (r # rs) = latest_by_index (aupd (mr_index r) r m) rs"

definition recorded_rounds :: "pyval option list \<Rightarrow> managed_round list" where
  "recorded_rounds vs = map snd (sort_key fst (latest_by_index [] (List.map_filter ledger_line vs)))"

section \<open>Lemmas\<close>

subsection \<open>What the gate leaves alone\<close>

definition same_rounds :: "loop_state \<Rightarrow> loop_state \<Rightarrow> bool" where
  "same_rounds s s' = (ls_index s' = ls_index s \<and> ls_rounds s' = ls_rounds s \<and> ls_ledger s' = ls_ledger s)"

definition same_gate :: "loop_state \<Rightarrow> loop_state \<Rightarrow> bool" where
  "same_gate s s' = (gc_budget (ls_gate s') = gc_budget (ls_gate s) \<and> gc_completed (ls_gate s') = gc_completed (ls_gate s) \<and>
     gc_abort (ls_gate s') = gc_abort (ls_gate s) \<and> gc_carryover (ls_gate s') = gc_carryover (ls_gate s) \<and>
     gc_operator (ls_gate s') = gc_operator (ls_gate s))"

lemmas loop_simps = on_gate_def append_event_def abort_with_def record_round_def mark_cancelled_def discard_final_response_def
lemmas frame_defs = same_rounds_def same_gate_def

lemma write_final_response_frame:
  assumes "write_final_response w e s = (c, s')"
  shows "same_rounds s s' \<and> same_gate s s'"
  using assms
  by (auto simp: write_final_response_def run_role_episode_def loop_simps frame_defs Let_def
      split: if_splits agent_reply.splits)

text \<open>Every gate leaves the rounds alone and ends in one of three ways.\<close>

definition settled :: "loop_state \<Rightarrow> bool" where
  "settled s = ((gc_completed (ls_gate s) \<and> gc_abort (ls_gate s) = []) \<or> (\<not> gc_completed (ls_gate s) \<and> gc_abort (ls_gate s) \<noteq> []))"

definition going_on :: "loop_state \<Rightarrow> bool" where
  "going_on s = (\<not> gc_completed (ls_gate s) \<and> gc_abort (ls_gate s) = [] \<and> ls_index s < gc_budget (ls_gate s))"

definition at_gate :: "string \<Rightarrow> loop_state \<Rightarrow> bool" where
  "at_gate outcome s = (gc_abort (ls_gate s) = [] \<and> gc_completed (ls_gate s) = (outcome = ''completed''))"

lemma unattended_gate_ends:
  assumes "unattended_gate w outcome (reached_max s) s = (stop, s')" and "at_gate outcome s"
  shows "same_rounds s s' \<and> (if stop then settled s' \<and> (gc_completed (ls_gate s') \<longrightarrow> gc_completed (ls_gate s)) else going_on s') \<and>
     gc_budget (ls_gate s') = gc_budget (ls_gate s)"
proof (cases "outcome = ''ask''")
  case True
  obtain c s1 where w: "write_final_response w ''needs_human_input'' (abort_with ''needs_human_input'' s) = (c, s1)" by fastforce
  have f: "same_rounds s s1" "\<not> gc_completed (ls_gate s1)" "gc_abort (ls_gate s1) = ''needs_human_input''"
    "gc_budget (ls_gate s1) = gc_budget (ls_gate s)"
    using write_final_response_frame [OF w] assms(2) True by (auto simp: frame_defs abort_with_def on_gate_def at_gate_def)
  have "stop" "s' = (if c then mark_cancelled s1 else s1)"
    using assms w True by (auto simp: unattended_gate_def at_gate_def)
  then show ?thesis using f by (auto simp: same_rounds_def settled_def mark_cancelled_def on_gate_def)
next
  case False
  then show ?thesis
    using assms by (auto simp: unattended_gate_def at_gate_def reached_max_def loop_simps frame_defs settled_def going_on_def split: if_splits)
qed

lemma stop_gate_ends:
  assumes "at_gate outcome s"
  shows "same_rounds s (stop_gate w outcome (reached_max s) s) \<and> settled (stop_gate w outcome (reached_max s) s) \<and>
     (gc_completed (ls_gate (stop_gate w outcome (reached_max s) s)) \<longrightarrow> gc_completed (ls_gate s))"
proof -
  define s1 where "s1 = (if reached_max s then abort_with ''max_rounds_exhausted'' s
                else if outcome = ''blocked'' then abort_with ''manager_blocked'' s
                else if outcome = ''ask'' then abort_with ''human_abort'' s
                else if \<not> gc_completed (ls_gate s) then abort_with ''human_abort'' s else s)"
  obtain c s2 where w: "write_final_response w (gc_abort (ls_gate s1)) s1 = (c, s2)" by fastforce
  have "same_rounds s s1" "settled s1" "gc_completed (ls_gate s1) = gc_completed (ls_gate s)"
    using assms by (auto simp: s1_def loop_simps frame_defs settled_def at_gate_def reached_max_def)
  moreover have "same_rounds s1 s2" "same_gate s1 s2" using write_final_response_frame [OF w] by auto
  moreover have "stop_gate w outcome (reached_max s) s = (if c then mark_cancelled s2 else s2)"
    using w by (simp add: stop_gate_def s1_def [symmetric] Let_def)
  ultimately show ?thesis by (auto simp: frame_defs settled_def mark_cancelled_def on_gate_def)
qed

lemma continue_gate_goes_on:
  assumes "at_gate outcome s" and "outcome \<in> set [''completed'', ''blocked'', ''ask'', ''progress'']"
  shows "same_rounds s (continue_gate w outcome (reached_max s) v s) \<and> going_on (continue_gate w outcome (reached_max s) v s)"
proof -
  define s2 where "s2 = (if outcome = ''completed'' then on_gate (\<lambda>g. g\<lparr>gc_completed := False\<rparr>) (discard_final_response s)
      else discard_final_response s)"
  have d: "same_rounds s (discard_final_response s)" "same_gate s (discard_final_response s)"
    by (simp_all add: loop_simps frame_defs)
  have s2: "same_rounds s s2" "\<not> gc_completed (ls_gate s2)" "gc_abort (ls_gate s2) = []" "gc_budget (ls_gate s2) = gc_budget (ls_gate s)"
    using d assms(1) by (simp_all add: s2_def frame_defs on_gate_def at_gate_def)
  have c: "continue_gate w outcome (reached_max s) v s = (if reached_max s \<or> outcome \<in> set [''completed'', ''blocked'']
      then append_event ''human_continue_after_finish'' [] (on_gate (\<lambda>g. g\<lparr>gc_budget := granted_budget w (ls_index s) v\<rparr>) s2) else s2)"
    by (simp add: continue_gate_def s2_def)
  have b: "ls_index s < granted_budget w (ls_index s) v" by (simp add: granted_budget_def Let_def)
  show ?thesis
  proof (cases "reached_max s \<or> outcome \<in> set [''completed'', ''blocked'']")
    case True
    then show ?thesis
      unfolding c using s2 b by (simp add: same_rounds_def going_on_def append_event_def on_gate_def)
  next
    case False
    then have "ls_index s < gc_budget (ls_gate s)" using assms(1) by (auto simp: reached_max_def at_gate_def)
    then show ?thesis unfolding c using False s2 by (simp add: same_rounds_def going_on_def)
  qed
qed

lemma reached_max_cong: "same_rounds s s' \<Longrightarrow> same_gate s s' \<Longrightarrow> reached_max s' = reached_max s"
  by (simp add: frame_defs reached_max_def)

lemma at_gate_cong: "same_gate s s' \<Longrightarrow> at_gate outcome s' = at_gate outcome s"
  by (simp add: frame_defs at_gate_def)

lemma carry_instructions_frame:
  "same_rounds s (carry_instructions t s)" "reached_max (carry_instructions t s) = reached_max s"
  "at_gate outcome (carry_instructions t s) = at_gate outcome s"
  by (simp_all add: carry_instructions_def on_gate_def frame_defs reached_max_def at_gate_def)

lemma same_rounds_trans: "same_rounds s s1 \<Longrightarrow> same_rounds s1 s2 \<Longrightarrow> same_rounds s s2"
  by (simp add: frame_defs)

lemma attended_gate_ends:
  assumes "at_gate outcome s" and "outcome \<in> set [''completed'', ''blocked'', ''ask'', ''progress'']"
  shows "case attended_gate w hook outcome (reached_max s) q as s of
     Inl (x, s') \<Rightarrow> s' = s
   | Inr (stop, s') \<Rightarrow> same_rounds s s' \<and> (if stop then settled s' \<and> (gc_completed (ls_gate s') \<longrightarrow> gc_completed (ls_gate s)) else going_on s')"
proof (cases "hook \<lparr>hc_outcome = outcome, hc_reached_max = reached_max s, hc_round = ls_index s, hc_question = q, hc_answers = as\<rparr> s")
  case (Decided v)
  define s1 where "s1 = carry_instructions (py_strip (str_or_empty (ue_render (lw_audit w)) (dget (decision_of v) ''instructions''))) s"
  have f: "same_rounds s s1" "reached_max s1 = reached_max s" "at_gate outcome s1" "gc_completed (ls_gate s1) = gc_completed (ls_gate s)"
    using assms(1) carry_instructions_frame [where s = s] by (auto simp: s1_def carry_instructions_def on_gate_def)
  have st: "same_rounds s1 (stop_gate w outcome (reached_max s) s1)" "settled (stop_gate w outcome (reached_max s) s1)"
    "gc_completed (ls_gate (stop_gate w outcome (reached_max s) s1)) \<longrightarrow> gc_completed (ls_gate s)"
    using stop_gate_ends [OF f(3), of w] f by auto
  have co: "same_rounds s1 (continue_gate w outcome (reached_max s) x s1)" "going_on (continue_gate w outcome (reached_max s) x s1)" for x
    using continue_gate_goes_on [OF f(3) assms(2), of w x] f by auto
  show ?thesis
    using st co same_rounds_trans [OF f(1)] by (simp add: attended_gate_def Decided s1_def [symmetric] Let_def)
qed (simp add: attended_gate_def)

lemma human_gate_ends:
  assumes "at_gate outcome s" and "outcome \<in> set [''completed'', ''blocked'', ''ask'', ''progress'']"
  shows "case human_gate w outcome q as s of
     Inl (x, s') \<Rightarrow> same_rounds s s' \<and> lw_hook w \<noteq> None \<and> (gc_completed (ls_gate s') \<longrightarrow> gc_completed (ls_gate s))
   | Inr (stop, s') \<Rightarrow> same_rounds s s' \<and> (if stop then settled s' \<and> (gc_completed (ls_gate s') \<longrightarrow> gc_completed (ls_gate s)) else going_on s') \<and>
       (lw_hook w = None \<longrightarrow> gc_budget (ls_gate s') = gc_budget (ls_gate s))"
proof -
  obtain c s1 where w: "(case gate_ending outcome s of None \<Rightarrow> (False, s) | Some e \<Rightarrow> write_final_response w e s) = (c, s1)" by fastforce
  have f: "same_rounds s s1" "same_gate s s1"
    using w write_final_response_frame by (auto simp: frame_defs split: option.splits)
  have g: "at_gate outcome s1" "reached_max s1 = reached_max s"
    using assms(1) at_gate_cong [OF f(2)] reached_max_cong [OF f] by auto
  show ?thesis
  proof (cases c)
    case True
    then have "human_gate w outcome q as s = Inr (True, mark_cancelled s1)" using w by (simp add: human_gate_def Let_def)
    then show ?thesis using f by (simp add: frame_defs mark_cancelled_def on_gate_def settled_def)
  next
    case False
    show ?thesis
    proof (cases "lw_hook w")
      case None
      obtain stop s' where u: "unattended_gate w outcome (reached_max s1) s1 = (stop, s')" by fastforce
      then have "human_gate w outcome q as s = Inr (stop, s')" using w False None g(2) by (simp add: human_gate_def Let_def)
      then show ?thesis using unattended_gate_ends [OF u g(1)] f by (auto simp: frame_defs split: if_splits)
    next
      case (Some hook)
      then have h: "human_gate w outcome q as s = attended_gate w hook outcome (reached_max s1) q as s1"
        using w False g(2) by (simp add: human_gate_def Let_def)
      show ?thesis
        using attended_gate_ends [OF g(1) assms(2), of w hook q as] f Some unfolding h
        by (auto simp: frame_defs split: sum.splits prod.splits if_splits)
    qed
  qed
qed

subsection \<open>What a round adds\<close>

definition round_pending :: "loop_state \<Rightarrow> loop_state \<Rightarrow> bool" where
  "round_pending s0 s = (ls_index s = ls_index s0 + 1 \<and> ls_rounds s = ls_rounds s0 \<and> ls_ledger s = ls_ledger s0)"

definition round_added :: "loop_state \<Rightarrow> loop_state \<Rightarrow> bool" where
  "round_added s0 s = (ls_index s = ls_index s0 + 1 \<and> (\<exists>r. mr_index r = ls_index s \<and> ls_rounds s = ls_rounds s0 @ [r] \<and>
     ls_ledger s = ls_ledger s0 @ [r]))"

text \<open>Completion was claimed on a clean and complete report of an earlier round.\<close>

definition completed_round :: "loop_env \<Rightarrow> loop_state \<Rightarrow> loop_state \<Rightarrow> bool" where
  "completed_round w s0 s = (latest_auditor_is_clean_complete (lw_audit w) (ls_rounds s0) \<and>
     (\<exists>r. ls_rounds s = ls_rounds s0 @ [r] \<and> mr_next r = NextDone))"

definition round_post :: "loop_env \<Rightarrow> loop_state \<Rightarrow> bool step_result \<Rightarrow> bool" where
  "round_post w s0 res = (case res of
       Inl (x, s) \<Rightarrow> round_added s0 s \<or> round_pending s0 s
     | Inr (stop, s) \<Rightarrow>
         (if stop then (round_added s0 s \<or> round_pending s0 s) \<and> settled s \<and> (gc_completed (ls_gate s) \<longrightarrow> completed_round w s0 s)
          else round_added s0 s \<and> going_on s) \<and>
         (lw_hook w = None \<longrightarrow> gc_budget (ls_gate s) = gc_budget (ls_gate s0)))"

text \<open>The state inside a round before its record.\<close>

definition open_round :: "loop_state \<Rightarrow> loop_state \<Rightarrow> bool" where
  "open_round s0 s = (round_pending s0 s \<and> \<not> gc_completed (ls_gate s) \<and> gc_abort (ls_gate s) = [] \<and>
     gc_budget (ls_gate s) = gc_budget (ls_gate s0))"

definition closed_round :: "loop_env \<Rightarrow> string \<Rightarrow> loop_state \<Rightarrow> loop_state \<Rightarrow> bool" where
  "closed_round w outcome s0 s = (round_added s0 s \<and> at_gate outcome s \<and> gc_budget (ls_gate s) = gc_budget (ls_gate s0) \<and>
     (outcome = ''completed'' \<longrightarrow> completed_round w s0 s))"

lemmas round_defs = round_pending_def round_added_def completed_round_def open_round_def closed_round_def

lemma append_event_sel [simp]:
  "ls_index (append_event n t s) = ls_index s" "ls_rounds (append_event n t s) = ls_rounds s"
  "ls_ledger (append_event n t s) = ls_ledger s" "ls_gate (append_event n t s) = ls_gate s"
  by (simp_all add: append_event_def)

lemma open_round_event [simp]: "open_round s0 (append_event n t s) = open_round s0 s"
  by (simp add: round_defs)

lemma closed_round_event [simp]: "closed_round w out s0 (append_event n t s) = closed_round w out s0 s"
  by (simp add: round_defs at_gate_def)

lemma close_round:
  "open_round s0 s \<Longrightarrow> mr_index r = ls_index s \<Longrightarrow> out \<noteq> ''completed'' \<Longrightarrow> closed_round w out s0 (record_round r s)"
  by (auto simp: round_defs record_round_def at_gate_def)

lemma same_rounds_added: "same_rounds s s' \<Longrightarrow> round_added s0 s \<Longrightarrow> round_added s0 s'"
  by (auto simp: same_rounds_def round_added_def)

lemma gate_post:
  assumes "closed_round w outcome s0 s" and "outcome \<in> set [''completed'', ''blocked'', ''ask'', ''progress'']"
  shows "round_post w s0 (human_gate w outcome q as s)"
proof -
  have a: "at_gate outcome s" "round_added s0 s" "gc_budget (ls_gate s) = gc_budget (ls_gate s0)"
    "gc_completed (ls_gate s) \<longrightarrow> completed_round w s0 s"
    using assms(1) by (auto simp: closed_round_def at_gate_def)
  have c: "same_rounds s s' \<Longrightarrow> completed_round w s0 s \<Longrightarrow> completed_round w s0 s'" for s'
    by (simp add: same_rounds_def completed_round_def)
  show ?thesis
    using human_gate_ends [OF a(1) assms(2), of w q as] a(2-4) same_rounds_added [OF _ a(2)] c
    unfolding round_post_def by (auto split: sum.splits if_splits)
qed

lemma cancel_post:
  "round_added s0 s \<or> round_pending s0 s \<Longrightarrow> \<not> gc_completed (ls_gate s) \<Longrightarrow> gc_budget (ls_gate s) = gc_budget (ls_gate s0) \<Longrightarrow>
     round_post w s0 (cancel_round s)"
  by (auto simp: cancel_round_def round_post_def round_added_def round_pending_def abort_with_def on_gate_def settled_def)

lemma cancel_recorded:
  "open_round s0 s \<Longrightarrow> mr_index r = ls_index s \<Longrightarrow> round_post w s0 (cancel_round (record_round r s))"
  by (rule cancel_post) (auto simp: round_defs record_round_def)

lemma failure_post:
  "open_round s0 s \<Longrightarrow> mr_index r = ls_index s \<Longrightarrow> round_post w s0 (after_failure w kind msg (record_round r s))"
proof -
  assume o: "open_round s0 s" and r: "mr_index r = ls_index s"
  have c: "closed_round w ''progress'' s0 (record_round r s)" using close_round [OF o r] by simp
  show ?thesis
  proof (cases "kind = ''timeout''")
    case True
    then show ?thesis using c gate_post [of w "''progress''" s0] by (simp add: after_failure_def)
  next
    case False
    then show ?thesis
      using c by (auto simp: after_failure_def round_post_def closed_round_def at_gate_def round_added_def on_gate_def settled_def)
  qed
qed

lemma run_role_episode_state:
  "run_role_episode reply s = Inl (x, s') \<Longrightarrow> s' = s" "run_role_episode reply s = Inr (r, s') \<Longrightarrow> s' = s"
  by (auto simp: run_role_episode_def split: agent_reply.splits)

lemma lbind_episode:
  assumes "open_round s0 s" and "\<And>r. round_post w s0 (f r s)"
  shows "round_post w s0 (sbind (run_role_episode reply s) f)"
proof (cases "run_role_episode reply s")
  case (Inl p)
  obtain x s' where p: "p = (x, s')" by (cases p)
  then have "s' = s" using Inl run_role_episode_state(1) by blast
  then show ?thesis using assms(1) Inl p by (simp add: round_post_def open_round_def)
next
  case (Inr p)
  obtain r s' where p: "p = (r, s')" by (cases p)
  then have "s' = s" using Inr run_role_episode_state(2) by blast
  then show ?thesis using assms(2) Inr p by simp
qed

text \<open>The repair of a report only logs.\<close>

lemma auditor_report_text_state:
  "(case auditor_report_text w r s of Inl (x, s') \<Rightarrow> s' = s | Inr (t, s') \<Rightarrow> s' = s)"
  by (simp add: auditor_report_text_def split: option.splits)

lemma lbind_report:
  "open_round s0 s \<Longrightarrow> (\<And>t. round_post w s0 (f t s)) \<Longrightarrow> round_post w s0 (sbind (auditor_report_text w r s) f)"
  by (cases "audit_report_from_episode_result (lw_audit w) r")
     (simp_all add: auditor_report_text_def round_post_def [of _ _ "Inl _"] open_round_def)

lemma lbind_assoc: "sbind (sbind m f) g = sbind m (\<lambda>a s. sbind (f a s) g)"
  by (cases m) auto

lemma lbind_repair:
  assumes "open_round s0 s" and "\<And>p s'. open_round s0 s' \<Longrightarrow> ls_index s' = ls_index s \<Longrightarrow> round_post w s0 (f p s')"
  shows "round_post w s0 (sbind (auditor_report_with_format_repair w r s) f)"
proof (cases "should_repair_auditor_format r (auditor_report_text_from_episode_result (lw_audit w) r)")
  case False
  then show ?thesis
    using assms by (auto simp: auditor_report_with_format_repair_def lbind_assoc intro!: lbind_report)
next
  case True
  then show ?thesis
    unfolding auditor_report_with_format_repair_def Let_def using assms
    by (auto simp: lbind_assoc intro!: lbind_episode lbind_report)
qed

lemma audit_phase_post:
  assumes "open_round s0 s" and "mr_index base = ls_index s"
  shows "round_post w s0 (audit_phase w n base m e s)"
proof -
  let ?d = "base\<lparr>mr_executor_output := executor_text w e, mr_executor_status := episode_status e\<rparr>"
  let ?s = "append_event ''auditor_role_start'' [] s"
  have o: "open_round s0 ?s" "mr_index base = ls_index ?s" using assms by simp_all
  have "round_post w s0 (if ep_status a = ''cancelled'' then cancel_round (record_round (?d\<lparr>mr_auditor_status := episode_status a\<rparr>) ?s)
      else case lw_classify w a of
        Some (kind, msg) \<Rightarrow> after_failure w kind msg (record_round (?d\<lparr>mr_feedback := msg,
            mr_manager_status := episode_status m, mr_auditor_status := failed_episode_status a msg\<rparr>) ?s)
      | None \<Rightarrow>
          sbind (auditor_report_with_format_repair w a ?s) (\<lambda>(report, status) s3.
          if (case dget status ''format_repair_status'' of PDict d \<Rightarrow> dget d ''status'' = PStr ''cancelled'' | _ \<Rightarrow> False)
          then cancel_round (record_round (?d\<lparr>mr_auditor_status := status\<rparr>) s3)
          else human_gate w ''progress'' [] [] (append_event ''auditor_role_done'' []
                 (record_round (?d\<lparr>mr_auditor_report := report, mr_auditor_status := status\<rparr>) s3))))" for a
    using o
    by (auto simp: case_prod_beta intro!: cancel_recorded failure_post lbind_repair gate_post close_round split: option.splits)
  then show ?thesis using o(1) by (simp only: audit_phase_def Let_def) (rule lbind_episode)
qed

lemma work_phase_post:
  assumes "open_round s0 s" and "mr_index base = ls_index s"
  shows "round_post w s0 (work_phase w n base m s)"
proof -
  let ?s = "append_event ''executor_role_start'' [] s"
  have o: "open_round s0 ?s" "mr_index base = ls_index ?s" using assms by simp_all
  show ?thesis
    unfolding work_phase_def Let_def using o
    by (intro lbind_episode) (auto intro!: cancel_recorded failure_post audit_phase_post split: option.splits)
qed

lemma dispatch_step_post:
  assumes "open_round s0 s"
  shows "round_post w s0 (dispatch_step w n plan refs m s)"
proof -
  have i: "mr_index (round_of (ls_index s) k plan t c refs) = ls_index s" for k t c by (simp add: round_of_def)
  have d: "closed_round w ''completed'' s0 (record_round (round_of (ls_index s) NextDone plan t c refs) (on_gate (\<lambda>g. g\<lparr>gc_completed := True\<rparr>) s))"
    if "latest_auditor_is_clean_complete (lw_audit w) (ls_rounds s)" for t c
    using assms that by (auto simp: round_defs record_round_def on_gate_def at_gate_def round_of_def)
  show ?thesis
  proof (cases "n = NextDone \<and> latest_auditor_is_clean_complete (lw_audit w) (ls_rounds s)")
    case True
    then show ?thesis using gate_post [OF d] by (simp add: dispatch_step_def)
  next
    case False
    then show ?thesis
      using assms i by (cases n) (auto simp: dispatch_step_def Let_def intro!: gate_post close_round work_phase_post)
  qed
qed

lemma manager_round_post:
  assumes "going_on s0"
  shows "round_post w s0 (manager_round w s0)"
proof -
  let ?s1 = "prompt_state w s0"
  let ?s2 = "append_event ''manager_round_start'' [] (inject_instructions ?s1)"
  have o: "open_round s0 ?s2"
    using assms by (simp add: round_defs going_on_def prompt_state_def claim_pending_def inject_instructions_def on_gate_def Let_def)
  have p: "round_post w s0 (manager_planned w r ?s2)" for r
    unfolding manager_planned_def Let_def by (rule dispatch_step_post) (use o in \<open>simp add: round_defs\<close>)
  have f: "round_post w s0 (manager_failed w r k m ?s2)" for r k m
    unfolding manager_failed_def Let_def by (rule failure_post [OF o]) (simp add: round_of_def)
  have c: "round_post w s0 (cancel_round ?s2)" using o by (intro cancel_post) (auto simp: round_defs)
  show ?thesis
    unfolding manager_round_def Let_def using o p f c by (intro lbind_episode) (auto split: option.splits)
qed

subsection \<open>The whole loop\<close>

text \<open>The rounds added since \<open>s0\<close> carry the next indices, one each, and the ledger has them all.\<close>

definition rounds_since :: "loop_state \<Rightarrow> loop_state \<Rightarrow> bool" where
  "rounds_since s0 s = (\<exists>new. ls_rounds s = ls_rounds s0 @ new \<and> ls_ledger s = ls_ledger s0 @ new \<and>
     map mr_index new = [ls_index s0 + 1..ls_index s0 + int (length new)] \<and>
     ls_index s \<in> {ls_index s0 + int (length new), ls_index s0 + int (length new) + 1})"

lemma rounds_since_refl: "rounds_since s s"
  unfolding rounds_since_def by (intro exI [of _ "[]"]) simp

lemma rounds_since_step:
  assumes "rounds_since s0 s" and "ls_index s = ls_index s0 + int (length (ls_rounds s) - length (ls_rounds s0))"
    and "round_added s s' \<or> round_pending s s'"
  shows "rounds_since s0 s'"
    and "round_added s s' \<Longrightarrow> ls_index s' = ls_index s0 + int (length (ls_rounds s') - length (ls_rounds s0))"
proof -
  obtain new where n: "ls_rounds s = ls_rounds s0 @ new" "ls_ledger s = ls_ledger s0 @ new"
    "map mr_index new = [ls_index s0 + 1..ls_index s0 + int (length new)]" "ls_index s = ls_index s0 + int (length new)"
    using assms(1,2) by (auto simp: rounds_since_def)
  have u: "[ls_index s0 + 1..ls_index s0 + int (length new) + 1] = [ls_index s0 + 1..ls_index s0 + int (length new)] @ [ls_index s0 + int (length new) + 1]"
    using upto_rec2 [of "ls_index s0 + 1" "ls_index s0 + int (length new) + 1"] by simp
  show "rounds_since s0 s'"
    using assms(3)
  proof
    assume "round_added s s'"
    then obtain r where "mr_index r = ls_index s + 1" "ls_rounds s' = ls_rounds s @ [r]" "ls_ledger s' = ls_ledger s @ [r]" "ls_index s' = ls_index s + 1"
      by (auto simp: round_added_def)
    then show ?thesis unfolding rounds_since_def using n u by (intro exI [of _ "new @ [r]"]) (simp add: ac_simps)
  next
    assume "round_pending s s'"
    then show ?thesis unfolding rounds_since_def using n by (intro exI [of _ new]) (simp add: round_pending_def)
  qed
  show "ls_index s' = ls_index s0 + int (length (ls_rounds s') - length (ls_rounds s0))" if "round_added s s'"
    using that n by (auto simp: round_added_def)
qed

text \<open>What a finished loop leaves.\<close>

definition loop_post :: "loop_env \<Rightarrow> loop_state \<Rightarrow> (loop_exn \<times> loop_state) + loop_state \<Rightarrow> bool" where
  "loop_post w s0 r = (case r of
       Inl (x, s) \<Rightarrow> rounds_since s0 s
     | Inr s \<Rightarrow> rounds_since s0 s \<and> settled s \<and> (gc_completed (ls_gate s) \<longrightarrow> (\<exists>rs d. ls_rounds s = rs @ [d] \<and> mr_next d = NextDone \<and>
         latest_auditor_is_clean_complete (lw_audit w) rs)))"

lemma manager_loop_post:
  assumes "manager_loop w s = Some r" and "going_on s" and "rounds_since s0 s"
    and "ls_index s = ls_index s0 + int (length (ls_rounds s) - length (ls_rounds s0))"
  shows "loop_post w s0 r"
proof -
  have "going_on s \<longrightarrow> rounds_since s0 s \<longrightarrow> ls_index s = ls_index s0 + int (length (ls_rounds s) - length (ls_rounds s0)) \<longrightarrow> loop_post w s0 r"
    using assms(1)
  proof (induction rule: manager_loop.raw_induct [rotated, consumes 1, case_names step])
    case (step loop w s r)
    show ?case
    proof (intro impI)
      assume g: "going_on s" and since: "rounds_since s0 s" "ls_index s = ls_index s0 + int (length (ls_rounds s) - length (ls_rounds s0))"
      have b: "ls_index s < gc_budget (ls_gate s)" using g by (simp add: going_on_def)
      note p = manager_round_post [OF g, of w] and st = rounds_since_step [OF since]
      show "loop_post w s0 r"
      proof (cases "manager_round w s")
        case (Inl y)
        then show ?thesis using step(2) b p st(1) by (cases y) (auto simp: loop_post_def round_post_def)
      next
        case (Inr y)
        obtain stop s' where y: "y = (stop, s')" by (cases y)
        show ?thesis
        proof (cases stop)
          case True
          then have "r = Inr s'" using step(2) b Inr y by simp
          then show ?thesis using p st(1) Inr y True by (auto simp: loop_post_def round_post_def completed_round_def)
        next
          case False
          then have "loop w s' = Some r" using step(2) b Inr y by simp
          moreover have "round_added s s'" "going_on s'" using p Inr y False by (auto simp: round_post_def)
          ultimately show ?thesis using step(1) st by blast
        qed
      qed
    qed
  qed
  then show ?thesis using assms(2-4) by blast
qed

subsection \<open>Without an operator\<close>

lemma manager_loop_unattended:
  assumes "lw_hook w = None" and "going_on s"
  shows "\<exists>r. manager_loop w s = Some r \<and> (case r of Inl (x, s') \<Rightarrow> ls_index s' | Inr s' \<Rightarrow> ls_index s') \<le> gc_budget (ls_gate s)"
  using assms(2)
proof (induction "nat (gc_budget (ls_gate s) - ls_index s)" arbitrary: s rule: less_induct)
  case less
  have b: "ls_index s < gc_budget (ls_gate s)" using less(2) by (simp add: going_on_def)
  note p = manager_round_post [OF less(2), of w]
  show ?case
  proof (cases "manager_round w s")
    case (Inl y)
    then show ?thesis using b p by (subst manager_loop.simps) (auto simp: round_post_def round_added_def round_pending_def split: prod.splits)
  next
    case (Inr y)
    obtain stop s' where y: "y = (stop, s')" by (cases y)
    have i: "ls_index s' = ls_index s + 1" "gc_budget (ls_gate s') = gc_budget (ls_gate s)" "\<not> stop \<Longrightarrow> going_on s'"
      using p Inr y assms(1) by (auto simp: round_post_def round_added_def round_pending_def split: if_splits)
    show ?thesis
    proof (cases stop)
      case True
      then show ?thesis using b Inr y i by (subst manager_loop.simps) simp
    next
      case False
      then obtain r where "manager_loop w s' = Some r" "(case r of Inl (x, s') \<Rightarrow> ls_index s' | Inr s' \<Rightarrow> ls_index s') \<le> gc_budget (ls_gate s')"
        using less(1) [of s'] i b by auto
      then show ?thesis using b Inr y i False by (subst manager_loop.simps) simp
    qed
  qed
qed

lemma start_state_going: "going_on (start_state w ledger resumed)"
  by (simp add: start_state_def going_on_def fresh_gate_def Let_def less_max_iff_disj split: option.split)

lemma start_state_sel [simp]:
  "ls_rounds (start_state w ledger resumed) = (case resumed of None \<Rightarrow> [] | Some rs \<Rightarrow> rs)"
  "ls_ledger (start_state w ledger resumed) = ledger"
  by (simp_all add: start_state_def Let_def)

lemma manager_run_cases:
  assumes "manager_run w ledger resumed existing = Some rep"
  obtains (crash) x s where "rep = write_terminal_failure existing x s" "rounds_since (start_state w ledger resumed) s"
  | (report) s where "rep = final_report_of s" "loop_post w (start_state w ledger resumed) (Inr s)"
proof -
  obtain r where r: "manager_loop w (start_state w ledger resumed) = Some r"
    "rep = (case r of Inl (x, s) \<Rightarrow> write_terminal_failure existing x s | Inr s \<Rightarrow> final_report_of s)"
    using assms by (auto simp: manager_run_def)
  have post: "loop_post w (start_state w ledger resumed) r"
    using manager_loop_post [OF r(1) start_state_going rounds_since_refl] by simp
  show thesis
  proof (cases r)
    case (Inl p)
    then show thesis using r(2) post crash by (cases p) (auto simp: loop_post_def)
  next
    case (Inr s)
    then show thesis using r(2) post report by simp
  qed
qed

lemma rounds_since_count: "rounds_since s0 s \<Longrightarrow> int (length (ls_rounds s)) \<le> int (length (ls_rounds s0)) + (ls_index s - ls_index s0)"
  by (auto simp: rounds_since_def)

subsection \<open>The ledger read back\<close>

lemma step_named_name [simp]: "step_named (step_name n) = n"
  by (cases n) (simp_all add: step_named_def step_name_def)

lemma ledger_line_dict:
  "1 \<le> mr_index r \<Longrightarrow> mr_index r \<le> MAX_ROUNDS \<Longrightarrow> ledger_line (Some (PDict (round_as_dict r))) = Some r"
  by (simp add: ledger_line_def round_as_dict_def managed_round_from_dict_def text_of_def status_of_def map_filter_def comp_def)

lemma aupd_fresh: "k \<notin> fst ` set m \<Longrightarrow> aupd k v m = m @ [(k, v)]"
  by (induction m) auto

lemma latest_by_index_distinct:
  "distinct (map mr_index rs) \<Longrightarrow> fst ` set m \<inter> mr_index ` set rs = {} \<Longrightarrow>
     latest_by_index m rs = m @ map (\<lambda>r. (mr_index r, r)) rs"
proof (induction rs arbitrary: m)
  case (Cons r rs)
  then show ?case using aupd_fresh [of "mr_index r" m r] by auto
qed simp

lemma recorded_rounds_ascending:
  assumes "sorted (map mr_index rs)" and "distinct (map mr_index rs)" and "list_all (\<lambda>r. 1 \<le> mr_index r \<and> mr_index r \<le> MAX_ROUNDS) rs"
  shows "recorded_rounds (map (\<lambda>r. Some (PDict (round_as_dict r))) rs) = rs"
proof -
  have "List.map_filter ledger_line (map (\<lambda>r. Some (PDict (round_as_dict r))) rs) = rs"
    using assms(3) by (induction rs) (simp_all add: List.map_filter_simps ledger_line_dict)
  then show ?thesis
    using assms(1,2) by (simp add: recorded_rounds_def latest_by_index_distinct sorted_sort_id sort_key_id_if_sorted comp_def)
qed

lemma rounds_since_indices:
  assumes "rounds_since s0 s" and "ls_rounds s0 = []" and "ls_ledger s0 = []" and "ls_index s0 = 0" and "ls_index s \<le> MAX_ROUNDS"
  shows "recorded_rounds (map (\<lambda>r. Some (PDict (round_as_dict r))) (ls_ledger s)) = ls_rounds s"
proof -
  obtain new where n: "ls_rounds s = new" "ls_ledger s = new" "map mr_index new = [1..int (length new)]" "int (length new) \<le> MAX_ROUNDS"
    using assms by (auto simp: rounds_since_def)
  have "sorted (map mr_index new)" "distinct (map mr_index new)" unfolding n(3) by simp_all
  moreover have "list_all (\<lambda>r. 1 \<le> mr_index r \<and> mr_index r \<le> MAX_ROUNDS) new"
  proof -
    have "mr_index r \<in> set [1..int (length new)]" if "r \<in> set new" for r using that n(3) by (metis imageI set_map)
    then show ?thesis using n(4) by (force simp: list_all_iff)
  qed
  ultimately show ?thesis using n recorded_rounds_ascending by simp
qed

subsection \<open>A concrete run\<close>

definition said :: "string \<Rightarrow> agent_reply" where
  "said t = Replied \<lparr>ep_status = ''done'', ep_actions_log = t, ep_error = None, ep_duration = 1, ep_metadata = []\<rparr>"

definition demo_loop :: "(loop_state \<Rightarrow> agent_reply) \<Rightarrow> loop_env" where
  "demo_loop manager = \<lparr>lw_audit = \<lparr>ue_visible = (\<lambda>_. []), ue_assistant = (\<lambda>_. []), ue_workspace = ''/w'', ue_render = (\<lambda>_. [])\<rparr>,
     lw_manager = manager, lw_executor = (\<lambda>_ _. said ''ok''), lw_auditor = (\<lambda>_ _. said reread_tail), lw_repair = (\<lambda>_. ReplyRaised []),
     lw_response = (\<lambda>_ _. ReplyRaised []), lw_classify = (\<lambda>_. None), lw_hook = None, lw_pending = None, lw_max_episodes = 2,
     lw_disable_gui = None\<rparr>"

definition audited_round :: managed_round where
  "audited_round = (round_of 1 NextCli ''Next: cli'' [] [] [])\<lparr>mr_auditor_report := reread_tail\<rparr>"

lemma demo_audit_clean: "latest_auditor_is_clean_complete (lw_audit (demo_loop m)) [audited_round]"
proof -
  let ?e = "lw_audit (demo_loop m)"
  have a: "assistant_texts_from_compacted_openclaw_log reread_tail = []" "trim_to_report_start reread_tail = reread_tail"
    "py_strip reread_tail = reread_tail" "has_valid_control_header reread_tail" by code_simp+
  have l: "length reread_tail \<le> 2500" by (simp add: reread_tail_def)
  have "with_header (compact_auditor_report_text COMPACT_REPORT_CHARS (extract_auditor_report_text ?e reread_tail)) = reread_tail"
    using a l by (simp add: extract_auditor_report_text_def demo_loop_def clip_report_source_def clip_short
        compact_auditor_report_text_def COMPACT_REPORT_CHARS_def with_header_def)
  moreover have "infer_report_status reread_tail = ''complete''" "infer_integrity_status reread_tail = ''clean''"
    "infer_contract_audit_status reread_tail = ''aligned''" "\<not> has_blocking_acceptance_constraints reread_tail" by code_simp+
  ultimately have "(case parse_audit_report ?e reread_tail of p \<Rightarrow> ar_status p = ''complete'' \<and> ar_integrity p = ''clean'' \<and> ar_contract p = ''aligned'')"
    by (simp add: parse_audit_report_def Let_def settle_verdict_def apply_acceptance_constraint_guard_def)
  moreover have "latest_audited [audited_round] = Some audited_round"
    using a(3) by (simp add: latest_audited_def audited_round_def synthetic_round_def round_of_def reread_tail_def)
  ultimately show ?thesis
    by (simp add: latest_auditor_is_clean_complete_def audited_round_def Let_def)
qed

text \<open>The manager claims completion in the first round after a resume.\<close>

definition done_env :: loop_env where "done_env = demo_loop (\<lambda>_. said ''Next: done'')"

lemma demo_done_run: "\<exists>rep. manager_run done_env [] (Some [audited_round]) None = Some rep \<and> fr_status rep = ''complete''"
proof -
  have t: "extract_role_manager_plan_text ''Next: done'' = ''Next: done''" "py_strip ''Next: done'' = ''Next: done''"
    "parse_role_manager_next_step ''Next: done'' = NextDone" by code_simp+
  let ?s = "start_state done_env [] (Some [audited_round])"
  let ?s2 = "append_event ''manager_round_start'' [] (inject_instructions (prompt_state done_env ?s))"
  have r: "ls_rounds ?s2 = [audited_round]"
    by (simp add: prompt_state_def claim_pending_def inject_instructions_def on_gate_def done_env_def demo_loop_def Let_def)
  obtain s3 where p: "manager_planned done_env (case said ''Next: done'' of Replied e \<Rightarrow> e) ?s2 = dispatch_step done_env NextDone ''Next: done''
      (extract_related_report_refs ''Next: done'') (case said ''Next: done'' of Replied e \<Rightarrow> e) s3" "ls_rounds s3 = [audited_round]"
    using r t by (simp add: manager_planned_def Let_def said_def visible_output_def logged_output_def VISIBLE_OUTPUT_KEYS_def
        effective_next_step_def done_env_def demo_loop_def)
  have c: "gc_completed (ls_gate (record_round rd (on_gate (\<lambda>g. g\<lparr>gc_completed := True\<rparr>) s3)))" for rd
    by (simp add: record_round_def on_gate_def)
  have h: "\<exists>s'. human_gate done_env ''completed'' [] [] s4 = Inr (True, s') \<and> gc_completed (ls_gate s')" if "gc_completed (ls_gate s4)" for s4
  proof -
    obtain cc s5 where w: "write_final_response done_env [] s4 = (cc, s5)" by fastforce
    then have "\<not> cc" by (auto simp: write_final_response_def run_role_episode_def done_env_def demo_loop_def Let_def split: if_splits)
    moreover have "gc_completed (ls_gate s5)" using write_final_response_frame [OF w] that by (simp add: same_gate_def)
    ultimately show ?thesis using w that by (simp add: human_gate_def gate_ending_def unattended_gate_def done_env_def demo_loop_def)
  qed
  have "manager_round done_env ?s = manager_planned done_env (case said ''Next: done'' of Replied e \<Rightarrow> e) ?s2"
    by (simp add: manager_round_def Let_def run_role_episode_def said_def done_env_def demo_loop_def)
  then obtain s' where "manager_round done_env ?s = Inr (True, s')" "gc_completed (ls_gate s')"
    using p h [OF c] demo_audit_clean by (auto simp: dispatch_step_def done_env_def Let_def)
  moreover have "ls_index ?s < gc_budget (ls_gate ?s)" using start_state_going by (simp add: going_on_def)
  ultimately have "manager_loop done_env ?s = Some (Inr s')" by (subst manager_loop.simps) simp
  then show ?thesis using \<open>gc_completed (ls_gate s')\<close> by (simp add: manager_run_def final_report_of_def final_status_def Let_def)
qed

text \<open>The manager's agent raises in the first round.\<close>

definition crash_env :: loop_env where "crash_env = demo_loop (\<lambda>_. ReplyRaised ''boom'')"

lemma crash_run: "\<exists>s. manager_loop crash_env (start_state crash_env ledger resumed) = Some (Inl (LoopCrashed ''boom'', s)) \<and>
    ls_index s = ls_index (start_state crash_env ledger resumed) + 1"
proof -
  let ?s = "start_state crash_env ledger resumed"
  have "ls_index ?s < gc_budget (ls_gate ?s)" using start_state_going by (simp add: going_on_def)
  then have "manager_loop crash_env ?s = Some (Inl (LoopCrashed ''boom'', append_event ''manager_round_start'' [] (inject_instructions (prompt_state crash_env ?s))))"
    by (subst manager_loop.simps) (simp add: manager_round_def run_role_episode_def crash_env_def demo_loop_def Let_def)
  then show ?thesis
    by (simp add: prompt_state_def claim_pending_def inject_instructions_def append_event_def on_gate_def crash_env_def demo_loop_def Let_def)
qed

text \<open>An operator who always goes on, and an auditor who forgot the header.\<close>

definition keep_going :: "hook_context \<Rightarrow> loop_state \<Rightarrow> hook_reply" where
  "keep_going _ _ = Decided (PDict [(''action'', PStr ''continue''), (''instructions'', PStr ''use port 80'')])"

definition bare_report :: episode where
  "bare_report = \<lparr>ep_status = ''done'', ep_actions_log = [], ep_error = None, ep_duration = 1,
     ep_metadata = [(''assistant_visible_output'', PStr ''all good'')]\<rparr>"

section \<open>Properties\<close>

text \<open>C3: a run is reported complete only on an auditor's word. The last round of such a run is the manager's
  claim of completion, and the latest report before it that counts reads as complete, clean
  and aligned; a worker that crashed is never reported complete (unless an older report is on
  disk).\<close>

theorem complete_only_when_audited:
  assumes "manager_run w ledger resumed None = Some rep" and "fr_status rep = ''complete''"
  shows "\<exists>rs d r. fr_rounds rep = rs @ [d] \<and> mr_next d = NextDone \<and> latest_audited rs = Some r \<and>
     ar_status (parse_audit_report (lw_audit w) (mr_auditor_report r)) = ''complete'' \<and>
     ar_integrity (parse_audit_report (lw_audit w) (mr_auditor_report r)) = ''clean'' \<and>
     ar_contract (parse_audit_report (lw_audit w) (mr_auditor_report r)) = ''aligned''"
  using assms(1)
proof (cases rule: manager_run_cases)
  case (crash x s)
  then show ?thesis using assms(2) by (auto simp: write_terminal_failure_def Let_def split: loop_exn.splits)
next
  case (report s)
  then have "gc_completed (ls_gate s)" using assms(2) by (auto simp: final_report_of_def final_status_def Let_def split: if_splits)
  then obtain rs d where "ls_rounds s = rs @ [d]" "mr_next d = NextDone" "latest_auditor_is_clean_complete (lw_audit w) rs"
    using report(2) by (auto simp: loop_post_def)
  then show ?thesis
    using report(1) by (auto simp: final_report_of_def latest_auditor_is_clean_complete_def Let_def split: option.splits)
qed

theorem complete_only_when_audited_witness:
  "\<exists>rep rs d. manager_run done_env [] (Some [audited_round]) None = Some rep \<and> fr_rounds rep = rs @ [d] \<and> mr_next d = NextDone"
proof -
  obtain rep where r: "manager_run done_env [] (Some [audited_round]) None = Some rep" "fr_status rep = ''complete''"
    using demo_done_run by blast
  then show ?thesis using complete_only_when_audited [OF r] by blast
qed

text \<open>C4: an unattended run ends, within its budget and with a reason. Without an operator the loop always
  returns; it adds at most as many rounds as the configuration allows, at least one, and a run
  that is not complete names why it stopped.\<close>

theorem unattended_run_ends:
  assumes "lw_hook w = None"
  shows "\<exists>rep. manager_run w ledger resumed None = Some rep \<and>
     int (fr_rounds_run rep) \<le> int (length (case resumed of None \<Rightarrow> [] | Some rs \<Rightarrow> rs)) + max 1 (lw_max_episodes w) \<and>
     (fr_status rep = ''complete'' \<or> fr_abort rep \<noteq> [])"
proof -
  let ?s = "start_state w ledger resumed"
  obtain r where r: "manager_loop w ?s = Some r" "(case r of Inl (x, s') \<Rightarrow> ls_index s' | Inr s' \<Rightarrow> ls_index s') \<le> gc_budget (ls_gate ?s)"
    using manager_loop_unattended [OF assms start_state_going] by blast
  have b: "gc_budget (ls_gate ?s) = ls_index ?s + max 1 (lw_max_episodes w)" by (simp add: start_state_def fresh_gate_def Let_def)
  have post: "loop_post w ?s r" using manager_loop_post [OF r(1) start_state_going rounds_since_refl] by simp
  show ?thesis
  proof (cases r)
    case (Inl p)
    obtain x s where p: "p = (x, s)" by (cases p)
    then have "manager_run w ledger resumed None = Some (write_terminal_failure None x s)" using r Inl by (simp add: manager_run_def)
    moreover have "int (length (ls_rounds s)) \<le> int (length (ls_rounds ?s)) + max 1 (lw_max_episodes w)"
      using post r(2) b Inl p rounds_since_count [of ?s s] by (simp add: loop_post_def)
    ultimately show ?thesis by (auto simp: write_terminal_failure_def Let_def split: loop_exn.splits)
  next
    case (Inr s)
    then have "manager_run w ledger resumed None = Some (final_report_of s)" using r by (simp add: manager_run_def)
    moreover have "int (length (ls_rounds s)) \<le> int (length (ls_rounds ?s)) + max 1 (lw_max_episodes w)" "settled s"
      using post r(2) b Inr rounds_since_count [of ?s s] by (simp_all add: loop_post_def)
    ultimately show ?thesis by (auto simp: final_report_of_def final_status_def settled_def Let_def)
  qed
qed

theorem unattended_run_ends_witness:
  "\<exists>rep. manager_run done_env [] (Some [audited_round]) None = Some rep \<and> fr_rounds_run rep \<le> 3"
  using unattended_run_ends [of done_env "[]" "Some [audited_round]"] by (auto simp: done_env_def demo_loop_def)



text \<open>What the operator says reaches the next plan. When the gate goes on with instructions, the next round's
  prompt to the manager carries them, beside whatever else was queued meanwhile.\<close>

lemma operator_instructions_delivered:
  assumes "attended_gate w hook outcome rm q as s = Inr (False, s')"
    and "hook \<lparr>hc_outcome = outcome, hc_reached_max = rm, hc_round = ls_index s, hc_question = q, hc_answers = as\<rparr> s = Decided v"
    and "t = py_strip (str_or_empty (ue_render (lw_audit w)) (dget (decision_of v) ''instructions''))" and "t \<noteq> []"
  shows "py_contains t (gc_carryover (ls_gate (prompt_state w s')))"
proof -
  have c: "gc_carryover (ls_gate (continue_gate w outcome rm x s1)) = gc_carryover (ls_gate s1)" for x s1
    by (simp add: continue_gate_def loop_simps Let_def)
  have "gc_carryover (ls_gate s') = t"
    using assms by (auto simp: attended_gate_def Let_def c carry_instructions_def on_gate_def split: if_splits)
  moreover have "py_contains t (py_join [newline] (t # qs))" for qs
    using py_contains_prefix [of t "newline # py_join [newline] qs"] py_contains_prefix [of t "[]"] by (cases qs) auto
  ultimately show ?thesis
    using assms(4) py_contains_prefix [of t "[]"] by (simp add: prompt_state_def claim_pending_def on_gate_def Let_def)
qed

lemma operator_instructions_delivered_witness:
  "\<exists>s'. attended_gate done_env keep_going ''progress'' False [] [] (start_state done_env [] None) = Inr (False, s') \<and>
     py_contains ''use port 80'' (gc_carryover (ls_gate (prompt_state done_env s')))"
proof -
  let ?s = "start_state done_env [] None"
  have t: "py_strip ''use port 80'' = ''use port 80''" by code_simp
  obtain s' where s: "attended_gate done_env keep_going ''progress'' False [] [] ?s = Inr (False, s')"
    by (auto simp: attended_gate_def keep_going_def decision_of_def Let_def)
  then show ?thesis
    using operator_instructions_delivered [OF s, of "PDict [(''action'', PStr ''continue''), (''instructions'', PStr ''use port 80'')]" "''use port 80''"]
    by (simp add: keep_going_def decision_of_def str_or_empty_def t)
qed

text \<open>The instructions are used up by that prompt, also when the manager then times out and never acts on them.\<close>

lemma instructions_lost_on_timeout:
  assumes "lw_hook w = None" and "lw_manager w (prompt_state w s) = Replied r" and "ep_status r = ''timeout''"
    and "lw_classify w r = Some (''timeout'', msg)" and "manager_round w s = Inr (False, s')"
  shows "gc_carryover (ls_gate s') = []"
proof -
  let ?s2 = "append_event ''manager_round_start'' [] (inject_instructions (prompt_state w s))"
  have "manager_round w s = manager_failed w r ''timeout'' msg ?s2"
    using assms(2-4) by (simp add: manager_round_def run_role_episode_def Let_def)
  then obtain rec where h: "human_gate w ''progress'' [] [] (append_event ''agent_runtime_failed'' [] (record_round rec ?s2)) = Inr (False, s')"
    using assms(5) by (auto simp: manager_failed_def after_failure_def Let_def)
  have "gc_carryover (ls_gate (append_event ''agent_runtime_failed'' [] (record_round rec ?s2))) = []"
    by (simp add: record_round_def inject_instructions_def on_gate_def Let_def)
  moreover have "gc_carryover (ls_gate s') = gc_carryover (ls_gate s1)" if "human_gate w ''progress'' [] [] s1 = Inr (False, s')" for s1
  proof -
    obtain c s3 where w: "(case gate_ending ''progress'' s1 of None \<Rightarrow> (False, s1) | Some e \<Rightarrow> write_final_response w e s1) = (c, s3)" by fastforce
    have "same_gate s1 s3" using w write_final_response_frame by (auto simp: frame_defs split: option.splits)
    moreover have "s' = s3"
      using that w assms(1) by (auto simp: human_gate_def unattended_gate_def Let_def split: if_splits)
    ultimately show ?thesis by (simp add: same_gate_def)
  qed
  ultimately show ?thesis using h by simp
qed

text \<open>C40: an accepted repair of a report's format changes nothing. When the auditor's adapter delivered the visible text
  in the metadata, as the command-line adapters do, the corrected episode is converted to the
  same report as the one that lacked its header, which does not read as complete.\<close>

theorem format_repair_ignored:
  assumes "first_visible (ep_metadata primary) VISIBLE_OUTPUT_KEYS = Some t"
    and "should_repair_auditor_format primary (auditor_report_text_from_episode_result env primary)"
  shows "audit_report_from_episode_result env (corrected_result primary repair text) = audit_report_from_episode_result env primary \<and>
     (\<forall>a. audit_report_from_episode_result env primary = Some a \<longrightarrow> ar_status a \<noteq> ''complete'')"
proof -
  let ?raw = "auditor_report_text_from_episode_result env primary"
  have v: "episode_visible_output env (corrected_result primary repair text) = episode_visible_output env primary"
    using assms(1) by (simp add: episode_visible_output_def corrected_result_def)
  have d: "ep_status primary = ''done''" "episode_hard_signals primary = []" "\<not> has_valid_control_header ?raw"
    using assms(2) by (auto simp: should_repair_auditor_format_def)
  have "audit_report_from_episode_result env (corrected_result primary repair text) = audit_report_from_episode_result env primary"
    using d v unfolding audit_report_from_episode_result_def auditor_report_text_from_episode_result_def
    by (simp add: episode_hard_signals_def corrected_result_def)
  moreover have "ar_status a \<noteq> ''complete''" if "audit_report_from_episode_result env primary = Some a" for a
  proof -
    have "infer_report_status (with_header ?raw) = ''blocked''" using d(3) invalid_header_values(1) by (simp add: with_header_def)
    then show ?thesis
      using that d(1,2) by (auto simp: audit_report_from_episode_result_def Let_def judge_writes_def settle_verdict_complete
          bind_eq_Some_conv split: option.splits if_splits)
  qed
  ultimately show ?thesis by blast
qed

theorem format_repair_ignored_witness:
  "audit_report_from_episode_result reread_env (corrected_result bare_report bare_report reread_tail) =
     audit_report_from_episode_result reread_env bare_report"
proof -
  have "first_visible (ep_metadata bare_report) VISIBLE_OUTPUT_KEYS = Some ''all good''"
    "should_repair_auditor_format bare_report (auditor_report_text_from_episode_result reread_env bare_report)" by code_simp+
  from format_repair_ignored [OF this] show ?thesis by simp
qed

text \<open>A crashed worker keeps an older report. When a report with a final status is on disk, as it is after a run
  was continued in place, a worker that crashes returns that report unchanged, whatever it did.\<close>

lemma crash_keeps_older_report:
  assumes "manager_loop w (start_state w ledger resumed) = Some (Inl (x, s))" and "fr_status old \<in> set REPORT_STATUSES"
  shows "manager_run w ledger resumed (Some old) = Some old"
  using assms by (simp add: manager_run_def write_terminal_failure_def)

lemma crash_keeps_older_report_witness:
  "manager_run crash_env [] None (Some (final_report_of (on_gate (\<lambda>g. g\<lparr>gc_completed := True\<rparr>) (start_state crash_env [] None)))) =
     Some (final_report_of (on_gate (\<lambda>g. g\<lparr>gc_completed := True\<rparr>) (start_state crash_env [] None)))"
proof -
  obtain s where s: "manager_loop crash_env (start_state crash_env [] None) = Some (Inl (LoopCrashed ''boom'', s))"
    using crash_run [of "[]" None] by auto
  show ?thesis
    by (rule crash_keeps_older_report [OF s])
       (simp add: final_report_of_def final_status_def on_gate_def REPORT_STATUSES_def Let_def)
qed

lemma granted_at_most: "granted_budget w i v \<le> max (i + 1) MAX_ROUNDS"
  by (simp add: granted_budget_def Let_def max_def min_def)

text \<open>What going on grants. When the operator goes on, the next round is within the budget; the budget never
  passes the larger of what it was, one thousand, and the next round.\<close>

lemma continue_grants_rounds:
  assumes "attended_gate w hook outcome (reached_max s) q as s = Inr (False, s')"
    and "at_gate outcome s" and "outcome \<in> set [''completed'', ''blocked'', ''ask'', ''progress'']"
  shows "ls_index s' < gc_budget (ls_gate s') \<and> gc_budget (ls_gate s') \<le> max (gc_budget (ls_gate s)) (max (ls_index s + 1) MAX_ROUNDS)"
proof -
  have "going_on s'" using attended_gate_ends [OF assms(2,3), of w hook q as] assms(1) by simp
  moreover have "gc_budget (ls_gate (continue_gate w outcome rm v s1)) \<le> max (gc_budget (ls_gate s1)) (max (ls_index s1 + 1) MAX_ROUNDS)" for rm v s1
    using granted_at_most [of w "ls_index s1" v] by (simp add: continue_gate_def loop_simps Let_def max.coboundedI2)
  moreover have "gc_budget (ls_gate (carry_instructions t s)) = gc_budget (ls_gate s)" "ls_index (carry_instructions t s) = ls_index s" for t
    by (simp_all add: carry_instructions_def on_gate_def)
  ultimately show ?thesis
    using assms(1) by (auto simp: attended_gate_def Let_def going_on_def split: hook_reply.splits if_splits) (metis)+
qed

lemma continue_grants_rounds_witness:
  "\<exists>s'. attended_gate done_env keep_going ''blocked'' False [] [] (start_state done_env [] None) = Inr (False, s') \<and>
     ls_index s' < gc_budget (ls_gate s')"
proof -
  let ?s = "start_state done_env [] None"
  have m: "reached_max ?s = False" "at_gate ''blocked'' ?s"
    using start_state_going [of done_env "[]" None] by (auto simp: reached_max_def at_gate_def going_on_def)
  obtain s' where s: "attended_gate done_env keep_going ''blocked'' (reached_max ?s) [] [] ?s = Inr (False, s')"
    by (auto simp: attended_gate_def keep_going_def decision_of_def Let_def)
  then show ?thesis using continue_grants_rounds [OF s m(2)] m(1) by auto
qed

text \<open>Going on after a blocked round replaces the budget also when rounds were left, and so can take rounds away.\<close>

lemma continue_takes_rounds:
  "gc_budget (ls_gate s) = 100 \<Longrightarrow> ls_index s = 5 \<Longrightarrow> gc_budget (ls_gate (continue_gate w ''blocked'' False (PInt 2) s)) = 7"
  by (simp add: continue_gate_def loop_simps granted_budget_def extra_rounds_def MAX_ROUNDS_def)

end
