(* ===== verification/Human_Gate.thy ===== *)
theory Human_Gate
  imports Gate_Board Manager_Loop
begin

text \<open>
  The dashboard's end of the gate: the rule for repeated failures (\<open>dashboard/rules.py\<close>), which
  rounds ask the operator, and the hook that raises an approval, waits for its decision and
  hands it to the manager's loop (\<open>dashboard/gate.py\<close>). The worker is process \<open>0\<close> of
  \<open>Gate_Board\<close>; what the other processes do before each of its polls is a sequence of their
  operations. Waiting may go on for ever, so that it is a partial function.
\<close>

section \<open>Repeated failures\<close>

definition env_int :: "string option \<Rightarrow> int \<Rightarrow> int" where
  "env_int v dflt = (case v of None \<Rightarrow> dflt | Some t \<Rightarrow> (case py_int_of_string t of None \<Rightarrow> dflt | Some i \<Rightarrow> i))"

text \<open>\<open>v in {"error", "timeout"}\<close>; \<open>None\<close> is \<open>TypeError\<close>, raised for a list or a dictionary.\<close>

fun failed_status :: "pyval \<Rightarrow> bool option" where
  "failed_status (PStr t) = Some (t = ''error'' \<or> t = ''timeout'')"
| "failed_status (PList _) = None"
| "failed_status (PDict _) = None"
| "failed_status _ = Some False"

definition or_next :: "bool option \<Rightarrow> bool option \<Rightarrow> bool option" where
  "or_next x y = (case x of None \<Rightarrow> None | Some True \<Rightarrow> Some True | Some False \<Rightarrow> y)"

definition failed_round :: "managed_round \<Rightarrow> bool option" where
  "failed_round r =
     (let a = mr_auditor_status r; repair = (case dget a ''format_repair_status'' of PDict d \<Rightarrow> d | _ \<Rightarrow> []) in
      if truthy (dget a ''invalid_plan'') \<or> truthy (dget a ''invalid_completion'') then Some True
      else or_next (failed_status (dget (mr_executor_status r) ''status''))
            (or_next (failed_status (dget a ''status'')) (failed_status (dget repair ''status''))))"

text \<open>The rounds, latest first.\<close>

fun failure_streak :: "managed_round list \<Rightarrow> nat option" where
  "failure_streak [] = Some 0"
| "failure_streak (r # rs) = (case failed_round r of
       None \<Rightarrow> None
     | Some True \<Rightarrow> map_option Suc (failure_streak rs)
     | Some False \<Rightarrow> Some 0)"

definition failure_reason :: "nat \<Rightarrow> int \<Rightarrow> string" where
  "failure_reason streak limit = show_nat streak @
     '' consecutive rounds failed (invalid route / rejected completion / episode error; threshold '' @ show_int limit @
     ''). The run may be looping; operator input is requested.''"

definition rule_repeated_failure :: "int \<Rightarrow> managed_round list \<Rightarrow> string option option" where
  "rule_repeated_failure limit rounds =
     map_option (\<lambda>streak. if int streak \<ge> limit then Some (failure_reason streak limit) else None) (failure_streak (rev rounds))"

text \<open>\<open>ApprovalRules.evaluate\<close>: the first reason that is not empty.\<close>

fun evaluate_rules :: "(managed_round list \<Rightarrow> string option option) list \<Rightarrow> managed_round list \<Rightarrow> string option option" where
  "evaluate_rules [] rounds = Some None"
| "evaluate_rules (rule # rules) rounds = (case rule rounds of
       None \<Rightarrow> None
     | Some reason \<Rightarrow> if reason = None \<or> reason = Some [] then evaluate_rules rules rounds else Some reason)"

definition default_rules :: "string option \<Rightarrow> (managed_round list \<Rightarrow> string option option) list" where
  "default_rules v = [rule_repeated_failure (max 1 (env_int v 3))]"

section \<open>Which rounds ask\<close>

datatype trigger = Completed | MaxRounds | NeedsInput | NeedsHuman | RepeatedFailure

definition trigger_key :: "trigger \<Rightarrow> string" where
  "trigger_key k = (case k of Completed \<Rightarrow> ''completed'' | MaxRounds \<Rightarrow> ''max_rounds'' | NeedsInput \<Rightarrow> ''needs_input''
     | NeedsHuman \<Rightarrow> ''needs_human'' | RepeatedFailure \<Rightarrow> ''repeated_failure'')"

definition trigger_title :: "trigger \<Rightarrow> string" where
  "trigger_title k = (case k of
       Completed \<Rightarrow> ''Task complete. Continue the run?''
     | MaxRounds \<Rightarrow> ''Round limit reached. Continue the run?''
     | NeedsInput \<Rightarrow> ''Manager needs your decision''
     | NeedsHuman \<Rightarrow> ''Task blocked; operator input required''
     | RepeatedFailure \<Rightarrow> ''Repeated failures require operator input'')"

definition trigger_message :: "trigger \<Rightarrow> string" where
  "trigger_message k = (case k of
       Completed \<Rightarrow> ''The manager confirmed task completion. Continue to add rounds and inject instructions, or end this run.''
     | MaxRounds \<Rightarrow> ''The configured round budget is exhausted before completion. Continue to add rounds, or end this run.''
     | NeedsInput \<Rightarrow> ''The manager needs your decision or input before it can continue. Answer below and continue, or stop this run.''
     | NeedsHuman \<Rightarrow> ''The manager reported that it cannot proceed automatically. Add instructions and continue, or stop this run.''
     | RepeatedFailure \<Rightarrow> ''The manager produced invalid routes or rejected completions over several rounds and may be looping. Add instructions and continue, or stop this run.'')"

definition trigger_options :: "trigger \<Rightarrow> approval_option list" where
  "trigger_options k =
     [\<lparr>ao_value = ''continue'', ao_label = ''Continue run'', ao_style = ''primary''\<rparr>,
      \<lparr>ao_value = ''stop'', ao_label = if k \<in> {Completed, MaxRounds} then ''End run'' else ''Stop run'', ao_style = ''danger''\<rparr>]"

definition trigger_label :: "trigger \<Rightarrow> string" where
  "trigger_label k = (if k = NeedsInput then ''Your answer, injected into the next manager round''
     else ''Optional: add instructions for the next manager round'')"

definition trigger_extra :: "trigger \<Rightarrow> bool" where
  "trigger_extra k = (k \<in> {Completed, MaxRounds, RepeatedFailure})"

definition classify ::
    "string \<Rightarrow> bool \<Rightarrow> (managed_round list \<Rightarrow> string option option) list \<Rightarrow> managed_round list \<Rightarrow> (trigger \<times> string) option option" where
  "classify outcome rm rules rounds =
     (if outcome = ''completed'' then Some (Some (Completed, []))
      else if outcome = ''ask'' then Some (Some (NeedsInput, []))
      else if rm then Some (Some (MaxRounds, []))
      else if outcome = ''blocked'' then Some (Some (NeedsHuman, []))
      else map_option (map_option (\<lambda>reason. (RepeatedFailure, reason))) (evaluate_rules rules rounds))"

section \<open>The hook\<close>

definition gate_message :: "trigger \<Rightarrow> string \<Rightarrow> string \<Rightarrow> string" where
  "gate_message k question extra =
     (if k = NeedsInput \<and> question \<noteq> []
      then trigger_message k @ [newline, newline] @ ''Manager question:'' @ [newline] @ question
      else if extra \<noteq> [] then extra else trigger_message k)"

definition hook_outcome :: "hook_context \<Rightarrow> string" where
  "hook_outcome ctx = (if hc_outcome ctx = [] then ''progress'' else hc_outcome ctx)"

definition gate_request :: "trigger \<Rightarrow> string \<Rightarrow> hook_context \<Rightarrow> loop_state \<Rightarrow> string \<Rightarrow> approval_request" where
  "gate_request k extra ctx ls task =
     (let question = py_strip (hc_question ctx) in
      \<lparr>rq_title = trigger_title k, rq_message = gate_message k question extra, rq_options = trigger_options k,
       rq_answers = if k = NeedsInput then hc_answers ctx else [], rq_allow_input = True, rq_input_label = trigger_label k,
       rq_allow_extra = trigger_extra k,
       rq_context = [(''phase'', PStr ''end_of_round''), (''trigger'', PStr (trigger_key k)), (''outcome'', PStr (hook_outcome ctx)),
         (''round_index'', PInt (hc_round ctx)), (''question'', PStr question), (''detail'', PStr extra), (''task'', PStr task),
         (''task_state'', PStr (ls_task_state ls)), (''final_response'', PStr (gc_response (ls_gate ls))),
         (''round_count'', PInt (int (length (ls_rounds ls))))]\<rparr>)"

definition pass_reply :: "string list \<Rightarrow> pyval" where
  "pass_reply injections = PDict [(''action'', PStr ''continue''), (''instructions'', PStr (py_join [newline] injections))]"

definition gate_reply :: "string list \<Rightarrow> int \<Rightarrow> approval \<Rightarrow> pyval" where
  "gate_reply injections default_extra a =
     (let parts = injections @ (if py_strip (ap_user_input a) = [] then [] else [py_strip (ap_user_input a)]) in
      PDict [(''action'', PStr (ap_action a)), (''instructions'', PStr (py_join [newline] parts)),
        (''extra_rounds'', PInt (if ap_extra a \<noteq> 0 then ap_extra a else default_extra)), (''reason'', PStr (ap_reason a))])"

text \<open>What the other processes do before poll \<open>n\<close>, and the clock then.\<close>

record poll_env =
  po_others :: "nat \<Rightarrow> dash_op list"
  po_clock :: "nat \<Rightarrow> time"

definition poll :: "dash_env \<Rightarrow> poll_env \<Rightarrow> string \<Rightarrow> nat \<Rightarrow> dash_sys \<Rightarrow> approval option dash_result" where
  "poll env w i n s = get_approval env i (po_clock w n) (view_of 0 (run_ops (dash_exec env) s (po_others w n)))"

definition after_poll :: "dash_env \<Rightarrow> poll_env \<Rightarrow> string \<Rightarrow> nat \<Rightarrow> dash_sys \<Rightarrow> dash_sys" where
  "after_poll env w i n s = put_view 0 (left_in (poll env w i n s)) (run_ops (dash_exec env) s (po_others w n))"

partial_function (option) wait_resolved ::
    "dash_env \<Rightarrow> poll_env \<Rightarrow> string \<Rightarrow> nat \<Rightarrow> dash_sys \<Rightarrow> ((dash_exn + approval) \<times> dash_sys) option" where
  "wait_resolved env w i n s = (case poll env w i n s of
       Inl (x, v) \<Rightarrow> Some (Inl x, after_poll env w i n s)
     | Inr (Some a, v) \<Rightarrow> if ap_status a = ''resolved'' then Some (Inr a, after_poll env w i n s)
                         else wait_resolved env w i (Suc n) (after_poll env w i n s)
     | Inr (None, v) \<Rightarrow> wait_resolved env w i (Suc n) (after_poll env w i n s))"

datatype hook_exn = HookDash dash_exn | HookTypeError

record hook_env =
  he_dash :: dash_env
  he_rules :: "(managed_round list \<Rightarrow> string option option) list"
  he_default_extra :: int
  he_task :: string
  he_fresh :: string
  he_now :: time
  he_polls :: poll_env

definition human_hook :: "hook_env \<Rightarrow> hook_context \<Rightarrow> loop_state \<Rightarrow> dash_sys \<Rightarrow> ((hook_exn + pyval) \<times> dash_sys) option" where
  "human_hook h ctx ls s =
     (case drain_injections (he_dash h) (he_now h) (view_of 0 s) of
        Inl (x, v) \<Rightarrow> Some (Inl (HookDash x), put_view 0 v s)
      | Inr (drained, v) \<Rightarrow>
          let s1 = put_view 0 v s; injections = filter (\<lambda>t. py_strip t \<noteq> []) drained; outcome = hook_outcome ctx in
          case classify outcome (hc_reached_max ctx) (he_rules h) (ls_rounds ls) of
            None \<Rightarrow> Some (Inl HookTypeError, s1)
          | Some None \<Rightarrow> Some (Inr (pass_reply injections), s1)
          | Some (Some (k, extra)) \<Rightarrow>
              (case create_approval (he_dash h) (gate_request k extra ctx ls (he_task h)) (he_fresh h) (he_now h) (view_of 0 s1) of
                 Inl (x, v) \<Rightarrow> Some (Inl (HookDash x), put_view 0 v s1)
               | Inr (a, v) \<Rightarrow>
                   map_option (\<lambda>(r, s2). (case r of Inl x \<Rightarrow> Inl (HookDash x)
                     | Inr b \<Rightarrow> Inr (gate_reply injections (he_default_extra h) b), s2))
                     (wait_resolved (he_dash h) (he_polls h) (ap_id a) 0 (put_view 0 v s1))))"

section \<open>Lemmas\<close>

subsection \<open>The rule\<close>

definition failing :: "managed_round \<Rightarrow> bool" where
  "failing r = (failed_round r = Some True)"

lemma failure_streak_takeWhile:
  assumes "list_all (\<lambda>r. failed_round r \<noteq> None) rs"
  shows "failure_streak rs = Some (length (takeWhile failing rs))"
  using assms by (induction rs) (auto simp: failing_def split: option.splits bool.splits)

lemma le_takeWhile: "n \<le> length (takeWhile P xs) \<longleftrightarrow> n \<le> length xs \<and> list_all P (take n xs)"
proof (induction xs arbitrary: n)
  case (Cons x xs)
  then show ?case by (cases n) auto
qed simp

lemma last_rounds: "list_all P (take n (rev xs)) = list_all P (drop (length xs - n) xs)"
  by (simp add: take_rev)

lemma default_rules_quiet:
  fixes v :: "string option"
  assumes "list_all (\<lambda>r. failed_round r \<noteq> None) rounds"
  defines "n \<equiv> nat (max 1 (env_int v 3))"
  shows "evaluate_rules (default_rules v) rounds = Some None \<longleftrightarrow>
     \<not> (n \<le> length rounds \<and> list_all failing (drop (length rounds - n) rounds))"
proof -
  let ?s = "length (takeWhile failing (rev rounds))"
  have "failure_streak (rev rounds) = Some ?s" using assms(1) by (intro failure_streak_takeWhile) (simp add: list_all_rev)
  moreover have "failure_reason k l \<noteq> []" for k l by (simp add: failure_reason_def)
  moreover have "int ?s \<ge> max 1 (env_int v 3) \<longleftrightarrow> n \<le> ?s" by (simp add: n_def nat_le_iff)
  ultimately have "evaluate_rules (default_rules v) rounds = Some None \<longleftrightarrow> \<not> n \<le> ?s"
    by (auto simp: default_rules_def rule_repeated_failure_def)
  then show ?thesis using le_takeWhile [of n failing "rev rounds"] by (simp add: last_rounds)
qed

lemma default_rules_run:
  assumes "list_all (\<lambda>r. failed_round r \<noteq> None) rounds"
  shows "evaluate_rules (default_rules v) rounds \<noteq> None"
  using failure_streak_takeWhile [of "rev rounds"] assms by (auto simp: default_rules_def rule_repeated_failure_def list_all_rev)

subsection \<open>Waiting\<close>

primrec wait_state :: "dash_env \<Rightarrow> poll_env \<Rightarrow> string \<Rightarrow> dash_sys \<Rightarrow> nat \<Rightarrow> dash_sys" where
  "wait_state env w i s 0 = s"
| "wait_state env w i s (Suc n) = after_poll env w i n (wait_state env w i s n)"

text \<open>The state a poll finds.\<close>

definition polled :: "dash_env \<Rightarrow> poll_env \<Rightarrow> string \<Rightarrow> dash_sys \<Rightarrow> nat \<Rightarrow> dash_sys" where
  "polled env w i s n = run_ops (dash_exec env) (wait_state env w i s n) (po_others w n)"

lemma after_poll_step:
  assumes "de_writable env" and "dash_inv s" and "po_clock w n > 0"
  shows "dash_inv (run_ops (dash_exec env) s (po_others w n))" and "dash_inv (after_poll env w i n s)"
    and "board_step\<^sup>*\<^sup>* (board (run_ops (dash_exec env) s (po_others w n))) (board (after_poll env w i n s))"
proof -
  let ?t = "run_ops (dash_exec env) s (po_others w n)"
  show t: "dash_inv ?t" using gates.run_inv [of env s] assms(1,2) by blast
  have "after_poll env w i n s = dash_exec env ?t (DGet 0 i (po_clock w n))" using assms(3) by (simp add: after_poll_def poll_def)
  then show "dash_inv (after_poll env w i n s)" "board_step\<^sup>*\<^sup>* (board ?t) (board (after_poll env w i n s))"
    using dash_exec_step [OF t assms(1), of "DGet 0 i (po_clock w n)"] by auto
qed

lemma wait_state_inv:
  assumes "de_writable env" and "dash_inv s" and "\<And>n. po_clock w n > 0"
  shows "dash_inv (wait_state env w i s n)" "dash_inv (polled env w i s n)"
proof -
  show "dash_inv (wait_state env w i s n)" by (induction n) (use assms after_poll_step(2) [OF assms(1)] in auto)
  then show "dash_inv (polled env w i s n)" unfolding polled_def by (rule after_poll_step(1) [OF assms(1) _ assms(3)])
qed

lemma closed_edges: "gate_edge\<^sup>*\<^sup>* (Closed x) g \<longleftrightarrow> g = Closed x"
  by (auto elim: converse_rtranclpE)

lemma polled_next:
  assumes "de_writable env" and "dash_inv s" and "\<And>n. po_clock w n > 0" and "board (polled env w i s n) i = Some g"
  shows "\<exists>h. board (wait_state env w i s (Suc n)) i = Some h \<and> gate_edge\<^sup>*\<^sup>* g h"
proof -
  have "board_step\<^sup>*\<^sup>* (board (polled env w i s n)) (board (wait_state env w i s (Suc n)))"
    using after_poll_step(3) [OF assms(1) wait_state_inv(1) [OF assms(1-3)] assms(3)] by (simp add: polled_def)
  then show ?thesis using board_steps_edge assms(4) by blast
qed

lemma polled_run:
  assumes "de_writable env" and "dash_inv s" and "\<And>n. po_clock w n > 0" and "board (wait_state env w i s n) i = Some g"
  shows "\<exists>h. board (polled env w i s n) i = Some h \<and> gate_edge\<^sup>*\<^sup>* g h"
proof -
  have "de_writable env \<and> dash_inv (wait_state env w i s n)" using wait_state_inv(1) [OF assms(1-3)] assms(1) by blast
  then show ?thesis unfolding polled_def by (rule gates.status_run) (use assms(4) in \<open>simp_all add: list_all_iff\<close>)
qed

lemma polled_closed:
  assumes "de_writable env" and "dash_inv s" and "\<And>n. po_clock w n > 0" and "board (polled env w i s m) i = Some (Closed x)" and "m \<le> n"
  shows "board (polled env w i s n) i = Some (Closed x)"
  using assms(5)
proof (induction n rule: dec_induct)
  case (step n)
  obtain h where h: "board (wait_state env w i s (Suc n)) i = Some h" "gate_edge\<^sup>*\<^sup>* (Closed x) h"
    using polled_next [OF assms(1-3) step.IH] by blast
  then show ?case using polled_run [OF assms(1-3) h(1)] closed_edges by simp
qed (rule assms(4))

lemma polled_there:
  assumes "de_writable env" and "dash_inv s" and "\<And>n. po_clock w n > 0" and "board s i \<noteq> None"
  shows "board (polled env w i s n) i \<noteq> None"
proof -
  have "board (wait_state env w i s n) i \<noteq> None"
  proof (induction n)
    case (Suc n)
    then show ?case using polled_run [OF assms(1-3)] polled_next [OF assms(1-3)] by blast
  qed (use assms(4) in simp)
  then show ?thesis using polled_run [OF assms(1-3)] by blast
qed

text \<open>A poll that finds the gate undecided goes on; one that finds it decided returns the decision.\<close>

lemma wait_poll:
  assumes "de_writable env" and "small_receipts env" and "dash_inv s" and "\<And>n. po_clock w n > 0" and "board (polled env w i s n) i = Some g"
  shows "\<exists>a v. poll env w i n (wait_state env w i s n) = Inr (Some a, v) \<and>
     (g \<in> {Accepted x, Closed x} \<longrightarrow> ap_status a = ''resolved'' \<and> (ap_action a, ap_reason a, ap_user_input a, ap_extra a) = x) \<and>
     (ap_status a = ''resolved'' \<longrightarrow> board (wait_state env w i s (Suc n)) i = Some (Closed (ap_action a, ap_reason a, ap_user_input a, ap_extra a)))"
proof -
  let ?t = "polled env w i s n"
  obtain as where v: "view_ok as (view_of 0 ?t)"
    using wait_state_inv(2) [OF assms(1,3,4)] by (fastforce simp: dash_inv_def view_ok_def view_of_def)
  have b: "gate_of (dv_log (view_of 0 ?t)) (dv_bus (view_of 0 ?t)) i = Some g" using assms(5) by (simp add: board_def view_of_def)
  obtain new v' where r: "get_approval env i (po_clock w n) (view_of 0 ?t) = Inr (current (as @ new) i, v')" "view_ok (as @ new) v'"
    using get_runs [OF v assms(1) assms(4) [of n] assms(2), of i] by blast
  have "current as i \<noteq> None"
    using b gate_of_ok [of as "dv_log (view_of 0 ?t)"] v by (auto simp: view_ok_def dash_ok_def split: option.splits)
  then obtain a where a: "current (as @ new) i = Some a" using current_mono by blast
  have p: "poll env w i n (wait_state env w i s n) = Inr (Some a, v')" using r(1) a by (simp add: poll_def polled_def)
  have "board (wait_state env w i s (Suc n)) i = gate_of (dv_log v') (dv_bus v') i" using p by (simp add: after_poll_def board_def put_view_def)
  moreover have "gate_of (dv_log v') (dv_bus v') i = Some (Closed (ap_action a, ap_reason a, ap_user_input a, ap_extra a))" if "ap_status a = ''resolved''"
    using that a r(2) gate_of_ok [of "as @ new" "dv_log v'"] by (simp add: view_ok_def dash_ok_def)
  moreover have "ap_status a = ''resolved'' \<and> (ap_action a, ap_reason a, ap_user_input a, ap_extra a) = x" if "g \<in> {Accepted x, Closed x}"
    using get_decides [OF v assms(1) assms(4) [of n] assms(2), of i x] b that r(1) a by auto
  ultimately show ?thesis using p by auto
qed

lemma wait_returns:
  assumes "de_writable env" and "small_receipts env" and "dash_inv s" and "\<And>n. po_clock w n > 0"
    and "board (polled env w i s n) i = Some g" and "g \<in> {Accepted x, Closed x}" and "board s i \<noteq> None" and "m \<le> n"
  shows "\<exists>a s'. wait_resolved env w i m (wait_state env w i s m) = Some (Inr a, s') \<and> ap_status a = ''resolved'' \<and>
     (ap_action a, ap_reason a, ap_user_input a, ap_extra a) = x"
  using assms(8)
proof (induction m rule: inc_induct)
  case base
  obtain a v where "poll env w i n (wait_state env w i s n) = Inr (Some a, v)" "ap_status a = ''resolved''" "(ap_action a, ap_reason a, ap_user_input a, ap_extra a) = x"
    using wait_poll [OF assms(1-5), of x] assms(6) by blast
  then show ?case by (simp add: wait_resolved.simps [of env w i n])
next
  case (step m)
  obtain g' where g': "board (polled env w i s m) i = Some g'" using polled_there [OF assms(1,3,4,7)] by blast
  obtain a v where a: "poll env w i m (wait_state env w i s m) = Inr (Some a, v)"
    "ap_status a = ''resolved'' \<longrightarrow> board (wait_state env w i s (Suc m)) i = Some (Closed (ap_action a, ap_reason a, ap_user_input a, ap_extra a))"
    using wait_poll [OF assms(1-4) g', of x] by blast
  show ?case
  proof (cases "ap_status a = ''resolved''")
    case True
    let ?y = "(ap_action a, ap_reason a, ap_user_input a, ap_extra a)"
    have y: "board (wait_state env w i s (Suc m)) i = Some (Closed ?y)" using a(2) True by blast
    then have "board (polled env w i s (Suc m)) i = Some (Closed ?y)" using polled_run [OF assms(1,3,4) y] closed_edges by simp
    then have "board (polled env w i s n) i = Some (Closed ?y)" by (rule polled_closed [OF assms(1,3,4)]) (use step.hyps in simp)
    then have "?y = x" using assms(5,6) by auto
    then show ?thesis using a(1) True by (simp add: wait_resolved.simps [of env w i m])
  next
    case False
    then have "wait_resolved env w i m (wait_state env w i s m) = wait_resolved env w i (Suc m) (wait_state env w i s (Suc m))"
      using a(1) by (simp add: wait_resolved.simps [of env w i m])
    then show ?thesis using step.IH by simp
  qed
qed

subsection \<open>The operator's text\<close>

lemma strip_keeps_end:
  assumes "t \<noteq> []" and "\<not> is_space (hd t)" and "\<not> is_space (last t)"
  shows "\<exists>p. py_strip (xs @ t) = p @ t"
proof -
  have "dropWhile is_space t = t" and e: "dropWhile is_space (rev t @ ys) = rev t @ ys" for ys
    using assms by (cases t; simp) (cases t rule: rev_cases; use assms in simp)
  then show ?thesis using e [of "[]"] by (cases "\<forall>c\<in>set xs. is_space c")
    (auto simp: py_strip_def py_lstrip_def py_rstrip_def dropWhile_append2 dropWhile_append1 intro: exI [where x = "[]"])
qed

lemma py_join_end: "\<exists>p. py_join sep (xs @ [t]) = p @ t"
proof (induction xs)
  case (Cons x xs)
  then obtain p where "py_join sep (xs @ [t]) = p @ t" by blast
  then show ?case by (cases "xs @ [t]") (auto intro: exI [where x = "x @ sep @ p"])
qed (auto intro: exI [where x = "[]"])

lemma gate_reply_fields:
  "dget (decision_of (gate_reply ins e a)) ''action'' = PStr (ap_action a)"
  "dget (decision_of (gate_reply ins e a)) ''reason'' = PStr (ap_reason a)"
  "dget (decision_of (gate_reply ins e a)) ''extra_rounds'' = PInt (if ap_extra a \<noteq> 0 then ap_extra a else e)"
  "dget (decision_of (gate_reply ins e a)) ''instructions'' =
     PStr (py_join [newline] (ins @ (if py_strip (ap_user_input a) = [] then [] else [py_strip (ap_user_input a)])))"
  by (simp_all add: gate_reply_def decision_of_def Let_def)

text \<open>The loop does what the reply says: it stops exactly for \<open>stop\<close>, and otherwise carries the input on.\<close>

lemma attended_reply:
  assumes "hook = (\<lambda>_ _. Decided (gate_reply ins e a))"
  shows "\<exists>ls'. attended_gate w hook outcome rm q as ls = Inr (ap_action a = ''stop'', ls') \<and>
     (ap_action a \<noteq> ''stop'' \<and> py_strip (ap_user_input a) \<noteq> [] \<longrightarrow> (\<exists>p. gc_carryover (ls_gate ls') = p @ py_strip (ap_user_input a)))"
proof -
  let ?t = "py_strip (ap_user_input a)"
  let ?j = "py_join [newline] (ins @ (if ?t = [] then [] else [?t]))"
  have act: "(if truthy (PStr (ap_action a)) then py_str render (PStr (ap_action a)) else ''continue'') = ''stop'' \<longleftrightarrow> ap_action a = ''stop''" for render
    by auto
  have c: "gc_carryover (ls_gate (continue_gate w outcome rm x s1)) = gc_carryover (ls_gate s1)" for x s1
    by (simp add: continue_gate_def loop_simps Let_def)
  have j: "\<exists>p. py_strip (py_join [newline] (ins @ [?t])) = p @ ?t" if t: "?t \<noteq> []"
    using py_join_end [of "[newline]" ins ?t] strip_keeps_end [OF t] py_strip_ends [OF t] t by auto
  have s: "str_or_empty r (PStr ?j) = ?j" for r by (simp add: str_or_empty_def)
  show ?thesis
    unfolding attended_gate_def assms using j by (auto simp: gate_reply_fields Let_def act s c carry_instructions_def loop_simps)
qed


subsection \<open>The hook\<close>

text \<open>The decision an accepted call leaves on the board, and its fate in the same slice of operations.\<close>

lemma resolve_in_slice:
  assumes "de_writable env" and "dash_inv t" and "xs = before @ DResolve p i d fresh now # later"
    and "resolve_approval env i d fresh now (view_of p (run_ops (dash_exec env) t before)) = Inr (True, v)"
  shows "\<exists>g x. board (run_ops (dash_exec env) t xs) i = Some g \<and> g \<in> {Accepted x, Closed x} \<and> matches x d"
proof -
  let ?s = "run_ops (dash_exec env) t before"
  have inv: "dash_inv ?s" using gates.run_inv [of env t before] assms(1,2) by blast
  then obtain as where "view_ok as (view_of p ?s)" by (auto simp: dash_inv_def view_ok_def view_of_def)
  then obtain x where x: "gate_of (dv_log v) (dv_bus v) i = Some (Accepted x)" "matches x d"
    using accepted_on_board [OF _ assms(4)] by blast
  let ?s' = "dash_exec env ?s (DResolve p i d fresh now)"
  have b: "board ?s' i = Some (Accepted x)" using x(1) assms(4) by (simp add: board_def put_view_def)
  have "de_writable env \<and> dash_inv ?s'" using dash_exec_step [OF inv assms(1)] assms(1) by blast
  then obtain g where g: "board (run_ops (dash_exec env) ?s' later) i = Some g" "gate_edge\<^sup>*\<^sup>* (Accepted x) g"
    using gates.status_run [where s = ?s' and env = env and k = i and xs = later] b by (auto simp: list_all_iff simp del: dash_exec.simps)
  have "g = Accepted x \<or> g = Closed x" using g(2) by (induction rule: rtranclp_induct) auto
  moreover have "run_ops (dash_exec env) t xs = run_ops (dash_exec env) ?s' later" by (simp only: assms(3) run_ops_append run_ops_Cons)
  ultimately show ?thesis using g(1) x(2) by (intro exI [where x = g] exI [where x = x]) simp
qed

text \<open>The state in which the hook starts to wait.\<close>

definition gate_raised :: "hook_env \<Rightarrow> trigger \<Rightarrow> string \<Rightarrow> hook_context \<Rightarrow> loop_state \<Rightarrow> dash_sys \<Rightarrow> dash_sys" where
  "gate_raised h k extra ctx ls s =
     dash_exec (he_dash h) (dash_exec (he_dash h) s (DDrain 0 (he_now h)))
       (DCreate 0 (gate_request k extra ctx ls (he_task h)) (he_fresh h) (he_now h))"

lemma gate_request_round: "has_round (new_approval (gate_request k extra ctx ls task) i now)"
  by (simp add: has_round_def approval_round_def new_approval_def gate_request_def Let_def)

lemma human_hook_raises:
  assumes "de_writable (he_dash h)" and "drain_injections (he_dash h) (he_now h) (view_of 0 s) = Inr (drained, v)"
    and "classify (hook_outcome ctx) (hc_reached_max ctx) (he_rules h) (ls_rounds ls) = Some (Some (k, extra))"
    and "he_fresh h \<noteq> []" and "last_record (he_fresh h) (ds_log (put_view 0 v s)) = None"
  shows "human_hook h ctx ls s = map_option (\<lambda>(r, s2). (case r of Inl x \<Rightarrow> Inl (HookDash x)
             | Inr b \<Rightarrow> Inr (gate_reply (filter (\<lambda>t. py_strip t \<noteq> []) drained) (he_default_extra h) b), s2))
           (wait_resolved (he_dash h) (he_polls h) (he_fresh h) 0 (gate_raised h k extra ctx ls s))"
    and "dash_inv s \<Longrightarrow> dash_inv (gate_raised h k extra ctx ls s)"
    and "board (gate_raised h k extra ctx ls s) (he_fresh h) \<noteq> None"
proof -
  let ?q = "gate_request k extra ctx ls (he_task h)"
  let ?a = "new_approval ?q (he_fresh h) (he_now h)"
  have q: "request_ok (put_view 0 v s) ?q (he_fresh h)" using assms(4,5) gate_request_round by (simp add: request_ok_def)
  have i: "ap_id ?a = he_fresh h" by (simp add: new_approval_def)
  obtain v2 where c: "create_approval (he_dash h) ?q (he_fresh h) (he_now h) (view_of 0 (put_view 0 v s)) = Inr (?a, v2)" "dv_log v2 = ds_log (put_view 0 v s) @ [dict_of ?a]"
    using save_ok [OF assms(1) request_okD [OF q]] by (simp add: create_approval_def set_approval_def view_of_def Let_def)
  have g: "gate_raised h k extra ctx ls s = put_view 0 v2 (put_view 0 v s)" using q c(1) assms(2) by (simp add: gate_raised_def)
  show "human_hook h ctx ls s = map_option (\<lambda>(r, s2). (case r of Inl x \<Rightarrow> Inl (HookDash x)
             | Inr b \<Rightarrow> Inr (gate_reply (filter (\<lambda>t. py_strip t \<noteq> []) drained) (he_default_extra h) b), s2))
           (wait_resolved (he_dash h) (he_polls h) (he_fresh h) 0 (gate_raised h k extra ctx ls s))"
    using assms(2,3) c(1) i unfolding g by (simp add: human_hook_def Let_def)
  show "dash_inv s \<Longrightarrow> dash_inv (gate_raised h k extra ctx ls s)"
    unfolding gate_raised_def using dash_exec_step [OF _ assms(1)] by blast
  have "last_record (he_fresh h) (dv_log v2) = Some (dict_of ?a)" using i dict_of_fields [OF request_okD [OF q]] by (simp add: c(2) last_record_def)
  then show "board (gate_raised h k extra ctx ls s) (he_fresh h) \<noteq> None" by (simp add: g board_def put_view_def gate_of_def)
qed


section \<open>Examples\<close>

definition quiet_polls :: poll_env where
  "quiet_polls = \<lparr>po_others = (\<lambda>n. if n = 0 then [DResolve 1 ''g1'' (demo_decision 0) ''f'' 6] else []), po_clock = (\<lambda>n. 7 + of_nat n)\<rparr>"

definition demo_hook :: hook_env where
  "demo_hook = \<lparr>he_dash = demo_dash_env, he_rules = default_rules None, he_default_extra = 0, he_task = ''t'', he_fresh = ''g1'', he_now = 5, he_polls = quiet_polls\<rparr>"

definition ask_context :: hook_context where
  "ask_context = \<lparr>hc_outcome = ''ask'', hc_reached_max = False, hc_round = 2, hc_question = ''Which port?'', hc_answers = []\<rparr>"

lemma demo_hook_fields [simp]:
  "he_dash demo_hook = demo_dash_env" "he_fresh demo_hook = ''g1''" "he_now demo_hook = 5" "he_polls demo_hook = quiet_polls" "he_task demo_hook = ''t''"
  by (simp_all add: demo_hook_def)

lemma demo_drain: "drain_injections demo_dash_env 5 (view_of 0 (fresh_sys r c)) = Inr ([], view_of 0 (fresh_sys r c))"
  by (simp add: drain_injections_def view_of_def fresh_sys_def empty_bus_def bus_pending_def)

lemma demo_raised:
  assumes "a = new_approval (gate_request NeedsInput [] ask_context ls ''t'') ''g1'' 5"
  shows "gate_raised demo_hook NeedsInput [] ask_context ls (fresh_sys ''r1'' (\<lambda>_. True)) =
     \<lparr>ds_control = (\<lambda>_. True), ds_mem = (\<lambda>_. [])(0 := [(''g1'', a)]), ds_log = [dict_of a], ds_bus = empty_bus ''r1''\<rparr>"
proof -
  let ?q = "gate_request NeedsInput [] ask_context ls ''t''" and ?F = "fresh_sys ''r1'' (\<lambda>_. True)"
  have d: "dash_exec demo_dash_env ?F (DDrain 0 5) = ?F" by (simp add: demo_drain) (simp add: put_view_def view_of_def fresh_sys_def fun_eq_iff)
  have r: "request_ok ?F ?q ''g1''" by (simp add: request_ok_def gate_request_round last_record_def fresh_sys_def)
  have i: "ap_id a = ''g1''" by (simp add: assms new_approval_def)
  have "dash_exec demo_dash_env ?F (DCreate 0 ?q ''g1'' 5) =
     \<lparr>ds_control = (\<lambda>_. True), ds_mem = (\<lambda>_. [])(0 := [(''g1'', a)]), ds_log = [dict_of a], ds_bus = empty_bus ''r1''\<rparr>"
    using save_ok [OF demo_env_ok(1) request_okD [OF r]] r i
    by (simp add: create_approval_def set_approval_def put_view_def view_of_def fresh_sys_def Let_def assms)
  then show ?thesis by (simp only: gate_raised_def demo_hook_fields d)
qed

lemma demo_hook_accepts:
  "\<exists>v. resolve_approval demo_dash_env ''g1'' (demo_decision 0) ''f'' 6
     (view_of 1 (gate_raised demo_hook NeedsInput [] ask_context ls (fresh_sys ''r1'' (\<lambda>_. True)))) = Inr (True, v)"
proof -
  define a where "a = new_approval (gate_request NeedsInput [] ask_context ls ''t'') ''g1'' 5"
  have f: "ap_id a = ''g1''" "ap_status a = ''pending''" "ap_allow_input a" "ap_options a = trigger_options NeedsInput"
    by (simp_all add: a_def new_approval_def gate_request_def Let_def)
  have ok: "approval_ok a" unfolding a_def using request_okD [of "fresh_sys ''r1'' (\<lambda>_. True)"] gate_request_round
    by (auto simp: request_ok_def fresh_sys_def last_record_def)
  let ?v = "view_of 1 (gate_raised demo_hook NeedsInput [] ask_context ls (fresh_sys ''r1'' (\<lambda>_. True)))"
  have v: "dv_control ?v" "dv_bus ?v = empty_bus ''r1''" "dv_mem ?v = []" "dv_log ?v = [dict_of a]"
    by (simp_all add: demo_raised [OF a_def] view_of_def)
  show ?thesis
  proof (rule demo_accepts [OF _ _ _ v(1,2)])
    show "view_ok [a] ?v" using ok f v
      by (auto simp: view_ok_def dash_ok_def log_ok_def bus_ok_def empty_bus_def mem_ok_def current_def split: if_splits)
    show "current [a] ''g1'' = Some a" using f by (simp add: current_def)
    show "ap_status a \<noteq> ''resolved''" using f by simp
    have "py_strip ''continue'' = ''continue''" "py_strip ''stop'' = ''stop''" "normalise_extra_rounds (PInt 0) = 0" by code_simp+
    then show "valid_for a (demo_decision 0)"
      using f by (simp add: valid_for_def demo_decision_def response_valid_def allowed_actions_def trigger_options_def)
  qed
qed

section \<open>Properties\<close>

text \<open>C36: when the gate asks. With the default rules a round ends without asking the operator exactly when the
  run is neither complete nor waiting for input nor blocked, the round budget is not exhausted and the last rounds, as
  many as the threshold of the environment, did not all fail.\<close>

theorem gate_asks_iff:
  assumes "list_all (\<lambda>r. failed_round r \<noteq> None) rounds" and "n = nat (max 1 (env_int v 3))"
  shows "classify outcome rm (default_rules v) rounds = Some None \<longleftrightarrow>
     outcome \<notin> {''completed'', ''ask'', ''blocked''} \<and> \<not> rm \<and>
     \<not> (n \<le> length rounds \<and> list_all failing (drop (length rounds - n) rounds))"
proof -
  have "map_option (map_option (\<lambda>reason. (RepeatedFailure, reason))) x = Some None \<longleftrightarrow> x = Some None" for x by (cases x) auto
  then show ?thesis using default_rules_quiet [OF assms(1), of v] assms(2) by (auto simp: classify_def)
qed

theorem gate_asks_iff_witness:
  "classify ''progress'' False (default_rules (Some ''2'')) [audited_round, audited_round] = Some None"
proof -
  have f: "failed_round audited_round = Some False" "env_int (Some ''2'') 3 = 2" by code_simp+
  then show ?thesis
    using gate_asks_iff [of "[audited_round, audited_round]" 2 "Some ''2''" "''progress''" False] by (auto simp: failing_def)
qed

text \<open>C11: the operator's decision reaches the loop. Suppose the hook raised a gate and, before some poll, a process's call
  to resolve it returned true. Then the hook does return, its reply has the action, the reason and the rounds of that
  call, and the manager's loop stops exactly when the action is to stop, and otherwise carries the operator's input into
  the next round. What the other processes do in between does not matter.\<close>

theorem operator_decision_obeyed:
  assumes "de_writable (he_dash h)" and "small_receipts (he_dash h)" and "\<forall>n. po_clock (he_polls h) n > 0"
    and "s = run_ops (dash_exec (he_dash h)) (fresh_sys run control) ops"
    and "drain_injections (he_dash h) (he_now h) (view_of 0 s) = Inr (drained, v)"
    and "classify (hook_outcome ctx) (hc_reached_max ctx) (he_rules h) (ls_rounds ls) = Some (Some (k, extra))"
    and "he_fresh h \<noteq> []" and "last_record (he_fresh h) (ds_log (put_view 0 v s)) = None"
    and "po_others (he_polls h) n = before @ DResolve p (he_fresh h) d fresh now # later"
    and "resolve_approval (he_dash h) (he_fresh h) d fresh now (view_of p (run_ops (dash_exec (he_dash h))
           (wait_state (he_dash h) (he_polls h) (he_fresh h) (gate_raised h k extra ctx ls s) n) before)) = Inr (True, v')"
  shows "\<exists>reply s' ls'. human_hook h ctx ls s = Some (Inr reply, s') \<and>
     dget (decision_of reply) ''action'' = PStr (py_strip (da_action d)) \<and> dget (decision_of reply) ''reason'' = PStr (py_strip (da_reason d)) \<and>
     (normalise_extra_rounds (da_extra d) \<noteq> 0 \<longrightarrow> dget (decision_of reply) ''extra_rounds'' = PInt (normalise_extra_rounds (da_extra d))) \<and>
     attended_gate w (\<lambda>_ _. Decided reply) outcome rm q as ls = Inr (py_strip (da_action d) = ''stop'', ls') \<and>
     (py_strip (da_action d) \<noteq> ''stop'' \<and> py_strip (da_input d) \<noteq> [] \<longrightarrow> (\<exists>t. gc_carryover (ls_gate ls') = t @ py_strip (da_input d)))"
proof -
  let ?s = "gate_raised h k extra ctx ls s"
  note hook = human_hook_raises [OF assms(1,5-8)]
  have "dash_inv s" using gates.run_inv [of "he_dash h" "fresh_sys run control" ops] fresh_sys_inv assms(1,4) by blast
  then have inv: "dash_inv ?s" by (rule hook(2))
  have "dash_inv (wait_state (he_dash h) (he_polls h) (he_fresh h) ?s n)" using wait_state_inv(1) [OF assms(1) inv] assms(3) by blast
  then obtain g x where "board (polled (he_dash h) (he_polls h) (he_fresh h) ?s n) (he_fresh h) = Some g" "g \<in> {Accepted x, Closed x}" and x: "matches x d"
    using resolve_in_slice [OF assms(1) _ assms(9,10)] unfolding polled_def by blast
  then obtain a s' where a: "wait_resolved (he_dash h) (he_polls h) (he_fresh h) 0 ?s = Some (Inr a, s')" "(ap_action a, ap_reason a, ap_user_input a, ap_extra a) = x"
    using wait_returns [OF assms(1,2) inv, of "he_polls h" "he_fresh h" n g x 0] assms(3) hook(3) by auto
  let ?r = "gate_reply (filter (\<lambda>t. py_strip t \<noteq> []) drained) (he_default_extra h) a"
  have r: "human_hook h ctx ls s = Some (Inr ?r, s')" using a(1) by (simp add: hook(1))
  have f: "ap_action a = py_strip (da_action d)" "ap_reason a = py_strip (da_reason d)" "ap_user_input a = py_strip (da_input d)"
    "normalise_extra_rounds (da_extra d) \<noteq> 0 \<Longrightarrow> ap_extra a = normalise_extra_rounds (da_extra d)"
    using x a(2) by (auto simp: matches_def)
  obtain ls' where "attended_gate w (\<lambda>_ _. Decided ?r) outcome rm q as ls = Inr (ap_action a = ''stop'', ls')"
    "ap_action a \<noteq> ''stop'' \<and> py_strip (ap_user_input a) \<noteq> [] \<longrightarrow> (\<exists>p. gc_carryover (ls_gate ls') = p @ py_strip (ap_user_input a))"
    using attended_reply [OF refl, of w "filter (\<lambda>t. py_strip t \<noteq> []) drained" "he_default_extra h" a outcome rm q as ls] by blast
  then show ?thesis using r f by (intro exI [where x = ?r] exI [where x = s'] exI [where x = ls']) (simp add: gate_reply_fields)
qed

theorem operator_decision_obeyed_witness:
  "\<exists>reply s' ls'. human_hook demo_hook ask_context (start_state done_env [] None) (fresh_sys ''r1'' (\<lambda>_. True)) = Some (Inr reply, s') \<and>
     dget (decision_of reply) ''action'' = PStr ''continue'' \<and>
     attended_gate done_env (\<lambda>_ _. Decided reply) ''ask'' False ''Which port?'' [] (start_state done_env [] None) = Inr (False, ls') \<and>
     (\<exists>t. gc_carryover (ls_gate ls') = t @ ''go on'')"
proof -
  let ?ls = "start_state done_env [] None" and ?s = "fresh_sys ''r1'' (\<lambda>_. True)"
  have d: "drain_injections (he_dash demo_hook) (he_now demo_hook) (view_of 0 ?s) = Inr ([], view_of 0 ?s)" by (simp add: demo_drain)
  have k: "classify (hook_outcome ask_context) (hc_reached_max ask_context) (he_rules demo_hook) (ls_rounds ?ls) = Some (Some (NeedsInput, []))"
    by (simp add: classify_def hook_outcome_def ask_context_def)
  have f: "he_fresh demo_hook \<noteq> []" "last_record (he_fresh demo_hook) (ds_log (put_view 0 (view_of 0 ?s) ?s)) = None"
    by (simp_all add: last_record_def put_view_def view_of_def fresh_sys_def)
  have str: "py_strip ''continue'' = ''continue''" "py_strip ''go on'' = ''go on''" by code_simp+
  have c: "\<forall>n. po_clock (he_polls demo_hook) n > 0" "po_others (he_polls demo_hook) 0 = [] @ DResolve 1 (he_fresh demo_hook) (demo_decision 0) ''f'' 6 # []"
    by (simp_all add: quiet_polls_def add_pos_nonneg)
  have e: "de_writable (he_dash demo_hook)" "small_receipts (he_dash demo_hook)" "?s = run_ops (dash_exec (he_dash demo_hook)) ?s []"
    using demo_env_ok by simp_all
  obtain v where v: "resolve_approval (he_dash demo_hook) (he_fresh demo_hook) (demo_decision 0) ''f'' 6 (view_of 1 (run_ops (dash_exec (he_dash demo_hook))
     (wait_state (he_dash demo_hook) (he_polls demo_hook) (he_fresh demo_hook) (gate_raised demo_hook NeedsInput [] ask_context ?ls ?s) 0) [])) = Inr (True, v)"
    using demo_hook_accepts by auto
  show ?thesis
    using operator_decision_obeyed [OF e(1,2) c(1) e(3) d k f c(2) v, of done_env "''ask''" False "''Which port?''" "[]"] str
    by (auto simp: demo_decision_def)
qed

section \<open>What the dialog offers and the loop ignores\<close>

text \<open>The dialog of a repeated failure asks for extra rounds, and the loop leaves its budget as it was.\<close>

lemma looping_extra_ignored:
  assumes "classify outcome rm rules rounds = Some (Some (RepeatedFailure, reason))"
  shows "trigger_extra RepeatedFailure \<and> gc_budget (ls_gate (continue_gate w outcome rm extra s)) = gc_budget (ls_gate s)"
proof -
  have "outcome \<notin> {''completed'', ''blocked''} \<and> \<not> rm" using assms by (auto simp: classify_def split: if_splits)
  then show ?thesis by (simp add: trigger_extra_def continue_gate_def loop_simps)
qed

end
