(* ===== verification/Ask_Store.thy ===== *)
theory Ask_Store
  imports Role_Text Harness_Machine "HOL-Library.List_Lexorder" "HOL-Library.Char_ord"
begin

text \<open>
  The store of open asks (\<open>ask_store.py\<close>): what an ask and an answer may hold, the records with their
  history, and the vault that keeps secrets apart from them. The vault is an interface of four
  operations; \<open>LocalVault\<close> is modelled, the helper under another user is a program the store
  only calls. Every operation runs under the lock of its ask and replaces one file, and is one
  step here. A record is what the store's own writers make; \<open>now\<close> is the text of the clock
  during an operation.
\<close>

section \<open>Shapes of texts\<close>

definition alnum :: "char \<Rightarrow> bool" where
  "alnum c = (is_letter c \<or> is_digit c)"

definition ASK_ID_RE :: "string \<Rightarrow> bool" where
  "ASK_ID_RE s = (case s of [] \<Rightarrow> False
     | c # cs \<Rightarrow> alnum c \<and> length cs \<le> 127 \<and> list_all (\<lambda>d. alnum d \<or> d \<in> set ''._-'') cs)"

definition FIELD_NAME_RE :: "string \<Rightarrow> bool" where
  "FIELD_NAME_RE s = (case s of [] \<Rightarrow> False
     | c # cs \<Rightarrow> is_lower_alpha c \<and> length cs \<le> 31 \<and> list_all (\<lambda>d. is_lower_alpha d \<or> is_digit d \<or> d = CHR ''_'') cs)"

definition KIND_RE :: "string \<Rightarrow> bool" where
  "KIND_RE s = (case s of [] \<Rightarrow> False
     | c # cs \<Rightarrow> is_upper_alpha c \<and> length cs \<le> 31 \<and> list_all (\<lambda>d. is_upper_alpha d \<or> is_digit d \<or> d \<in> set ''_-'') cs)"

definition begins :: "string \<Rightarrow> string \<Rightarrow> bool" where
  "begins w s = (take (length w) s = w)"

definition is_live_id :: "string \<Rightarrow> bool" where
  "is_live_id i = (begins ''gate-'' i \<or> begins ''blocked-'' i)"

definition CLOSED_PREFIXES :: "string list" where
  "CLOSED_PREFIXES = [''closed'', ''answered'', ''done'', ''resolved'', ''superseded'']"

definition is_closed_state :: "string \<Rightarrow> bool" where
  "is_closed_state state =
     (let t = dropWhile (\<lambda>c. c = CHR ''*'') (py_lower (py_strip state)) in list_ex (\<lambda>p. begins p t) CLOSED_PREFIXES)"

definition no_controls :: "bool \<Rightarrow> string \<Rightarrow> bool" where
  "no_controls allow_newlines t = list_all (\<lambda>c.
     (allow_newlines \<and> c \<in> set [newline, CHR 0x0D, CHR 0x09]) \<or> \<not> ((of_char c :: nat) < 32 \<or> (of_char c :: nat) = 127)) t"

text \<open>
  \<open>_TOKEN_SHAPES.search\<close>. A search only asks whether a match exists, so that \<open>{20,}\<close> is a run
  of at least twenty. \<open>prev\<close> says that the character before is a word character.
\<close>

definition run_at_least :: "nat \<Rightarrow> (char \<Rightarrow> bool) \<Rightarrow> string \<Rightarrow> bool" where
  "run_at_least n p s = (n \<le> length (takeWhile p s))"

definition begins_one_of :: "string \<Rightarrow> string \<Rightarrow> char \<Rightarrow> string \<Rightarrow> bool" where
  "begins_one_of w cs sep s = list_ex (\<lambda>c. begins (w @ [c, sep]) s) cs"

definition private_key_at :: "string \<Rightarrow> bool" where
  "private_key_at s = (begins ''-----BEGIN '' s \<and> (let r = drop 11 s in
     list_ex (\<lambda>k. begins ''PRIVATE KEY-----'' (drop k r)) [0..<Suc (length (takeWhile (\<lambda>c. is_upper_alpha c \<or> c = CHR '' '') r))]))"

definition token_at :: "bool \<Rightarrow> string \<Rightarrow> bool" where
  "token_at prev s =
     (begins ''github_pat_'' s \<and> run_at_least 20 (\<lambda>c. alnum c \<or> c = CHR ''_'') (drop 11 s) \<or>
      \<not> prev \<and>
        (begins_one_of ''gh'' ''pousr'' CHR ''_'' s \<and> run_at_least 20 alnum (drop 4 s) \<or>
         begins ''sk-'' s \<and> run_at_least 20 (\<lambda>c. alnum c \<or> c \<in> set ''_-'') (drop 3 s) \<or>
         begins ''AKIA'' s \<and> run_at_least 16 (\<lambda>c. is_digit c \<or> is_upper_alpha c) (drop 4 s) \<and>
           (case drop 20 s of [] \<Rightarrow> True | c # _ \<Rightarrow> \<not> is_word c) \<or>
         begins_one_of ''xox'' ''abpr'' CHR ''-'' s \<and> run_at_least 10 (\<lambda>c. alnum c \<or> c = CHR ''-'') (drop 5 s)) \<or>
      private_key_at s)"

fun has_token :: "bool \<Rightarrow> string \<Rightarrow> bool" where
  "has_token prev [] = False"
| "has_token prev (c # cs) = (token_at prev (c # cs) \<or> has_token (is_word c) cs)"

definition looks_like_token :: "string \<Rightarrow> bool" where
  "looks_like_token t = has_token False t"

text \<open>The static allow-list of targets, each with the pattern a value has to match.\<close>

definition token_value :: "string \<Rightarrow> bool" where
  "token_value v =
     (begins ''github_pat_'' v \<and> length v \<ge> 31 \<and> length v \<le> 266 \<and> list_all (\<lambda>c. alnum c \<or> c = CHR ''_'') (drop 11 v) \<or>
      begins_one_of ''gh'' ''pousr'' CHR ''_'' v \<and> length v \<ge> 24 \<and> length v \<le> 259 \<and> list_all alnum (drop 4 v))"

definition ASK_APPLY_TARGETS :: "(string \<times> (string \<Rightarrow> bool)) list" where
  "ASK_APPLY_TARGETS = [(''ct202-mcp-tools-env:GITHUB_MCP_TOKEN'', token_value)]"

definition apply_target_known :: "string \<Rightarrow> bool" where
  "apply_target_known t = (t \<in> set (map fst ASK_APPLY_TARGETS))"

definition target_listed :: "pyval \<Rightarrow> bool" where
  "target_listed v = (case v of PStr t \<Rightarrow> apply_target_known t | _ \<Rightarrow> False)"

definition value_matches :: "string \<Rightarrow> string \<Rightarrow> bool" where
  "value_matches t v = (case map_of ASK_APPLY_TARGETS t of None \<Rightarrow> False | Some p \<Rightarrow> p v)"

section \<open>Validation\<close>

datatype vault_exn = VaultApply string | VaultOther string string

datatype ask_exn = AskStoreError string int | AskVault vault_exn | AskAttributeError

definition refuse :: "int \<Rightarrow> string \<Rightarrow> (ask_exn, 'a) result" where
  "refuse code m = Inl (AskStoreError m code)"

definition validate_ask_id :: "pyval \<Rightarrow> (ask_exn, string) result" where
  "validate_ask_id v = (case v of
       PStr s \<Rightarrow> if ASK_ID_RE (py_strip s) then Inr (py_strip s) else refuse 400 ''id must match [A-Za-z0-9][A-Za-z0-9._-]{0,127}''
     | _ \<Rightarrow> refuse 400 ''id must match [A-Za-z0-9][A-Za-z0-9._-]{0,127}'')"

definition validate_field_name :: "pyval \<Rightarrow> (ask_exn, string) result" where
  "validate_field_name v = (case v of
       PStr s \<Rightarrow> if FIELD_NAME_RE s then Inr s else refuse 400 ''field must match [a-z][a-z0-9_]{0,31}''
     | _ \<Rightarrow> refuse 400 ''field must match [a-z][a-z0-9_]{0,31}'')"

definition MAX_ACTOR_CHARS :: nat where "MAX_ACTOR_CHARS = 254"
definition MAX_FIELDS :: nat where "MAX_FIELDS = 8"
definition MAX_LABEL_CHARS :: nat where "MAX_LABEL_CHARS = 120"
definition MAX_BODY_CHARS :: nat where "MAX_BODY_CHARS = 20000"
definition MAX_SECRET_CHARS :: nat where "MAX_SECRET_CHARS = 4096"
definition MAX_HISTORY :: nat where "MAX_HISTORY = 200"

definition validate_actor :: "pyval \<Rightarrow> (ask_exn, string) result" where
  "validate_actor v = (case v of
       PStr s \<Rightarrow>
         let t = py_strip s in
         if t = [] then refuse 400 ''actor is required''
         else if length t > MAX_ACTOR_CHARS \<or> \<not> no_controls False t then refuse 400 ''actor must be at most 254 printable characters''
         else Inr t
     | _ \<Rightarrow> refuse 400 ''actor is required'')"

datatype field_type = Body | Secret

record field_spec =
  fs_name :: string
  fs_type :: field_type
  fs_label :: string
  fs_required :: bool
  fs_target :: "string option"

definition default_fields :: "string \<Rightarrow> field_spec list" where
  "default_fields kind =
     \<lparr>fs_name = ''response'', fs_type = Body, fs_label = ''Response'', fs_required = False, fs_target = None\<rparr> #
     (if py_lower (py_strip kind) = ''credential''
      then [\<lparr>fs_name = ''secret'', fs_type = Secret, fs_label = ''Secret'', fs_required = False, fs_target = None\<rparr>] else [])"

definition FIELD_KEYS :: "string list" where
  "FIELD_KEYS = [''name'', ''type'', ''label'', ''required'', ''apply_target'']"

definition field_type_of :: "pyval \<Rightarrow> field_type option" where
  "field_type_of v = (if v = PStr ''body'' then Some Body else if v = PStr ''secret'' then Some Secret else None)"

definition in_quotes :: "string \<Rightarrow> string" where
  "in_quotes t = [CHR 0x27] @ t @ [CHR 0x27]"

text \<open>One item of \<open>validate_fields\<close>; \<open>seen\<close> are the names before it, \<open>rp\<close> is \<open>repr\<close> of a text.\<close>

definition check_target :: "(string \<Rightarrow> string) \<Rightarrow> string \<Rightarrow> field_type \<Rightarrow> pyval \<Rightarrow> (ask_exn, string option) result" where
  "check_target rp name ft target =
     (if target = PNone \<or> target = PStr [] then Inr None
      else if ft \<noteq> Secret then refuse 400 (''field '' @ rp name @ '': only a secret field can declare apply_target'')
      else case target of
        PStr t \<Rightarrow> if apply_target_known t then Inr (Some t) else refuse 400 (''field '' @ rp name @ '': apply_target is not on the apply allow-list'')
      | _ \<Rightarrow> refuse 400 (''field '' @ rp name @ '': apply_target is not on the apply allow-list''))"

definition validate_field :: "(string \<Rightarrow> string) \<Rightarrow> string list \<Rightarrow> pyval \<Rightarrow> (ask_exn, field_spec) result" where
  "validate_field rp seen item = (case item of
       PDict d \<Rightarrow>
         let unknown = filter (\<lambda>k. k \<notin> set FIELD_KEYS) (map fst d) in
         if unknown \<noteq> [] then refuse 400 (''unknown field key(s): '' @ py_join '', '' (sort unknown))
         else (case dget d ''name'' of
           PStr name \<Rightarrow>
             if \<not> FIELD_NAME_RE name then refuse 400 ''field name must match [a-z][a-z0-9_]{0,31}''
             else if name \<in> set seen then refuse 400 (''duplicate field name '' @ rp name)
             else (case field_type_of (dget d ''type'') of
               None \<Rightarrow> refuse 400 (''field '' @ rp name @ '': type must be '' @ in_quotes ''body'' @ '' or '' @ in_quotes ''secret'')
             | Some ft \<Rightarrow>
                 (case (if has_key d ''label'' then dget d ''label'' else PStr name, if has_key d ''required'' then dget d ''required'' else PBool False) of
                    (PStr label, required) \<Rightarrow>
                      if length label > MAX_LABEL_CHARS \<or> \<not> no_controls False label
                      then refuse 400 (''field '' @ rp name @ '': label must be at most 120 printable characters'')
                      else (case required of
                        PBool b \<Rightarrow> rbind (check_target rp name ft (dget d ''apply_target'')) (\<lambda>t.
                          Inr \<lparr>fs_name = name, fs_type = ft, fs_label = if py_strip label = [] then name else py_strip label, fs_required = b, fs_target = t\<rparr>)
                      | _ \<Rightarrow> refuse 400 (''field '' @ rp name @ '': required must be true or false''))
                  | _ \<Rightarrow> refuse 400 (''field '' @ rp name @ '': label must be at most 120 printable characters'')))
         | _ \<Rightarrow> refuse 400 ''field name must match [a-z][a-z0-9_]{0,31}'')
     | _ \<Rightarrow> refuse 400 ''each field must be an object'')"

fun validate_items :: "(string \<Rightarrow> string) \<Rightarrow> string list \<Rightarrow> pyval list \<Rightarrow> (ask_exn, field_spec list) result" where
  "validate_items rp seen [] = Inr []"
| "validate_items rp seen (x # xs) =
     rbind (validate_field rp seen x) (\<lambda>f. rbind (validate_items rp (fs_name f # seen) xs) (\<lambda>fs. Inr (f # fs)))"

definition validate_fields :: "(string \<Rightarrow> string) \<Rightarrow> pyval \<Rightarrow> (ask_exn, field_spec list) result" where
  "validate_fields rp v = (case v of
       PList xs \<Rightarrow>
         if xs = [] then refuse 400 ''fields must be a non-empty list''
         else if length xs > MAX_FIELDS then refuse 400 ''at most 8 fields per ask''
         else validate_items rp [] xs
     | _ \<Rightarrow> refuse 400 ''fields must be a non-empty list'')"

record ask_columns =
  co_kind :: string
  co_ask :: string
  co_evidence :: string
  co_recommended :: string
  co_default :: string

definition EVIDENCE_LIMIT :: nat where "EVIDENCE_LIMIT = 4000"

definition validate_column :: "pydict \<Rightarrow> string \<Rightarrow> nat \<Rightarrow> (ask_exn, string) result" where
  "validate_column d name limit = (case dget d name of
       PNone \<Rightarrow> Inr []
     | PStr s \<Rightarrow>
         let t = py_strip s in
         if length t > limit \<or> \<not> no_controls True t
         then refuse 400 (name @ '' must be at most '' @ show_nat limit @ '' characters without control bytes'') else Inr t
     | _ \<Rightarrow> refuse 400 (name @ '' must be a string''))"

definition validate_columns :: "pydict \<Rightarrow> bool \<Rightarrow> (ask_exn, ask_columns) result" where
  "validate_columns d require_ask =
     (let bad_kind = refuse 400 ''kind must match [A-Z][A-Z0-9_-]{0,31} (e.g. CREDENTIAL, DECISION)'' in
      case dget d ''kind'' of
        PStr k \<Rightarrow>
          if \<not> KIND_RE (py_strip k) then bad_kind
          else rbind (validate_column d ''ask'' 4000) (\<lambda>a.
            rbind (validate_column d ''evidence'' EVIDENCE_LIMIT) (\<lambda>e.
            rbind (validate_column d ''recommended'' 2000) (\<lambda>r.
            rbind (validate_column d ''default_if_silent'' 1000) (\<lambda>df.
            if require_ask \<and> a = [] then refuse 400 ''ask is required''
            else Inr \<lparr>co_kind = py_strip k, co_ask = a, co_evidence = e, co_recommended = r, co_default = df\<rparr>))))
      | _ \<Rightarrow> bad_kind)"

definition validate_body :: "(string \<Rightarrow> string) \<Rightarrow> string \<Rightarrow> pyval \<Rightarrow> (ask_exn, string) result" where
  "validate_body rp name v = (case v of
       PStr s \<Rightarrow>
         if length s > MAX_BODY_CHARS \<or> nul \<in> set s then refuse 400 (''field '' @ rp name @ '' must be at most 20000 characters without NUL'')
         else if looks_like_token s then refuse 422 (''field '' @ rp name @ '' looks like it contains a secret token; put it in a secret field instead'')
         else Inr s
     | _ \<Rightarrow> refuse 400 (''field '' @ rp name @ '' must be a string''))"

definition validate_secret :: "(string \<Rightarrow> string) \<Rightarrow> string \<Rightarrow> pyval \<Rightarrow> (ask_exn, string) result" where
  "validate_secret rp name v = (case v of
       PStr s \<Rightarrow>
         if length s > MAX_SECRET_CHARS \<or> \<not> no_controls False s
         then refuse 400 (''secret field '' @ rp name @ '' must be at most 4096 characters without control bytes or newlines'') else Inr s
     | _ \<Rightarrow> refuse 400 (''secret field '' @ rp name @ '' must be a string''))"

text \<open>\<open>_redact\<close>; the empty value stands for \<open>None\<close>, and both are left alone.\<close>

definition redact :: "string \<Rightarrow> string \<Rightarrow> string" where
  "redact t v =
     (let t1 = py_strip t; t2 = (if v = [] then t1 else py_replace v ''[redacted]'' t1) in take 300 (py_join '' '' (py_split t2)))"

section \<open>Vaults\<close>

text \<open>
  What a vault does with its own state: seal the values of an ask with their targets, clear one,
  apply one to a target, and report the sealed fields with their targets. \<open>request\<close> is the signed
  tool call, which the helper verifies again.
\<close>

record 'v vault =
  va_seal :: "string \<Rightarrow> (string \<times> string \<times> string) list \<Rightarrow> string \<Rightarrow> pyval \<Rightarrow> string \<Rightarrow> 'v \<Rightarrow> (vault_exn, 'v, unit) stateful"
  va_clear :: "string \<Rightarrow> string \<Rightarrow> pyval \<Rightarrow> 'v \<Rightarrow> (vault_exn, 'v, bool) stateful"
  va_apply :: "string \<Rightarrow> string \<Rightarrow> string \<Rightarrow> pyval \<Rightarrow> 'v \<Rightarrow> (vault_exn, 'v, unit) stateful"
  va_status :: "string \<Rightarrow> 'v \<Rightarrow> (vault_exn, (string \<times> string) list) result"

record sealed =
  se_value :: string
  se_target :: string
  se_set_at :: string
  se_set_by :: string

text \<open>\<open>LocalVault\<close>: sealed values by ask and field, and what its writer has written, oldest first.\<close>

record local_vault =
  lv_sealed :: "((string \<times> string) \<times> sealed) list"
  lv_written :: "(string \<times> string) list"

fun local_seal :: "string \<Rightarrow> (string \<times> string \<times> string) list \<Rightarrow> string \<Rightarrow> pyval \<Rightarrow> string \<Rightarrow> local_vault \<Rightarrow> (vault_exn, local_vault, unit) stateful" where
  "local_seal i [] actor req now v = Inr ((), v)"
| "local_seal i ((f, x, t) # rest) actor req now v =
     local_seal i rest actor req now
       (v\<lparr>lv_sealed := aupd (i, f) \<lparr>se_value = x, se_target = t, se_set_at = now, se_set_by = actor\<rparr> (lv_sealed v)\<rparr>)"

definition local_status :: "string \<Rightarrow> local_vault \<Rightarrow> (vault_exn, (string \<times> string) list) result" where
  "local_status i v = Inr (sort_key fst (map (\<lambda>((_, f), x). (f, se_target x)) (filter (\<lambda>((j, f), _). j = i \<and> FIELD_NAME_RE f) (lv_sealed v))))"

definition local_clear :: "string \<Rightarrow> string \<Rightarrow> pyval \<Rightarrow> local_vault \<Rightarrow> (vault_exn, local_vault, bool) stateful" where
  "local_clear i f req v = Inr (map_of (lv_sealed v) (i, f) \<noteq> None, v\<lparr>lv_sealed := adel (i, f) (lv_sealed v)\<rparr>)"

fun writer_failure :: "vault_exn \<Rightarrow> string \<Rightarrow> string" where
  "writer_failure (VaultApply m) value = redact m value"
| "writer_failure (VaultOther ty m) value = redact (ty @ '': '' @ m) value"

definition local_apply ::
    "(string \<Rightarrow> string \<Rightarrow> vault_exn option) option \<Rightarrow> string \<Rightarrow> string \<Rightarrow> string \<Rightarrow> pyval \<Rightarrow> local_vault \<Rightarrow> (vault_exn, local_vault, unit) stateful" where
  "local_apply writer i f target req v =
     (if \<not> apply_target_known target then Inl (VaultOther ''KeyError'' target, v)
      else case map_of (lv_sealed v) (i, f) of
        None \<Rightarrow> Inl (VaultApply ''no sealed secret for this field'', v)
      | Some x \<Rightarrow>
          if se_target x = [] then Inl (VaultApply ''no apply target was recorded when this secret was submitted'', v)
          else if se_target x \<noteq> target then Inl (VaultApply ''target differs from the one recorded when this secret was submitted'', v)
          else if \<not> value_matches target (se_value x) then Inl (VaultApply (''the value does not match the target'' @ [CHR 0x27] @ ''s format''), v)
          else case writer of
            None \<Rightarrow> Inl (VaultApply ''this vault cannot apply (use the separate-uid helper)'', v)
          | Some wr \<Rightarrow> (case wr target (se_value x) of
              Some e \<Rightarrow> Inl (VaultApply (writer_failure e (se_value x)), v)
            | None \<Rightarrow> Inr ((), v\<lparr>lv_sealed := adel (i, f) (lv_sealed v), lv_written := lv_written v @ [(target, se_value x)]\<rparr>)))"

definition local_vault_ops :: "(string \<Rightarrow> string \<Rightarrow> vault_exn option) option \<Rightarrow> local_vault vault" where
  "local_vault_ops writer =
     \<lparr>va_seal = local_seal, va_clear = local_clear, va_apply = local_apply writer, va_status = local_status\<rparr>"

section \<open>Records\<close>

text \<open>What a record keeps of a secret: the keys of its metadata, each present or not.\<close>

record secret_meta =
  sm_set_at :: "string option"
  sm_set_by :: "string option"
  sm_length :: "nat option"
  sm_sealed :: "bool option"
  sm_target :: "string option"
  sm_applied_at :: "string option"
  sm_applied_target :: "string option"

definition no_meta :: secret_meta where
  "no_meta = \<lparr>sm_set_at = None, sm_set_by = None, sm_length = None, sm_sealed = None, sm_target = None, sm_applied_at = None, sm_applied_target = None\<rparr>"

datatype answer = RBody string | RSecret secret_meta

record history_entry =
  hi_at :: string
  hi_actor :: string
  hi_action :: string
  hi_fields :: "string list"
  hi_target :: "string option"
  hi_reason :: "string option"

record ask_record =
  rc_id :: string
  rc_ask :: string
  rc_kind :: string
  rc_evidence :: string
  rc_recommended :: string
  rc_default :: string
  rc_state :: string
  rc_origin :: string
  rc_fields :: "field_spec list option"
  rc_response :: "(string \<times> answer) list"
  rc_history :: "history_entry list"
  rc_created_at :: string
  rc_updated_at :: string

record ask_row =
  ro_id :: string
  ro_ask :: string
  ro_kind :: string
  ro_evidence :: string
  ro_recommended :: string
  ro_default :: string
  ro_state :: string
  ro_origin :: string
  ro_fields :: "field_spec list"
  ro_response :: "(string \<times> answer) list"
  ro_updated_at :: string

record 'v ask_sys =
  sy_asks :: "(string \<times> ask_record) list"
  sy_vault :: 'v

text \<open>The runtime of an operation; \<open>ak_disabled\<close> is empty when the secret tools are on.\<close>

record 'v ask_env =
  ak_repr :: "string \<Rightarrow> string"
  ak_render :: "pyval \<Rightarrow> string"
  ak_disabled :: string
  ak_vault :: "'v vault"

type_synonym ('v, 'a) ask_result = "(ask_exn, 'v ask_sys, 'a) stateful"

definition effective_fields :: "ask_record \<Rightarrow> field_spec list" where
  "effective_fields r = (case rc_fields r of Some (f # fs) \<Rightarrow> f # fs | _ \<Rightarrow> default_fields (rc_kind r))"

definition field_named :: "ask_record \<Rightarrow> string \<Rightarrow> field_spec option" where
  "field_named r n = map_of (rev (map (\<lambda>f. (fs_name f, f)) (effective_fields r))) n"

definition target_of :: "field_spec \<Rightarrow> string" where
  "target_of f = (case fs_target f of None \<Rightarrow> [] | Some t \<Rightarrow> t)"

definition add_history :: "string \<Rightarrow> string \<Rightarrow> string \<Rightarrow> string list \<Rightarrow> string option \<Rightarrow> string option \<Rightarrow> ask_record \<Rightarrow> ask_record" where
  "add_history now actor action names target reason r =
     r\<lparr>rc_history := rc_history r @ [\<lparr>hi_at = now, hi_actor = actor, hi_action = action, hi_fields = names, hi_target = target, hi_reason = reason\<rparr>]\<rparr>"

text \<open>\<open>_save\<close>: the last two hundred steps are kept.\<close>

definition saved :: "string \<Rightarrow> ask_record \<Rightarrow> ask_record" where
  "saved now r = r\<lparr>rc_updated_at := now, rc_history := drop (length (rc_history r) - MAX_HISTORY) (rc_history r)\<rparr>"

definition save_ask :: "string \<Rightarrow> ask_record \<Rightarrow> 'v ask_sys \<Rightarrow> 'v ask_sys" where
  "save_ask now r s = s\<lparr>sy_asks := aupd (rc_id r) (saved now r) (sy_asks s)\<rparr>"

definition new_record :: "(pyval \<Rightarrow> string) \<Rightarrow> string \<Rightarrow> string \<Rightarrow> pydict \<Rightarrow> string \<Rightarrow> ask_record" where
  "new_record render now i d origin =
     \<lparr>rc_id = i, rc_ask = str_or_empty render (dget d ''ask''), rc_kind = str_or_empty render (dget d ''kind''),
      rc_evidence = str_or_empty render (dget d ''evidence''), rc_recommended = str_or_empty render (dget d ''recommended''),
      rc_default = str_or_empty render (dget d ''default_if_silent''),
      rc_state = (if truthy (dget d ''state'') then py_str render (dget d ''state'') else ''OPEN''),
      rc_origin = origin, rc_fields = None, rc_response = [], rc_history = [], rc_created_at = now, rc_updated_at = []\<rparr>"

definition column_dict :: "ask_columns \<Rightarrow> pydict" where
  "column_dict c = [(''kind'', PStr (co_kind c)), (''ask'', PStr (co_ask c)), (''evidence'', PStr (co_evidence c)),
     (''recommended'', PStr (co_recommended c)), (''default_if_silent'', PStr (co_default c)), (''state'', PStr ''OPEN'')]"

definition shown_answer :: "field_spec \<Rightarrow> answer \<Rightarrow> answer" where
  "shown_answer f a = (case (fs_type f, a) of (Secret, RBody _) \<Rightarrow> RSecret no_meta | _ \<Rightarrow> a)"

definition public_row :: "ask_record \<Rightarrow> ask_row" where
  "public_row r =
     \<lparr>ro_id = rc_id r, ro_ask = rc_ask r, ro_kind = rc_kind r, ro_evidence = rc_evidence r, ro_recommended = rc_recommended r,
      ro_default = rc_default r, ro_state = rc_state r, ro_origin = rc_origin r, ro_fields = effective_fields r,
      ro_response = List.map_filter (\<lambda>f. map_option (\<lambda>a. (fs_name f, shown_answer f a)) (map_of (rc_response r) (fs_name f))) (effective_fields r),
      ro_updated_at = rc_updated_at r\<rparr>"

definition public_rows :: "'v ask_sys \<Rightarrow> ask_row list" where
  "public_rows s = map (public_row \<circ> snd) (sort_key (\<lambda>p. fst p @ ''.json'') (sy_asks s))"

text \<open>\<open>_sealed\<close>: the fields that hold a secret, with its target.\<close>

definition sealed_answer :: "answer \<Rightarrow> string option" where
  "sealed_answer a = (case a of
       RSecret m \<Rightarrow> if sm_sealed m = Some True then Some (case sm_target m of None \<Rightarrow> [] | Some t \<Rightarrow> t) else None
     | RBody _ \<Rightarrow> None)"

definition sealed_fields :: "'v ask_env \<Rightarrow> string \<Rightarrow> ask_record \<Rightarrow> 'v \<Rightarrow> (ask_exn, (string \<times> string) list) result" where
  "sealed_fields env i r v =
     (if ak_disabled env = [] then
        (case va_status (ak_vault env) i v of
           Inl (VaultApply m) \<Rightarrow> refuse 502 (''could not read the vault status: '' @ m)
         | Inl e \<Rightarrow> Inl (AskVault e)
         | Inr fs \<Rightarrow> Inr fs)
      else Inr (List.map_filter (\<lambda>(n, a). map_option (\<lambda>t. (n, t)) (sealed_answer a)) (rc_response r)))"

definition require_secrets :: "'v ask_env \<Rightarrow> (ask_exn, unit) result" where
  "require_secrets env = (if ak_disabled env = [] then Inr () else refuse 503 (ak_disabled env))"

definition secret_field :: "'v ask_env \<Rightarrow> ask_record \<Rightarrow> string \<Rightarrow> string \<Rightarrow> (ask_exn, field_spec) result" where
  "secret_field env r f i = (case field_named r f of
       Some sp \<Rightarrow> if fs_type sp = Secret then Inr sp else refuse 400 (ak_repr env f @ '' is not a secret field of '' @ ak_repr env i)
     | None \<Rightarrow> refuse 400 (ak_repr env f @ '' is not a secret field of '' @ ak_repr env i))"

section \<open>Operations\<close>

definition put_ask :: "string \<Rightarrow> ask_record \<Rightarrow> 'v ask_sys \<Rightarrow> ('v, ask_row) ask_result" where
  "put_ask now r s = Inr (public_row (saved now r), save_ask now r s)"

definition raise_ask ::
    "'v ask_env \<Rightarrow> string \<Rightarrow> ask_columns \<Rightarrow> field_spec list option \<Rightarrow> string \<Rightarrow> string \<Rightarrow> 'v ask_sys \<Rightarrow> ('v, ask_row) ask_result" where
  "raise_ask env i cols decl actor now s =
     sbind (slift (validate_ask_id (PStr i)) s) (\<lambda>i s.
     if is_live_id i then slift (refuse 400 ''ids starting gate- or blocked- belong to live rows'') s
     else if map_of (sy_asks s) i \<noteq> None then slift (refuse 409 (''ask '' @ ak_repr env i @ '' already exists'')) s
     else put_ask now (add_history now actor ''raise'' (case decl of None \<Rightarrow> [] | Some fs \<Rightarrow> map fs_name fs) None None
            (new_record (ak_render env) now i (column_dict cols) ''raised'' \<lparr>rc_fields := decl\<rparr>)) s)"

definition get_or_seed :: "'v ask_env \<Rightarrow> string \<Rightarrow> (pydict \<times> string) option \<Rightarrow> string \<Rightarrow> 'v ask_sys \<Rightarrow> (ask_exn, ask_record) result" where
  "get_or_seed env i seed now s = (case map_of (sy_asks s) i of
       Some r \<Rightarrow> Inr r
     | None \<Rightarrow> (case seed of
         None \<Rightarrow> refuse 404 (''ask '' @ ak_repr env i @ '' not found'')
       | Some (row, origin) \<Rightarrow> Inr (new_record (ak_render env) now i row origin)))"

definition keeps_binding :: "field_spec list \<Rightarrow> string \<times> string \<Rightarrow> bool" where
  "keeps_binding decl p = (case map_of (rev (map (\<lambda>f. (fs_name f, f)) decl)) (fst p) of
       None \<Rightarrow> False | Some f \<Rightarrow> fs_type f = Secret \<and> target_of f = snd p)"

definition dropped_by :: "field_spec list \<Rightarrow> field_spec \<Rightarrow> bool" where
  "dropped_by decl old = (case map_of (rev (map (\<lambda>f. (fs_name f, f)) decl)) (fs_name old) of
       None \<Rightarrow> True | Some f \<Rightarrow> fs_type old = Secret \<and> fs_type f \<noteq> Secret)"

definition declared :: "string \<Rightarrow> string \<Rightarrow> field_spec list \<Rightarrow> ask_record \<Rightarrow> ask_record" where
  "declared now actor decl r =
     (let gone = map fs_name (filter (dropped_by decl) (effective_fields r))
      in add_history now actor ''declare_fields'' (sort (remdups (map fs_name decl))) None None
           (r\<lparr>rc_response := filter (\<lambda>p. fst p \<notin> set gone) (rc_response r), rc_fields := Some decl\<rparr>))"

definition declare_fields ::
    "'v ask_env \<Rightarrow> string \<Rightarrow> field_spec list \<Rightarrow> string \<Rightarrow> (pydict \<times> string) option \<Rightarrow> string \<Rightarrow> 'v ask_sys \<Rightarrow> ('v, ask_row) ask_result" where
  "declare_fields env i decl actor seed now s =
     sbind (slift (validate_ask_id (PStr i)) s) (\<lambda>i s.
     sbind (slift (get_or_seed env i seed now s) s) (\<lambda>r s.
     sbind (slift (sealed_fields env i r (sy_vault s)) s) (\<lambda>sealed s.
     case find (\<lambda>p. \<not> keeps_binding decl p) sealed of
       Some (n, t) \<Rightarrow> slift (refuse 409 (''field '' @ ak_repr env n @ '' holds a sealed secret bound to '' @ (if t = [] then ''no target'' else t) @
         ''; clear it before removing the field or changing its type or apply target'')) s
     | None \<Rightarrow> put_ask now (declared now actor decl r) s)))"

text \<open>The values of an answer, checked in their order: the bodies and the secrets, or the first refusal.\<close>

fun check_values ::
    "(string \<Rightarrow> string) \<Rightarrow> (string \<Rightarrow> field_spec option) \<Rightarrow> pydict \<Rightarrow> (ask_exn, (string \<times> string) list \<times> (string \<times> string) list) result" where
  "check_values rp spec [] = Inr ([], [])"
| "check_values rp spec ((n, v) # rest) =
     (case spec n of
        Some f \<Rightarrow>
          if fs_type f = Body
          then rbind (validate_body rp n (if v = PNone then PStr [] else v)) (\<lambda>t.
            rbind (check_values rp spec rest) (\<lambda>(bs, ss). Inr ((n, t) # bs, ss)))
          else if v \<noteq> PNone \<and> v \<noteq> PStr []
          then rbind (validate_secret rp n v) (\<lambda>t. rbind (check_values rp spec rest) (\<lambda>(bs, ss). Inr (bs, (n, t) # ss)))
          else check_values rp spec rest
      | None \<Rightarrow> check_values rp spec rest)"

fun is_string :: "pyval \<Rightarrow> bool" where
  "is_string (PStr _) = True"
| "is_string _ = False"

fun string_in :: "pyval \<Rightarrow> string" where
  "string_in (PStr t) = t"
| "string_in _ = []"

definition text_dict :: "pyval \<Rightarrow> (string \<times> string) list option" where
  "text_dict v = (case v of
       PNone \<Rightarrow> Some []
     | PDict d \<Rightarrow> if list_all (is_string \<circ> snd) d then Some (map (apsnd string_in) d) else None
     | _ \<Rightarrow> None)"

definition target_fault :: "'v ask_env \<Rightarrow> ask_record \<Rightarrow> string \<times> string \<Rightarrow> string option" where
  "target_fault env r p = (case field_named r (fst p) of
       Some f \<Rightarrow>
         if fs_type f \<noteq> Secret then Some (ak_repr env (fst p) @ '' is not a secret field of '' @ ak_repr env (rc_id r) @ '' (fields changed; reload)'')
         else if snd p \<noteq> target_of f
         then Some (''field '' @ ak_repr env (fst p) @ '' now declares apply target '' @ (if target_of f = [] then ''none'' else target_of f) @ ''; reload before submitting'')
         else None
     | None \<Rightarrow> Some (ak_repr env (fst p) @ '' is not a secret field of '' @ ak_repr env (rc_id r) @ '' (fields changed; reload)''))"

text \<open>Whether a field has something once the answer is in.\<close>

definition answer_set :: "answer \<Rightarrow> bool" where
  "answer_set a = (case a of RBody t \<Rightarrow> t \<noteq> [] | RSecret m \<Rightarrow> m \<noteq> no_meta)"

definition answer_filled :: "answer \<Rightarrow> bool" where
  "answer_filled a = (case a of RBody t \<Rightarrow> py_strip t \<noteq> [] | RSecret m \<Rightarrow> m \<noteq> no_meta)"

definition field_filled :: "(string \<times> answer) list \<Rightarrow> (string \<times> string) list \<Rightarrow> string list \<Rightarrow> field_spec \<Rightarrow> bool" where
  "field_filled response bodies secrets f =
     (let n = fs_name f;
          v = (if n \<in> set secrets then Some (RSecret (no_meta\<lparr>sm_sealed := Some True\<rparr>))
               else case map_of bodies n of Some t \<Rightarrow> Some (RBody t) | None \<Rightarrow> map_of response n)
      in case v of None \<Rightarrow> False | Some a \<Rightarrow> if fs_type f = Secret then answer_set a else answer_filled a)"

definition new_meta :: "string \<Rightarrow> string \<Rightarrow> string \<Rightarrow> string \<Rightarrow> secret_meta" where
  "new_meta now actor target value =
     \<lparr>sm_set_at = Some now, sm_set_by = Some actor, sm_length = Some (length value), sm_sealed = Some True, sm_target = Some target,
      sm_applied_at = None, sm_applied_target = None\<rparr>"

definition put_answers :: "string \<Rightarrow> string \<Rightarrow> (string \<times> string) list \<Rightarrow> (string \<times> string) list \<Rightarrow> (string \<times> string) list \<Rightarrow> (string \<times> answer) list \<Rightarrow> (string \<times> answer) list" where
  "put_answers now actor bodies secrets targets response =
     foldl (\<lambda>d (n, x). aupd n (RSecret (new_meta now actor (case map_of targets n of Some t \<Rightarrow> t | None \<Rightarrow> []) x)) d)
       (foldl (\<lambda>d (n, t). aupd n (RBody t) d) response bodies) secrets"

definition closed_stamp :: "string \<Rightarrow> string \<Rightarrow> string" where
  "closed_stamp now actor = ''CLOSED '' @ now @ '' by '' @ actor @ '' (web)''"

definition answered :: "string \<Rightarrow> string \<Rightarrow> (string \<times> string) list \<Rightarrow> (string \<times> string) list \<Rightarrow> (string \<times> string) list \<Rightarrow> ask_record \<Rightarrow> ask_record" where
  "answered now actor bodies secrets targets r =
     (let changed = sort (remdups (map fst bodies @ map fst secrets));
          r1 = (if is_closed_state (rc_state r) \<and> \<not> is_live_id (rc_id r)
                then add_history now actor ''reopen'' changed None None (r\<lparr>rc_state := ''OPEN''\<rparr>) else r)
      in add_history now actor ''respond'' changed None None
           (r1\<lparr>rc_response := put_answers now actor bodies secrets targets (rc_response r), rc_state := closed_stamp now actor\<rparr>))"

definition seal_failure :: "(string \<times> string) list \<Rightarrow> string \<Rightarrow> string" where
  "seal_failure secrets m = ''could not seal: '' @ foldl (\<lambda>t (_, v). redact t v) m secrets"

definition with_targets :: "(string \<times> string) list \<Rightarrow> (string \<times> string) list \<Rightarrow> (string \<times> string \<times> string) list" where
  "with_targets targets secrets = map (\<lambda>(n, v). (n, v, case map_of targets n of Some t \<Rightarrow> t | None \<Rightarrow> [])) secrets"

definition seal_all :: "'v ask_env \<Rightarrow> string \<Rightarrow> (string \<times> string) list \<Rightarrow> (string \<times> string) list \<Rightarrow> string \<Rightarrow> pyval \<Rightarrow> string \<Rightarrow> 'v ask_sys \<Rightarrow> ('v, unit) ask_result" where
  "seal_all env i secrets targets actor req now s =
     (if secrets = [] then Inr ((), s)
      else case va_seal (ak_vault env) i (with_targets targets secrets) actor req now (sy_vault s) of
        Inl (VaultApply m, v) \<Rightarrow> slift (refuse 502 (seal_failure secrets m)) (s\<lparr>sy_vault := v\<rparr>)
      | Inl (e, v) \<Rightarrow> Inl (AskVault e, s\<lparr>sy_vault := v\<rparr>)
      | Inr (_, v) \<Rightarrow> Inr ((), s\<lparr>sy_vault := v\<rparr>))"

text \<open>What \<open>respond\<close> checks before it writes anything.\<close>

definition check_answer ::
    "'v ask_env \<Rightarrow> ask_record \<Rightarrow> pydict \<Rightarrow> pyval \<Rightarrow> (ask_exn, (string \<times> string) list \<times> (string \<times> string) list \<times> (string \<times> string) list) result" where
  "check_answer env r values secret_targets =
     (let unknown = sort (filter (\<lambda>k. field_named r k = None) (map fst values)) in
      if unknown \<noteq> [] then refuse 400 (''unknown field(s): '' @ py_join '', '' unknown)
      else rbind (check_values (ak_repr env) (field_named r) values) (\<lambda>(bodies, secrets).
        case text_dict secret_targets of
          None \<Rightarrow> refuse 400 ''secret_targets must be an object of {field: target}''
        | Some targets \<Rightarrow>
            (case List.map_filter (target_fault env r) targets of
               m # _ \<Rightarrow> refuse 409 m
             | [] \<Rightarrow>
                 let missing_targets = sort (filter (\<lambda>n. n \<notin> set (map fst targets)) (map fst secrets)) in
                 if missing_targets \<noteq> []
                 then refuse 400 (''secret_targets must name every secret field submitted: '' @ py_join '', '' missing_targets)
                 else rbind (if secrets = [] then Inr () else require_secrets env) (\<lambda>_.
                   let filled = field_filled (rc_response r) bodies (map fst secrets);
                       missing = map fs_name (filter (\<lambda>f. fs_required f \<and> \<not> filled f) (effective_fields r)) in
                   if \<not> list_ex filled (effective_fields r) then refuse 422 ''nothing to submit: every field is empty''
                   else if missing \<noteq> [] then refuse 422 (''required field(s) empty: '' @ py_join '', '' missing)
                   else Inr (bodies, secrets, targets)))))"

definition answer_ask ::
    "'v ask_env \<Rightarrow> string \<Rightarrow> string \<Rightarrow> ask_record \<Rightarrow> (string \<times> string) list \<Rightarrow> (string \<times> string) list \<Rightarrow> (string \<times> string) list \<Rightarrow> pyval \<Rightarrow> string \<Rightarrow> 'v ask_sys \<Rightarrow> ('v, ask_row) ask_result" where
  "answer_ask env i actor r bodies secrets targets req now s =
     sbind (seal_all env i secrets targets actor req now s) (\<lambda>_ s. put_ask now (answered now actor bodies secrets targets r) s)"

definition respond ::
    "'v ask_env \<Rightarrow> string \<Rightarrow> pyval \<Rightarrow> pyval \<Rightarrow> (pydict \<times> string) option \<Rightarrow> pyval \<Rightarrow> pyval \<Rightarrow> string \<Rightarrow> 'v ask_sys \<Rightarrow> ('v, ask_row) ask_result" where
  "respond env i actor values seed secret_targets req now s =
     sbind (slift (validate_ask_id (PStr i)) s) (\<lambda>i s.
     sbind (slift (validate_actor actor) s) (\<lambda>actor s.
     case values of
       PDict d \<Rightarrow>
         sbind (slift (get_or_seed env i seed now s) s) (\<lambda>r s.
         sbind (slift (check_answer env r d secret_targets) s) (\<lambda>(bodies, secrets, targets) s.
         answer_ask env i actor r bodies secrets targets req now s))
     | _ \<Rightarrow> slift (refuse 400 ''fields must be an object of {name: value}'') s))"

definition clear_field :: "'v ask_env \<Rightarrow> string \<Rightarrow> string \<Rightarrow> ask_record \<Rightarrow> string \<Rightarrow> pyval \<Rightarrow> string \<Rightarrow> 'v ask_sys \<Rightarrow> ('v, ask_row) ask_result" where
  "clear_field env i f r actor req now s =
     (case va_clear (ak_vault env) i f req (sy_vault s) of
        Inl (VaultApply m, v) \<Rightarrow> slift (refuse 502 (''could not clear the sealed secret: '' @ m)) (s\<lparr>sy_vault := v\<rparr>)
      | Inl (e, v) \<Rightarrow> Inl (AskVault e, s\<lparr>sy_vault := v\<rparr>)
      | Inr (removed, v) \<Rightarrow>
          let s1 = s\<lparr>sy_vault := v\<rparr> in
          if \<not> removed \<and> map_of (rc_response r) f = None then slift (refuse 404 (''secret '' @ ak_repr env f @ '' is not set'')) s1
          else put_ask now (add_history now actor ''clear_secret'' [f] None None (r\<lparr>rc_response := adel f (rc_response r)\<rparr>)) s1)"

definition clear_secret ::
    "'v ask_env \<Rightarrow> string \<Rightarrow> pyval \<Rightarrow> pyval \<Rightarrow> pyval \<Rightarrow> string \<Rightarrow> 'v ask_sys \<Rightarrow> ('v, ask_row) ask_result" where
  "clear_secret env i field actor req now s =
     sbind (slift (validate_ask_id (PStr i)) s) (\<lambda>i s.
     sbind (slift (validate_field_name field) s) (\<lambda>f s.
     sbind (slift (validate_actor actor) s) (\<lambda>actor s.
     sbind (slift (require_secrets env) s) (\<lambda>_ s.
     case map_of (sy_asks s) i of
       None \<Rightarrow> slift (refuse 404 (''ask '' @ ak_repr env i @ '' not found'')) s
     | Some r \<Rightarrow> sbind (slift (secret_field env r f i) s) (\<lambda>_ s. clear_field env i f r actor req now s)))))"

text \<open>The reason of a failed application, and the record it leaves behind.\<close>

definition apply_reason :: "vault_exn \<Rightarrow> string" where
  "apply_reason e = (case e of VaultApply m \<Rightarrow> redact m [] | VaultOther ty m \<Rightarrow> redact (ty @ '': '' @ m) [])"

definition apply_failed :: "string \<Rightarrow> string \<Rightarrow> string \<Rightarrow> string \<Rightarrow> string \<Rightarrow> ask_record \<Rightarrow> ask_record" where
  "apply_failed now actor f target reason r =
     (let note = ''apply failed '' @ now @ '': '' @ target @ '' '' @ reason; e = py_strip (rc_evidence r);
          evidence = (if e = [] then note else e @ '' | '' @ note)
      in add_history now actor ''apply_failed'' [f] (Some target) (Some reason)
           (r\<lparr>rc_evidence := drop (length evidence - EVIDENCE_LIMIT) evidence, rc_state := ''OPEN''\<rparr>))"

definition apply_done :: "string \<Rightarrow> string \<Rightarrow> string \<Rightarrow> string \<Rightarrow> secret_meta \<Rightarrow> ask_record \<Rightarrow> ask_record" where
  "apply_done now actor f target m r =
     add_history now actor ''apply'' [f] (Some target) None
       (r\<lparr>rc_response := aupd f (RSecret (m\<lparr>sm_applied_at := Some now, sm_applied_target := Some target, sm_sealed := Some False\<rparr>)) (rc_response r)\<rparr>)"

definition apply_field :: "'v ask_env \<Rightarrow> string \<Rightarrow> string \<Rightarrow> string \<Rightarrow> ask_record \<Rightarrow> string \<Rightarrow> pyval \<Rightarrow> string \<Rightarrow> 'v ask_sys \<Rightarrow> ('v, string \<times> string) ask_result" where
  "apply_field env i f t r actor req now s =
     (case va_apply (ak_vault env) i f t req (sy_vault s) of
        Inl (e, v) \<Rightarrow>
          slift (refuse 502 (''apply failed: '' @ t @ '' '' @ apply_reason e))
            (save_ask now (apply_failed now actor f t (apply_reason e) r) (s\<lparr>sy_vault := v\<rparr>))
      | Inr (_, v) \<Rightarrow>
          let s1 = s\<lparr>sy_vault := v\<rparr> in
          (case map_of (rc_response r) f of
             Some (RBody (c # cs)) \<Rightarrow> Inl (AskAttributeError, s1)
           | Some (RSecret m) \<Rightarrow> Inr ((t, now), save_ask now (apply_done now actor f t m r) s1)
           | _ \<Rightarrow> Inr ((t, now), save_ask now (apply_done now actor f t no_meta r) s1)))"

definition apply_secret ::
    "'v ask_env \<Rightarrow> string \<Rightarrow> pyval \<Rightarrow> pyval \<Rightarrow> string \<Rightarrow> pyval \<Rightarrow> string \<Rightarrow> 'v ask_sys \<Rightarrow> ('v, string \<times> string) ask_result" where
  "apply_secret env i field target actor req now s =
     sbind (slift (validate_ask_id (PStr i)) s) (\<lambda>i s.
     sbind (slift (validate_field_name field) s) (\<lambda>f s.
     if \<not> target_listed target
     then slift (refuse 403 (''target '' @ ak_repr env (take 128 (py_str (ak_render env) target)) @ '' is not on the apply allow-list'')) s
     else sbind (slift (require_secrets env) s) (\<lambda>_ s.
       case map_of (sy_asks s) i of
         None \<Rightarrow> slift (refuse 404 (''ask '' @ ak_repr env i @ '' not found'')) s
       | Some r \<Rightarrow>
           sbind (slift (secret_field env r f i) s) (\<lambda>sp s.
           let t = string_in target in
           if fs_target sp \<noteq> Some t
           then slift (refuse 409 (''field '' @ ak_repr env f @ '' declares apply_target '' @
             (case fs_target sp of None \<Rightarrow> ''None'' | Some d \<Rightarrow> ak_repr env d) @ ''; refusing '' @ ak_repr env t)) s
           else apply_field env i f t r actor req now s))))"

section \<open>Two behaviours worth knowing\<close>

text \<open>
  Each redaction also collapses white space, so that after the first one a later secret with two
  spaces in a row is no longer found.
\<close>

lemma redaction_misses_later_secret:
  "seal_failure [(''a'', ''k1''), (''b'', ''x  y'')] ''k1 x  y'' = ''could not seal: [redacted] x y''"
  by code_simp

text \<open>
  A field that is declared anew as a secret keeps the text it held as a body, and that text then
  counts as the secret: an answer without the required secret is accepted.
\<close>

definition text_spec :: field_spec where
  "text_spec = \<lparr>fs_name = ''token'', fs_type = Body, fs_label = ''token'', fs_required = False, fs_target = None\<rparr>"

definition text_answered :: ask_record where
  "text_answered = (new_record (\<lambda>_. []) [] ''a'' [] ''raised'')\<lparr>rc_fields := Some [text_spec], rc_response := [(''token'', RBody ''later'')]\<rparr>"

lemma stale_text_fills_secret:
  "check_answer \<lparr>ak_repr = id, ak_render = (\<lambda>_. []), ak_disabled = [], ak_vault = local_vault_ops None\<rparr>
     (declared [] ''o'' [text_spec\<lparr>fs_type := Secret, fs_required := True\<rparr>] text_answered) [] PNone = Inr ([], [], [])"
  by code_simp

end
