(* ===== verification/Ask_Tools.thy ===== *)
theory Ask_Tools
  imports Ask_Store Caller_Auth
begin

text \<open>
  The tools on the ask store (\<open>_dispatch_ask_tool\<close> of \<open>mcp_tools.py\<close>): every call is signed over its
  arguments, needs the scope of its tool, and runs one operation of \<open>Ask_Store\<close>. Each operation
  is taken apart into the checks it makes and what it then writes, and every run of a tool is one of the six
  steps of \<open>ask_effect\<close>.
\<close>

section \<open>Dispatch\<close>

definition ASK_TOOL_SCOPES :: "(string \<times> string) list" where
  "ASK_TOOL_SCOPES = [(''raise_open_ask'', ''overseer''), (''declare_ask_fields'', ''overseer''), (''respond_open_ask'', ''overseer:write''),
     (''clear_ask_secret'', ''overseer:write''), (''apply_ask_secret'', ''overseer:apply'')]"

definition ASK_TOOL_KEYS :: "string \<Rightarrow> string list" where
  "ASK_TOOL_KEYS tool =
     (if tool = ''raise_open_ask'' then [''id'', ''ask'', ''kind'', ''evidence'', ''recommended'', ''default_if_silent'', ''fields'']
      else if tool = ''declare_ask_fields'' then [''id'', ''fields'']
      else if tool = ''respond_open_ask'' then [''id'', ''actor'', ''fields'', ''secret_targets'']
      else if tool = ''clear_ask_secret'' then [''id'', ''field'', ''actor'']
      else [''id'', ''field'', ''target''])"

datatype tool_reply = RowReply ask_row | AppliedReply string string | ErrorReply string int

record ask_audit =
  au_tool :: string
  au_caller :: "string option"
  au_decision :: string
  au_target :: "string option"
  au_code :: "int option"

record 'v ask_node =
  an_sys :: "'v ask_sys"
  an_nonces :: nonce_cache
  an_audit :: "ask_audit list"

text \<open>The lookup of a live or archived row is an argument, as is the clock.\<close>

type_synonym seed_lookup = "string \<Rightarrow> (pydict \<times> string) option"

definition row_reply :: "('v, ask_row) ask_result \<Rightarrow> ('v, tool_reply) ask_result" where
  "row_reply r = sbind r (\<lambda>row s. Inr (RowReply row, s))"

definition raise_tool :: "'v ask_env \<Rightarrow> string \<Rightarrow> pydict \<Rightarrow> seed_lookup \<Rightarrow> string \<Rightarrow> 'v ask_sys \<Rightarrow> ('v, tool_reply) ask_result" where
  "raise_tool env caller args seed now s =
     sbind (slift (validate_columns args True) s) (\<lambda>cols s.
     sbind (slift (if truthy (dget args ''fields'') then rbind (validate_fields (ak_repr env) (dget args ''fields'')) (\<lambda>fs. Inr (Some fs)) else Inr None) s) (\<lambda>decl s.
     sbind (slift (validate_ask_id (dget args ''id'')) s) (\<lambda>i s.
     if seed i \<noteq> None then slift (refuse 409 (''ask '' @ ak_repr env i @ '' already exists as a live or archive row'')) s
     else row_reply (raise_ask env i cols decl caller now s))))"

definition declare_tool :: "'v ask_env \<Rightarrow> string \<Rightarrow> pydict \<Rightarrow> seed_lookup \<Rightarrow> string \<Rightarrow> 'v ask_sys \<Rightarrow> ('v, tool_reply) ask_result" where
  "declare_tool env caller args seed now s =
     sbind (slift (validate_ask_id (dget args ''id'')) s) (\<lambda>i s.
     sbind (slift (validate_fields (ak_repr env) (dget args ''fields'')) s) (\<lambda>decl s.
     row_reply (declare_fields env i decl caller (seed i) now s)))"

definition respond_tool :: "'v ask_env \<Rightarrow> pydict \<Rightarrow> seed_lookup \<Rightarrow> pyval \<Rightarrow> string \<Rightarrow> 'v ask_sys \<Rightarrow> ('v, tool_reply) ask_result" where
  "respond_tool env args seed req now s =
     sbind (slift (validate_ask_id (dget args ''id'')) s) (\<lambda>i s.
     row_reply (respond env i (dget args ''actor'') (if has_key args ''fields'' then dget args ''fields'' else PDict [])
       (if map_of (sy_asks s) i \<noteq> None then None else seed i) (dget args ''secret_targets'') req now s))"

definition clear_tool :: "'v ask_env \<Rightarrow> pydict \<Rightarrow> pyval \<Rightarrow> string \<Rightarrow> 'v ask_sys \<Rightarrow> ('v, tool_reply) ask_result" where
  "clear_tool env args req now s =
     sbind (slift (validate_ask_id (dget args ''id'')) s) (\<lambda>i s.
     row_reply (clear_secret env i (dget args ''field'') (dget args ''actor'') req now s))"

definition apply_tool :: "'v ask_env \<Rightarrow> string \<Rightarrow> pydict \<Rightarrow> pyval \<Rightarrow> string \<Rightarrow> 'v ask_sys \<Rightarrow> ('v, tool_reply) ask_result" where
  "apply_tool env caller args req now s =
     sbind (slift (validate_ask_id (dget args ''id'')) s) (\<lambda>i s.
     sbind (apply_secret env i (dget args ''field'') (dget args ''target'') caller req now s) (\<lambda>(t, stamp) s. Inr (AppliedReply t stamp, s)))"

text \<open>A refusal of the store is an answer; anything else it raises is not caught.\<close>

definition refusal_reply :: "('v, tool_reply) ask_result \<Rightarrow> ('v, tool_reply) ask_result" where
  "refusal_reply r = (case r of Inl (AskStoreError m c, s) \<Rightarrow> Inr (ErrorReply m c, s) | _ \<Rightarrow> r)"

definition run_ask_tool ::
    "'v ask_env \<Rightarrow> string \<Rightarrow> string \<Rightarrow> pydict \<Rightarrow> seed_lookup \<Rightarrow> pyval \<Rightarrow> string \<Rightarrow> 'v ask_sys \<Rightarrow> ('v, tool_reply) ask_result" where
  "run_ask_tool env tool caller args seed req now s =
     refusal_reply
       (if tool = ''raise_open_ask'' then raise_tool env caller args seed now s
        else if tool = ''declare_ask_fields'' then declare_tool env caller args seed now s
        else if tool = ''respond_open_ask'' then respond_tool env args seed req now s
        else if tool = ''clear_ask_secret'' then clear_tool env args req now s
        else if target_listed (dget args ''target'') then apply_tool env caller args req now s
        else Inr (ErrorReply (''target '' @ ak_repr env (take 128 (py_str (ak_render env) (dget args ''target''))) @ '' is not on the apply allow-list'') 403, s))"

text \<open>What the audit keeps of a call to apply a secret, its only audited success.\<close>

definition apply_audit :: "string \<Rightarrow> string \<Rightarrow> pyval \<Rightarrow> (pyval \<Rightarrow> string) \<Rightarrow> ('v, tool_reply) ask_result \<Rightarrow> ask_audit list" where
  "apply_audit tool caller target render r =
     (if tool \<noteq> ''apply_ask_secret'' then []
      else case r of
        Inr (AppliedReply t _, _) \<Rightarrow> [\<lparr>au_tool = tool, au_caller = Some caller, au_decision = ''applied'', au_target = Some t, au_code = None\<rparr>]
      | Inr (ErrorReply m c, _) \<Rightarrow>
          if target_listed target
          then [\<lparr>au_tool = tool, au_caller = Some caller, au_decision = ''failed'', au_target = Some (py_str render target), au_code = Some c\<rparr>]
          else [\<lparr>au_tool = tool, au_caller = Some caller, au_decision = ''denied'', au_target = Some (take 128 (py_str render target)), au_code = None\<rparr>]
      | _ \<Rightarrow> [])"

record ask_runtime =
  ar_configured :: bool
  ar_disabled :: string
  ar_secrets_off :: string
  ar_grants :: "(string \<times> string list) list"
  ar_has_store :: bool

datatype node_exn = NodeKeyError string | NodeAuth auth_exn | NodeAsk ask_exn

definition in_node :: "'v ask_node \<Rightarrow> string \<Rightarrow> string \<Rightarrow> pyval \<Rightarrow> (pyval \<Rightarrow> string) \<Rightarrow> ('v, tool_reply) ask_result \<Rightarrow> (node_exn, 'v ask_node, tool_reply) stateful" where
  "in_node n tool caller target render r =
     (let n' = n\<lparr>an_sys := left_in r, an_audit := an_audit n @ apply_audit tool caller target render r\<rparr> in
      case r of Inl (x, _) \<Rightarrow> Inl (NodeAsk x, n') | Inr (reply, _) \<Rightarrow> Inr (reply, n'))"

definition dispatch_ask_tool ::
    "auth_env \<Rightarrow> 'v ask_env \<Rightarrow> ask_runtime \<Rightarrow> caller_table \<Rightarrow> string \<Rightarrow> pyval \<Rightarrow> seed_lookup \<Rightarrow> time \<Rightarrow> string \<Rightarrow> 'v ask_node \<Rightarrow> (node_exn, 'v ask_node, tool_reply) stateful" where
  "dispatch_ask_tool auth env rt configs tool arguments seed time now n = (case (map_of ASK_TOOL_SCOPES tool, arguments) of
       (None, _) \<Rightarrow> Inl (NodeKeyError tool, n)
     | (Some scope, PDict args) \<Rightarrow>
         if \<not> ar_configured rt then Inr (ErrorReply ''ask tools are not configured on this node'' 503, n)
         else if ar_disabled rt \<noteq> [] then Inr (ErrorReply (ar_disabled rt) 503, n)
         else (case verify_ask_request auth tool args (ask_caller_specs configs (ar_grants rt)) (an_nonces n) time of
           Inl x \<Rightarrow> Inl (NodeAuth x, n)
         | Inr ((caller, reason), nc) \<Rightarrow>
             let n = n\<lparr>an_nonces := nc\<rparr>; req = PDict [(''tool'', PStr tool), (''arguments'', PDict args)]; args' = strip_ask_signature args;
                 unknown = sort (filter (\<lambda>k. k \<notin> set (ASK_TOOL_KEYS tool)) (map fst args')) in
             if caller = ANON_CALLER
             then Inr (ErrorReply (''invalid or missing caller identity ('' @ reason @ '')'') 401,
               n\<lparr>an_audit := an_audit n @ [\<lparr>au_tool = tool, au_caller = (case dget args ''caller'' of PStr c \<Rightarrow> Some (take 32 c) | _ \<Rightarrow> None),
                 au_decision = ''unauthenticated'', au_target = None, au_code = None\<rparr>]\<rparr>)
             else if \<not> ask_scope_allowed caller scope (ar_grants rt)
             then Inr (ErrorReply (''caller '' @ ak_repr env caller @ '' lacks scope '' @ ak_repr env scope @ '' for '' @ tool) 403,
               n\<lparr>an_audit := an_audit n @ [\<lparr>au_tool = tool, au_caller = Some caller, au_decision = ''denied'', au_target = None, au_code = None\<rparr>]\<rparr>)
             else if unknown \<noteq> [] then Inr (ErrorReply (''unknown field(s): '' @ py_join '', '' unknown) 400, n)
             else if \<not> ar_has_store rt then Inr (ErrorReply ''the ask store requires a configured store directory'' 501, n)
             else in_node n tool caller (dget args' ''target'') (ak_render env)
               (run_ask_tool (env\<lparr>ak_disabled := ar_secrets_off rt\<rparr>) tool caller args' seed req now (an_sys n)))
     | _ \<Rightarrow> Inr (ErrorReply ''arguments must be an object'' 400, n))"

section \<open>What an operation does to the local vault\<close>

lemma left_in_slift [simp]: "left_in (slift r s) = s"
  by (simp add: slift_def split: sum.splits)

lemma refuse_neq [simp]: "refuse c m \<noteq> Inr x" "Inr x \<noteq> refuse c m"
  by (simp_all add: refuse_def)

lemma sort_Nil [simp]: "sort xs = [] \<longleftrightarrow> xs = []"
  by (metis length_0_conv length_sort)

lemma put_ask_vault [simp]: "sy_vault (left_in (put_ask now r s)) = sy_vault s"
  by (simp add: put_ask_def save_ask_def)

lemma row_reply_left [simp]: "left_in (row_reply r) = left_in r"
  by (auto simp: row_reply_def sbind_def split: sum.splits prod.splits)

lemma refusal_reply_left [simp]: "left_in (refusal_reply r) = left_in r"
  by (auto simp: refusal_reply_def split: sum.splits prod.splits ask_exn.splits)

lemma left_in_sbind_slift: "left_in (sbind (slift r s) f) = (case r of Inl _ \<Rightarrow> s | Inr a \<Rightarrow> left_in (f a s))"
  by (simp add: slift_def split: sum.splits)

lemma validate_secret_eq: "validate_secret rp n v = Inr x \<Longrightarrow> v = PStr x"
  by (auto simp: validate_secret_def split: pyval.splits if_splits)

lemma check_values_Cons:
  assumes "check_values rp spec ((n, v) # rest) = Inr (bs, ss)"
  obtains bs' ss' where "check_values rp spec rest = Inr (bs', ss')"
    and "ss = ss' \<or> (\<exists>x f. ss = (n, x) # ss' \<and> v = PStr x \<and> spec n = Some f \<and> fs_type f = Secret)"
    and "bs = bs' \<or> (\<exists>t f. bs = (n, t) # bs' \<and> validate_body rp n (if v = PNone then PStr [] else v) = Inr t \<and> spec n = Some f \<and> fs_type f = Body)"
proof (cases "spec n")
  case (Some f)
  then show ?thesis using assms that validate_secret_eq [of rp n v]
    by (cases "fs_type f") (auto simp: rbind_eq_Inr split: if_splits)
qed (use assms that in auto)

lemma check_values_secrets:
  "check_values rp spec d = Inr (bs, ss) \<Longrightarrow> (n, x) \<in> set ss \<Longrightarrow> (n, PStr x) \<in> set d \<and> (\<exists>f. spec n = Some f \<and> fs_type f = Secret)"
proof (induction d arbitrary: bs ss)
  case (Cons p d)
  obtain m v where p: "p = (m, v)" by force
  from Cons.prems(1) obtain bs' ss' where "check_values rp spec d = Inr (bs', ss')"
    "ss = ss' \<or> (\<exists>x f. ss = (m, x) # ss' \<and> v = PStr x \<and> spec m = Some f \<and> fs_type f = Secret)"
    unfolding p by (rule check_values_Cons)
  then show ?case using Cons.IH Cons.prems(2) p by auto
qed simp

text \<open>What an accepted answer has been checked for.\<close>

lemma check_answerE:
  assumes "check_answer env r d tg = Inr (bs, ss, ts)"
  obtains "check_values (ak_repr env) (field_named r) d = Inr (bs, ss)" and "text_dict tg = Some ts"
    and "\<And>p. p \<in> set ts \<Longrightarrow> target_fault env r p = None" and "fst ` set ss \<subseteq> fst ` set ts"
    and "ss \<noteq> [] \<Longrightarrow> ak_disabled env = []" and "\<And>n. n \<in> fst ` set d \<Longrightarrow> field_named r n \<noteq> None"
proof -
  have u: "filter (\<lambda>k. field_named r k = None) (map fst d) = []"
    using assms by (auto simp: check_answer_def Let_def split: if_splits)
  then obtain c: "check_values (ak_repr env) (field_named r) d = Inr (bs, ss)" and t: "text_dict tg = Some ts"
    and m: "List.map_filter (target_fault env r) ts = []" and f: "filter (\<lambda>n. n \<notin> set (map fst ts)) (map fst ss) = []"
    and q: "ss \<noteq> [] \<Longrightarrow> ak_disabled env = []"
    using assms by (auto simp: check_answer_def Let_def rbind_eq_Inr require_secrets_def split: if_splits option.splits list.splits)
  have "target_fault env r p = None" if "p \<in> set ts" for p
    using m that by (auto simp: map_filter_def filter_empty_conv)
  moreover have "fst ` set ss \<subseteq> fst ` set ts" using f by (force simp: filter_empty_conv)
  moreover have "\<And>n. n \<in> fst ` set d \<Longrightarrow> field_named r n \<noteq> None" using u by (auto simp: filter_empty_conv)
  ultimately show ?thesis using that c t q by blast
qed

lemma text_dict_elem:
  assumes "text_dict tg = Some ts" and "(n, t) \<in> set ts"
  shows "\<exists>td. tg = PDict td \<and> (n, PStr t) \<in> set td"
proof -
  obtain td where td: "tg = PDict td" "list_all (is_string \<circ> snd) td" "ts = map (apsnd string_in) td"
    using assms by (auto simp: text_dict_def split: pyval.splits if_splits)
  then obtain x where x: "(n, x) \<in> set td" "t = string_in x" using assms(2) by auto
  then have "is_string x" using td(2) by (auto simp: list_all_iff)
  then have "x = PStr t" using x(2) by (cases x) auto
  then show ?thesis using td(1) x(1) by blast
qed

lemma local_seal_runs: "\<exists>v'. local_seal i xs actor req now v = Inr ((), v')"
  by (induction i xs actor req now v rule: local_seal.induct) auto

text \<open>An operation is refused with nothing changed, or it runs its last part with everything checked.\<close>

lemma sbind_slift: "sbind (slift m s) f = (case m of Inl x \<Rightarrow> Inl (x, s) | Inr a \<Rightarrow> f a s)"
  by (simp add: slift_def split: sum.splits)

lemma validate_ask_id_PStr: "validate_ask_id (PStr j) = Inr i \<longleftrightarrow> i = py_strip j \<and> ASK_ID_RE (py_strip j)"
  by (auto simp: validate_ask_id_def refuse_def split: if_splits)

lemma validate_field_name_iff: "validate_field_name v = Inr f \<longleftrightarrow> v = PStr f \<and> FIELD_NAME_RE f"
  by (auto simp: validate_field_name_def refuse_def split: pyval.splits if_splits)

lemma require_secrets_iff: "require_secrets env = Inr u \<longleftrightarrow> ak_disabled env = []"
  by (simp add: require_secrets_def refuse_def)

lemma secret_field_iff: "secret_field env r f i = Inr sp \<longleftrightarrow> field_named r f = Some sp \<and> fs_type sp = Secret"
  by (auto simp: secret_field_def refuse_def split: option.splits if_splits)

lemma slift_refuse [simp]: "slift (refuse c m) s = Inl (AskStoreError m c, s)"
  by (simp add: refuse_def)

lemmas checked_iffs = validate_ask_id_PStr validate_field_name_iff require_secrets_iff secret_field_iff

lemma respond_cases:
  obtains x where "respond env j actor values seed tg req now s = Inl (x, s)"
  | d a r bs ss ts where "ASK_ID_RE (py_strip j)" "values = PDict d" "get_or_seed env (py_strip j) seed now s = Inr r"
      "check_answer env r d tg = Inr (bs, ss, ts)" "validate_actor actor = Inr a"
      "respond env j actor values seed tg req now s = answer_ask env (py_strip j) a r bs ss ts req now s"
proof (cases "validate_ask_id (PStr j)")
  case (Inr i)
  note i = this
  show ?thesis
  proof (cases "validate_actor actor")
    case (Inr a)
    note a = this
    show ?thesis
    proof (cases "\<exists>d. values = PDict d")
      case True
      then obtain d where d: "values = PDict d" by blast
      show ?thesis
      proof (cases "rbind (get_or_seed env i seed now s) (\<lambda>r. rbind (check_answer env r d tg) (\<lambda>p. Inr (r, p)))")
        case (Inr q)
        then show ?thesis using that(2) [of d] i a d by (auto simp: respond_def sbind_slift rbind_eq_Inr checked_iffs)
      next
        case (Inl x)
        then show ?thesis using that(1) [of x] i a d by (auto simp: respond_def sbind_slift rbind_eq_Inl)
      qed
    next
      case False
      then show ?thesis using that(1) i a by (cases "values") (auto simp: respond_def sbind_slift slift_refuse)
    qed
  qed (use that(1) i in \<open>auto simp: respond_def sbind_slift\<close>)
qed (use that(1) in \<open>auto simp: respond_def sbind_slift\<close>)

lemma clear_secret_cases:
  obtains x where "clear_secret env j field actor req now s = Inl (x, s)"
  | f a r sp where "field = PStr f" "FIELD_NAME_RE f" "ASK_ID_RE (py_strip j)" "ak_disabled env = []" "map_of (sy_asks s) (py_strip j) = Some r"
      "field_named r f = Some sp" "fs_type sp = Secret" "validate_actor actor = Inr a"
      "clear_secret env j field actor req now s = clear_field env (py_strip j) f r a req now s"
proof (cases "rbind (validate_ask_id (PStr j)) (\<lambda>i. rbind (validate_field_name field) (\<lambda>f. rbind (validate_actor actor) (\<lambda>a. rbind (require_secrets env) (\<lambda>_. Inr (i, f, a)))))")
  case (Inl x)
  then show ?thesis using that(1) by (auto simp: clear_secret_def sbind_slift rbind_eq_Inl)
next
  case (Inr q)
  then obtain f a where q: "ASK_ID_RE (py_strip j)" "field = PStr f" "FIELD_NAME_RE f" "validate_actor actor = Inr a" "ak_disabled env = []"
    "validate_field_name field = Inr f" "require_secrets env = Inr ()" "validate_ask_id (PStr j) = Inr (py_strip j)"
    by (auto simp: rbind_eq_Inr checked_iffs)
  show ?thesis
  proof (cases "map_of (sy_asks s) (py_strip j)")
    case (Some r)
    have e: "clear_secret env j field actor req now s =
        (case secret_field env r f (py_strip j) of Inl x \<Rightarrow> Inl (x, s) | Inr sp \<Rightarrow> clear_field env (py_strip j) f r a req now s)"
      using q Some by (simp add: clear_secret_def sbind_slift)
    show ?thesis
    proof (cases "secret_field env r f (py_strip j)")
      case (Inr sp)
      then have n: "field_named r f = Some sp" "fs_type sp = Secret" by (simp_all add: secret_field_iff)
      show ?thesis by (rule that(2) [OF q(2,3,1,5) Some n q(4)]) (simp add: e Inr)
    qed (use that(1) e in simp)
  qed (use that(1) q in \<open>auto simp: clear_secret_def sbind_slift slift_refuse\<close>)
qed

lemma apply_secret_cases:
  obtains x where "apply_secret env j field target actor req now s = Inl (x, s)"
  | f t r sp where "field = PStr f" "FIELD_NAME_RE f" "ASK_ID_RE (py_strip j)" "target = PStr t" "apply_target_known t" "ak_disabled env = []"
      "map_of (sy_asks s) (py_strip j) = Some r" "field_named r f = Some sp" "fs_type sp = Secret" "fs_target sp = Some t"
      "apply_secret env j field target actor req now s = apply_field env (py_strip j) f t r actor req now s"
proof (cases "rbind (validate_ask_id (PStr j)) (\<lambda>i. rbind (validate_field_name field) (\<lambda>f. Inr (i, f)))")
  case (Inl x)
  then show ?thesis using that(1) by (auto simp: apply_secret_def sbind_slift rbind_eq_Inl)
next
  case (Inr q)
  then obtain f where q: "ASK_ID_RE (py_strip j)" "field = PStr f" "FIELD_NAME_RE f" "validate_field_name field = Inr f" "validate_ask_id (PStr j) = Inr (py_strip j)"
    by (auto simp: rbind_eq_Inr checked_iffs)
  show ?thesis
  proof (cases "target_listed target \<and> ak_disabled env = []")
    case True
    then obtain t where t: "target = PStr t" "apply_target_known t" by (auto simp: target_listed_def split: pyval.splits)
    have u: "require_secrets env = Inr ()" using True by (simp add: require_secrets_def)
    show ?thesis
    proof (cases "map_of (sy_asks s) (py_strip j)")
      case (Some r)
      have e: "apply_secret env j field target actor req now s =
          (case secret_field env r f (py_strip j) of Inl x \<Rightarrow> Inl (x, s) | Inr sp \<Rightarrow>
             if fs_target sp \<noteq> Some t
             then Inl (AskStoreError (''field '' @ ak_repr env f @ '' declares apply_target '' @
                 (case fs_target sp of None \<Rightarrow> ''None'' | Some d \<Rightarrow> ak_repr env d) @ ''; refusing '' @ ak_repr env t) 409, s)
             else apply_field env (py_strip j) f t r actor req now s)"
        using q t u True Some by (simp add: apply_secret_def sbind_slift slift_refuse split: sum.split)
      show ?thesis
      proof (cases "secret_field env r f (py_strip j)")
        case (Inr sp)
        then have n: "field_named r f = Some sp" "fs_type sp = Secret" by (simp_all add: secret_field_iff)
        show ?thesis
        proof (cases "fs_target sp = Some t")
          case True
          show ?thesis by (rule that(2) [OF q(2,3,1) t _ Some n True]) (use e Inr True \<open>target_listed target \<and> ak_disabled env = []\<close> in auto)
        qed (use that(1) e Inr in simp)
      qed (use that(1) e in simp)
    qed (use that(1) q u True in \<open>auto simp: apply_secret_def sbind_slift slift_refuse\<close>)
  next
    case False
    then have "\<exists>x. apply_secret env j field target actor req now s = Inl (x, s)"
      using q(4,5) by (auto simp: apply_secret_def sbind_slift slift_refuse require_secrets_def)
    then show ?thesis using that(1) by blast
  qed
qed

section \<open>Histories of calls\<close>

text \<open>One call to a tool, with what it finds: the tools may be on or off at the time.\<close>

record tool_call =
  tc_tool :: string
  tc_caller :: string
  tc_args :: pydict
  tc_seed :: seed_lookup
  tc_req :: pyval
  tc_now :: string
  tc_secrets_off :: string

definition tool_run :: "'v ask_env \<Rightarrow> 'v ask_sys \<Rightarrow> tool_call \<Rightarrow> ('v, tool_reply) ask_result" where
  "tool_run env s c = run_ask_tool (env\<lparr>ak_disabled := tc_secrets_off c\<rparr>) (tc_tool c) (tc_caller c) (tc_args c) (tc_seed c) (tc_req c) (tc_now c) s"

definition tool_exec :: "'v ask_env \<Rightarrow> 'v ask_sys \<Rightarrow> tool_call \<Rightarrow> 'v ask_sys" where
  "tool_exec env s c = left_in (tool_run env s c)"


lemma declare_fields_cases:
  obtains x where "declare_fields env j decl actor seed now s = Inl (x, s)"
  | r fs where "ASK_ID_RE (py_strip j)" "get_or_seed env (py_strip j) seed now s = Inr r" "sealed_fields env (py_strip j) r (sy_vault s) = Inr fs"
      "list_all (keeps_binding decl) fs" "declare_fields env j decl actor seed now s = put_ask now (declared now actor decl r) s"
proof (cases "rbind (validate_ask_id (PStr j)) (\<lambda>i. rbind (get_or_seed env i seed now s) (\<lambda>r. rbind (sealed_fields env i r (sy_vault s)) (\<lambda>fs. Inr (i, r, fs))))")
  case (Inl x)
  then show ?thesis using that(1) by (auto simp: declare_fields_def sbind_slift rbind_eq_Inl)
next
  case (Inr q)
  then obtain r fs where q: "ASK_ID_RE (py_strip j)" "get_or_seed env (py_strip j) seed now s = Inr r" "sealed_fields env (py_strip j) r (sy_vault s) = Inr fs"
    "validate_ask_id (PStr j) = Inr (py_strip j)" by (auto simp: rbind_eq_Inr validate_ask_id_PStr)
  have e: "declare_fields env j decl actor seed now s = (case find (\<lambda>p. \<not> keeps_binding decl p) fs of
      Some (n, t) \<Rightarrow> Inl (AskStoreError (''field '' @ ak_repr env n @ '' holds a sealed secret bound to '' @ (if t = [] then ''no target'' else t) @
         ''; clear it before removing the field or changing its type or apply target'') 409, s)
    | None \<Rightarrow> put_ask now (declared now actor decl r) s)"
    using q(2-4) by (simp add: declare_fields_def sbind_slift split: option.split)
  show ?thesis
  proof (cases "find (\<lambda>p. \<not> keeps_binding decl p) fs")
    case None
    then have "list_all (keeps_binding decl) fs" by (auto simp: find_None list_all_iff)
    then show ?thesis using that(2) q e None by simp
  qed (use that(1) e in \<open>auto split: prod.splits\<close>)
qed

lemma raise_ask_cases:
  obtains x where "raise_ask env j cols decl actor now s = Inl (x, s)"
  | "ASK_ID_RE (py_strip j)" "\<not> is_live_id (py_strip j)" "map_of (sy_asks s) (py_strip j) = None"
    "raise_ask env j cols decl actor now s = put_ask now (add_history now actor ''raise'' (case decl of None \<Rightarrow> [] | Some fs \<Rightarrow> map fs_name fs) None None
            (new_record (ak_render env) now (py_strip j) (column_dict cols) ''raised'' \<lparr>rc_fields := decl\<rparr>)) s"
proof (cases "validate_ask_id (PStr j)")
  case (Inr i)
  then have i: "i = py_strip j" "ASK_ID_RE (py_strip j)" by (simp_all add: validate_ask_id_PStr)
  show ?thesis
  proof (cases "is_live_id (py_strip j) \<or> map_of (sy_asks s) (py_strip j) \<noteq> None")
    case True
    then have "\<exists>x. raise_ask env j cols decl actor now s = Inl (x, s)" using Inr i(1) by (auto simp: raise_ask_def sbind_slift)
    then show ?thesis using that(1) by blast
  next
    case False
    then show ?thesis using that(2) i Inr by (simp add: raise_ask_def sbind_slift)
  qed
qed (use that(1) in \<open>auto simp: raise_ask_def sbind_slift\<close>)

subsection \<open>Calls as steps\<close>

text \<open>
  What a call does to the store, with everything that has been checked by then: nothing, or one of the
  five writes. Every run of a tool is such a step.
\<close>

definition call_env :: "'v ask_env \<Rightarrow> tool_call \<Rightarrow> 'v ask_env" where
  "call_env env c = env\<lparr>ak_disabled := tc_secrets_off c\<rparr>"

definition answer_values :: "tool_call \<Rightarrow> pyval" where
  "answer_values c = (if has_key (tc_args c) ''fields'' then dget (tc_args c) ''fields'' else PDict [])"

inductive ask_effect :: "'v ask_env \<Rightarrow> 'v ask_sys \<Rightarrow> tool_call \<Rightarrow> 'v ask_sys \<Rightarrow> bool" for env s c where
  Refused: "ask_effect env s c s"
| Raised: "tc_tool c = ''raise_open_ask'' \<Longrightarrow> map_of (sy_asks s) i = None \<Longrightarrow>
     decl = None \<or> (\<exists>fs. decl = Some fs \<and> validate_fields (ak_repr env) (dget (tc_args c) ''fields'') = Inr fs) \<Longrightarrow>
     ask_effect env s c (save_ask (tc_now c) (add_history (tc_now c) (tc_caller c) ''raise'' names None None
       (new_record (ak_render env) (tc_now c) i (column_dict cols) ''raised'' \<lparr>rc_fields := decl\<rparr>)) s)"
| Declared: "tc_tool c = ''declare_ask_fields'' \<Longrightarrow> get_or_seed (call_env env c) i seed (tc_now c) s = Inr r \<Longrightarrow>
     sealed_fields (call_env env c) i r (sy_vault s) = Inr fs \<Longrightarrow> list_all (keeps_binding decl) fs \<Longrightarrow>
     validate_fields (ak_repr env) (dget (tc_args c) ''fields'') = Inr decl \<Longrightarrow>
     ask_effect env s c (save_ask (tc_now c) (declared (tc_now c) (tc_caller c) decl r) s)"
| Answered: "tc_tool c = ''respond_open_ask'' \<Longrightarrow> dget (tc_args c) ''id'' = PStr j \<Longrightarrow> answer_values c = PDict d \<Longrightarrow>
     get_or_seed (call_env env c) (py_strip j) seed (tc_now c) s = Inr r \<Longrightarrow>
     check_answer (call_env env c) r d (dget (tc_args c) ''secret_targets'') = Inr (bs, ss, ts) \<Longrightarrow>
     ask_effect env s c (left_in (answer_ask (call_env env c) (py_strip j) a r bs ss ts (tc_req c) (tc_now c) s))"
| Cleared: "tc_tool c = ''clear_ask_secret'' \<Longrightarrow> map_of (sy_asks s) i = Some r \<Longrightarrow>
     ask_effect env s c (left_in (clear_field (call_env env c) i f r a (tc_req c) (tc_now c) s))"
| Applied: "tc_tool c \<notin> set [''raise_open_ask'', ''declare_ask_fields'', ''respond_open_ask'', ''clear_ask_secret''] \<Longrightarrow>
     dget (tc_args c) ''id'' = PStr j \<Longrightarrow> dget (tc_args c) ''field'' = PStr f \<Longrightarrow> dget (tc_args c) ''target'' = PStr t \<Longrightarrow> apply_target_known t \<Longrightarrow>
     map_of (sy_asks s) (py_strip j) = Some r \<Longrightarrow> field_named r f = Some sp \<Longrightarrow> fs_type sp = Secret \<Longrightarrow> fs_target sp = Some t \<Longrightarrow>
     ask_effect env s c (left_in (apply_field (call_env env c) (py_strip j) f t r (tc_caller c) (tc_req c) (tc_now c) s))"

lemma left_put_ask [simp]: "left_in (put_ask now r s) = save_ask now r s"
  by (simp add: put_ask_def)

lemma validate_ask_idE: "validate_ask_id v = Inr i \<Longrightarrow> \<exists>j. v = PStr j \<and> i = py_strip j \<and> ASK_ID_RE i"
  by (auto simp: validate_ask_id_def refuse_def split: pyval.splits if_splits)

lemma raise_effect:
  assumes "tc_tool c = ''raise_open_ask''"
  shows "ask_effect env s c (left_in (raise_tool (call_env env c) (tc_caller c) (tc_args c) (tc_seed c) (tc_now c) s))"
proof -
  have e: "ak_repr (call_env env c) = ak_repr env" "ak_render (call_env env c) = ak_render env" by (simp_all add: call_env_def)
  have "ask_effect env s c (left_in (raise_ask (call_env env c) i cols decl (tc_caller c) (tc_now c) s))"
    if "decl = None \<or> (\<exists>fs. decl = Some fs \<and> validate_fields (ak_repr env) (dget (tc_args c) ''fields'') = Inr fs)" for i cols decl
  proof (cases rule: raise_ask_cases [of "call_env env c" i cols decl "tc_caller c" "tc_now c" s])
    case 2
    then show ?thesis using ask_effect.Raised [OF assms 2(3) that] by (simp add: e)
  qed (auto intro: ask_effect.Refused)
  then show ?thesis
    by (auto simp: raise_tool_def left_in_sbind_slift e rbind_eq_Inr intro: ask_effect.Refused split: sum.splits)
qed

lemma declare_effect:
  assumes "tc_tool c = ''declare_ask_fields''"
  shows "ask_effect env s c (left_in (declare_tool (call_env env c) (tc_caller c) (tc_args c) (tc_seed c) (tc_now c) s))"
proof -
  have e: "ak_repr (call_env env c) = ak_repr env" by (simp add: call_env_def)
  have "ask_effect env s c (left_in (declare_fields (call_env env c) i decl (tc_caller c) seed (tc_now c) s))"
    if "validate_fields (ak_repr env) (dget (tc_args c) ''fields'') = Inr decl" for i decl seed
    by (cases rule: declare_fields_cases [of "call_env env c" i decl "tc_caller c" seed "tc_now c" s])
      (use that assms in \<open>auto intro: ask_effect.intros\<close>)
  then show ?thesis by (auto simp: declare_tool_def left_in_sbind_slift e intro: ask_effect.Refused split: sum.splits)
qed

lemma respond_effect:
  assumes "tc_tool c = ''respond_open_ask''"
  shows "ask_effect env s c (left_in (respond_tool (call_env env c) (tc_args c) (tc_seed c) (tc_req c) (tc_now c) s))"
proof -
  have "ask_effect env s c (left_in (respond (call_env env c) (py_strip j) actor (answer_values c) seed (dget (tc_args c) ''secret_targets'') (tc_req c) (tc_now c) s))"
    if "dget (tc_args c) ''id'' = PStr j" for j actor seed
  proof (cases rule: respond_cases [of "call_env env c" "py_strip j" actor "answer_values c" seed "dget (tc_args c) ''secret_targets''" "tc_req c" "tc_now c" s])
    case (2 d a r bs ss ts)
    from 2(3,4) show ?thesis unfolding 2(6) py_strip_strip by (rule ask_effect.Answered [OF assms that 2(2)])
  qed (auto intro: ask_effect.Refused)
  then show ?thesis
    by (auto simp: respond_tool_def left_in_sbind_slift answer_values_def [symmetric] intro: ask_effect.Refused dest!: validate_ask_idE split: sum.splits)
qed

lemma clear_effect:
  assumes "tc_tool c = ''clear_ask_secret''"
  shows "ask_effect env s c (left_in (clear_tool (call_env env c) (tc_args c) (tc_req c) (tc_now c) s))"
proof -
  have "ask_effect env s c (left_in (clear_secret (call_env env c) i field actor (tc_req c) (tc_now c) s))" for i field actor
    by (cases rule: clear_secret_cases [of "call_env env c" i field actor "tc_req c" "tc_now c" s])
      (use assms in \<open>auto intro: ask_effect.intros\<close>)
  then show ?thesis by (auto simp: clear_tool_def left_in_sbind_slift intro: ask_effect.Refused split: sum.splits)
qed

lemma apply_tool_left:
  "left_in (apply_tool env caller args req now s) =
     (case validate_ask_id (dget args ''id'') of Inl _ \<Rightarrow> s | Inr i \<Rightarrow> left_in (apply_secret env i (dget args ''field'') (dget args ''target'') caller req now s))"
  by (auto simp: apply_tool_def left_in_sbind_slift sbind_def split: sum.splits prod.splits)

lemma apply_effect:
  assumes "tc_tool c \<notin> set [''raise_open_ask'', ''declare_ask_fields'', ''respond_open_ask'', ''clear_ask_secret'']"
  shows "ask_effect env s c (left_in (apply_tool (call_env env c) (tc_caller c) (tc_args c) (tc_req c) (tc_now c) s))"
proof -
  have "ask_effect env s c (left_in (apply_secret (call_env env c) (py_strip j) (dget (tc_args c) ''field'') (dget (tc_args c) ''target'') (tc_caller c) (tc_req c) (tc_now c) s))"
    if "dget (tc_args c) ''id'' = PStr j" for j
  proof (cases rule: apply_secret_cases [of "call_env env c" "py_strip j" "dget (tc_args c) ''field''" "dget (tc_args c) ''target''" "tc_caller c" "tc_req c" "tc_now c" s])
    case (2 f t r sp)
    from 2(7) show ?thesis unfolding 2(11) py_strip_strip by (rule ask_effect.Applied [OF assms that 2(1,4,5) _ 2(8-10)])
  qed (auto intro: ask_effect.Refused)
  then show ?thesis by (auto simp: apply_tool_left intro: ask_effect.Refused dest!: validate_ask_idE split: sum.splits)
qed

lemma tool_exec_effect: "ask_effect env s c (tool_exec env s c)"
proof -
  have e: "tool_exec env s c = left_in (run_ask_tool (call_env env c) (tc_tool c) (tc_caller c) (tc_args c) (tc_seed c) (tc_req c) (tc_now c) s)"
    by (simp add: tool_exec_def tool_run_def call_env_def)
  show ?thesis unfolding e run_ask_tool_def
    using raise_effect [of c env s] declare_effect [of c env s] respond_effect [of c env s] clear_effect [of c env s] apply_effect [of c env s]
    by (simp add: ask_effect.Refused)
qed

end
