(* ===== verification/Ask_History.thy ===== *)
theory Ask_History
  imports Ask_Tools
begin

text \<open>
  Histories of calls to the ask tools on a node with the local vault: what the vault has written
  was submitted and applied by authorised calls, what a sealed secret is bound to stays as it was
  declared, and every call is answered, a refusal leaving the store as it was.
\<close>

section \<open>What the local vault holds and writes\<close>

lemma local_seal_map:
  "local_seal i xs actor req now v = Inr ((), v') \<Longrightarrow>
     lv_written v' = lv_written v \<and>
     (if j = i \<and> f \<in> fst ` set xs
      then \<exists>x t. (f, x, t) \<in> set xs \<and> map_of (lv_sealed v') (j, f) = Some \<lparr>se_value = x, se_target = t, se_set_at = now, se_set_by = actor\<rparr>
      else map_of (lv_sealed v') (j, f) = map_of (lv_sealed v) (j, f))"
proof (induction i xs actor req now v rule: local_seal.induct)
  case (2 i g x t rest actor req now v)
  then show ?case by (cases "j = i \<and> f \<in> fst ` set rest"; cases "j = i \<and> f = g") (auto split: if_splits)
qed simp

lemma answer_left:
  assumes "ak_vault env = local_vault_ops writer"
  shows "\<exists>v. local_seal i (with_targets ts ss) a req now (sy_vault s) = Inr ((), v) \<and>
     left_in (answer_ask env i a r bs ss ts req now s) = save_ask now (answered now a bs ss ts r) (s\<lparr>sy_vault := v\<rparr>)"
proof (cases "ss = []")
  case False
  then show ?thesis
    using local_seal_runs [of i "with_targets ts ss" a req now "sy_vault s"] assms
    by (auto simp: answer_ask_def seal_all_def local_vault_ops_def)
qed (simp add: answer_ask_def seal_all_def with_targets_def)

lemma clear_left:
  assumes "ak_vault env = local_vault_ops writer"
  shows "\<exists>s1. left_in (clear_field env i f r a req now s) = s1 \<and> sy_vault s1 = (sy_vault s)\<lparr>lv_sealed := adel (i, f) (lv_sealed (sy_vault s))\<rparr> \<and>
     (sy_asks s1 = sy_asks s \<or> sy_asks s1 = sy_asks (save_ask now (add_history now a ''clear_secret'' [f] None None (r\<lparr>rc_response := adel f (rc_response r)\<rparr>)) s))"
  using assms by (auto simp: clear_field_def local_vault_ops_def local_clear_def save_ask_def Let_def)

lemma apply_left:
  assumes "ak_vault env = local_vault_ops writer" and "s1 = left_in (apply_field env i f t r a req now s)"
  obtains e where "sy_vault s1 = sy_vault s" "s1 = save_ask now (apply_failed now a f t (apply_reason e) r) s"
  | x where "map_of (lv_sealed (sy_vault s)) (i, f) = Some x" "se_target x = t" "value_matches t (se_value x)"
      "sy_vault s1 = (sy_vault s)\<lparr>lv_sealed := adel (i, f) (lv_sealed (sy_vault s)), lv_written := lv_written (sy_vault s) @ [(t, se_value x)]\<rparr>"
      "sy_asks s1 = sy_asks s \<or> (\<exists>m. sy_asks s1 = sy_asks (save_ask now (apply_done now a f t m r) s))"
proof (cases "local_apply writer i f t req (sy_vault s)")
  case (Inl p)
  obtain e v where p: "p = (e, v)" by force
  then have "v = sy_vault s" using Inl by (auto simp: local_apply_def split: if_splits option.splits)
  then show ?thesis using that(1) [of e] assms Inl p by (simp add: apply_field_def local_vault_ops_def save_ask_def)
next
  case (Inr p)
  then obtain x v where x: "map_of (lv_sealed (sy_vault s)) (i, f) = Some x" "se_target x = t" "value_matches t (se_value x)" "p = ((), v)"
      "v = (sy_vault s)\<lparr>lv_sealed := adel (i, f) (lv_sealed (sy_vault s)), lv_written := lv_written (sy_vault s) @ [(t, se_value x)]\<rparr>"
    by (auto simp: local_apply_def split: if_splits option.splits)
  have "sy_vault s1 = v" "sy_asks s1 = sy_asks s \<or> (\<exists>m. sy_asks s1 = sy_asks (save_ask now (apply_done now a f t m r) s))"
    using assms Inr x(4) by (auto simp: apply_field_def local_vault_ops_def save_ask_def Let_def split: option.splits answer.splits list.splits)
  then show ?thesis using that(2) [OF x(1-3)] x(5) by simp
qed

text \<open>Where a sealed value comes from, and what it takes to write one.\<close>

definition submits :: "string \<Rightarrow> string \<Rightarrow> string \<Rightarrow> string \<Rightarrow> tool_call \<Rightarrow> bool" where
  "submits i f x t c = (tc_tool c = ''respond_open_ask'' \<and> (\<exists>j d td. dget (tc_args c) ''id'' = PStr j \<and> py_strip j = i \<and>
     dget (tc_args c) ''fields'' = PDict d \<and> (f, PStr x) \<in> set d \<and> dget (tc_args c) ''secret_targets'' = PDict td \<and> (f, PStr t) \<in> set td))"

definition applies :: "string \<Rightarrow> string \<Rightarrow> string \<Rightarrow> tool_call \<Rightarrow> bool" where
  "applies i f t c = (tc_tool c = ''apply_ask_secret'' \<and>
     (\<exists>j. dget (tc_args c) ''id'' = PStr j \<and> py_strip j = i) \<and> dget (tc_args c) ''field'' = PStr f \<and> dget (tc_args c) ''target'' = PStr t)"

definition written_for :: "tool_call list \<Rightarrow> string \<Rightarrow> string \<Rightarrow> bool" where
  "written_for calls t x = (\<exists>i f pre c post. calls = pre @ c # post \<and> applies i f t c \<and> (\<exists>c'\<in>set pre. submits i f x t c'))"

definition accounted :: "tool_call list \<Rightarrow> local_vault \<Rightarrow> bool" where
  "accounted calls v =
     ((\<forall>i f x. map_of (lv_sealed v) (i, f) = Some x \<longrightarrow> (\<exists>c\<in>set calls. submits i f (se_value x) (se_target x) c)) \<and>
      (\<forall>(t, x)\<in>set (lv_written v). apply_target_known t \<and> value_matches t x \<and> written_for calls t x))"

lemma written_for_mono: "written_for cs t x \<Longrightarrow> written_for (cs @ [c]) t x"
  unfolding written_for_def by (metis append.assoc append_Cons)

lemma accounted_mono: "accounted cs v \<Longrightarrow> accounted (cs @ [c]) v"
  unfolding accounted_def by (auto intro: written_for_mono)

lemma submitted_checked:
  assumes "check_answer env r d tg = Inr (bs, ss, ts)" and "(n, x, t) \<in> set (with_targets ts ss)"
  shows "(n, PStr x) \<in> set d \<and> (\<exists>td. tg = PDict td \<and> (n, PStr t) \<in> set td) \<and>
     (\<exists>f. field_named r n = Some f \<and> fs_type f = Secret \<and> t = target_of f)"
proof -
  from assms(2) have x: "(n, x) \<in> set ss" "t = (case map_of ts n of Some t \<Rightarrow> t | None \<Rightarrow> [])" by (auto simp: with_targets_def)
  from assms(1) obtain cv: "check_values (ak_repr env) (field_named r) d = Inr (bs, ss)" and td: "text_dict tg = Some ts"
    and ok: "\<And>p. p \<in> set ts \<Longrightarrow> target_fault env r p = None" and sub: "fst ` set ss \<subseteq> fst ` set ts"
    by (rule check_answerE) blast
  have "n \<in> fst ` set ts" using sub x(1) by force
  then have t: "(n, t) \<in> set ts" using x(2) map_of_eq_None_iff [of ts n] by (auto dest: map_of_SomeD split: option.splits)
  have s: "(n, PStr x) \<in> set d" "\<exists>f. field_named r n = Some f \<and> fs_type f = Secret" using check_values_secrets [OF cv x(1)] by auto
  then show ?thesis using text_dict_elem [OF td t] ok [OF t] by (auto simp: target_fault_def split: if_splits)
qed

lemma accounted_step:
  assumes "ak_vault env = local_vault_ops writer" and "accounted calls (sy_vault s)" and "tc_tool c \<in> fst ` set ASK_TOOL_SCOPES"
  shows "accounted (calls @ [c]) (sy_vault (tool_exec env s c))"
proof -
  have e: "ak_vault (call_env env c) = local_vault_ops writer" using assms(1) by (simp add: call_env_def)
  note m = accounted_mono [OF assms(2), of c]
  from tool_exec_effect [of env s c] show ?thesis
  proof cases
    case (Answered j d seed r bs ss ts a)
    obtain v where v: "local_seal (py_strip j) (with_targets ts ss) a (tc_req c) (tc_now c) (sy_vault s) = Inr ((), v)"
      "sy_vault (tool_exec env s c) = v"
      using answer_left [OF e, of "py_strip j" ts ss a "tc_req c" "tc_now c" s r bs] Answered(1) by (auto simp: save_ask_def)
    have d: "dget (tc_args c) ''fields'' = PDict d \<or> d = []" using Answered(4) by (auto simp: answer_values_def split: if_splits)
    have "\<exists>c'\<in>set (calls @ [c]). submits i f (se_value x) (se_target x) c'" if "map_of (lv_sealed v) (i, f) = Some x" for i f x
    proof (cases "i = py_strip j \<and> f \<in> fst ` set (with_targets ts ss)")
      case True
      then obtain y t where y: "(f, y, t) \<in> set (with_targets ts ss)" "map_of (lv_sealed v) (i, f) = Some \<lparr>se_value = y, se_target = t, se_set_at = tc_now c, se_set_by = a\<rparr>"
        using local_seal_map [OF v(1), of i f] by (auto split: if_splits)
      then have "(f, PStr (se_value x)) \<in> set d \<and> (\<exists>td. dget (tc_args c) ''secret_targets'' = PDict td \<and> (f, PStr (se_target x)) \<in> set td)"
        using submitted_checked [OF Answered(6) y(1)] that by simp
      then have "submits i f (se_value x) (se_target x) c" using Answered(2,3) True d by (auto simp: submits_def)
      then show ?thesis by simp
    next
      case False
      then have "map_of (lv_sealed (sy_vault s)) (i, f) = Some x" using local_seal_map [OF v(1), of i f] that by (simp split: if_splits)
      then show ?thesis using m by (auto simp: accounted_def)
    qed
    then show ?thesis using m local_seal_map [OF v(1)] v(2) by (auto simp: accounted_def)
  next
    case (Cleared i r f a)
    then show ?thesis using m clear_left [OF e, of i f r a "tc_req c" "tc_now c" s] by (auto simp: accounted_def)
  next
    case (Applied j f t r sp)
    show ?thesis
    proof (cases rule: apply_left [OF e Applied(1)])
      case (2 x)
      have "applies (py_strip j) f t c" using Applied(2-5) assms(3) by (auto simp: applies_def ASK_TOOL_SCOPES_def)
      moreover have "\<exists>c'\<in>set calls. submits (py_strip j) f (se_value x) t c'" using assms(2) 2(1,2) by (auto simp: accounted_def)
      ultimately have "written_for (calls @ [c]) t (se_value x)" unfolding written_for_def by (metis append_Nil2)
      then show ?thesis using m 2(3,4) Applied(6) by (auto simp: accounted_def split: if_splits)
    qed (use m in simp)
  qed (use m in \<open>simp_all add: save_ask_def\<close>)
qed

section \<open>The records\<close>

text \<open>
  What every record has: its own id, at most eight fields with distinct proper names, answers without
  control of a token's shape and of bounded length, and a bounded history.
\<close>

definition fields_ok :: "field_spec list \<Rightarrow> bool" where
  "fields_ok fs = (length fs \<le> MAX_FIELDS \<and> distinct (map fs_name fs) \<and> list_all (\<lambda>f. FIELD_NAME_RE (fs_name f) \<and>
     (fs_target f \<noteq> None \<longrightarrow> fs_type f = Secret \<and> apply_target_known (target_of f))) fs)"

fun answer_ok :: "answer \<Rightarrow> bool" where
  "answer_ok (RBody t) = (length t \<le> MAX_BODY_CHARS \<and> \<not> looks_like_token t)"
| "answer_ok (RSecret m) = True"

definition record_ok :: "string \<Rightarrow> ask_record \<Rightarrow> bool" where
  "record_ok i r = (rc_id r = i \<and> fields_ok (effective_fields r) \<and> list_all (answer_ok \<circ> snd) (rc_response r) \<and> length (rc_history r) \<le> MAX_HISTORY)"

text \<open>A sealed secret is in a secret field that declares the target it was sealed for, and the record says so.\<close>

definition holds_secret :: "ask_record \<Rightarrow> string \<Rightarrow> sealed \<Rightarrow> bool" where
  "holds_secret r f x = (\<exists>sp m. field_named r f = Some sp \<and> fs_type sp = Secret \<and> target_of sp = se_target x \<and>
     map_of (rc_response r) f = Some (RSecret m) \<and> sm_sealed m = Some True \<and> sm_target m = Some (se_target x))"

definition ask_inv :: "local_vault ask_sys \<Rightarrow> bool" where
  "ask_inv s = ((\<forall>i r. map_of (sy_asks s) i = Some r \<longrightarrow> record_ok i r) \<and>
     (\<forall>i f x. map_of (lv_sealed (sy_vault s)) (i, f) = Some x \<longrightarrow> (\<exists>r. map_of (sy_asks s) i = Some r \<and> holds_secret r f x)))"

lemma same_shape:
  assumes "rc_fields r' = rc_fields r" and "rc_kind r' = rc_kind r"
  shows "effective_fields r' = effective_fields r" "field_named r' = field_named r"
proof -
  show e: "effective_fields r' = effective_fields r" by (simp only: effective_fields_def assms)
  show "field_named r' = field_named r" by (simp add: field_named_def e fun_eq_iff)
qed

lemma holds_secret_cong: "rc_fields r' = rc_fields r \<Longrightarrow> rc_kind r' = rc_kind r \<Longrightarrow> map_of (rc_response r') f = map_of (rc_response r) f \<Longrightarrow> holds_secret r' f x = holds_secret r f x"
  using same_shape(2) [of r' r] by (simp add: holds_secret_def)

lemma ask_inv_save:
  assumes "ask_inv s" and "fields_ok (effective_fields r)" and "list_all (answer_ok \<circ> snd) (rc_response r)"
    and "\<And>i f x. map_of (lv_sealed v) (i, f) = Some x \<Longrightarrow> i \<noteq> rc_id r \<Longrightarrow> map_of (lv_sealed (sy_vault s)) (i, f) = Some x"
    and "\<And>f x. map_of (lv_sealed v) (rc_id r, f) = Some x \<Longrightarrow> holds_secret r f x"
  shows "ask_inv (save_ask now r (s\<lparr>sy_vault := v\<rparr>))"
proof -
  have e: "effective_fields (saved now r) = effective_fields r" "holds_secret (saved now r) = holds_secret r"
    using same_shape [of "saved now r" r] holds_secret_cong [of "saved now r" r] by (simp_all add: saved_def fun_eq_iff)
  have "record_ok (rc_id r) (saved now r)" using assms(2,3) e(1) by (simp add: record_ok_def saved_def)
  then show ?thesis using assms e(2) by (auto simp: ask_inv_def save_ask_def)
qed

lemma ask_inv_save_same:
  assumes "ask_inv s" and "fields_ok (effective_fields r)" and "list_all (answer_ok \<circ> snd) (rc_response r)"
    and "\<And>f x. map_of (lv_sealed (sy_vault s)) (rc_id r, f) = Some x \<Longrightarrow> holds_secret r f x"
  shows "ask_inv (save_ask now r s)"
  using ask_inv_save [OF assms(1-3), of "sy_vault s" now] assms(4) by simp

lemma field_named_some: "field_named r n = Some f \<Longrightarrow> f \<in> set (effective_fields r) \<and> fs_name f = n"
  unfolding field_named_def by (auto dest!: map_of_SomeD)

lemma default_fields_ok: "fields_ok (default_fields k)"
proof -
  have "FIELD_NAME_RE ''response''" "FIELD_NAME_RE ''secret''" by code_simp+
  then show ?thesis by (simp add: fields_ok_def default_fields_def MAX_FIELDS_def)
qed

lemma validate_field_ok:
  assumes "validate_field rp seen v = Inr f"
  shows "FIELD_NAME_RE (fs_name f) \<and> fs_name f \<notin> set seen \<and> (fs_target f \<noteq> None \<longrightarrow> fs_type f = Secret \<and> apply_target_known (target_of f))"
proof -
  obtain d name ft t where "v = PDict d" and n: "FIELD_NAME_RE name" "name \<notin> set seen"
    and t: "check_target rp name ft (dget d ''apply_target'') = Inr t" and f: "fs_name f = name" "fs_type f = ft" "fs_target f = t"
    using assms by (auto simp: validate_field_def rbind_eq_Inr Let_def split: pyval.splits if_splits option.splits prod.splits)
  have "t \<noteq> None \<longrightarrow> ft = Secret \<and> apply_target_known (the t)"
    using t by (auto simp: check_target_def split: if_splits pyval.splits)
  then show ?thesis using n f by (auto simp: target_of_def)
qed

lemma validate_items_ok:
  "validate_items rp seen xs = Inr fs \<Longrightarrow> length fs = length xs \<and> distinct (map fs_name fs) \<and> fs_name ` set fs \<inter> set seen = {} \<and>
     list_all (\<lambda>f. FIELD_NAME_RE (fs_name f) \<and> (fs_target f \<noteq> None \<longrightarrow> fs_type f = Secret \<and> apply_target_known (target_of f))) fs"
proof (induction rp seen xs arbitrary: fs rule: validate_items.induct)
  case (2 rp seen x xs)
  then obtain f gs where f: "validate_field rp seen x = Inr f" "validate_items rp (fs_name f # seen) xs = Inr gs" "fs = f # gs"
    by (auto simp: rbind_eq_Inr)
  then show ?case using 2(1) [OF f(2)] validate_field_ok [OF f(1)] by auto
qed simp

lemma validate_fields_ok: "validate_fields rp v = Inr fs \<Longrightarrow> fields_ok fs \<and> fs \<noteq> []"
  by (auto simp: validate_fields_def fields_ok_def dest!: validate_items_ok split: pyval.splits if_splits)

subsection \<open>Every call keeps it\<close>

lemma history_sel [simp]:
  "rc_id (add_history now a act ns t rs r) = rc_id r" "rc_fields (add_history now a act ns t rs r) = rc_fields r"
  "rc_kind (add_history now a act ns t rs r) = rc_kind r" "rc_response (add_history now a act ns t rs r) = rc_response r"
  "rc_state (add_history now a act ns t rs r) = rc_state r"
  by (simp_all add: add_history_def)

lemma get_or_seed_ok:
  assumes "ask_inv s" and "get_or_seed env i seed now s = Inr r"
  shows "rc_id r = i" and "fields_ok (effective_fields r)" and "list_all (answer_ok \<circ> snd) (rc_response r)"
    and "map_of (lv_sealed (sy_vault s)) (i, f) = Some x \<Longrightarrow> holds_secret r f x \<and> map_of (sy_asks s) i = Some r"
proof -
  consider "map_of (sy_asks s) i = Some r" | row origin where "map_of (sy_asks s) i = None" "r = new_record (ak_render env) now i row origin"
    using assms(2) by (auto simp: get_or_seed_def split: option.splits)
  then have "rc_id r = i \<and> fields_ok (effective_fields r) \<and> list_all (answer_ok \<circ> snd) (rc_response r) \<and>
      (map_of (lv_sealed (sy_vault s)) (i, f) = Some x \<longrightarrow> holds_secret r f x \<and> map_of (sy_asks s) i = Some r)"
  proof cases
    case 1
    then show ?thesis using assms(1) by (fastforce simp: ask_inv_def record_ok_def)
  next
    case 2
    then show ?thesis using assms(1) default_fields_ok by (fastforce simp: ask_inv_def new_record_def effective_fields_def)
  qed
  then show "rc_id r = i" "fields_ok (effective_fields r)" "list_all (answer_ok \<circ> snd) (rc_response r)"
    "map_of (lv_sealed (sy_vault s)) (i, f) = Some x \<Longrightarrow> holds_secret r f x \<and> map_of (sy_asks s) i = Some r" by blast+
qed

lemma aupd_list_all: "list_all P xs \<Longrightarrow> P (k, v) \<Longrightarrow> list_all P (aupd k v xs)"
  by (induction xs) (auto split: if_splits)

lemma foldl_keeps: "(\<And>d x. x \<in> set xs \<Longrightarrow> Q d \<Longrightarrow> Q (h d x)) \<Longrightarrow> Q d \<Longrightarrow> Q (foldl h d xs)"
  by (induction xs arbitrary: d) auto

lemma put_answers_ok:
  assumes "list_all (answer_ok \<circ> snd) resp" and "list_all (\<lambda>(n, t). answer_ok (RBody t)) bs"
  shows "list_all (answer_ok \<circ> snd) (put_answers now a bs ss ts resp)"
proof -
  have "list_all (answer_ok \<circ> snd) (foldl (\<lambda>d (n, t). aupd n (RBody t) d) resp bs)"
    by (rule foldl_keeps [where Q = "list_all (answer_ok \<circ> snd)", OF _ assms(1)]) (use assms(2) in \<open>force simp: list_all_iff intro!: aupd_list_all\<close>)
  then show ?thesis unfolding put_answers_def by (rule foldl_keeps [where Q = "list_all (answer_ok \<circ> snd)", rotated]) (auto intro!: aupd_list_all)
qed

lemma put_answers_map:
  "map_of (put_answers now a bs ss ts resp) f =
     (if f \<in> fst ` set ss then map_of (put_answers now a bs ss ts resp) f
      else if f \<in> fst ` set bs then map_of (put_answers now a bs ss ts resp) f else map_of resp f)"
  "f \<in> fst ` set ss \<Longrightarrow> \<exists>x. map_of (put_answers now a bs ss ts resp) f = Some (RSecret (new_meta now a (case map_of ts f of Some t \<Rightarrow> t | None \<Rightarrow> []) x))"
proof -
  have b: "f \<notin> fst ` set bs' \<Longrightarrow> map_of (foldl (\<lambda>d (n, t). aupd n (RBody t) d) d bs') f = map_of d f" for d bs'
    by (induction bs' arbitrary: d) auto
  have s: "if f \<in> fst ` set ss' then \<exists>x. map_of (foldl (\<lambda>d (n, x). aupd n (g n x) d) d ss') f = Some (g f x)
      else map_of (foldl (\<lambda>d (n, x). aupd n (g n x) d) d ss') f = map_of d f" for d ss' and g :: "string \<Rightarrow> string \<Rightarrow> answer"
  proof (induction ss' arbitrary: d)
    case (Cons p ss')
    obtain n x where p: "p = (n, x)" by force
    show ?case using Cons.IH [of "aupd n (g n x) d"] by (auto simp: p split: if_splits)
  qed simp
  show "map_of (put_answers now a bs ss ts resp) f =
     (if f \<in> fst ` set ss then map_of (put_answers now a bs ss ts resp) f
      else if f \<in> fst ` set bs then map_of (put_answers now a bs ss ts resp) f else map_of resp f)"
    using b [of bs resp] s [of ss] by (auto simp: put_answers_def)
  show "f \<in> fst ` set ss \<Longrightarrow> \<exists>x. map_of (put_answers now a bs ss ts resp) f = Some (RSecret (new_meta now a (case map_of ts f of Some t \<Rightarrow> t | None \<Rightarrow> []) x))"
    using s [of ss "\<lambda>n x. RSecret (new_meta now a (case map_of ts n of Some t \<Rightarrow> t | None \<Rightarrow> []) x)"] by (auto simp: put_answers_def)
qed

lemma check_values_bodies:
  "check_values rp spec d = Inr (bs, ss) \<Longrightarrow> list_all (\<lambda>(n, t). answer_ok (RBody t) \<and> (\<exists>f. spec n = Some f \<and> fs_type f = Body)) bs"
proof (induction d arbitrary: bs ss)
  case (Cons p d)
  obtain m v where p: "p = (m, v)" by force
  have b: "validate_body rp m w = Inr t \<Longrightarrow> answer_ok (RBody t)" for w t by (auto simp: validate_body_def refuse_def split: pyval.splits if_splits)
  from Cons.prems(1) obtain bs' ss' where "check_values rp spec d = Inr (bs', ss')"
    "bs = bs' \<or> (\<exists>t f. bs = (m, t) # bs' \<and> validate_body rp m (if v = PNone then PStr [] else v) = Inr t \<and> spec m = Some f \<and> fs_type f = Body)"
    unfolding p by (rule check_values_Cons)
  then show ?case using Cons.IH b by fastforce
qed simp

lemma answered_sel:
  "rc_id (answered now a bs ss ts r) = rc_id r" "rc_fields (answered now a bs ss ts r) = rc_fields r" "rc_kind (answered now a bs ss ts r) = rc_kind r"
  "rc_response (answered now a bs ss ts r) = put_answers now a bs ss ts (rc_response r)" "rc_state (answered now a bs ss ts r) = closed_stamp now a"
  by (simp_all add: answered_def Let_def)

lemma answered_inv:
  assumes "ask_inv s" and "get_or_seed env i seed now s = Inr r" and "check_answer env' r d tg = Inr (bs, ss, ts)"
    and "local_seal i (with_targets ts ss) a req now (sy_vault s) = Inr ((), v)"
  shows "ask_inv (save_ask now (answered now a bs ss ts r) (s\<lparr>sy_vault := v\<rparr>))"
proof (rule ask_inv_save [OF assms(1)])
  note r = get_or_seed_ok [OF assms(1,2)]
  let ?r = "answered now a bs ss ts r"
  have shape: "effective_fields ?r = effective_fields r" "field_named ?r = field_named r"
    using same_shape [of ?r r] by (simp_all add: answered_sel)
  from assms(3) obtain cv: "check_values (ak_repr env') (field_named r) d = Inr (bs, ss)" by (rule check_answerE)
  note bodies = check_values_bodies [OF cv]
  show "fields_ok (effective_fields ?r)" using r(2) shape by simp
  have "list_all (\<lambda>(n, t). answer_ok (RBody t)) bs" using bodies by (rule list.pred_mono_strong) auto
  then show "list_all (answer_ok \<circ> snd) (rc_response ?r)" unfolding answered_sel by (rule put_answers_ok [OF r(3)])
  have other: "map_of (lv_sealed (sy_vault s)) (j, f) = Some x" if "map_of (lv_sealed v) (j, f) = Some x" "j \<noteq> i \<or> f \<notin> fst ` set ss" for j f x
    using that local_seal_map [OF assms(4), of j f] by (force simp: with_targets_def split: if_splits)
  then show "map_of (lv_sealed v) (j, f) = Some x \<Longrightarrow> j \<noteq> rc_id ?r \<Longrightarrow> map_of (lv_sealed (sy_vault s)) (j, f) = Some x" for j f x
    by (simp add: answered_sel r(1))
  show "holds_secret ?r f x" if "map_of (lv_sealed v) (rc_id ?r, f) = Some x" for f x
  proof (cases "f \<in> fst ` set ss")
    case True
    then have w: "f \<in> fst ` set (with_targets ts ss)" by (force simp: with_targets_def)
    have fx: "map_of (lv_sealed v) (i, f) = Some x" using that by (simp add: answered_sel r(1))
    then obtain y t where y: "(f, y, t) \<in> set (with_targets ts ss)" "x = \<lparr>se_value = y, se_target = t, se_set_at = now, se_set_by = a\<rparr>"
      using local_seal_map [OF assms(4), of i f] w by auto
    then have "t = (case map_of ts f of Some t \<Rightarrow> t | None \<Rightarrow> [])" by (auto simp: with_targets_def)
    then show ?thesis
      using submitted_checked [OF assms(3) y(1)] put_answers_map(2) [OF True, of now a bs ts "rc_response r"] y(2)
      by (auto simp: holds_secret_def shape answered_sel new_meta_def)
  next
    case False
    have h: "holds_secret r f x" using other [OF that] False r(4) by (simp add: answered_sel r(1))
    have "f \<notin> fst ` set bs" using h bodies by (force simp: holds_secret_def list_all_iff)
    then have "map_of (rc_response ?r) f = map_of (rc_response r) f"
      using put_answers_map(1) [of now a bs ss ts "rc_response r" f] False by (simp add: answered_sel)
    then show ?thesis using h holds_secret_cong [of ?r r f x] by (simp add: answered_sel)
  qed
qed

lemma sealed_complete:
  assumes "ak_vault env = local_vault_ops writer" and "sealed_fields env i r (sy_vault s) = Inr l" and "map_of (lv_sealed (sy_vault s)) (i, f) = Some x"
    and "holds_secret r f x" and "fields_ok (effective_fields r)"
  shows "(f, se_target x) \<in> set l"
proof -
  have "FIELD_NAME_RE f" using assms(4,5) field_named_some [of r f] by (fastforce simp: holds_secret_def fields_ok_def list_all_iff)
  moreover have "((i, f), x) \<in> set (lv_sealed (sy_vault s))" using assms(3) by (rule map_of_SomeD)
  ultimately have "ak_disabled env = [] \<Longrightarrow> ?thesis"
    using assms(1,2) by (force simp: sealed_fields_def local_vault_ops_def local_status_def)
  moreover have "\<exists>m. (f, RSecret m) \<in> set (rc_response r) \<and> sealed_answer (RSecret m) = Some (se_target x)"
    using assms(4) by (auto simp: holds_secret_def sealed_answer_def dest: map_of_SomeD)
  then have "ak_disabled env \<noteq> [] \<Longrightarrow> ?thesis"
    using assms(2) by (force simp: sealed_fields_def map_filter_def)
  ultimately show ?thesis by blast
qed

lemma map_of_filter_notin: "f \<notin> A \<Longrightarrow> map_of (filter (\<lambda>p. fst p \<notin> A) xs) f = map_of xs f"
  by (induction xs) auto

lemma declared_inv:
  assumes "ak_vault env = local_vault_ops writer" and "ask_inv s" and "get_or_seed env i seed now s = Inr r"
    and "sealed_fields env i r (sy_vault s) = Inr l" and "list_all (keeps_binding decl) l" and "validate_fields rp v = Inr decl"
  shows "ask_inv (save_ask now (declared now a decl r) s)"
proof (rule ask_inv_save_same [OF assms(2)])
  note r = get_or_seed_ok [OF assms(2,3)]
  have d: "fields_ok decl" "decl \<noteq> []" using validate_fields_ok [OF assms(6)] by auto
  have e: "effective_fields (declared now a decl r) = decl"
    using d(2) by (auto simp: declared_def effective_fields_def Let_def neq_Nil_conv)
  then show "fields_ok (effective_fields (declared now a decl r))" using d by simp
  show "list_all (answer_ok \<circ> snd) (rc_response (declared now a decl r))" using r(3) by (auto simp: declared_def Let_def list_all_iff)
  show "holds_secret (declared now a decl r) f x" if "map_of (lv_sealed (sy_vault s)) (rc_id (declared now a decl r), f) = Some x" for f x
  proof -
    have x: "map_of (lv_sealed (sy_vault s)) (i, f) = Some x" using that r(1) by (simp add: declared_def Let_def)
    then have h: "holds_secret r f x" using r(4) by blast
    have "keeps_binding decl (f, se_target x)" using sealed_complete [OF assms(1,4) x h r(2)] assms(5) by (simp add: list_all_iff)
    then obtain g where g: "map_of (rev (map (\<lambda>f. (fs_name f, f)) decl)) f = Some g" "fs_type g = Secret" "target_of g = se_target x"
      by (auto simp: keeps_binding_def split: option.splits)
    have "f \<notin> fs_name ` set (filter (dropped_by decl) (effective_fields r))" using g by (auto simp: dropped_by_def)
    then have "map_of (rc_response (declared now a decl r)) f = map_of (rc_response r) f"
      using map_of_filter_notin [of f "fs_name ` set (filter (dropped_by decl) (effective_fields r))"] by (simp add: declared_def Let_def)
    then show ?thesis using h g by (auto simp: holds_secret_def field_named_def e)
  qed
qed

lemma cleared_inv:
  assumes "ak_vault env = local_vault_ops writer" and "ask_inv s" and "map_of (sy_asks s) i = Some r"
  shows "ask_inv (left_in (clear_field env i f r a req now s))"
proof -
  let ?v = "(sy_vault s)\<lparr>lv_sealed := adel (i, f) (lv_sealed (sy_vault s))\<rparr>"
  let ?r = "add_history now a ''clear_secret'' [f] None None (r\<lparr>rc_response := adel f (rc_response r)\<rparr>)"
  have r: "rc_id r = i" "fields_ok (effective_fields r)" "list_all (answer_ok \<circ> snd) (rc_response r)"
    using assms(2,3) by (auto simp: ask_inv_def record_ok_def)
  have e: "effective_fields ?r = effective_fields r" using same_shape(1) [of ?r r] by simp
  have "ask_inv (s\<lparr>sy_vault := ?v\<rparr>)" using assms(2) by (auto simp: ask_inv_def split: if_splits)
  moreover have "ask_inv (save_ask now ?r (s\<lparr>sy_vault := ?v\<rparr>))"
  proof (rule ask_inv_save [OF assms(2)])
    show "list_all (answer_ok \<circ> snd) (rc_response ?r)" using r(3) by (auto simp: list_all_iff adel_def)
    show "holds_secret ?r g x" if "map_of (lv_sealed ?v) (rc_id ?r, g) = Some x" for g x
    proof -
      have g: "g \<noteq> f" "map_of (lv_sealed (sy_vault s)) (i, g) = Some x" using that r(1) by (auto split: if_splits)
      then have "holds_secret r g x" using assms(2,3) by (fastforce simp: ask_inv_def)
      then show ?thesis using holds_secret_cong [of ?r r g x] g(1) by simp
    qed
  qed (use e r in \<open>auto split: if_splits\<close>)
  ultimately show ?thesis
    using assms(1) by (auto simp: clear_field_def local_vault_ops_def local_clear_def Let_def)
qed

lemma raised_inv:
  assumes "ask_inv s" and "map_of (sy_asks s) i = None" and "decl = None \<or> (\<exists>fs. decl = Some fs \<and> validate_fields rp v = Inr fs)"
  shows "ask_inv (save_ask now (add_history now a ''raise'' names None None (new_record render now i row origin \<lparr>rc_fields := decl\<rparr>)) s)"
proof (rule ask_inv_save_same [OF assms(1)])
  let ?r = "add_history now a ''raise'' names None None (new_record render now i row origin \<lparr>rc_fields := decl\<rparr>)"
  show "fields_ok (effective_fields ?r)"
    using assms(3) validate_fields_ok default_fields_ok by (force simp: effective_fields_def split: option.split list.split)
  show "list_all (answer_ok \<circ> snd) (rc_response ?r)" by (simp add: new_record_def)
  show "holds_secret ?r f x" if "map_of (lv_sealed (sy_vault s)) (rc_id ?r, f) = Some x" for f x
    using that assms(1,2) by (fastforce simp: ask_inv_def new_record_def)
qed

lemma failed_inv:
  assumes "ask_inv s" and "map_of (sy_asks s) i = Some r"
  shows "ask_inv (save_ask now (apply_failed now a f t reason r) s)"
proof (rule ask_inv_save_same [OF assms(1)])
  let ?r = "apply_failed now a f t reason r"
  have r: "record_ok i r" using assms by (simp add: ask_inv_def)
  have e: "rc_fields ?r = rc_fields r" "rc_kind ?r = rc_kind r" "rc_response ?r = rc_response r" "rc_id ?r = rc_id r"
    by (simp_all add: apply_failed_def Let_def)
  show "fields_ok (effective_fields ?r)" "list_all (answer_ok \<circ> snd) (rc_response ?r)"
    using r same_shape(1) [OF e(1,2)] e(3) by (simp_all add: record_ok_def)
  show "holds_secret ?r g x" if "map_of (lv_sealed (sy_vault s)) (rc_id ?r, g) = Some x" for g x
    using that assms r e holds_secret_cong [OF e(1,2), of g x] by (fastforce simp: ask_inv_def record_ok_def)
qed

lemma done_inv:
  assumes "ask_inv s" and "map_of (sy_asks s) i = Some r"
  shows "ask_inv (save_ask now (apply_done now a f t m r) (s\<lparr>sy_vault := (sy_vault s)\<lparr>lv_sealed := adel (i, f) (lv_sealed (sy_vault s)), lv_written := w\<rparr>\<rparr>))"
proof (rule ask_inv_save [OF assms(1)])
  let ?r = "apply_done now a f t m r" and ?v = "(sy_vault s)\<lparr>lv_sealed := adel (i, f) (lv_sealed (sy_vault s)), lv_written := w\<rparr>"
  have r: "rc_id r = i" "fields_ok (effective_fields r)" "list_all (answer_ok \<circ> snd) (rc_response r)"
    using assms by (auto simp: ask_inv_def record_ok_def)
  have e: "rc_fields ?r = rc_fields r" "rc_kind ?r = rc_kind r" "rc_id ?r = rc_id r" by (simp_all add: apply_done_def)
  show "fields_ok (effective_fields ?r)" using r(2) same_shape(1) [OF e(1,2)] by simp
  show "list_all (answer_ok \<circ> snd) (rc_response ?r)" using r(3) by (simp add: apply_done_def aupd_list_all)
  show "map_of (lv_sealed ?v) (j, g) = Some x \<Longrightarrow> j \<noteq> rc_id ?r \<Longrightarrow> map_of (lv_sealed (sy_vault s)) (j, g) = Some x" for j g x
    by (simp split: if_splits)
  show "holds_secret ?r g x" if "map_of (lv_sealed ?v) (rc_id ?r, g) = Some x" for g x
  proof -
    have g: "g \<noteq> f" "map_of (lv_sealed (sy_vault s)) (i, g) = Some x" using that e(3) r(1) by (auto split: if_splits)
    then have "holds_secret r g x" using assms by (fastforce simp: ask_inv_def)
    then show ?thesis using holds_secret_cong [OF e(1,2), of g x] g(1) by (simp add: apply_done_def)
  qed
qed

text \<open>
  An applied secret has its metadata in the record, so that the last write of \<open>apply_secret\<close> never
  meets the text of a body answer: with the invariant, an application that has reached the target is recorded.
\<close>

lemma apply_field_run:
  assumes "ak_vault env = local_vault_ops writer" and "ask_inv s" and "map_of (sy_asks s) i = Some r"
  obtains e where "local_apply writer i f t req (sy_vault s) = Inl (e, sy_vault s)"
      "apply_field env i f t r a req now s =
         Inl (AskStoreError (''apply failed: '' @ t @ '' '' @ apply_reason e) 502, save_ask now (apply_failed now a f t (apply_reason e) r) s)"
  | x m where "map_of (lv_sealed (sy_vault s)) (i, f) = Some x" "se_target x = t" "value_matches t (se_value x)"
      "map_of (rc_response r) f = Some (RSecret m)"
      "apply_field env i f t r a req now s = Inr ((t, now), save_ask now (apply_done now a f t m r)
         (s\<lparr>sy_vault := (sy_vault s)\<lparr>lv_sealed := adel (i, f) (lv_sealed (sy_vault s)), lv_written := lv_written (sy_vault s) @ [(t, se_value x)]\<rparr>\<rparr>))"
proof (cases "local_apply writer i f t req (sy_vault s)")
  case (Inl p)
  obtain e v where p: "p = (e, v)" by force
  then have v: "v = sy_vault s" using Inl by (auto simp: local_apply_def split: if_splits option.splits)
  show ?thesis by (rule that(1) [of e]) (use assms(1) Inl p v in \<open>simp_all add: apply_field_def local_vault_ops_def\<close>)
next
  case (Inr p)
  then obtain x where x: "map_of (lv_sealed (sy_vault s)) (i, f) = Some x" "se_target x = t" "value_matches t (se_value x)"
      "p = ((), (sy_vault s)\<lparr>lv_sealed := adel (i, f) (lv_sealed (sy_vault s)), lv_written := lv_written (sy_vault s) @ [(t, se_value x)]\<rparr>)"
    by (auto simp: local_apply_def split: if_splits option.splits)
  then obtain m where m: "map_of (rc_response r) f = Some (RSecret m)" using assms(2,3) by (fastforce simp: ask_inv_def holds_secret_def)
  show ?thesis by (rule that(2) [OF x(1-3) m]) (use assms(1) Inr x(4) m in \<open>simp add: apply_field_def local_vault_ops_def\<close>)
qed

lemma ask_inv_step:
  assumes "ak_vault env = local_vault_ops writer" and "ask_inv s"
  shows "ask_inv (tool_exec env s c)"
proof -
  have e: "ak_vault (call_env env c) = local_vault_ops writer" using assms(1) by (simp add: call_env_def)
  from tool_exec_effect [of env s c] show ?thesis
  proof cases
    case (Raised i decl names cols)
    then show ?thesis using raised_inv [OF assms(2) Raised(3,4)] by simp
  next
    case (Declared i seed r fs decl)
    then show ?thesis using declared_inv [OF e assms(2) Declared(3-6)] by simp
  next
    case (Answered j d seed r bs ss ts a)
    then show ?thesis
      using answer_left [OF e, of "py_strip j" ts ss a "tc_req c" "tc_now c" s r bs] answered_inv [OF assms(2) Answered(5,6)] by fastforce
  next
    case (Cleared i r f a)
    then show ?thesis using cleared_inv [OF e assms(2) Cleared(3)] by simp
  next
    case (Applied j f t r sp)
    show ?thesis unfolding Applied(1)
      by (cases rule: apply_field_run [OF e assms(2) Applied(7), of f t "tc_req c" "tc_caller c" "tc_now c"])
        (simp_all add: failed_inv [OF assms(2) Applied(7)] done_inv [OF assms(2) Applied(7)])
  qed (use assms(2) in simp)
qed

section \<open>Every call is answered\<close>

text \<open>The validators only ever refuse; what an operation of the store raises is then a refusal too, in a known state.\<close>

definition refuses :: "(ask_exn, 'a) result \<Rightarrow> bool" where
  "refuses m = (\<forall>x. m = Inl x \<longrightarrow> (\<exists>t c. x = AskStoreError t c))"

definition fails_with :: "(int \<Rightarrow> 'v ask_sys \<Rightarrow> bool) \<Rightarrow> ('v, 'a) ask_result \<Rightarrow> bool" where
  "fails_with P r = (case r of Inl (AskStoreError m c, s) \<Rightarrow> P c s | Inl _ \<Rightarrow> False | Inr _ \<Rightarrow> True)"

named_theorems refusing

lemma refuses_simps [refusing]: "refuses (Inr a)" "refuses (refuse c m)"
  by (simp_all add: refuses_def refuse_def)

lemma refuses_rbind [refusing]: "refuses m \<Longrightarrow> (\<And>a. m = Inr a \<Longrightarrow> refuses (f a)) \<Longrightarrow> refuses (rbind m f)"
  by (cases m) (auto simp: refuses_def)

lemma fails_slift: "refuses m \<Longrightarrow> (\<And>c. P c s) \<Longrightarrow> (\<And>a. m = Inr a \<Longrightarrow> fails_with P (f a s)) \<Longrightarrow> fails_with P (sbind (slift m s) f)"
  by (cases m) (auto simp: refuses_def fails_with_def)

lemma fails_Inl [simp]: "fails_with P (Inl (AskStoreError m c, s)) = P c s"
  by (simp add: fails_with_def)

lemma fails_put: "fails_with P (put_ask now r s)"
  by (simp add: fails_with_def put_ask_def)

lemma fails_row_reply: "fails_with P r \<Longrightarrow> fails_with P (row_reply r)"
  by (auto simp: row_reply_def fails_with_def sbind_def split: sum.splits prod.splits ask_exn.splits)

lemma validators_refuse [refusing]:
  "refuses (validate_ask_id v)" "refuses (validate_field_name v)" "refuses (validate_actor v)" "refuses (validate_body rp n v)"
  "refuses (validate_secret rp n v)" "refuses (check_target rp n ft v)" "refuses (validate_column d n k)" "refuses (require_secrets env)"
  "refuses (secret_field env r f i)" "refuses (get_or_seed env i seed now s)"
  by (simp_all add: validate_ask_id_def validate_field_name_def validate_actor_def validate_body_def validate_secret_def check_target_def
    validate_column_def require_secrets_def secret_field_def get_or_seed_def Let_def refuses_simps split: pyval.split option.split)

lemma validate_columns_refuse [refusing]: "refuses (validate_columns d b)"
  by (auto simp: validate_columns_def Let_def refuses_simps validators_refuse intro!: refuses_rbind split: pyval.split)

lemma refuse_weak_cong: "c = c' \<Longrightarrow> refuse c m = refuse c' m"
  by simp

lemma refuses_if: "(b \<Longrightarrow> refuses x) \<Longrightarrow> (\<not> b \<Longrightarrow> refuses y) \<Longrightarrow> refuses (if b then x else y)"
  by simp

lemma refuses_option: "refuses x \<Longrightarrow> (\<And>a. refuses (f a)) \<Longrightarrow> refuses (case v of None \<Rightarrow> x | Some a \<Rightarrow> f a)"
  by (cases v) simp_all

lemma validate_field_refuse [refusing]: "refuses (validate_field rp seen v)"
proof (cases v)
  case (PDict d)
  show ?thesis
  proof (cases "dget d ''name''")
    case (PStr name)
    show ?thesis unfolding validate_field_def \<open>v = PDict d\<close> pyval.case Let_def PStr
    proof (intro refuses_if refuses_option refuses_simps)
      fix ft
      show "refuses (case (if has_key d ''label'' then dget d ''label'' else PStr name, if has_key d ''required'' then dget d ''required'' else PBool False) of
          (PStr label, required) \<Rightarrow>
             if length label > MAX_LABEL_CHARS \<or> \<not> no_controls False label
             then refuse 400 (''field '' @ rp name @ '': label must be at most 120 printable characters'')
             else (case required of
               PBool b \<Rightarrow> rbind (check_target rp name ft (dget d ''apply_target'')) (\<lambda>t.
                 Inr \<lparr>fs_name = name, fs_type = ft, fs_label = if py_strip label = [] then name else py_strip label, fs_required = b, fs_target = t\<rparr>)
             | _ \<Rightarrow> refuse 400 (''field '' @ rp name @ '': required must be true or false''))
        | _ \<Rightarrow> refuse 400 (''field '' @ rp name @ '': label must be at most 120 printable characters''))"
        by (cases "if has_key d ''label'' then dget d ''label'' else PStr name"; cases "if has_key d ''required'' then dget d ''required'' else PBool False")
          (simp_all only: prod.case pyval.case refuses_simps refuses_if refuses_rbind validators_refuse)
    qed
  qed (simp_all only: validate_field_def \<open>v = PDict d\<close> pyval.case Let_def refuses_if refuses_simps)
qed (simp_all only: validate_field_def pyval.case refuses_simps)

lemma validate_items_refuse [refusing]: "refuses (validate_items rp seen xs)"
  by (induction rp seen xs rule: validate_items.induct) (auto simp: refuses_simps validate_field_refuse intro!: refuses_rbind)

lemma validate_fields_refuse [refusing]: "refuses (validate_fields rp v)"
  by (simp add: validate_fields_def refuses_simps validate_items_refuse split: pyval.split)

lemma check_values_refuse [refusing]: "refuses (check_values rp spec d)"
  by (induction rp spec d rule: check_values.induct) (auto simp: refuses_simps validators_refuse intro!: refuses_rbind split: option.split prod.split)

lemma check_answer_refuse [refusing]: "refuses (check_answer env r d tg)"
  by (auto simp: check_answer_def Let_def refuses_simps check_values_refuse validators_refuse intro!: refuses_rbind split: option.split list.split prod.split)

lemma sealed_fields_refuse: "ak_vault env = local_vault_ops writer \<Longrightarrow> refuses (sealed_fields env i r v)"
  by (simp add: sealed_fields_def local_vault_ops_def local_status_def refusing)

text \<open>A failed application reopens the ask and says why, and changes nothing else.\<close>

definition reopened :: "string \<Rightarrow> int \<Rightarrow> 'v ask_sys \<Rightarrow> 'v ask_sys \<Rightarrow> bool" where
  "reopened tool code s s' = (tool = ''apply_ask_secret'' \<and> code = 502 \<and> sy_vault s' = sy_vault s \<and>
     (\<exists>i r r'. map_of (sy_asks s) i = Some r \<and> sy_asks s' = aupd i r' (sy_asks s) \<and> rc_state r' = ''OPEN'' \<and>
        rc_response r' = rc_response r \<and> rc_fields r' = rc_fields r \<and> length (rc_evidence r') \<le> EVIDENCE_LIMIT))"

lemma raise_fails: "fails_with (\<lambda>_ s'. s' = s) (raise_tool env caller args seed now s)"
  unfolding raise_tool_def raise_ask_def by (auto intro!: fails_slift fails_put fails_row_reply refusing)

lemma declare_fails:
  assumes "ak_vault env = local_vault_ops writer"
  shows "fails_with (\<lambda>_ s'. s' = s) (declare_tool env caller args seed now s)"
proof -
  note d = sealed_fields_refuse [OF assms]
  show ?thesis unfolding declare_tool_def declare_fields_def
    by (auto intro!: fails_slift fails_put fails_row_reply d refusing split: option.split)
qed

lemma answer_fails:
  assumes "ak_vault env = local_vault_ops writer"
  shows "fails_with P (answer_ask env i a r bs ss ts req now s)"
proof -
  obtain v where "local_seal i (with_targets ts ss) a req now (sy_vault s) = Inr ((), v)" using local_seal_runs by blast
  then show ?thesis using assms by (simp add: answer_ask_def seal_all_def local_vault_ops_def put_ask_def fails_with_def)
qed

lemma respond_fails:
  assumes "ak_vault env = local_vault_ops writer"
  shows "fails_with (\<lambda>_ s'. s' = s) (respond_tool env args seed req now s)"
  unfolding respond_tool_def respond_def
  by (auto intro!: fails_slift fails_row_reply answer_fails [OF assms] refusing split: pyval.split prod.split)

lemma adel_same: "map_of xs k = None \<Longrightarrow> adel k xs = xs"
  by (induction xs) (auto simp: adel_def split: if_splits)

lemma clear_field_fails:
  assumes "ak_vault env = local_vault_ops writer"
  shows "fails_with (\<lambda>_ s'. s' = s) (clear_field env i f r a req now s)"
  using assms adel_same [of "lv_sealed (sy_vault s)" "(i, f)"]
  by (simp add: clear_field_def local_vault_ops_def local_clear_def Let_def put_ask_def fails_with_def)

lemma clear_fails:
  assumes "ak_vault env = local_vault_ops writer"
  shows "fails_with (\<lambda>_ s'. s' = s) (clear_tool env args req now s)"
  unfolding clear_tool_def clear_secret_def
  by (auto intro!: fails_slift fails_row_reply clear_field_fails [OF assms] refusing split: option.split)

lemma apply_field_fails:
  assumes "ak_vault env = local_vault_ops writer" and "ask_inv s" and "map_of (sy_asks s) i = Some r"
  shows "fails_with (\<lambda>code s'. s' = s \<or> reopened ''apply_ask_secret'' code s s') (apply_field env i f t r a req now s)"
proof (cases rule: apply_field_run [OF assms, of f t req a now])
  case (1 e)
  let ?r = "saved now (apply_failed now a f t (apply_reason e) r)"
  have "rc_id r = i" using assms(2,3) by (simp add: ask_inv_def record_ok_def)
  moreover have "rc_state ?r = ''OPEN''" "rc_response ?r = rc_response r" "rc_fields ?r = rc_fields r" "length (rc_evidence ?r) \<le> EVIDENCE_LIMIT" "rc_id ?r = rc_id r"
    by (simp_all add: saved_def apply_failed_def Let_def add_history_def)
  moreover have "save_ask now (apply_failed now a f t (apply_reason e) r) s = s\<lparr>sy_asks := aupd (rc_id r) ?r (sy_asks s)\<rparr>"
    by (simp add: save_ask_def apply_failed_def Let_def)
  ultimately have "reopened ''apply_ask_secret'' 502 s (save_ask now (apply_failed now a f t (apply_reason e) r) s)"
    using assms(3) unfolding reopened_def by (metis (no_types, lifting) ask_sys.select_convs ask_sys.surjective ask_sys.update_convs)
  then show ?thesis using 1 by (simp add: fails_with_def)
qed (simp add: fails_with_def)

lemma apply_fails:
  assumes "ak_vault env = local_vault_ops writer" and "ask_inv s"
  shows "fails_with (\<lambda>code s'. s' = s \<or> reopened ''apply_ask_secret'' code s s') (apply_tool env caller args req now s)"
proof -
  have r: "fails_with P r \<Longrightarrow> fails_with P (sbind r (\<lambda>(t, stamp) s. Inr (AppliedReply t stamp, s)))" for P and r :: "(local_vault, string \<times> string) ask_result"
    by (auto simp: fails_with_def sbind_def split: sum.splits prod.splits ask_exn.splits)
  show ?thesis unfolding apply_tool_def apply_secret_def Let_def
    by (auto intro!: fails_slift r apply_field_fails [OF assms] refusing split: option.split)
qed

lemma refusal_replyE:
  assumes "fails_with P r" and "\<And>m c s'. r \<noteq> Inr (ErrorReply m c, s')"
  shows "\<exists>reply s'. refusal_reply r = Inr (reply, s') \<and> (\<forall>m c. reply = ErrorReply m c \<longrightarrow> P c s')"
  using assms by (auto simp: fails_with_def refusal_reply_def split: sum.splits prod.splits ask_exn.splits)

lemma row_reply_row: "row_reply r \<noteq> Inr (ErrorReply m c, s')"
  by (auto simp: row_reply_def sbind_eq_Inr)

lemma slift_bind_neq: "(\<And>a. f a s \<noteq> Inr y) \<Longrightarrow> sbind (slift m s) f \<noteq> Inr y"
  by (cases m) simp_all

lemma tools_no_error:
  "raise_tool env caller args seed now s \<noteq> Inr (ErrorReply m c, s')" "declare_tool env caller args seed now s \<noteq> Inr (ErrorReply m c, s')"
  "respond_tool env args seed req now s \<noteq> Inr (ErrorReply m c, s')" "clear_tool env args req now s \<noteq> Inr (ErrorReply m c, s')"
  "apply_tool env caller args req now s \<noteq> Inr (ErrorReply m c, s')"
proof -
  show "raise_tool env caller args seed now s \<noteq> Inr (ErrorReply m c, s')"
    unfolding raise_tool_def by (intro slift_bind_neq) (simp add: row_reply_row)
  show "declare_tool env caller args seed now s \<noteq> Inr (ErrorReply m c, s')"
    unfolding declare_tool_def by (intro slift_bind_neq row_reply_row)
  show "respond_tool env args seed req now s \<noteq> Inr (ErrorReply m c, s')"
    unfolding respond_tool_def by (intro slift_bind_neq row_reply_row)
  show "clear_tool env args req now s \<noteq> Inr (ErrorReply m c, s')"
    unfolding clear_tool_def by (intro slift_bind_neq row_reply_row)
  show "apply_tool env caller args req now s \<noteq> Inr (ErrorReply m c, s')"
    unfolding apply_tool_def by (intro slift_bind_neq) (auto simp: sbind_def split: sum.splits prod.splits)
qed

lemma run_ask_tool_simps:
  "run_ask_tool env ''raise_open_ask'' caller args seed req now s = refusal_reply (raise_tool env caller args seed now s)"
  "run_ask_tool env ''declare_ask_fields'' caller args seed req now s = refusal_reply (declare_tool env caller args seed now s)"
  "run_ask_tool env ''respond_open_ask'' caller args seed req now s = refusal_reply (respond_tool env args seed req now s)"
  "run_ask_tool env ''clear_ask_secret'' caller args seed req now s = refusal_reply (clear_tool env args req now s)"
  by (simp_all add: run_ask_tool_def)

lemma run_apply_tool:
  obtains "run_ask_tool env ''apply_ask_secret'' caller args seed req now s = refusal_reply (apply_tool env caller args req now s)"
  | m c where "run_ask_tool env ''apply_ask_secret'' caller args seed req now s = Inr (ErrorReply m c, s)"
  by (cases "target_listed (dget args ''target'')") (simp_all add: run_ask_tool_def refusal_reply_def)

lemma answers_weaken:
  "\<exists>reply s'. r = Inr (reply, s') \<and> (\<forall>m c. reply = ErrorReply m c \<longrightarrow> P c s') \<Longrightarrow> (\<And>c s'. P c s' \<Longrightarrow> Q c s') \<Longrightarrow>
     \<exists>reply s'. r = Inr (reply, s') \<and> (\<forall>m c. reply = ErrorReply m c \<longrightarrow> Q c s')"
  by blast

lemma known_tool_cases:
  assumes "tool \<in> fst ` set ASK_TOOL_SCOPES"
  obtains "tool = ''raise_open_ask''" | "tool = ''declare_ask_fields''" | "tool = ''respond_open_ask''" | "tool = ''clear_ask_secret''" | "tool = ''apply_ask_secret''"
  using assms unfolding ASK_TOOL_SCOPES_def list.set image_insert image_empty fst_conv by (elim insertE emptyE) (rule that, assumption)+

lemma tool_answers:
  assumes "ak_vault env = local_vault_ops writer" and "ask_inv s" and "tool \<in> fst ` set ASK_TOOL_SCOPES"
  shows "\<exists>reply s'. run_ask_tool env tool caller args seed req now s = Inr (reply, s') \<and> (\<forall>m c. reply = ErrorReply m c \<longrightarrow> s' = s \<or> reopened tool c s s')"
  using assms(3)
proof (cases rule: known_tool_cases)
  case 1
  show ?thesis unfolding 1 run_ask_tool_simps by (rule answers_weaken [OF refusal_replyE [OF raise_fails tools_no_error(1)]]) (rule disjI1)
next
  case 2
  show ?thesis unfolding 2 run_ask_tool_simps by (rule answers_weaken [OF refusal_replyE [OF declare_fails [OF assms(1)] tools_no_error(2)]]) (rule disjI1)
next
  case 3
  show ?thesis unfolding 3 run_ask_tool_simps by (rule answers_weaken [OF refusal_replyE [OF respond_fails [OF assms(1)] tools_no_error(3)]]) (rule disjI1)
next
  case 4
  show ?thesis unfolding 4 run_ask_tool_simps by (rule answers_weaken [OF refusal_replyE [OF clear_fails [OF assms(1)] tools_no_error(4)]]) (rule disjI1)
next
  case 5
  show ?thesis unfolding 5
  proof (cases rule: run_apply_tool [of env caller args seed req now s])
    case 1
    show "\<exists>reply s'. run_ask_tool env ''apply_ask_secret'' caller args seed req now s = Inr (reply, s') \<and>
        (\<forall>m c. reply = ErrorReply m c \<longrightarrow> s' = s \<or> reopened ''apply_ask_secret'' c s s')"
      unfolding 1 by (rule refusal_replyE [OF apply_fails [OF assms(1,2)] tools_no_error(5)])
  qed blast
qed

section \<open>Nodes\<close>

text \<open>A call that reaches the dispatcher of a node, with the runtime and the configuration of the moment.\<close>

record node_call =
  nq_runtime :: ask_runtime
  nq_configs :: caller_table
  nq_tool :: string
  nq_args :: pyval
  nq_seed :: seed_lookup
  nq_time :: time
  nq_now :: string

definition node_run :: "auth_env \<Rightarrow> 'v ask_env \<Rightarrow> 'v ask_node \<Rightarrow> node_call \<Rightarrow> (node_exn, 'v ask_node, tool_reply) stateful" where
  "node_run auth env n q = dispatch_ask_tool auth env (nq_runtime q) (nq_configs q) (nq_tool q) (nq_args q) (nq_seed q) (nq_time q) (nq_now q) n"

definition node_exec :: "auth_env \<Rightarrow> 'v ask_env \<Rightarrow> 'v ask_node \<Rightarrow> node_call \<Rightarrow> 'v ask_node" where
  "node_exec auth env n q = left_in (node_run auth env n q)"

definition raw_args :: "node_call \<Rightarrow> pydict" where
  "raw_args q = (case nq_args q of PDict d \<Rightarrow> d | _ \<Rightarrow> [])"

definition call_of :: "node_call \<Rightarrow> string \<Rightarrow> tool_call" where
  "call_of q caller = \<lparr>tc_tool = nq_tool q, tc_caller = caller, tc_args = strip_ask_signature (raw_args q), tc_seed = nq_seed q,
     tc_req = PDict [(''tool'', PStr (nq_tool q)), (''arguments'', PDict (raw_args q))], tc_now = nq_now q,
     tc_secrets_off = ar_secrets_off (nq_runtime q)\<rparr>"

text \<open>The call carries the caller's own signature over its arguments, and the caller has the scope of the tool.\<close>

definition authorised :: "auth_env \<Rightarrow> node_call \<Rightarrow> string \<Rightarrow> string \<Rightarrow> bool" where
  "authorised auth q scope caller =
     (map_of ASK_TOOL_SCOPES (nq_tool q) = Some scope \<and> ask_scope_allowed caller scope (ar_grants (nq_runtime q)) \<and>
      dget (raw_args q) ''caller'' = PStr caller \<and>
      (\<exists>secret ts nonce sig. secret_for auth (map_of (ask_caller_specs (nq_configs q) (ar_grants (nq_runtime q))) caller) = Some secret \<and>
         dget (raw_args q) ''caller_nonce'' = PStr nonce \<and> dget (raw_args q) ''caller_sig'' = PStr sig \<and>
         py_lower (py_strip sig) = ask_signature auth (nq_tool q) caller ts nonce (raw_args q) secret))"

lemma verified_reason:
  assumes "verify_ask_request auth tool args specs nc time = Inr ((caller, reason), nc')" and "caller \<noteq> ANON_CALLER"
  shows "reason = []"
proof -
  obtain ts where ts: "canonical_timestamp (dget args ''caller_ts'') = Inr ts" using assms(1) by (auto simp: verify_ask_request_def rbind_eq_Inr)
  show ?thesis
  proof (cases "ask_identity_of args ts time")
    case (Inr i)
    show ?thesis
    proof (cases "secret_for auth (map_of specs (ai_caller i))")
      case (Some secret)
      obtain used nc2 where "nonce_use nc (ai_caller i) (ai_nonce i) time = (used, nc2)" by force
      then show ?thesis using assms ts Inr Some
        by (auto simp: verify_ask_request_def rbind_eq_Inr simp del: compare_digest_Inr split: if_splits)
    qed (use assms ts Inr in \<open>simp add: verify_ask_request_def\<close>)
  qed (use assms ts in \<open>simp add: verify_ask_request_def\<close>)
qed

lemma verified_authorised:
  assumes "verify_ask_request auth (nq_tool q) (raw_args q) (ask_caller_specs (nq_configs q) (ar_grants (nq_runtime q))) nc time = Inr ((caller, reason), nc')"
    and "caller \<noteq> ANON_CALLER" and "map_of ASK_TOOL_SCOPES (nq_tool q) = Some scope" and "ask_scope_allowed caller scope (ar_grants (nq_runtime q))"
  shows "authorised auth q scope caller"
proof -
  have "reason = []" using assms(1,2) by (rule verified_reason)
  with assms(1) obtain i ts secret where i: "ask_identity_of (raw_args q) ts time = Inr i" "ai_caller i = caller"
    "secret_for auth (map_of (ask_caller_specs (nq_configs q) (ar_grants (nq_runtime q))) caller) = Some secret"
    "py_lower (py_strip (ai_sig i)) = ask_signature auth (nq_tool q) caller (ai_ts i) (ai_nonce i) (raw_args q) secret"
    by (auto elim: verify_ask_accepted)
  have "dget (raw_args q) ''caller'' = PStr (ai_caller i) \<and> dget (raw_args q) ''caller_nonce'' = PStr (ai_nonce i) \<and> dget (raw_args q) ''caller_sig'' = PStr (ai_sig i)"
    using i(1) by (auto simp: ask_identity_of_def text_field_def rbind_eq_Inr split: pyval.splits if_splits option.splits)
  then show ?thesis using assms(3,4) i(2-4) unfolding authorised_def by blast
qed

lemma in_node_left [simp]: "an_sys (left_in (in_node n tool caller target render r)) = left_in r"
  by (cases r) (auto simp: in_node_def Let_def)

lemma node_exec_cases:
  obtains "an_sys (node_exec auth env n q) = an_sys n"
  | scope caller where "authorised auth q scope caller" "an_sys (node_exec auth env n q) = tool_exec env (an_sys n) (call_of q caller)"
proof (cases "\<exists>scope. map_of ASK_TOOL_SCOPES (nq_tool q) = Some scope \<and> nq_args q = PDict (raw_args q) \<and> ar_configured (nq_runtime q) \<and> ar_disabled (nq_runtime q) = []")
  case True
  then obtain scope where c: "map_of ASK_TOOL_SCOPES (nq_tool q) = Some scope" "nq_args q = PDict (raw_args q)" "ar_configured (nq_runtime q)" "ar_disabled (nq_runtime q) = []" by blast
  let ?v = "verify_ask_request auth (nq_tool q) (raw_args q) (ask_caller_specs (nq_configs q) (ar_grants (nq_runtime q))) (an_nonces n) (nq_time q)"
  show ?thesis
  proof (cases ?v)
    case (Inl x)
    then show ?thesis using that(1) c by (simp add: node_exec_def node_run_def dispatch_ask_tool_def)
  next
    case (Inr p)
    obtain caller reason nc where p: "p = ((caller, reason), nc)" by (metis surj_pair)
    show ?thesis
    proof (cases "caller \<noteq> ANON_CALLER \<and> ask_scope_allowed caller scope (ar_grants (nq_runtime q))")
      case True
      then have a: "authorised auth q scope caller" using verified_authorised [OF _ _ c(1)] Inr p by blast
      have "an_sys (node_exec auth env n q) \<in> {an_sys n, tool_exec env (an_sys n) (call_of q caller)}"
        using True c Inr p by (simp add: node_exec_def node_run_def dispatch_ask_tool_def Let_def tool_exec_def tool_run_def call_of_def)
      then show ?thesis using that(1) that(2) [OF a] by blast
    next
      case False
      then show ?thesis using that(1) c Inr p by (auto simp: node_exec_def node_run_def dispatch_ask_tool_def Let_def split: if_splits)
    qed
  qed
next
  case False
  have "an_sys (node_exec auth env n q) = an_sys n"
    using False by (auto simp: node_exec_def node_run_def dispatch_ask_tool_def raw_args_def split: option.split pyval.split)
  then show ?thesis using that(1) by blast
qed

text \<open>The tool runs of a history of dispatched calls.\<close>

inductive runs_of :: "auth_env \<Rightarrow> node_call list \<Rightarrow> tool_call list \<Rightarrow> bool" for auth where
  Empty: "runs_of auth [] []"
| Skip: "runs_of auth qs cs \<Longrightarrow> runs_of auth (qs @ [q]) cs"
| Run: "runs_of auth qs cs \<Longrightarrow> authorised auth q scope caller \<Longrightarrow> runs_of auth (qs @ [q]) (cs @ [call_of q caller])"

lemma node_runs:
  "\<exists>cs. runs_of auth qs cs \<and> an_sys (run_ops (node_exec auth env) n qs) = run_ops (tool_exec env) (an_sys n) cs"
proof (induction qs rule: rev_induct)
  case (snoc q qs)
  then obtain cs where cs: "runs_of auth qs cs" "an_sys (run_ops (node_exec auth env) n qs) = run_ops (tool_exec env) (an_sys n) cs" by blast
  show ?case
  proof (cases rule: node_exec_cases [of auth env "run_ops (node_exec auth env) n qs" q])
    case 1
    then show ?thesis using cs runs_of.Skip [OF cs(1), of q] by (auto simp: run_ops_append)
  next
    case (2 scope caller)
    have "an_sys (run_ops (node_exec auth env) n (qs @ [q])) = run_ops (tool_exec env) (an_sys n) (cs @ [call_of q caller])"
      using 2(2) cs(2) by (simp add: run_ops_append)
    then show ?thesis using runs_of.Run [OF cs(1) 2(1)] by blast
  qed
qed (auto intro: runs_of.Empty)

lemma runs_of_member: "runs_of auth qs cs \<Longrightarrow> c \<in> set cs \<Longrightarrow> \<exists>q\<in>set qs. \<exists>scope caller. authorised auth q scope caller \<and> c = call_of q caller"
  by (induction rule: runs_of.induct) auto

lemma runs_of_split:
  "runs_of auth qs cs \<Longrightarrow> cs = pre @ c # post \<Longrightarrow>
     \<exists>qs1 q qs2 scope caller. qs = qs1 @ q # qs2 \<and> authorised auth q scope caller \<and> c = call_of q caller \<and> runs_of auth qs1 pre"
proof (induction arbitrary: post rule: runs_of.induct)
  case (Skip qs cs q)
  then show ?case by (metis append_Cons append_assoc)
next
  case (Run qs cs q scope caller)
  show ?case
  proof (cases post rule: rev_cases)
    case Nil
    then show ?thesis using Run by blast
  next
    case (snoc post' z)
    then have "cs = pre @ c # post'" using Run.prems by simp
    then show ?thesis using Run.IH by (metis append_Cons append_assoc)
  qed
qed simp

definition empty_asks :: "local_vault ask_sys" where
  "empty_asks = \<lparr>sy_asks = [], sy_vault = \<lparr>lv_sealed = [], lv_written = []\<rparr>\<rparr>"

lemma accounted_run:
  assumes "ak_vault env = local_vault_ops writer" and "runs_of auth qs cs"
  shows "accounted cs (sy_vault (run_ops (tool_exec env) empty_asks cs))"
  using assms(2)
proof (induction rule: runs_of.induct)
  case (Run qs cs q scope caller)
  have "tc_tool (call_of q caller) \<in> fst ` set ASK_TOOL_SCOPES"
    using Run(2) by (force simp: authorised_def call_of_def dest: map_of_SomeD)
  then show ?case using accounted_step [OF assms(1) Run.IH] by (simp add: run_ops_append)
qed (simp_all add: accounted_def empty_asks_def)

lemma ask_inv_empty: "ask_inv empty_asks"
  by (simp add: ask_inv_def empty_asks_def)

text \<open>Under the local vault every call keeps the invariant of the records.\<close>

interpretation asks: step_machine "\<lambda>s c. tool_exec (env\<lparr>ak_vault := local_vault_ops writer\<rparr>) s c" ask_inv
  by unfold_locales (simp add: ask_inv_step)

lemma node_inv:
  assumes "ak_vault env = local_vault_ops writer" and "an_sys n = empty_asks"
  shows "ask_inv (an_sys (run_ops (node_exec auth env) n qs))"
proof -
  obtain cs where "an_sys (run_ops (node_exec auth env) n qs) = run_ops (tool_exec env) empty_asks cs"
    using node_runs [of auth qs env n] assms(2) by metis
  moreover have "env\<lparr>ak_vault := local_vault_ops writer\<rparr> = env" using assms(1) by simp
  ultimately show ?thesis using asks.run_inv [OF ask_inv_empty, where env = env and writer = writer and xs = cs] by simp
qed

lemma node_answers:
  assumes "ak_vault env = local_vault_ops writer" and "ask_inv (an_sys n)"
  shows "case node_run auth env n q of
       Inl (x, n') \<Rightarrow> (\<forall>e. x \<noteq> NodeAsk e) \<and> an_sys n' = an_sys n
     | Inr (reply, n') \<Rightarrow> \<forall>m c. reply = ErrorReply m c \<longrightarrow> an_sys n' = an_sys n \<or> reopened (nq_tool q) c (an_sys n) (an_sys n')" (is "?ok (node_run auth env n q)")
proof (cases "\<exists>scope. map_of ASK_TOOL_SCOPES (nq_tool q) = Some scope \<and> nq_args q = PDict (raw_args q) \<and> ar_configured (nq_runtime q) \<and> ar_disabled (nq_runtime q) = []")
  case True
  let ?env = "env\<lparr>ak_disabled := ar_secrets_off (nq_runtime q)\<rparr>"
  let ?v = "verify_ask_request auth (nq_tool q) (raw_args q) (ask_caller_specs (nq_configs q) (ar_grants (nq_runtime q))) (an_nonces n) (nq_time q)"
  obtain scope where c: "map_of ASK_TOOL_SCOPES (nq_tool q) = Some scope" "nq_args q = PDict (raw_args q)" "ar_configured (nq_runtime q)" "ar_disabled (nq_runtime q) = []"
    using True by blast
  have known: "nq_tool q \<in> fst ` set ASK_TOOL_SCOPES" using c(1) by (force dest: map_of_SomeD)
  have i: "?ok (in_node n1 tool caller target render (run_ask_tool ?env (nq_tool q) caller' args (nq_seed q) req (nq_now q) (an_sys n)))"
    for n1 tool caller target render caller' args req
    using tool_answers [OF _ assms(2) known, of ?env writer caller' args "nq_seed q" req "nq_now q"] assms(1) by (auto simp: in_node_def Let_def)
  show ?thesis
  proof (cases ?v)
    case (Inl x)
    then show ?thesis using c by (simp add: node_run_def dispatch_ask_tool_def)
  next
    case (Inr p)
    obtain caller reason nc where p: "p = ((caller, reason), nc)" by (metis surj_pair)
    show ?thesis using c Inr p i by (simp add: node_run_def dispatch_ask_tool_def Let_def)
  qed
next
  case False
  then show ?thesis by (auto simp: node_run_def dispatch_ask_tool_def raw_args_def split: option.split pyval.split)
qed

section \<open>A history to look at\<close>

text \<open>A caller with every scope raises an ask for a token, answers it, and has the token applied.\<close>

definition demo_target :: string where
  "demo_target = ''ct202-mcp-tools-env:GITHUB_MCP_TOKEN''"

definition demo_token :: string where
  "demo_token = ''ghp_0123456789abcdefghij''"

definition token_env :: "local_vault ask_env" where
  "token_env = \<lparr>ak_repr = (\<lambda>t. t), ak_render = (\<lambda>_. []), ak_disabled = [], ak_vault = local_vault_ops (Some (\<lambda>_ _. None))\<rparr>"

definition token_grants :: "(string \<times> string list) list" where
  "token_grants = [(''chat-agent'', [''overseer'', ''overseer:write'', ''overseer:apply''])]"

definition token_call :: "string \<Rightarrow> string \<Rightarrow> pydict \<Rightarrow> node_call" where
  "token_call tool nonce d = \<lparr>nq_runtime = \<lparr>ar_configured = True, ar_disabled = [], ar_secrets_off = [], ar_grants = token_grants, ar_has_store = True\<rparr>,
     nq_configs = demo_callers, nq_tool = tool,
     nq_args = PDict ([(''caller'', PStr ''chat-agent''), (''caller_ts'', PStr ''1030''), (''caller_nonce'', PStr nonce), (''caller_sig'', PStr ''0a1b'')] @ d),
     nq_seed = (\<lambda>_. None), nq_time = 1000, nq_now = ''1970-01-01''\<rparr>"

definition token_raise :: pydict where
  "token_raise = [(''id'', PStr ''tok-1''), (''ask'', PStr ''a token''), (''kind'', PStr ''CREDENTIAL''),
     (''fields'', PList [PDict [(''name'', PStr ''token''), (''type'', PStr ''secret''), (''apply_target'', PStr demo_target)]])]"

definition token_respond :: pydict where
  "token_respond = [(''id'', PStr ''tok-1''), (''actor'', PStr ''ops''), (''fields'', PDict [(''token'', PStr demo_token)]),
     (''secret_targets'', PDict [(''token'', PStr demo_target)])]"

definition token_apply :: pydict where
  "token_apply = [(''id'', PStr ''tok-1''), (''field'', PStr ''token''), (''target'', PStr demo_target)]"

definition token_node :: "local_vault ask_node" where
  "token_node = \<lparr>an_sys = empty_asks, an_nonces = \<lparr>nc_seen = [], nc_max = 20000\<rparr>, an_audit = []\<rparr>"

definition token_calls :: "node_call list" where
  "token_calls = [token_call ''raise_open_ask'' ''0123456789abcde0'' token_raise, token_call ''respond_open_ask'' ''0123456789abcde1'' token_respond,
     token_call ''apply_ask_secret'' ''0123456789abcde2'' token_apply]"

lemma token_vault_ops [simp]: "ak_vault token_env = local_vault_ops (Some (\<lambda>_ _. None))"
  by (simp add: token_env_def)

lemma token_call_verified:
  assumes "nonce_full nonce" and "map_of (nc_seen nc) (''chat-agent'', nonce) = None" and "length (nc_seen nc) < nc_max nc"
  shows "verify_ask_request demo_auth tool ([(''caller'', PStr ''chat-agent''), (''caller_ts'', PStr ''1030''), (''caller_nonce'', PStr nonce), (''caller_sig'', PStr ''0a1b'')] @ d)
      (ask_caller_specs demo_callers token_grants) nc 1000 =
    Inr ((''chat-agent'', []), nc\<lparr>nc_seen := aupd (''chat-agent'', nonce) 1330 (nc_seen nc)\<rparr>)" (is "verify_ask_request _ _ ?args ?specs _ _ = _")
proof -
  have n: "py_lower (py_strip ''0a1b'') = ''0a1b''" "list_all is_ascii ''0a1b''" "py_int_of_string ''1030'' = Some 1030"
    "py_strip ''LH_HARNESS_CALLER_CHAT_AGENT_SECRET'' = ''LH_HARNESS_CALLER_CHAT_AGENT_SECRET''" by code_simp+
  have i: "ask_identity_of ?args (Some ''1030'') 1000 = Inr \<lparr>ai_caller = ''chat-agent'', ai_ts = ''1030'', ai_nonce = nonce, ai_sig = ''0a1b''\<rparr>"
    using assms(1) n demo_caller_name
    by (simp add: ask_identity_of_def text_field_def in_window_def ANON_CALLER_def ASK_MAX_PAST_SECONDS_def ASK_MAX_FUTURE_SECONDS_def)
  have d: "dget ?args ''caller_ts'' = PStr ''1030''" by simp
  have "map_of ?specs ''chat-agent'' = map_of demo_callers ''chat-agent''"
    by (simp add: ask_caller_specs_def demo_callers_def token_grants_def ANON_CALLER_def)
  then have s: "secret_for demo_auth (map_of ?specs ''chat-agent'') = Some ''s3''"
    using n by (simp add: secret_for_def demo_callers_def demo_auth_def captured_secret_def nonempty_def)
  have c: "compare_digest (ask_signature demo_auth tool ''chat-agent'' ''1030'' nonce ?args ''s3'') ''0a1b'' = Inr True"
    using n by (simp add: ask_signature_def demo_auth_def)
  have u: "nonce_use nc ''chat-agent'' nonce 1000 = (True, nc\<lparr>nc_seen := aupd (''chat-agent'', nonce) 1330 (nc_seen nc)\<rparr>)"
    using assms(2,3) by (simp add: nonce_use_def Let_def ASK_MAX_PAST_SECONDS_def ASK_MAX_FUTURE_SECONDS_def)
  show ?thesis unfolding verify_ask_request_def d demo_ask_stamp rbind_Inr i sum.case using n(1) s c u by (simp del: compare_digest_Inr)
qed

lemma in_node_nonces [simp]: "an_nonces (left_in (in_node n tool caller target render r)) = an_nonces n"
  by (cases r) (auto simp: in_node_def Let_def)

lemma token_call_exec:
  assumes "map_of ASK_TOOL_SCOPES tool = Some scope" and "scope \<in> set [''overseer'', ''overseer:write'', ''overseer:apply'']" and "nonce_full nonce"
    and "map_of (nc_seen (an_nonces n)) (''chat-agent'', nonce) = None" and "length (nc_seen (an_nonces n)) < nc_max (an_nonces n)"
    and "strip_ask_signature d = d" and "filter (\<lambda>k. k \<notin> set (ASK_TOOL_KEYS tool)) (map fst d) = []"
  shows "node_run demo_auth token_env n (token_call tool nonce d) =
       in_node (n\<lparr>an_nonces := (an_nonces n)\<lparr>nc_seen := aupd (''chat-agent'', nonce) 1330 (nc_seen (an_nonces n))\<rparr>\<rparr>) tool ''chat-agent'' (dget d ''target'') (ak_render token_env)
         (run_ask_tool token_env tool ''chat-agent'' d (\<lambda>_. None) (tc_req (call_of (token_call tool nonce d) [])) ''1970-01-01'' (an_sys n))" (is ?run)
    and "an_sys (node_exec demo_auth token_env n (token_call tool nonce d)) =
       left_in (run_ask_tool token_env tool ''chat-agent'' d (\<lambda>_. None) (tc_req (call_of (token_call tool nonce d) [])) ''1970-01-01'' (an_sys n))" (is ?sys)
    and "an_nonces (node_exec demo_auth token_env n (token_call tool nonce d)) =
       (an_nonces n)\<lparr>nc_seen := aupd (''chat-agent'', nonce) 1330 (nc_seen (an_nonces n))\<rparr>" (is ?nonces)
proof -
  let ?args = "[(''caller'', PStr ''chat-agent''), (''caller_ts'', PStr ''1030''), (''caller_nonce'', PStr nonce), (''caller_sig'', PStr ''0a1b'')] @ d"
  let ?n = "n\<lparr>an_nonces := (an_nonces n)\<lparr>nc_seen := aupd (''chat-agent'', nonce) 1330 (nc_seen (an_nonces n))\<rparr>\<rparr>"
  note v = token_call_verified [OF assms(3-5), of tool d]
  have st: "strip_ask_signature ?args = d" using assms(6) by (simp add: strip_ask_signature_def ASK_SIG_FIELDS_def)
  have a: "ask_scope_allowed ''chat-agent'' scope token_grants" using assms(2) by (simp add: ask_scope_allowed_def token_grants_def ANON_CALLER_def)
  have e: "token_env\<lparr>ak_disabled := []\<rparr> = token_env" by (simp add: token_env_def)
  have req: "tc_req (call_of (token_call tool nonce d) []) = PDict [(''tool'', PStr tool), (''arguments'', PDict ?args)]"
    by (simp add: call_of_def token_call_def raw_args_def)
  have "''chat-agent'' \<noteq> ANON_CALLER" by (simp add: ANON_CALLER_def)
  then show ?run
    using assms(1,7) v a e st req by (simp add: node_run_def dispatch_ask_tool_def token_call_def Let_def)
  then show ?sys ?nonces by (simp_all add: node_exec_def)
qed

lemma token_full: "nonce_full ''0123456789abcde0''" "nonce_full ''0123456789abcde1''" "nonce_full ''0123456789abcde2''"
  by code_simp+

lemma token_keys:
  "strip_ask_signature token_raise = token_raise" "strip_ask_signature token_respond = token_respond" "strip_ask_signature token_apply = token_apply"
  "filter (\<lambda>k. k \<notin> set (ASK_TOOL_KEYS ''raise_open_ask'')) (map fst token_raise) = []"
  "filter (\<lambda>k. k \<notin> set (ASK_TOOL_KEYS ''respond_open_ask'')) (map fst token_respond) = []"
  "filter (\<lambda>k. k \<notin> set (ASK_TOOL_KEYS ''apply_ask_secret'')) (map fst token_apply) = []"
  by (simp_all add: strip_ask_signature_def ASK_SIG_FIELDS_def ASK_TOOL_KEYS_def token_raise_def token_respond_def token_apply_def)

definition token_run :: "string \<Rightarrow> string \<Rightarrow> pydict \<Rightarrow> local_vault ask_sys \<Rightarrow> local_vault ask_sys" where
  "token_run tool nonce d s =
     left_in (run_ask_tool token_env tool ''chat-agent'' d (\<lambda>_. None) (tc_req (call_of (token_call tool nonce d) [])) ''1970-01-01'' s)"

lemma token_scopes:
  "map_of ASK_TOOL_SCOPES ''raise_open_ask'' = Some ''overseer''" "map_of ASK_TOOL_SCOPES ''respond_open_ask'' = Some ''overseer:write''"
  "map_of ASK_TOOL_SCOPES ''apply_ask_secret'' = Some ''overseer:apply''"
  by (simp_all add: ASK_TOOL_SCOPES_def)

lemma token_history:
  "an_sys (run_ops (node_exec demo_auth token_env) token_node token_calls) =
     token_run ''apply_ask_secret'' ''0123456789abcde2'' token_apply (token_run ''respond_open_ask'' ''0123456789abcde1'' token_respond
       (token_run ''raise_open_ask'' ''0123456789abcde0'' token_raise empty_asks))"
proof -
  let ?n1 = "node_exec demo_auth token_env token_node (token_call ''raise_open_ask'' ''0123456789abcde0'' token_raise)"
  let ?n2 = "node_exec demo_auth token_env ?n1 (token_call ''respond_open_ask'' ''0123456789abcde1'' token_respond)"
  note 1 = token_call_exec [OF token_scopes(1) _ token_full(1) _ _ token_keys(1,4), of token_node]
  have n1: "an_nonces ?n1 = \<lparr>nc_seen = [((''chat-agent'', ''0123456789abcde0''), 1330)], nc_max = 20000\<rparr>" using 1(3) by (simp add: token_node_def)
  note 2 = token_call_exec [OF token_scopes(2) _ token_full(2) _ _ token_keys(2,5), of ?n1]
  have n2: "an_nonces ?n2 = \<lparr>nc_seen = [((''chat-agent'', ''0123456789abcde0''), 1330), ((''chat-agent'', ''0123456789abcde1''), 1330)], nc_max = 20000\<rparr>"
    using 2(3) n1 by simp
  note 3 = token_call_exec [OF token_scopes(3) _ token_full(3) _ _ token_keys(3,6), of ?n2]
  show ?thesis using 1(2) 2(2) 3(2) n1 n2 by (simp add: token_calls_def token_run_def token_node_def)
qed

lemma token_written: "lv_written (sy_vault (an_sys (run_ops (node_exec demo_auth token_env) token_node token_calls))) = [(demo_target, demo_token)]"
proof -
  have "lv_written (sy_vault (token_run ''apply_ask_secret'' ''0123456789abcde2'' token_apply (token_run ''respond_open_ask'' ''0123456789abcde1'' token_respond
       (token_run ''raise_open_ask'' ''0123456789abcde0'' token_raise empty_asks)))) = [(demo_target, demo_token)]" by code_simp
  then show ?thesis using token_history by simp
qed

section \<open>Properties\<close>

text \<open>C6: Every value that the vault of a node has written to a target, after any sequence of calls to the
  ask tools from an empty store, is of the format of that target, which is on the allow-list; it is the value
  that an earlier call of the sequence submitted for a field of an ask, naming that target, and a later call
  applied that field of that ask to that target. Both calls carried the signature of their caller over their
  arguments, and the callers had the scopes \<open>overseer:write\<close> and \<open>overseer:apply\<close>.\<close>

theorem secret_write_authorised:
  assumes "ak_vault env = local_vault_ops writer" and "an_sys n = empty_asks"
    and "(t, x) \<in> set (lv_written (sy_vault (an_sys (run_ops (node_exec auth env) n qs))))"
  shows "apply_target_known t \<and> value_matches t x \<and>
    (\<exists>i f pre q post caller. qs = pre @ q # post \<and> authorised auth q ''overseer:apply'' caller \<and> applies i f t (call_of q caller) \<and>
       (\<exists>q'\<in>set pre. \<exists>caller'. authorised auth q' ''overseer:write'' caller' \<and> submits i f x t (call_of q' caller')))"
proof -
  obtain cs where cs: "runs_of auth qs cs" "an_sys (run_ops (node_exec auth env) n qs) = run_ops (tool_exec env) empty_asks cs"
    using node_runs [of auth qs env n] assms(2) by metis
  have a: "apply_target_known t" "value_matches t x" "written_for cs t x"
    using accounted_run [OF assms(1) cs(1)] assms(3) cs(2) by (auto simp: accounted_def)
  then obtain i f pre c post c' where c: "cs = pre @ c # post" "applies i f t c" "c' \<in> set pre" "submits i f x t c'" by (auto simp: written_for_def)
  obtain qs1 q qs2 scope caller where q: "qs = qs1 @ q # qs2" "authorised auth q scope caller" "c = call_of q caller" "runs_of auth qs1 pre"
    using runs_of_split [OF cs(1) c(1)] by blast
  obtain q' scope' caller' where q': "q' \<in> set qs1" "authorised auth q' scope' caller'" "c' = call_of q' caller'"
    using runs_of_member [OF q(4) c(3)] by blast
  have "scope = ''overseer:apply''" using q(2,3) c(2) token_scopes(3) by (simp add: authorised_def applies_def call_of_def)
  moreover have "scope' = ''overseer:write''" using q'(2,3) c(4) token_scopes(2) by (simp add: authorised_def submits_def call_of_def)
  ultimately show ?thesis using a q q' c(2,4) by blast
qed

theorem secret_write_authorised_witness:
  "apply_target_known demo_target \<and> value_matches demo_target demo_token \<and>
    (\<exists>i f pre q post caller. token_calls = pre @ q # post \<and> authorised demo_auth q ''overseer:apply'' caller \<and> applies i f demo_target (call_of q caller) \<and>
       (\<exists>q'\<in>set pre. \<exists>caller'. authorised demo_auth q' ''overseer:write'' caller' \<and> submits i f demo_token demo_target (call_of q' caller')))"
  by (rule secret_write_authorised [of token_env "Some (\<lambda>_ _. None)" token_node]) (simp, simp add: token_node_def, simp add: token_written)

text \<open>C8: After any sequence of calls to the ask tools of a node with a local vault, every record carries its own id,
  at most eight fields with distinct proper names and listed targets, body answers of bounded length that do not look
  like a token, and at most two hundred steps of history; and every sealed secret belongs to a secret field of its ask
  that still declares the target the secret was submitted for.\<close>

theorem sealed_secret_stays_bound:
  assumes "ak_vault env = local_vault_ops writer" and "an_sys n = empty_asks" and "s = an_sys (run_ops (node_exec auth env) n qs)"
  shows "(\<forall>i r. map_of (sy_asks s) i = Some r \<longrightarrow> record_ok i r) \<and>
    (\<forall>i f x. map_of (lv_sealed (sy_vault s)) (i, f) = Some x \<longrightarrow> (\<exists>r. map_of (sy_asks s) i = Some r \<and> holds_secret r f x))"
  using node_inv [OF assms(1,2)] assms(3) by (simp add: ask_inv_def)

theorem sealed_secret_stays_bound_witness:
  "\<exists>r. map_of (sy_asks (an_sys (run_ops (node_exec demo_auth token_env) token_node token_calls))) ''tok-1'' = Some r \<and> record_ok ''tok-1'' r"
proof -
  note h = sealed_secret_stays_bound [of token_env "Some (\<lambda>_ _. None)" token_node, OF token_vault_ops _ refl, of demo_auth token_calls]
  have "map_of (sy_asks (token_run ''apply_ask_secret'' ''0123456789abcde2'' token_apply (token_run ''respond_open_ask'' ''0123456789abcde1'' token_respond
       (token_run ''raise_open_ask'' ''0123456789abcde0'' token_raise empty_asks)))) ''tok-1'' \<noteq> None" by code_simp
  then show ?thesis using h token_history by (auto simp: token_node_def)
qed



end
