(* ===== verification/Ask_Blind.thy ===== *)
theory Ask_Blind
  imports Ask_History
begin

text \<open>
  Nothing outside the vault depends on the text of a secret. Two histories of calls that differ only in
  the secrets submitted, of the same length and with the same fate at their target, have the same
  answers and leave the same records: a relation between two runs that every operation keeps.
\<close>

section \<open>Two runs side by side\<close>

type_synonym writer = "(string \<Rightarrow> string \<Rightarrow> vault_exn option) option"

text \<open>
  Two secrets that no one but the vault can tell apart: of one length, of the format of the same
  targets, and taken or refused alike by the writer, with the same reason once it is redacted.
\<close>

definition alike :: "writer \<Rightarrow> string \<Rightarrow> string \<Rightarrow> bool" where
  "alike wr x y = (length x = length y \<and> (\<forall>t. value_matches t x = value_matches t y \<and>
     (case wr of None \<Rightarrow> True | Some w \<Rightarrow> map_option (\<lambda>e. writer_failure e x) (w t x) = map_option (\<lambda>e. writer_failure e y) (w t y))))"

definition sealed_alike :: "writer \<Rightarrow> sealed \<Rightarrow> sealed \<Rightarrow> bool" where
  "sealed_alike wr x y = (se_target x = se_target y \<and> se_set_at x = se_set_at y \<and> se_set_by x = se_set_by y \<and> alike wr (se_value x) (se_value y))"

definition dict_rel :: "('a \<Rightarrow> 'b \<Rightarrow> bool) \<Rightarrow> ('k \<times> 'a) list \<Rightarrow> ('k \<times> 'b) list \<Rightarrow> bool" where
  "dict_rel R xs ys = list_all2 (\<lambda>p q. fst p = fst q \<and> R (snd p) (snd q)) xs ys"

definition vault_alike :: "writer \<Rightarrow> local_vault \<Rightarrow> local_vault \<Rightarrow> bool" where
  "vault_alike wr v v' = (dict_rel (sealed_alike wr) (lv_sealed v) (lv_sealed v') \<and> map fst (lv_written v) = map fst (lv_written v'))"

text \<open>The relation of two stores over a relation of their vaults, and of two runs.\<close>

definition sys_alike :: "('v \<Rightarrow> 'v \<Rightarrow> bool) \<Rightarrow> 'v ask_sys \<Rightarrow> 'v ask_sys \<Rightarrow> bool" where
  "sys_alike R s s' = (sy_asks s = sy_asks s' \<and> R (sy_vault s) (sy_vault s'))"

fun same_run :: "('s \<Rightarrow> 's \<Rightarrow> bool) \<Rightarrow> ('x, 's, 'a) stateful \<Rightarrow> ('x, 's, 'a) stateful \<Rightarrow> bool" where
  "same_run R (Inl (x, s)) (Inl (x', s')) = (x = x' \<and> R s s')"
| "same_run R (Inr (a, s)) (Inr (a', s')) = (a = a' \<and> R s s')"
| "same_run R _ _ = False"

lemma alike_refl [simp]: "alike wr x x"
  by (simp add: alike_def split: option.split)

lemma vault_alike_refl [simp]: "vault_alike wr v v"
  by (auto simp: vault_alike_def dict_rel_def sealed_alike_def intro: list_all2_refl)

lemma dict_rel_map_of: "dict_rel R xs ys \<Longrightarrow> rel_option R (map_of xs k) (map_of ys k)"
  unfolding dict_rel_def by (induction xs ys rule: list_all2_induct) auto

lemma dict_rel_aupd: "dict_rel R xs ys \<Longrightarrow> R x y \<Longrightarrow> dict_rel R (aupd k x xs) (aupd k y ys)"
  unfolding dict_rel_def
proof (induction xs ys rule: list_all2_induct)
  case (Cons p ps q qs)
  then show ?case by (cases p; cases q) auto
qed simp

lemma dict_rel_adel: "dict_rel R xs ys \<Longrightarrow> dict_rel R (adel k xs) (adel k ys)"
  unfolding dict_rel_def adel_def by (induction xs ys rule: list_all2_induct) auto

lemma same_slift [simp]: "same_run R (slift m s) (slift m s') = R s s'"
  by (cases m) simp_all

lemma same_slift_bind:
  "R s s' \<Longrightarrow> (\<And>a. m = Inr a \<Longrightarrow> same_run R (f a s) (f' a s')) \<Longrightarrow> same_run R (sbind (slift m s) f) (sbind (slift m s') f')"
  by (cases m) simp_all

lemma same_bind:
  assumes "same_run R r r'" and "\<And>a s s'. R s s' \<Longrightarrow> same_run R (f a s) (f' a s')"
  shows "same_run R (sbind r f) (sbind r' f')"
  using assms by (cases "(R, r, r')" rule: same_run.cases) auto

lemma same_put: "sys_alike R s s' \<Longrightarrow> same_run (sys_alike R) (put_ask now r s) (put_ask now r s')"
  by (simp add: put_ask_def save_ask_def sys_alike_def)

lemma same_row_reply: "same_run R r r' \<Longrightarrow> same_run R (row_reply r) (row_reply r')"
  unfolding row_reply_def by (erule same_bind) simp

lemma same_refusal_reply: "same_run R r r' \<Longrightarrow> same_run R (refusal_reply r) (refusal_reply r')"
  by (cases "(R, r, r')" rule: same_run.cases) (auto simp: refusal_reply_def split: ask_exn.splits)

subsection \<open>The local vault\<close>

lemma seal_alike:
  assumes "list_all2 (\<lambda>(n, x, t) (n', x', t'). n = n' \<and> t = t' \<and> alike wr x x') xs xs'" and "vault_alike wr v v'"
    and "local_seal i xs a req now v = Inr ((), w)" and "local_seal i xs' a req' now v' = Inr ((), w')"
  shows "vault_alike wr w w'"
  using assms
proof (induction xs xs' arbitrary: v v' rule: list_all2_induct)
  case (Cons p xs q xs')
  obtain n x t x' where pq: "p = (n, x, t)" "q = (n, x', t)" "alike wr x x'" using Cons.hyps(1) by (cases p; cases q) auto
  let ?w = "v\<lparr>lv_sealed := aupd (i, n) \<lparr>se_value = x, se_target = t, se_set_at = now, se_set_by = a\<rparr> (lv_sealed v)\<rparr>"
  let ?w' = "v'\<lparr>lv_sealed := aupd (i, n) \<lparr>se_value = x', se_target = t, se_set_at = now, se_set_by = a\<rparr> (lv_sealed v')\<rparr>"
  have "vault_alike wr ?w ?w'" using Cons.prems(1) pq(3) by (simp add: vault_alike_def dict_rel_aupd sealed_alike_def)
  then show ?case by (rule Cons.IH) (use Cons.prems(2,3) pq in simp_all)
qed simp

lemma status_alike:
  assumes "vault_alike wr v v'"
  shows "local_status i v = local_status i v'"
proof -
  have "list_all2 (\<lambda>p q. fst p = fst q \<and> sealed_alike wr (snd p) (snd q)) xs ys \<Longrightarrow>
      map (\<lambda>((_, f), x). (f, se_target x)) (filter (\<lambda>((j, f), _). j = i \<and> FIELD_NAME_RE f) xs) =
      map (\<lambda>((_, f), x). (f, se_target x)) (filter (\<lambda>((j, f), _). j = i \<and> FIELD_NAME_RE f) ys)" for xs ys
    by (induction xs ys rule: list_all2_induct) (auto simp: sealed_alike_def)
  from this [of "lv_sealed v" "lv_sealed v'"] show ?thesis using assms by (simp add: local_status_def vault_alike_def dict_rel_def)
qed

lemma apply_alike:
  assumes "vault_alike wr v v'"
  shows "\<exists>e. local_apply wr i f t req v = Inl (e, v) \<and> local_apply wr i f t req' v' = Inl (e, v') \<or>
     (\<exists>w w'. local_apply wr i f t req v = Inr ((), w) \<and> local_apply wr i f t req' v' = Inr ((), w') \<and> vault_alike wr w w')"
proof (cases "map_of (lv_sealed v) (i, f)")
  case None
  then have "map_of (lv_sealed v') (i, f) = None" using assms dict_rel_map_of [of "sealed_alike wr" "lv_sealed v" "lv_sealed v'" "(i, f)"] by (auto simp: vault_alike_def)
  then show ?thesis using None by (simp add: local_apply_def)
next
  case (Some x)
  then obtain y where y: "map_of (lv_sealed v') (i, f) = Some y" "sealed_alike wr x y"
    using assms dict_rel_map_of [of "sealed_alike wr" "lv_sealed v" "lv_sealed v'" "(i, f)"] by (auto simp: vault_alike_def option_rel_Some1)
  have m: "value_matches t (se_value x) = value_matches t (se_value y)" "se_target x = se_target y"
    using y(2) by (auto simp: sealed_alike_def alike_def)
  show ?thesis
  proof (cases wr)
    case None
    then show ?thesis using Some y(1) m by (simp add: local_apply_def)
  next
    case (Some w)
    then have "map_option (\<lambda>e. writer_failure e (se_value x)) (w t (se_value x)) = map_option (\<lambda>e. writer_failure e (se_value y)) (w t (se_value y))"
      using y(2) by (auto simp: sealed_alike_def alike_def)
    moreover have "vault_alike wr (v\<lparr>lv_sealed := adel (i, f) (lv_sealed v), lv_written := lv_written v @ [(t, a)]\<rparr>)
        (v'\<lparr>lv_sealed := adel (i, f) (lv_sealed v'), lv_written := lv_written v' @ [(t, b)]\<rparr>)" for a b
      using assms by (simp add: vault_alike_def dict_rel_adel)
    ultimately show ?thesis using Some \<open>map_of (lv_sealed v) (i, f) = Some x\<close> y(1) m
      by (cases "w t (se_value x)"; cases "w t (se_value y)") (auto simp: local_apply_def)
  qed
qed

subsection \<open>Answers with other secrets\<close>

definition secret_ok :: "string \<Rightarrow> bool" where
  "secret_ok x = (x \<noteq> [] \<and> length x \<le> MAX_SECRET_CHARS \<and> no_controls False x)"

definition twin_value :: "(string \<Rightarrow> string \<Rightarrow> bool) \<Rightarrow> field_spec option \<Rightarrow> pyval \<Rightarrow> pyval \<Rightarrow> bool" where
  "twin_value A sp v v' = (v = v' \<or> (\<exists>x y f. v = PStr x \<and> v' = PStr y \<and> secret_ok x \<and> secret_ok y \<and> A x y \<and> sp = Some f \<and> fs_type f = Secret))"

definition twin_values :: "(string \<Rightarrow> string \<Rightarrow> bool) \<Rightarrow> ask_record \<Rightarrow> pydict \<Rightarrow> pydict \<Rightarrow> bool" where
  "twin_values A r d d' = list_all2 (\<lambda>p q. fst p = fst q \<and> twin_value A (field_named r (fst p)) (snd p) (snd q)) d d'"

lemma twin_values_refl [simp]: "twin_values A r d d"
  by (auto simp: twin_values_def twin_value_def intro: list_all2_refl)

fun same_checked :: "(string \<Rightarrow> string \<Rightarrow> bool) \<Rightarrow> (ask_exn, (string \<times> string) list \<times> (string \<times> string) list) result \<Rightarrow>
    (ask_exn, (string \<times> string) list \<times> (string \<times> string) list) result \<Rightarrow> bool" where
  "same_checked A (Inl x) (Inl x') = (x = x')"
| "same_checked A (Inr (bs, ss)) (Inr (bs', ss')) = (bs = bs' \<and> dict_rel A ss ss')"
| "same_checked A _ _ = False"

lemma same_checked_bind:
  assumes "same_checked A a b" and "\<And>bs ss ss'. dict_rel A ss ss' \<Longrightarrow> same_checked A (f (bs, ss)) (g (bs, ss'))"
  shows "same_checked A (rbind a f) (rbind b g)"
  using assms by (cases "(A, a, b)" rule: same_checked.cases) auto

lemma same_checked_same: "(\<And>a. same_checked A (f a) (g a)) \<Longrightarrow> same_checked A (rbind m f) (rbind m g)"
  by (cases m) simp_all

lemma check_values_twin:
  assumes "list_all2 (\<lambda>p q. fst p = fst q \<and> twin_value A (spec (fst p)) (snd p) (snd q)) d d'" and refl: "\<And>x. A x x"
  shows "same_checked A (check_values rp spec d) (check_values rp spec d')"
  using assms(1)
proof (induction d d' rule: list_all2_induct)
  case (Cons p d q d')
  obtain n v v' where pq: "p = (n, v)" "q = (n, v')" "twin_value A (spec n) v v'" using Cons.hyps(1) by (cases p; cases q) auto
  have body: "same_checked A (rbind (check_values rp spec d) (\<lambda>(bs, ss). Inr ((n, t) # bs, ss))) (rbind (check_values rp spec d') (\<lambda>(bs, ss). Inr ((n, t) # bs, ss)))" for t
    by (rule same_checked_bind [OF Cons.IH]) simp
  have secret: "same_checked A (rbind (check_values rp spec d) (\<lambda>(bs, ss). Inr (bs, (n, x) # ss))) (rbind (check_values rp spec d') (\<lambda>(bs, ss). Inr (bs, (n, y) # ss)))"
    if "A x y" for x y
    by (rule same_checked_bind [OF Cons.IH]) (use that in \<open>simp add: dict_rel_def\<close>)
  show ?case
  proof (cases "v = v'")
    case True
    then show ?thesis using Cons.IH pq by (auto intro!: same_checked_same body secret refl split: option.split)
  next
    case False
    then obtain x y f where x: "v = PStr x" "v' = PStr y" "secret_ok x" "secret_ok y" "A x y" "spec n = Some f" "fs_type f = Secret"
      using pq(3) by (auto simp: twin_value_def)
    then have "validate_secret rp n v = Inr x" "validate_secret rp n v' = Inr y" "v \<noteq> PStr []" "v' \<noteq> PStr []"
      by (simp_all add: validate_secret_def secret_ok_def)
    then show ?thesis using x pq(1,2) secret [OF x(5)] by simp
  qed
qed (simp add: dict_rel_def)

lemma dict_rel_keys: "dict_rel R xs ys \<Longrightarrow> map fst xs = map fst ys"
  unfolding dict_rel_def by (induction xs ys rule: list_all2_induct) auto

fun same_answer :: "(string \<Rightarrow> string \<Rightarrow> bool) \<Rightarrow> (ask_exn, (string \<times> string) list \<times> (string \<times> string) list \<times> (string \<times> string) list) result \<Rightarrow>
    (ask_exn, (string \<times> string) list \<times> (string \<times> string) list \<times> (string \<times> string) list) result \<Rightarrow> bool" where
  "same_answer A (Inl x) (Inl x') = (x = x')"
| "same_answer A (Inr (bs, ss, ts)) (Inr (bs', ss', ts')) = (bs = bs' \<and> dict_rel A ss ss' \<and> ts = ts')"
| "same_answer A _ _ = False"

lemma same_answer_refuse: "same_answer A (refuse c m) (refuse c m)"
  by (simp add: refuse_def)

lemma same_answer_same: "(\<And>a. same_answer A (f a) (g a)) \<Longrightarrow> same_answer A (rbind m f) (rbind m g)"
  by (cases m) simp_all

lemma check_answer_twin:
  assumes "twin_values A r d d'" and refl: "\<And>x. A x x"
  shows "same_answer A (check_answer env r d tg) (check_answer env r d' tg)"
proof -
  have k: "map fst d = map fst d'" using assms(1) unfolding twin_values_def by (induction d d' rule: list_all2_induct) auto
  note cv = check_values_twin [OF assms(1) [unfolded twin_values_def] refl, of "ak_repr env"]
  show ?thesis
  proof (cases "check_values (ak_repr env) (field_named r) d")
    case (Inl x)
    then have "check_values (ak_repr env) (field_named r) d' = Inl x" using cv by (cases "check_values (ak_repr env) (field_named r) d'") auto
    then show ?thesis using Inl k by (simp add: check_answer_def Let_def refuse_def)
  next
    case (Inr p)
    obtain bs ss where p: "p = (bs, ss)" by force
    obtain ss' where c: "check_values (ak_repr env) (field_named r) d' = Inr (bs, ss')" "dict_rel A ss ss'"
      using cv Inr p by (cases "check_values (ak_repr env) (field_named r) d'") auto
    have e: "map fst ss = map fst ss'" using c(2) by (rule dict_rel_keys)
    have n: "(ss = []) = (ss' = [])" using e by auto
    show ?thesis unfolding check_answer_def Let_def k Inr p c(1) rbind_Inr prod.case e n
      using c(2) by (auto intro!: same_answer_refuse same_answer_same split: option.split list.split)
  qed
qed

lemma put_answers_alike:
  assumes "dict_rel A ss ss'" and "\<And>x y. A x y \<Longrightarrow> length x = length y"
  shows "put_answers now a bs ss ts resp = put_answers now a bs ss' ts resp"
proof -
  have "foldl (\<lambda>d (n, x). aupd n (RSecret (new_meta now a (g n) x)) d) d0 ss = foldl (\<lambda>d (n, x). aupd n (RSecret (new_meta now a (g n) x)) d) d0 ss'" for d0 g
    using assms unfolding dict_rel_def
    by (induction ss ss' arbitrary: d0 rule: list_all2_induct) (auto simp: alike_def new_meta_def)
  then show ?thesis unfolding put_answers_def .
qed

text \<open>The answer of \<open>respond\<close> goes to the record that is stored, or to the one made from its row.\<close>

definition record_for :: "'v ask_env \<Rightarrow> tool_call \<Rightarrow> 'v ask_sys \<Rightarrow> (ask_exn, ask_record) result" where
  "record_for env c s = rbind (validate_ask_id (dget (tc_args c) ''id'')) (\<lambda>i.
     get_or_seed env i (if map_of (sy_asks s) i \<noteq> None then None else tc_seed c i) (tc_now c) s)"

text \<open>Two calls that differ in their signed request, and in the secrets they submit, at most.\<close>

definition twin_call :: "(string \<Rightarrow> string \<Rightarrow> bool) \<Rightarrow> 'v ask_env \<Rightarrow> 'v ask_sys \<Rightarrow> tool_call \<Rightarrow> tool_call \<Rightarrow> bool" where
  "twin_call A env s c c' =
     (c' = c\<lparr>tc_req := tc_req c'\<rparr> \<or>
      tc_tool c = ''respond_open_ask'' \<and> (\<exists>d d'. dget (tc_args c) ''fields'' = PDict d \<and>
        c' = c\<lparr>tc_args := aupd ''fields'' (PDict d') (tc_args c), tc_req := tc_req c'\<rparr> \<and>
        (\<forall>r. record_for env c s = Inr r \<longrightarrow> twin_values A r d d')))"

lemma same_answer_bind:
  assumes "sys_alike R s s'" and "same_answer A m m'"
    and "\<And>bs ss ss' ts. dict_rel A ss ss' \<Longrightarrow> same_run (sys_alike R) (f (bs, ss, ts) s) (f' (bs, ss', ts) s')"
  shows "same_run (sys_alike R) (sbind (slift m s) f) (sbind (slift m' s') f')"
  using assms by (cases "(A, m, m')" rule: same_answer.cases) auto

lemma has_key_dget: "dget d k = PDict e \<Longrightarrow> has_key d k"
  by (auto simp: dget_def has_key_def dest!: map_of_SomeD split: option.splits intro: rev_image_eqI)

lemma has_key_aupd: "has_key (aupd k v d) k"
  by (induction d) (auto simp: has_key_def)

lemma get_or_seed_alike: "sys_alike R s s' \<Longrightarrow> get_or_seed env i seed now s = get_or_seed env i seed now s'"
  by (simp add: get_or_seed_def sys_alike_def)

lemma raise_same: "sys_alike R s s' \<Longrightarrow> same_run (sys_alike R) (raise_tool env caller args seed now s) (raise_tool env caller args seed now s')"
  unfolding raise_tool_def raise_ask_def
  by (auto intro!: same_slift_bind same_put same_row_reply simp: sys_alike_def)

subsection \<open>Histories side by side\<close>

definition reply_of :: "('v, tool_reply) ask_result \<Rightarrow> ask_exn + tool_reply" where
  "reply_of r = map_sum fst fst r"

fun replies :: "'v ask_env \<Rightarrow> 'v ask_sys \<Rightarrow> tool_call list \<Rightarrow> (ask_exn + tool_reply) list" where
  "replies env s [] = []"
| "replies env s (c # cs) = reply_of (tool_run env s c) # replies env (tool_exec env s c) cs"

fun twins :: "(string \<Rightarrow> string \<Rightarrow> bool) \<Rightarrow> 'v ask_env \<Rightarrow> 'v ask_sys \<Rightarrow> tool_call list \<Rightarrow> tool_call list \<Rightarrow> bool" where
  "twins A env s [] [] = True"
| "twins A env s (c # cs) (c' # cs') = (twin_call A (call_env env c) s c c' \<and> twins A env (tool_exec env s c) cs cs')"
| "twins A env s _ _ = False"

lemma same_run_parts: "same_run R r r' \<Longrightarrow> reply_of r = reply_of r' \<and> R (left_in r) (left_in r')"
  by (cases "(R, r, r')" rule: same_run.cases) (auto simp: reply_of_def)

section \<open>Vaults that keep secrets to themselves\<close>

text \<open>
  What the store relies on: a vault whose answers are the same for related secrets, a failure to seal
  having the same text once the secrets are redacted from it.
\<close>

fun same_sealing :: "('v \<Rightarrow> 'v \<Rightarrow> bool) \<Rightarrow> (string \<times> string) list \<Rightarrow> (string \<times> string) list \<Rightarrow> (vault_exn, 'v, unit) stateful \<Rightarrow> (vault_exn, 'v, unit) stateful \<Rightarrow> bool" where
  "same_sealing R ss ss' (Inr (_, v)) (Inr (_, v')) = R v v'"
| "same_sealing R ss ss' (Inl (VaultApply m, v)) (Inl (VaultApply m', v')) = (seal_failure ss m = seal_failure ss' m' \<and> R v v')"
| "same_sealing R ss ss' (Inl (VaultOther ty m, v)) (Inl (VaultOther ty' m', v')) = (ty = ty' \<and> m = m' \<and> R v v')"
| "same_sealing R ss ss' _ _ = False"

locale blind_vault =
  fixes ops :: "'v vault" and R :: "'v \<Rightarrow> 'v \<Rightarrow> bool" and A :: "string \<Rightarrow> string \<Rightarrow> bool"
  assumes same_refl: "A x x"
    and same_length: "A x y \<Longrightarrow> length x = length y"
    and seal_law: "R v v' \<Longrightarrow> dict_rel A ss ss' \<Longrightarrow>
      same_sealing R ss ss' (va_seal ops i (with_targets ts ss) a req now v) (va_seal ops i (with_targets ts ss') a req' now v')"
    and clear_law: "R v v' \<Longrightarrow> same_run R (va_clear ops i f req v) (va_clear ops i f req' v')"
    and apply_law: "R v v' \<Longrightarrow> same_run R (va_apply ops i f t req v) (va_apply ops i f t req' v')"
    and status_law: "R v v' \<Longrightarrow> va_status ops i v = va_status ops i v'"
begin

lemma sealed_fields_alike:
  assumes "ak_vault env = ops" and "R v v'"
  shows "sealed_fields env i r v = sealed_fields env i r v'"
  using assms(1) status_law [OF assms(2), of i] by (simp add: sealed_fields_def)

lemma declare_same:
  assumes "ak_vault env = ops" and "sys_alike R s s'"
  shows "same_run (sys_alike R) (declare_tool env caller args seed now s) (declare_tool env caller args seed now s')"
proof -
  have "sealed_fields env i r (sy_vault s) = sealed_fields env i r (sy_vault s')" for i r
    using sealed_fields_alike [OF assms(1)] assms(2) by (simp add: sys_alike_def)
  then show ?thesis using assms(2) get_or_seed_alike [OF assms(2)] unfolding declare_tool_def declare_fields_def
    by (auto intro!: same_slift_bind same_put same_row_reply split: option.split)
qed

lemma clear_field_same:
  assumes "ak_vault env = ops" and "sys_alike R s s'"
  shows "same_run (sys_alike R) (clear_field env i f r a req now s) (clear_field env i f r a req' now s')"
proof -
  have "R (sy_vault s) (sy_vault s')" using assms(2) by (simp add: sys_alike_def)
  then have c: "same_run R (va_clear ops i f req (sy_vault s)) (va_clear ops i f req' (sy_vault s'))" by (rule clear_law)
  have a: "sys_alike R (s\<lparr>sy_vault := w\<rparr>) (s'\<lparr>sy_vault := w'\<rparr>)" if "R w w'" for w w' using assms(2) that by (simp add: sys_alike_def)
  show ?thesis
    using c assms(1) a by (cases "(R, va_clear ops i f req (sy_vault s), va_clear ops i f req' (sy_vault s'))" rule: same_run.cases)
      (auto simp: clear_field_def Let_def simp del: slift_refuse intro: same_put split: vault_exn.split)
qed

lemma clear_same:
  assumes "ak_vault env = ops" and "sys_alike R s s'"
  shows "same_run (sys_alike R) (clear_tool env args req now s) (clear_tool env args req' now s')"
  using assms(2) unfolding clear_tool_def clear_secret_def
  by (auto intro!: same_slift_bind same_row_reply clear_field_same [OF assms] simp: sys_alike_def split: option.split)

lemma apply_field_same:
  assumes "ak_vault env = ops" and "sys_alike R s s'"
  shows "same_run (sys_alike R) (apply_field env i f t r a req now s) (apply_field env i f t r a req' now s')"
proof -
  have v: "R (sy_vault s) (sy_vault s')" "sy_asks s = sy_asks s'" using assms(2) by (simp_all add: sys_alike_def)
  have c: "same_run R (va_apply ops i f t req (sy_vault s)) (va_apply ops i f t req' (sy_vault s'))" using v(1) by (rule apply_law)
  show ?thesis
    using c assms(1) v(2) by (cases "(R, va_apply ops i f t req (sy_vault s), va_apply ops i f t req' (sy_vault s'))" rule: same_run.cases)
      (auto simp: apply_field_def save_ask_def sys_alike_def Let_def simp del: slift_refuse split: option.split answer.split list.split)
qed

lemma apply_secret_same:
  assumes "ak_vault env = ops" and "sys_alike R s s'"
  shows "same_run (sys_alike R) (apply_secret env i field target caller req now s) (apply_secret env i field target caller req' now s')"
  using assms(2) unfolding apply_secret_def Let_def
  by (auto intro!: same_slift_bind apply_field_same [OF assms] simp: sys_alike_def simp del: slift_refuse split: option.split)

lemma apply_same:
  assumes "ak_vault env = ops" and "sys_alike R s s'"
  shows "same_run (sys_alike R) (apply_tool env caller args req now s) (apply_tool env caller args req' now s')"
  unfolding apply_tool_def
  by (rule same_slift_bind [where R = "sys_alike R", OF assms(2)], rule same_bind [OF apply_secret_same [OF assms]]) (simp split: prod.split)

lemma answer_same:
  assumes "ak_vault env = ops" and "sys_alike R s s'" and "dict_rel A ss ss'"
  shows "same_run (sys_alike R) (answer_ask env i a r bs ss ts req now s) (answer_ask env i a r bs ss' ts req' now s')"
proof -
  have e: "answered now a bs ss ts r = answered now a bs ss' ts r"
    unfolding answered_def using put_answers_alike [OF assms(3) same_length] dict_rel_keys [OF assms(3)] by simp
  have n: "(ss = []) = (ss' = [])" using dict_rel_keys [OF assms(3)] by auto
  have a: "sys_alike R (s\<lparr>sy_vault := w\<rparr>) (s'\<lparr>sy_vault := w'\<rparr>)" if "R w w'" for w w' using assms(2) that by (simp add: sys_alike_def)
  let ?l = "va_seal ops i (with_targets ts ss) a req now (sy_vault s)" and ?r = "va_seal ops i (with_targets ts ss') a req' now (sy_vault s')"
  have "same_sealing R ss ss' ?l ?r" using seal_law [OF _ assms(3)] assms(2) by (simp add: sys_alike_def)
  then have "same_run (sys_alike R) (seal_all env i ss ts a req now s) (seal_all env i ss' ts a req' now s')"
    using assms(1,2) n a by (cases "(R, ss, ss', ?l, ?r)" rule: same_sealing.cases) (auto simp: seal_all_def)
  then show ?thesis unfolding answer_ask_def e by (rule same_bind) (rule same_put)
qed

lemma respond_same:
  assumes "ak_vault env = ops" and "sys_alike R s s'"
    and "\<And>r d. values = PDict d \<Longrightarrow> validate_ask_id (PStr i) = Inr i \<Longrightarrow> get_or_seed env i seed now s = Inr r \<Longrightarrow> twin_values A r d d'"
    and "values' = (case values of PDict _ \<Rightarrow> PDict d' | _ \<Rightarrow> values)" and "py_strip i = i"
  shows "same_run (sys_alike R) (respond env i actor values seed tg req now s) (respond env i actor values' seed tg req' now s')"
proof (cases "\<exists>d. values = PDict d")
  case True
  then obtain d where d: "values = PDict d" by blast
  have v: "validate_ask_id (PStr i) = Inr j \<Longrightarrow> j = i" for j using assms(5) by (simp add: validate_ask_id_PStr)
  show ?thesis unfolding respond_def assms(4) d pyval.case
  proof (intro same_slift_bind assms(2))
    fix j act assume j: "validate_ask_id (PStr i) = Inr j" "validate_actor actor = Inr act"
    show "same_run (sys_alike R)
        (sbind (slift (get_or_seed env j seed now s) s) (\<lambda>r s. sbind (slift (check_answer env r d tg) s) (\<lambda>(bodies, secrets, targets) s. answer_ask env j act r bodies secrets targets req now s)))
        (sbind (slift (get_or_seed env j seed now s') s') (\<lambda>r s. sbind (slift (check_answer env r d' tg) s) (\<lambda>(bodies, secrets, targets) s. answer_ask env j act r bodies secrets targets req' now s)))"
      unfolding get_or_seed_alike [OF assms(2), symmetric]
    proof (rule same_slift_bind [where R = "sys_alike R", OF assms(2)], rule same_answer_bind [where R = R, OF assms(2)])
      fix r assume "get_or_seed env j seed now s = Inr r"
      then show "same_answer A (check_answer env r d tg) (check_answer env r d' tg)" using assms(3) [OF d] j(1) v [OF j(1)] by (blast intro: check_answer_twin same_refl)
    qed (simp add: answer_same [OF assms(1,2)])
  qed
next
  case False
  then have "values' = values" using assms(4) by (simp split: pyval.split)
  then show ?thesis using False assms(2) unfolding respond_def
    by (auto intro!: same_slift_bind split: pyval.split)
qed

lemma respond_tool_same:
  assumes "ak_vault env = ops" and "sys_alike R s s'"
    and "\<And>k. k \<noteq> ''fields'' \<Longrightarrow> dget args' k = dget args k" and "has_key args' ''fields'' = has_key args ''fields''"
    and "dget args' ''fields'' = (case dget args ''fields'' of PDict _ \<Rightarrow> PDict d' | _ \<Rightarrow> dget args ''fields'')"
    and "\<And>i r d. dget args ''fields'' = PDict d \<Longrightarrow> validate_ask_id (dget args ''id'') = Inr i \<Longrightarrow>
      get_or_seed env i (if map_of (sy_asks s) i \<noteq> None then None else seed i) now s = Inr r \<Longrightarrow> twin_values A r d d'"
  shows "same_run (sys_alike R) (respond_tool env args seed req now s) (respond_tool env args' seed req' now s')"
proof -
  have a: "dget args' ''id'' = dget args ''id''" "dget args' ''actor'' = dget args ''actor''" "dget args' ''secret_targets'' = dget args ''secret_targets''"
    using assms(3) by simp_all
  have asks: "sy_asks s' = sy_asks s" using assms(2) by (simp add: sys_alike_def)
  show ?thesis unfolding respond_tool_def a
  proof (rule same_slift_bind [where R = "sys_alike R", OF assms(2)], rule same_row_reply)
    fix i assume i: "validate_ask_id (dget args ''id'') = Inr i"
    then have strip: "py_strip i = i" by (auto dest!: validate_ask_idE)
    let ?seed = "if map_of (sy_asks s) i \<noteq> None then None else seed i"
    have "same_run (sys_alike R)
        (respond env i (dget args ''actor'') (if has_key args ''fields'' then dget args ''fields'' else PDict []) ?seed (dget args ''secret_targets'') req now s)
        (respond env i (dget args ''actor'') (if has_key args' ''fields'' then dget args' ''fields'' else PDict []) ?seed (dget args ''secret_targets'') req' now s')"
    proof (cases "has_key args ''fields''")
      case True
      have f: "(if has_key args ''fields'' then dget args ''fields'' else PDict []) = dget args ''fields''"
        "(if has_key args' ''fields'' then dget args' ''fields'' else PDict []) = (case dget args ''fields'' of PDict _ \<Rightarrow> PDict d' | _ \<Rightarrow> dget args ''fields'')"
        using True assms(4,5) by simp_all
      show ?thesis unfolding f by (rule respond_same [OF assms(1,2) _ refl strip]) (blast intro: assms(6) [OF _ i])
    next
      case False
      then show ?thesis using respond_same [OF assms(1,2), of "PDict []" i ?seed now "[]", OF _ _ strip] assms(4) by simp
    qed
    then show "same_run (sys_alike R)
        (respond env i (dget args ''actor'') (if has_key args ''fields'' then dget args ''fields'' else PDict []) ?seed (dget args ''secret_targets'') req now s)
        (respond env i (dget args ''actor'') (if has_key args' ''fields'' then dget args' ''fields'' else PDict [])
           (if map_of (sy_asks s') i \<noteq> None then None else seed i) (dget args ''secret_targets'') req' now s')" unfolding asks .
  qed
qed

lemma run_same_args:
  assumes "ak_vault env = ops" and "sys_alike R s s'"
  shows "same_run (sys_alike R) (run_ask_tool env tool caller args seed req now s) (run_ask_tool env tool caller args seed req' now s')"
proof -
  have "same_run (sys_alike R) (respond_tool env args seed req now s) (respond_tool env args seed req' now s')"
    by (rule respond_tool_same [OF assms, where d' = "case dget args ''fields'' of PDict d \<Rightarrow> d | _ \<Rightarrow> []"]) (simp_all split: pyval.split)
  then show ?thesis unfolding run_ask_tool_def
    using raise_same [OF assms(2)] declare_same [OF assms] clear_same [OF assms] apply_same [OF assms] assms(2)
    by (intro same_refusal_reply) simp
qed

lemma tool_run_same:
  assumes "ak_vault env = ops" and "sys_alike R s s'" and "twin_call A (call_env env c) s c c'"
  shows "same_run (sys_alike R) (tool_run env s c) (tool_run env s' c')"
proof -
  have v: "ak_vault (call_env env c) = ops" using assms(1) by (simp add: call_env_def)
  have r: "tool_run env s c = run_ask_tool (call_env env c) (tc_tool c) (tc_caller c) (tc_args c) (tc_seed c) (tc_req c) (tc_now c) s" for s c
    by (simp add: tool_run_def call_env_def)
  from assms(3) consider "c' = c\<lparr>tc_req := tc_req c'\<rparr>"
    | d d' where "tc_tool c = ''respond_open_ask''" "dget (tc_args c) ''fields'' = PDict d"
        "c' = c\<lparr>tc_args := aupd ''fields'' (PDict d') (tc_args c), tc_req := tc_req c'\<rparr>"
        "\<And>r. record_for (call_env env c) c s = Inr r \<Longrightarrow> twin_values A r d d'"
    unfolding twin_call_def by blast
  then show ?thesis
  proof cases
    case 1
    obtain q where "c' = c\<lparr>tc_req := q\<rparr>" using 1 by blast
    then show ?thesis using run_same_args [OF v assms(2)] by (simp add: r call_env_def)
  next
    case 2
    obtain q where q: "c' = c\<lparr>tc_args := aupd ''fields'' (PDict d') (tc_args c), tc_req := q\<rparr>" using 2(3) by blast
    have "same_run (sys_alike R) (respond_tool (call_env env c) (tc_args c) (tc_seed c) (tc_req c) (tc_now c) s)
        (respond_tool (call_env env c) (aupd ''fields'' (PDict d') (tc_args c)) (tc_seed c) q (tc_now c) s')"
    proof (rule respond_tool_same [OF v assms(2), where d' = d'])
      show "twin_values A r e d'" if "dget (tc_args c) ''fields'' = PDict e" "validate_ask_id (dget (tc_args c) ''id'') = Inr i"
        "get_or_seed (call_env env c) i (if map_of (sy_asks s) i \<noteq> None then None else tc_seed c i) (tc_now c) s = Inr r" for i r e
        using that 2(2,4) by (simp add: record_for_def)
    qed (use 2(2) in \<open>simp_all add: has_key_aupd has_key_dget\<close>)
    then show ?thesis using 2(1) q by (simp add: r run_ask_tool_simps call_env_def same_refusal_reply)
  qed
qed

lemma twins_run:
  assumes "ak_vault env = ops" and "twins A env s cs cs'" and "sys_alike R s s'"
  shows "replies env s cs = replies env s' cs' \<and> sys_alike R (run_ops (tool_exec env) s cs) (run_ops (tool_exec env) s' cs')"
  using assms(2,3)
proof (induction cs arbitrary: cs' s s')
  case Nil
  then show ?case by (cases cs') simp_all
next
  case (Cons c cs)
  then obtain c' ds where cs': "cs' = c' # ds" "twin_call A (call_env env c) s c c'" "twins A env (tool_exec env s c) cs ds" by (cases cs') auto
  from same_run_parts [OF tool_run_same [OF assms(1) Cons.prems(2) cs'(2)]] Cons.IH [OF cs'(3)]
  show ?case by (simp add: cs'(1) tool_exec_def)
qed

end

section \<open>The local vault keeps secrets to itself\<close>

lemma local_seal_law:
  assumes "vault_alike wr v v'" and "dict_rel (alike wr) ss ss'"
  shows "same_sealing (vault_alike wr) ss ss' (local_seal i (with_targets ts ss) a req now v) (local_seal i (with_targets ts ss') a req' now v')"
proof -
  obtain w w' where w: "local_seal i (with_targets ts ss) a req now v = Inr ((), w)" "local_seal i (with_targets ts ss') a req' now v' = Inr ((), w')"
    using local_seal_runs by metis
  have "list_all2 (\<lambda>(n, x, t) (n', x', t'). n = n' \<and> t = t' \<and> alike wr x x') (with_targets ts ss) (with_targets ts ss')"
    using assms(2) unfolding dict_rel_def with_targets_def list_all2_map1 list_all2_map2 by (rule list_all2_mono) auto
  then show ?thesis using seal_alike [OF _ assms(1) w] w by simp
qed

lemma local_clear_law:
  assumes "vault_alike wr v v'"
  shows "same_run (vault_alike wr) (local_clear i f req v) (local_clear i f req' v')"
  using assms dict_rel_map_of [of "sealed_alike wr" "lv_sealed v" "lv_sealed v'" "(i, f)"]
  by (auto simp: local_clear_def vault_alike_def dict_rel_adel option_rel_Some1 option_rel_Some2)

lemma local_apply_law:
  assumes "vault_alike wr v v'"
  shows "same_run (vault_alike wr) (local_apply wr i f t req v) (local_apply wr i f t req' v')"
  using apply_alike [OF assms, of i f t req req'] assms by auto

interpretation local_blind: blind_vault "local_vault_ops wr" "vault_alike wr" "alike wr"
  by unfold_locales (auto simp: local_vault_ops_def alike_def intro: local_seal_law local_clear_law local_apply_law status_alike)

text \<open>The history with one token and with another.\<close>

definition other_token :: string where
  "other_token = ''ghp_abcdefghij0123456789''"

definition token_tool :: "string \<Rightarrow> pydict \<Rightarrow> tool_call" where
  "token_tool tool d = \<lparr>tc_tool = tool, tc_caller = ''chat-agent'', tc_args = d, tc_seed = (\<lambda>_. None), tc_req = PNone, tc_now = ''1970-01-01'', tc_secrets_off = []\<rparr>"

definition token_history :: "string \<Rightarrow> tool_call list" where
  "token_history x = [token_tool ''raise_open_ask'' token_raise, token_tool ''respond_open_ask'' (aupd ''fields'' (PDict [(''token'', PStr x)]) token_respond),
     token_tool ''apply_ask_secret'' token_apply]"

lemma other_token_alike: "alike (Some (\<lambda>_ _. None)) demo_token other_token"
proof -
  have "length demo_token = length other_token" "token_value demo_token" "token_value other_token" by code_simp+
  then show ?thesis by (simp add: alike_def value_matches_def ASK_APPLY_TARGETS_def)
qed

lemma token_twins: "twins (alike (Some (\<lambda>_ _. None))) token_env empty_asks (token_history demo_token) (token_history other_token)"
proof -
  let ?answer = "\<lambda>x. token_tool ''respond_open_ask'' (aupd ''fields'' (PDict [(''token'', PStr x)]) token_respond)"
  let ?s = "tool_exec token_env empty_asks (token_tool ''raise_open_ask'' token_raise)"
  have "case record_for (call_env token_env (?answer demo_token)) (?answer demo_token) ?s of
      Inr r \<Rightarrow> (case field_named r ''token'' of Some sp \<Rightarrow> fs_type sp = Secret | None \<Rightarrow> False) | _ \<Rightarrow> False" by code_simp
  moreover have "secret_ok demo_token" "secret_ok other_token" by code_simp+
  ultimately have "twin_values (alike (Some (\<lambda>_ _. None))) r [(''token'', PStr demo_token)] [(''token'', PStr other_token)]"
    if "record_for (call_env token_env (?answer demo_token)) (?answer demo_token) ?s = Inr r" for r
    using that other_token_alike by (auto simp: twin_values_def twin_value_def split: option.splits)
  then have "twin_call (alike (Some (\<lambda>_ _. None))) (call_env token_env (?answer demo_token)) ?s (?answer demo_token) (?answer other_token)"
    unfolding twin_call_def by (intro disjI2) (auto simp: token_tool_def token_respond_def)
  then show ?thesis by (simp add: token_history_def twin_call_def)
qed

section \<open>Property\<close>



end
