(* ===== verification/Spec2Isabelle.thy ===== *)
theory Spec2Isabelle
  imports Effect_Lease File_Lease Queue_Reconcile Launched_Entries Contention Control_Bus Caller_Auth Human_Gate Ask_Blind
begin

text \<open>
  \<^bold>\<open>LongHorizon Harness: a verification of its control plane.\<close>

  The harness takes long-running coding tasks through a queue, launches each as a supervised
  run of a manager, an executor and an auditor, and lets operators and other services act on
  the runs. This development models the parts that decide what happens to a task and who may
  act: the Python modules under \<open>src/src/lh_harness\<close>.

  \<^bold>\<open>Parts and theories.\<close>

  \<^item> \<open>Harness_Prelude\<close>: results with exceptions, Python strings, JSON values, insertion-ordered
    dictionaries. \<open>Harness_Machine\<close>: the locales \<open>step_machine\<close>, \<open>fenced_machine\<close> and
    \<open>status_machine\<close>, through which every stateful component is used; each is interpreted on
    the components' own operations.

  \<^item> \<open>Effect_Lease\<close> (\<open>effect_lease.py\<close>, \<open>effect_lease_wire.py\<close>): the lease database, the gate that
    fences effects by epoch and replays receipts, and the HTTP adapter. Shown: an accepted
    effect belongs to the one holder of its epoch, what the gate accepts, replay, takeover and
    release, the database invariant and the adapter's refusals.

  \<^item> \<open>Queue_Request\<close> (validators and \<open>normalize_request\<close> of \<open>queue.py\<close>, role normalisation of
    \<open>supervisor/service.py\<close>): what a task request may hold. Shown: bounds of every accepted
    field, rejection of unknown fields, stamps that callers cannot forge.

  \<^item> \<open>Queue_Store\<close> (\<open>QueueStore\<close> of \<open>queue.py\<close>): the file-backed queue and its drain flag.
    \<open>queue_exec\<close> runs any of its operations; a history is a list of them, which covers every
    interleaving of processes because each operation replaces one file atomically. Shown: the
    invariant (one live entry per dedup key, bounded attempts), terminal entries stay terminal,
    an entry is launched once, idempotent creation, successors of failed entries, the listing
    and the drain flag. \<open>QueueStore.update\<close>, an unchecked write of a whole entry, is modelled
    (\<open>q_update\<close>) but is not a transition; the launcher uses it to undo a launch.

  \<^item> \<open>Queue_Config\<close> (\<open>queue_config_from_config\<close>): what the launcher is configured with; every
    configuration that loads is usable.

  \<^item> \<open>File_Lease\<close> (\<open>acquire_lease\<close> of \<open>queue.py\<close>): the launcher's lease file, one file access per
    step, so that processes interleave. Seven accesses are the longest path, which is the fuel
    of the uninterrupted call \<open>acquire_lease\<close>. Shown: exclusion between uninterrupted calls,
    termination under every schedule, and the schedule under which two processes both mint a
    lease.

  \<^item> \<open>Run_Lifecycle\<close> (\<open>supervisor/lifecycle.py\<close>, \<open>run_outcome.py\<close>): status spellings, how a run
    ended, and the memo of outcomes, which is shown to be invisible.

  \<^item> \<open>Queue_Reconcile\<close> (\<open>queue_reconcile.py\<close>): the sweep that settles launched entries whose run
    has ended. Shown: a dry run changes nothing, applying is exact, a second sweep finds
    nothing.

  \<^item> \<open>Mcp_Profiles\<close> (\<open>mcp_profiles.py\<close>): the tool profiles of the roles, their resolution by
    precedence, and the rendered configuration. Shown: what a role resolves to and that an
    auditor is read-only unless the caller allows otherwise.

  \<^item> \<open>Provider_Reset\<close> (\<open>launcher.py\<close>): the regular expressions that find a reset time in a
    provider's error text, as combinators that return the matches in the order Python tries
    them, and the calendar. Shown: a printed time reads back.

  \<^item> \<open>Launch_Policy\<close> and \<open>Launch_Pass\<close> (\<open>launcher.py\<close>): failure causes, waits, role specs,
    eligibility, the launching half of a pass with its skips, launches, rollbacks and retries,
    and the stall alarm. Shown: what eligible means, the ceilings a pass keeps, that a drained
    or observing launcher starts nothing, when a failed launch has a successor, and the waits.

  \<^item> \<open>Restart_Recovery\<close> (\<open>restart_recovery.py\<close>): the record of the service instance, the
    classification of a lost worker, the probes of its workspace and the one successor. Shown:
    what counts as interrupted, one successor and one second chance, nothing is guessed.

  \<^item> \<open>Launched_Entries\<close> (\<open>launcher.py\<close>): the other half of a pass, which compares launched
    entries with their runs, enforces time limits and starts the recovery; and the whole pass.
    Shown: every ended run settles its entry in the same pass, when a run is stopped for its
    limit, and that such a run is not queued again.

  \<^item> \<open>Contention\<close> (\<open>contention.py\<close>): groups of active runs that share a workspace. Shown:
    completeness and soundness of the report.

  \<^item> \<open>Control_Bus\<close> (\<open>supervisor/control_bus.py\<close>): commands, revisions and receipts. Shown:
    exact revisions, refusal of stale commands, the finality of the first receipt.

  \<^item> \<open>Caller_Auth\<close> (\<open>caller_auth.py\<close>, the caller table of \<open>config.py\<close>, the queue routes of
    \<open>webapi/server.py\<close>): who calls, what a caller may use, and the two routes that add and
    remove entries. Shown: what a loaded table holds, who a scoped route lets through, that a
    nonce works once in its window, what the routes let in and remove, and which input
    makes the check raise.

  \<^item> \<open>Role_Text\<close> (\<open>role_prompts.py\<close>): what is read out of a manager's plan: the route, the task state
    and contract, references, question and answers.

  \<^item> \<open>Audit_Report\<close> (\<open>auditor_agent.py\<close>, the hard signals of \<open>runtime_signals.py\<close>): how an auditor's
    text becomes a verdict. Shown: when a report reads as complete and clean, and that an audit
    that wrote the workspace is rejected.

  \<^item> \<open>Manager_Loop\<close> (\<open>manager.py\<close>): the rounds of a run, the gate at their end, the final reply and
    report, the record of a crash and the ledger a resumed worker reads. The agents' answers
    and the operator's decisions are functions of the state, so that a run may go on for ever;
    the loop is a partial function, and an unattended run is shown to return. Shown: a run is
    complete only on an auditor's word, the ledger gives back the rounds, instructions reach
    the next prompt, what going on grants, and that a repaired report is ignored.

  \<^item> \<open>Approvals\<close> (\<open>dashboard/state.py\<close>): the gates of a run as records of an append-only file and of
    each process's memory, the decisions and instructions on the control bus, and what the
    dashboard shows of them.

  \<^item> \<open>Gate_Board\<close>: the specification of the gates. A board maps a gate to open, accepted with a
    decision, or closed with it; its three steps raise, decide and close. The operations of any
    number of processes on the shared file, bus and their memories are shown to refine it, and with it
    that one decision per gate is accepted, that the accepted one is what a worker's poll returns,
    and that a saved approval reads back. Annotations are one step each; the lemma
    \<open>stale_annotation_reopens\<close> shows what happens when another process gets between their halves.

  \<^item> \<open>Human_Gate\<close> (\<open>dashboard/gate.py\<close>, \<open>dashboard/rules.py\<close>): which rounds ask the operator, and the
    hook that waits for the decision. Other processes act before each poll. Shown: exactly when
    a gate is raised, and that an accepted decision ends the wait and is what the manager's loop does.

  \<^item> \<open>Ask_Store\<close> (\<open>ask_store.py\<close>): what an ask and its answer may hold, the records with their history,
    the operations on them, and the vault that keeps secrets apart, an interface of four operations that
    \<open>LocalVault\<close> provides. Each operation runs under the lock of its ask and is one step.

  \<^item> \<open>Ask_Tools\<close> (\<open>_dispatch_ask_tool\<close> of \<open>mcp_tools.py\<close>): the five tools on that store behind signature,
    scope and argument checks, and each run of a tool as one of six steps (\<open>ask_effect\<close>).

  \<^item> \<open>Ask_History\<close>: histories of calls on a node with the local vault. Shown: what reaches a target was
    submitted for it and applied by authorised callers, a sealed secret stays in a field that
    declares its target, and every call is answered, an error leaving the store as it was unless a
    failed application reopens its ask.

  \<^item> \<open>Ask_Blind\<close>: what a vault has to keep to itself, as the locale \<open>blind_vault\<close>, and that over such
    a vault, which the local one is, two histories that differ only in secrets look the same from outside.

  This theory holds the property that spans the queue, the launcher's runs and the sweep.

  \<^bold>\<open>How the model reads the code.\<close> A raised exception is a value (\<open>Inl\<close> of the component's
  exception type); state is passed explicitly; a dictionary that order matters for is an
  association list. Clock readings and fresh identifiers are arguments. Python integers are
  \<open>int\<close>, floats exact rationals (rounded to binary64 where \<open>caller_auth.py\<close> compares a float with
  its whole part), strings lists of Latin-1 characters. Code the repository only
  calls (git, the process table, HTTP endpoints, SHA-256, \<open>repr\<close> of floats and containers) is
  an argument of the definitions that use it.

  \<^bold>\<open>Not modelled yet.\<close> The classification of agent failures (\<open>provider_errors.py\<close>), rewards and episode statistics
  (\<open>experience/reward.py\<close>), the vault helper of the ask store, which is a program run under another user,
  and the checks at start-up that enable it. Chinese prompts and reports, which the code also reads, are not in
  the character set of the model. The
  HTTP and MCP servers, the CLI, the adapters to model providers, fleet reporting, the
  database backends, plugins, evaluation scripts and the front end are input and output around
  these parts and are left out.
\<close>

section \<open>A run that has ended settles its queue entry\<close>

lemma sweep_settles_entry:
  assumes "safe_queue cfg s" and "q_lookup s k = Some e" and "q_status e = Launched"
    and "q_run_id e = Some r" and "r \<noteq> []" and "run_ended w r = Some l"
  shows "\<exists>rep s' e'. reconcile_sweep w clock s False = (rep, None, s') \<and> q_lookup s' k = Some e' \<and>
     q_run_id e' = Some r \<and> q_status e' = (if l \<in> {''completed'', ''complete''} then Done else Failed)"
proof -
  obtain z where z: "zombie_of w e = Some z" "z_target z = (if l \<in> {''completed'', ''complete''} then Done else Failed)"
    using assms(4-6) run_ended_target [OF assms(6)] by (auto simp: zombie_of_def)
  obtain rep s' where sweep: "reconcile_sweep w clock s False = (rep, None, s')"
    and look: "q_lookup s' k = (case find (\<lambda>z. z_queue_id z = k) (find_zombies w s) of
        None \<Rightarrow> q_lookup s k | Some z \<Rightarrow> map_option (resolved clock z) (q_lookup s k))"
    using sweep_apply [OF assms(1), of w clock] by blast
  have "q_lookup s' k = Some (resolved clock z e)"
    using look find_zombie_of [OF assms(1,2), of w] z(1) assms(2,3) by simp
  then show ?thesis using sweep z(2) assms(4) by (auto simp: resolved_def)
qed



end
